(* ===== verification/Prelude.thy ===== *)
theory Prelude
  imports Main "HOL-Library.AList" "HOL-Library.Char_ord" "HOL-Library.List_Lexorder"
    "HOL-Library.Sublist" "HOL-Library.Multiset" "HOL-Library.Code_Target_Nat"
begin

section \<open>Prelude: shared types, collections and generic lemmas\<close>

text \<open>
  What every component of the development uses: the names of the byte and text types, the
  \<open>named_theorems\<close> collections the component proofs pass to the simplifier, and generic
  facts on lists, association lists and options that HOL does not have in the form the
  components need.

  A Rust \<open>HashMap\<close> or \<open>DashMap\<close> is an association list with distinct keys, updated by
  \<^const>\<open>AList.update\<close> and \<^const>\<open>AList.delete\<close>; \<open>wf_alist\<close> is the representation
  invariant and the two operations keep it.
\<close>

named_theorems store_simps \<open>the operations of the key-value store on its abstract view\<close>
named_theorems wf_intros \<open>what every operation keeps of a well-formedness invariant\<close>
named_theorems wire_simps \<open>decoding what the encoders write\<close>

type_synonym bytes = "char list"

text \<open>A byte as a number; the bytes of the protocol buffers and of Rust strings are HOL
  characters, which are exactly the 256 values of a \<open>u8\<close>.\<close>

abbreviation byte_val :: "char \<Rightarrow> nat" where
  "byte_val c \<equiv> of_char c"

abbreviation CR :: char where
  "CR \<equiv> CHR 0x0D"

abbreviation LF :: char where
  "LF \<equiv> CHR 0x0A"

abbreviation CRLF :: bytes where
  "CRLF \<equiv> [CR, LF]"

lemma byte_val_less [simp]: "byte_val c < 256"
  by (cases c) (simp add: of_char_def)

subsection \<open>Association lists as maps\<close>

definition wf_alist :: "('k \<times> 'v) list \<Rightarrow> bool" where
  "wf_alist al \<longleftrightarrow> distinct (map fst al)"

lemma wf_alist_Nil [simp, intro]: "wf_alist []"
  by (simp add: wf_alist_def)

lemma wf_alist_update [simp, intro, wf_intros]: "wf_alist al \<Longrightarrow> wf_alist (AList.update k v al)"
  by (simp add: wf_alist_def distinct_update)

lemma wf_alist_delete [simp, intro, wf_intros]: "wf_alist al \<Longrightarrow> wf_alist (AList.delete k al)"
  by (simp add: wf_alist_def distinct_delete)

lemma wf_alist_filter [simp, intro, wf_intros]: "wf_alist al \<Longrightarrow> wf_alist (filter P al)"
  by (auto simp: wf_alist_def intro: distinct_map_filter)

lemma alist_update_map_of [simp]: "map_of (AList.update k v al) = (map_of al)(k \<mapsto> v)"
  by (rule update_conv')

lemma alist_delete_map_of [simp]: "map_of (AList.delete k al) = (map_of al)(k := None)"
  by (rule delete_conv')

lemma alist_delete_absent: "map_of al k = None \<Longrightarrow> AList.delete k al = al"
  by (simp add: map_of_eq_None_iff AList.delete_eq filter_id_conv) force

lemma map_of_filter_distinct:
  "wf_alist al \<Longrightarrow>
     map_of (filter P al) k = (case map_of al k of None \<Rightarrow> None | Some v \<Rightarrow> if P (k, v) then Some v else None)"
proof (induction al)
  case Nil
  then show ?case by simp
next
  case (Cons p al)
  obtain k' v' where p: "p = (k', v')" by (cases p)
  from Cons.prems have wf: "wf_alist al" and fresh: "map_of al k' = None"
    by (auto simp: wf_alist_def p map_of_eq_None_iff)
  show ?case
    using Cons.IH [OF wf] fresh by (auto simp: p split: option.splits)
qed

lemma map_of_in_set: "map_of al k = Some v \<Longrightarrow> (k, v) \<in> set al"
  by (rule map_of_SomeD)

lemma set_alist_update: "set (AList.update k v al) \<subseteq> insert (k, v) (set al)"
  by (induction al) auto

lemma set_alist_delete: "set (AList.delete k al) \<subseteq> set al"
  by (auto simp: AList.delete_eq)

subsection \<open>Lists\<close>

lemma take_drop_append_exact:
  "length xs = n \<Longrightarrow> take n (xs @ ys) = xs" "length xs = n \<Longrightarrow> drop n (xs @ ys) = ys"
  by auto

lemma nth_append_head [simp]: "(x # xs @ ys) ! 0 = x"
  by simp

subsection \<open>The question mark operator\<close>

text \<open>\<open>e?\<close> of a fallible expression: go on with the value, or return the error.\<close>

fun and_then :: "'e + 'a \<Rightarrow> ('a \<Rightarrow> 'e + 'b) \<Rightarrow> 'e + 'b" where
  "and_then (Inl e) f = Inl e"
| "and_then (Inr x) f = f x"

fun map_err :: "('e \<Rightarrow> 'f) \<Rightarrow> 'e + 'a \<Rightarrow> 'f + 'a" where
  "map_err h (Inl e) = Inl (h e)"
| "map_err h (Inr x) = Inr x"

fun map_ok :: "('a \<Rightarrow> 'b) \<Rightarrow> 'e + 'a \<Rightarrow> 'e + 'b" where
  "map_ok h (Inl e) = Inl e"
| "map_ok h (Inr x) = Inr (h x)"

lemma and_then_Inr_iff: "and_then m f = Inr y \<longleftrightarrow> (\<exists>x. m = Inr x \<and> f x = Inr y)"
  by (cases m) auto

lemma map_err_Inr_iff [simp]: "map_err h m = Inr x \<longleftrightarrow> m = Inr x"
  by (cases m) auto

text \<open>\<open>Result<Vec<_>, _>::from_iter\<close>: all the values, or the first error.\<close>

fun collect_ok :: "('e + 'a) list \<Rightarrow> 'e + 'a list" where
  "collect_ok [] = Inr []"
| "collect_ok (Inl e # rs) = Inl e"
| "collect_ok (Inr x # rs) = map_ok (Cons x) (collect_ok rs)"

lemma collect_ok_map_Inr [simp]: "collect_ok (map (\<lambda>x. Inr (f x)) xs) = Inr (map f xs)"
  by (induction xs) simp_all

subsection \<open>Sequences of fallible operations\<close>

text \<open>A sequence of operations, each of which may be rejected and then leaves the state as it was.\<close>

fun apply_all :: "('s \<Rightarrow> 'c \<Rightarrow> 'e + 's) \<Rightarrow> 'c list \<Rightarrow> 's \<Rightarrow> 's" where
  "apply_all step [] s = s"
| "apply_all step (c # cs) s = apply_all step cs (case step s c of Inl _ \<Rightarrow> s | Inr s' \<Rightarrow> s')"

lemma apply_all_inv:
  assumes "\<And>s c s'. I s \<Longrightarrow> step s c = Inr s' \<Longrightarrow> I s'" and "I s"
  shows "I (apply_all step cs s)"
  using assms(2)
proof (induction cs arbitrary: s)
  case (Cons c cs)
  then show ?case using assms(1) by (cases "step s c") auto
qed simp

end
