(* ===== verification/Rust_Std.thy ===== *)
theory Rust_Std
  imports Prelude
begin

section \<open>The parts of the Rust standard library the sources use\<close>

text \<open>
  Executable definitions of the library functions that the modelled code calls: the UTF-8
  check of \<open>str::from_utf8\<close>, the replacement of \<open>String::from_utf8_lossy\<close>,
  \<open>str::parse::<i64>\<close> and \<open>::<usize>\<close>, \<open>i64::to_string\<close>, \<open>str::to_uppercase\<close>,
  \<open>str::split_whitespace\<close>, the wrap-around of \<open>i64\<close> arithmetic in the release profile
  (the workspace does not switch \<open>overflow-checks\<close> on) and the check of
  \<open>Instant + Duration\<close>. A Rust \<open>String\<close> is its UTF-8 byte sequence, so \<open>length\<close> is
  \<open>String::len\<close>.
\<close>

subsection \<open>UTF-8\<close>

definition is_cont :: "char \<Rightarrow> bool" where
  "is_cont c \<longleftrightarrow> 128 \<le> byte_val c \<and> byte_val c \<le> 191"

text \<open>The second byte a three or four byte sequence with lead byte \<open>b\<close> may have.\<close>

definition second_ok :: "nat \<Rightarrow> nat \<Rightarrow> bool" where
  "second_ok b c =
     (if b = 224 then 160 \<le> c \<and> c \<le> 191
      else if b = 237 then 128 \<le> c \<and> c \<le> 159
      else if b = 240 then 144 \<le> c \<and> c \<le> 191
      else if b = 244 then 128 \<le> c \<and> c \<le> 143
      else 128 \<le> c \<and> c \<le> 191)"

text \<open>The width of the sequence a lead byte announces; 0 for a byte that cannot lead.\<close>

definition utf8_width :: "nat \<Rightarrow> nat" where
  "utf8_width b =
     (if b < 128 then 1
      else if 194 \<le> b \<and> b \<le> 223 then 2
      else if 224 \<le> b \<and> b \<le> 239 then 3
      else if 240 \<le> b \<and> b \<le> 244 then 4
      else 0)"

text \<open>The length of the well-formed character at the head of the bytes, 0 if there is none.\<close>

fun utf8_head :: "bytes \<Rightarrow> nat" where
  "utf8_head [] = 0"
| "utf8_head (b # bs) =
     (let w = utf8_width (byte_val b) in
      if w = 1 then 1
      else if w = 2 then (case bs of c # _ \<Rightarrow> if is_cont c then 2 else 0 | _ \<Rightarrow> 0)
      else if w = 3 then
        (case bs of c # d # _ \<Rightarrow>
           if second_ok (byte_val b) (byte_val c) \<and> is_cont d then 3 else 0 | _ \<Rightarrow> 0)
      else if w = 4 then
        (case bs of c # d # e # _ \<Rightarrow>
           if second_ok (byte_val b) (byte_val c) \<and> is_cont d \<and> is_cont e then 4 else 0 | _ \<Rightarrow> 0)
      else 0)"

function valid_utf8 :: "bytes \<Rightarrow> bool" where
  "valid_utf8 s =
     (if s = [] then True
      else if utf8_head s = 0 then False
      else valid_utf8 (drop (utf8_head s) s))"
  by pat_completeness auto
termination
  by (relation "measure length") auto

declare valid_utf8.simps [simp del]

text \<open>\<open>std::str::from_utf8(b).ok()\<close>: the bytes themselves when they are well formed.\<close>

definition from_utf8 :: "bytes \<Rightarrow> string option" where
  "from_utf8 b = (if valid_utf8 b then Some b else None)"

text \<open>
  \<open>String::from_utf8_lossy\<close> replaces every maximal prefix of a character that is cut short or
  ill formed by U+FFFD; \<open>utf8_bad\<close> is the number of bytes of that prefix.
\<close>

definition utf8_bad :: "bytes \<Rightarrow> nat" where
  "utf8_bad s =
     (case s of
        [] \<Rightarrow> 0
      | b # bs \<Rightarrow>
          (let w = utf8_width (byte_val b) in
           if w \<le> 2 then 1
           else (case bs of
               [] \<Rightarrow> 1
             | c # cs \<Rightarrow>
                 if \<not> second_ok (byte_val b) (byte_val c) then 1
                 else if w = 3 then 2
                 else (case cs of d # _ \<Rightarrow> if is_cont d then 3 else 2 | [] \<Rightarrow> 2))))"

definition replacement_char :: bytes where
  "replacement_char = [CHR 0xEF, CHR 0xBF, CHR 0xBD]"

function from_utf8_lossy :: "bytes \<Rightarrow> string" where
  "from_utf8_lossy s =
     (if s = [] then []
      else if utf8_head s = 0 then replacement_char @ from_utf8_lossy (drop (max 1 (utf8_bad s)) s)
      else take (utf8_head s) s @ from_utf8_lossy (drop (utf8_head s) s))"
  by pat_completeness auto
termination
  by (relation "measure length") auto

declare from_utf8_lossy.simps [simp del]

definition is_ascii :: "string \<Rightarrow> bool" where
  "is_ascii s \<longleftrightarrow> (\<forall>c \<in> set s. byte_val c < 128)"

subsection \<open>Case and white space\<close>

definition ascii_upper :: "char \<Rightarrow> char" where
  "ascii_upper c = (if 97 \<le> byte_val c \<and> byte_val c \<le> 122 then char_of (byte_val c - 32) else c)"

definition ascii_lower :: "char \<Rightarrow> char" where
  "ascii_lower c = (if 65 \<le> byte_val c \<and> byte_val c \<le> 90 then char_of (byte_val c + 32) else c)"

text \<open>
  \<open>str::to_uppercase\<close> and \<open>str::to_lowercase\<close>: on an ASCII string the ASCII mapping; for
  other strings the Unicode tables of the library, which are the argument \<open>uni\<close>.
\<close>

definition to_uppercase :: "(string \<Rightarrow> string) \<Rightarrow> string \<Rightarrow> string" where
  "to_uppercase uni s = (if is_ascii s then map ascii_upper s else uni s)"

definition to_lowercase :: "(string \<Rightarrow> string) \<Rightarrow> string \<Rightarrow> string" where
  "to_lowercase uni s = (if is_ascii s then map ascii_lower s else uni s)"

text \<open>The number of bytes of the Unicode white space character at the head, 0 if none.\<close>

definition ws_head :: "string \<Rightarrow> nat" where
  "ws_head s =
     (case map byte_val (take 3 s) of
        [] \<Rightarrow> 0
      | b # bs \<Rightarrow>
          if 9 \<le> b \<and> b \<le> 13 \<or> b = 32 then 1
          else (case bs of
              [] \<Rightarrow> 0
            | c # cs \<Rightarrow>
                if b = 194 \<and> (c = 133 \<or> c = 160) then 2
                else (case cs of
                    [] \<Rightarrow> 0
                  | d # _ \<Rightarrow>
                      if b = 225 \<and> c = 154 \<and> d = 128 then 3
                      else if b = 226 \<and> c = 128 \<and> (128 \<le> d \<and> d \<le> 138 \<or> d = 168 \<or> d = 169 \<or> d = 175) then 3
                      else if b = 226 \<and> c = 129 \<and> d = 159 then 3
                      else if b = 227 \<and> c = 128 \<and> d = 128 then 3
                      else 0)))"

text \<open>\<open>split_ws cur s\<close>: the words of \<open>s\<close>, \<open>cur\<close> being the reversed word under way.\<close>

function split_ws :: "string \<Rightarrow> string \<Rightarrow> string list" where
  "split_ws cur s =
     (case s of
        [] \<Rightarrow> (if cur = [] then [] else [rev cur])
      | c # cs \<Rightarrow>
          (if ws_head s > 0
           then (if cur = [] then [] else [rev cur]) @ split_ws [] (drop (ws_head s) s)
           else split_ws (c # cur) cs))"
  by pat_completeness auto
termination
  by (relation "measure (\<lambda>(cur, s). length s)") auto

declare split_ws.simps [simp del]

definition split_whitespace :: "string \<Rightarrow> string list" where
  "split_whitespace s = split_ws [] s"

subsection \<open>Integers and their decimal text\<close>

definition i64_min :: int where "i64_min = - (2 ^ 63)"
definition i64_max :: int where "i64_max = 2 ^ 63 - 1"

definition in_i64 :: "int \<Rightarrow> bool" where
  "in_i64 n \<longleftrightarrow> i64_min \<le> n \<and> n \<le> i64_max"

text \<open>Two's complement wrap-around, what \<open>+\<close> and unary \<open>-\<close> do on \<open>i64\<close> in a release build.\<close>

definition wrap_i64 :: "int \<Rightarrow> int" where
  "wrap_i64 n = (n + 2 ^ 63) mod 2 ^ 64 - 2 ^ 63"

text \<open>\<open>n as usize\<close> for an \<open>i64\<close>.\<close>

definition i64_as_usize :: "int \<Rightarrow> nat" where
  "i64_as_usize n = nat (n mod 2 ^ 64)"

definition digit_char :: "nat \<Rightarrow> char" where
  "digit_char d = char_of (48 + d)"

definition digit_val :: "char \<Rightarrow> nat option" where
  "digit_val c = (if 48 \<le> byte_val c \<and> byte_val c \<le> 57 then Some (byte_val c - 48) else None)"

fun show_nat :: "nat \<Rightarrow> string" where
  "show_nat n = (if n < 10 then [digit_char n] else show_nat (n div 10) @ [digit_char (n mod 10)])"

declare show_nat.simps [simp del]

definition show_int :: "int \<Rightarrow> string" where
  "show_int n = (if n < 0 then CHR ''-'' # show_nat (nat (- n)) else show_nat (nat n))"

text \<open>The message of the \<open>Utf8Error\<close> of ill-formed bytes; \<open>i\<close> is the index of the head.\<close>

function utf8_error_at :: "nat \<Rightarrow> bytes \<Rightarrow> string" where
  "utf8_error_at i s =
     (if utf8_head s = 0 then
        if 2 \<le> utf8_width (byte_val (hd s)) \<and> utf8_bad s = length s
        then ''incomplete utf-8 byte sequence from index '' @ show_nat i
        else ''invalid utf-8 sequence of '' @ show_nat (utf8_bad s) @ '' bytes from index '' @ show_nat i
      else utf8_error_at (i + utf8_head s) (drop (utf8_head s) s))"
  by pat_completeness auto
termination
  by (relation "measure (\<lambda>(i, s). length s)") (auto simp: neq_Nil_conv gr0_conv_Suc elim: utf8_head.elims)

declare utf8_error_at.simps [simp del]

definition utf8_error_msg :: "bytes \<Rightarrow> string" where
  "utf8_error_msg b = utf8_error_at 0 b"

text \<open>A name between single quotes in a formatted message.\<close>

definition quoted :: "string \<Rightarrow> string" where
  "quoted s = [CHR 0x27] @ s @ [CHR 0x27]"

fun parse_digits :: "nat \<Rightarrow> string \<Rightarrow> nat option" where
  "parse_digits acc [] = Some acc"
| "parse_digits acc (c # cs) =
     (case digit_val c of None \<Rightarrow> None | Some d \<Rightarrow> parse_digits (10 * acc + d) cs)"

definition parse_nat :: "string \<Rightarrow> nat option" where
  "parse_nat s = (if s = [] then None else parse_digits 0 s)"

definition check_i64 :: "int \<Rightarrow> int option" where
  "check_i64 n = (if in_i64 n then Some n else None)"

definition parse_i64 :: "string \<Rightarrow> int option" where
  "parse_i64 s =
     (case s of
        [] \<Rightarrow> None
      | c # cs \<Rightarrow>
          if c = CHR ''-'' then Option.bind (parse_nat cs) (\<lambda>n. check_i64 (- int n))
          else if c = CHR ''+'' then Option.bind (parse_nat cs) (\<lambda>n. check_i64 (int n))
          else Option.bind (parse_nat s) (\<lambda>n. check_i64 (int n)))"

definition parse_usize :: "string \<Rightarrow> nat option" where
  "parse_usize s =
     Option.bind (parse_nat (case s of c # cs \<Rightarrow> if c = CHR ''+'' then cs else s | [] \<Rightarrow> []))
       (\<lambda>n. if n < 2 ^ 64 then Some n else None)"

subsection \<open>The monotonic clock\<close>

text \<open>
  An \<open>Instant\<close> is a number of nanoseconds; its seconds part is an \<open>i64\<close>, and
  \<open>Instant + Duration\<close> panics when the sum does not fit. A clock is the sequence of the
  readings of \<open>Instant::now()\<close> during a call; \<open>later n clk\<close> is what is left after \<open>n\<close> of
  them.
\<close>

type_synonym instant = nat
type_synonym clock = "nat \<Rightarrow> instant"

definition nanos_per_sec :: nat where
  "nanos_per_sec = 1000000000"

definition instant_limit :: nat where
  "instant_limit = 2 ^ 63 * nanos_per_sec"

definition instant_add :: "instant \<Rightarrow> nat \<Rightarrow> instant option" where
  "instant_add t d = (if t + d < instant_limit then Some (t + d) else None)"

definition later :: "nat \<Rightarrow> clock \<Rightarrow> clock" where
  "later n clk = (\<lambda>i. clk (n + i))"

subsection \<open>Lemmas: UTF-8\<close>

lemma valid_utf8_Nil [simp]: "valid_utf8 []"
  by (simp add: valid_utf8.simps)

lemma valid_utf8_step:
  "s \<noteq> [] \<Longrightarrow> valid_utf8 s \<longleftrightarrow> 0 < utf8_head s \<and> valid_utf8 (drop (utf8_head s) s)"
  by (subst valid_utf8.simps) simp

lemma utf8_head_le: "utf8_head s \<le> length s"
  by (cases s rule: utf8_head.cases) (auto simp: Let_def split: list.splits)

lemma utf8_head_append: "0 < utf8_head s \<Longrightarrow> utf8_head (s @ t) = utf8_head s"
proof (cases s)
  case (Cons b bs)
  assume h: "0 < utf8_head s"
  consider "utf8_width (byte_val b) = 1" | "utf8_width (byte_val b) = 2" | "utf8_width (byte_val b) = 3" | "utf8_width (byte_val b) = 4"
    using h Cons by (auto simp: Let_def split: if_splits)
  then show ?thesis
    using h Cons by cases (auto simp: Let_def split: list.splits)
qed simp

lemma utf8_head_take: "0 < utf8_head s \<Longrightarrow> utf8_head (take (utf8_head s) s) = utf8_head s"
  by (cases s rule: utf8_head.cases)
     (auto simp: Let_def numeral_2_eq_2 numeral_3_eq_3 numeral_eq_Suc split: list.splits if_splits)

lemma valid_utf8_append [intro]:
  "valid_utf8 s \<Longrightarrow> valid_utf8 t \<Longrightarrow> valid_utf8 (s @ t)"
proof (induction s rule: valid_utf8.induct)
  case (1 s)
  show ?case
  proof (cases "s = []")
    case True
    with "1.prems" show ?thesis by simp
  next
    case False
    with "1.prems" have pos: "0 < utf8_head s" and rest: "valid_utf8 (drop (utf8_head s) s)"
      by (simp_all add: valid_utf8_step)
    have "valid_utf8 (drop (utf8_head s) s @ t)"
      using "1.IH" False pos rest "1.prems"(2) by simp
    then show ?thesis
      using False pos utf8_head_le [of s] by (simp add: valid_utf8_step utf8_head_append)
  qed
qed

lemma is_ascii_simps [simp]:
  "is_ascii []" "is_ascii (c # s) \<longleftrightarrow> byte_val c < 128 \<and> is_ascii s"
  "is_ascii (s @ t) \<longleftrightarrow> is_ascii s \<and> is_ascii t"
  by (auto simp: is_ascii_def)

lemma valid_utf8_ascii [intro]: "is_ascii s \<Longrightarrow> valid_utf8 s"
proof (induction s)
  case Nil
  then show ?case by simp
next
  case (Cons c s)
  then have "utf8_head (c # s) = 1" by (simp add: utf8_width_def Let_def)
  with Cons show ?case by (simp add: valid_utf8_step)
qed

lemma from_utf8_valid [simp]: "valid_utf8 b \<Longrightarrow> from_utf8 b = Some b"
  by (simp add: from_utf8_def)

lemma from_utf8_SomeD: "from_utf8 b = Some s \<Longrightarrow> valid_utf8 s \<and> s = b"
  by (simp add: from_utf8_def split: if_splits)

lemma from_utf8_lossy_id: "valid_utf8 s \<Longrightarrow> from_utf8_lossy s = s"
proof (induction s rule: from_utf8_lossy.induct)
  case (1 s)
  then show ?case
    by (cases "s = []")
       (auto simp: from_utf8_lossy.simps [of s] from_utf8_lossy.simps [of "[]"] valid_utf8_step)
qed

lemma valid_from_utf8_lossy: "valid_utf8 (from_utf8_lossy s)"
proof (induction s rule: from_utf8_lossy.induct)
  case (1 s)
  consider "s = []" | "s \<noteq> []" "utf8_head s = 0" | "s \<noteq> []" "0 < utf8_head s" by blast
  then show ?case
  proof cases
    case 1
    then show ?thesis by (simp add: from_utf8_lossy.simps)
  next
    case 2
    have "valid_utf8 replacement_char" by (code_simp)
    with 2 "1.IH"(1) show ?thesis
      by (subst from_utf8_lossy.simps) auto
  next
    case 3
    let ?h = "take (utf8_head s) s"
    have "valid_utf8 ?h"
      using 3 utf8_head_le [of s] by (simp add: valid_utf8_step utf8_head_take)
    with 3 "1.IH"(2) show ?thesis
      by (subst from_utf8_lossy.simps) auto
  qed
qed

subsection \<open>Lemmas: integers\<close>

lemma in_i64_wrap [simp, intro]: "in_i64 (wrap_i64 n)"
  using pos_mod_bound [of "2 ^ 64" "n + 2 ^ 63"] pos_mod_sign [of "2 ^ 64" "n + 2 ^ 63"]
  by (simp add: in_i64_def wrap_i64_def i64_min_def i64_max_def)

lemma wrap_i64_id [simp]: "in_i64 n \<Longrightarrow> wrap_i64 n = n"
  by (simp add: in_i64_def wrap_i64_def i64_min_def i64_max_def)

lemma digit_val_char [simp]: "d < 10 \<Longrightarrow> digit_val (digit_char d) = Some d"
  by (simp add: digit_val_def digit_char_def)

lemma parse_digits_append:
  "parse_digits acc (s @ t) = Option.bind (parse_digits acc s) (\<lambda>a. parse_digits a t)"
  by (induction s arbitrary: acc) (auto split: option.splits)

lemma parse_digits_show_nat: "parse_digits 0 (show_nat n) = Some n"
proof (induction n rule: show_nat.induct)
  case (1 n)
  show ?case
  proof (cases "n < 10")
    case True
    then show ?thesis by (simp add: show_nat.simps [of n])
  next
    case False
    with "1.IH" have "parse_digits 0 (show_nat (n div 10)) = Some (n div 10)" by simp
    with False show ?thesis by (simp add: show_nat.simps [of n] parse_digits_append)
  qed
qed

lemma show_nat_nonempty [simp]: "show_nat n \<noteq> []"
  by (subst show_nat.simps) simp

lemma parse_nat_show_nat [simp]: "parse_nat (show_nat n) = Some n"
  by (simp add: parse_nat_def parse_digits_show_nat)

definition digits :: "char set" where
  "digits = {c. 48 \<le> byte_val c \<and> byte_val c \<le> 57}"

lemma digit_char_digits: "d < 10 \<Longrightarrow> digit_char d \<in> digits"
  by (simp add: digits_def digit_char_def)

lemma set_show_nat: "set (show_nat n) \<subseteq> digits"
proof (induction n rule: show_nat.induct)
  case (1 n)
  then show ?case
    by (subst show_nat.simps) (auto simp: digit_char_digits)
qed

lemma show_nat_Cons_digit: "show_nat n = c # cs \<Longrightarrow> c \<in> digits"
  using set_show_nat [of n] by auto

lemma parse_i64_show_int [simp]:
  assumes "in_i64 n"
  shows "parse_i64 (show_int n) = Some n"
proof (cases "n < 0")
  case True
  with assms show ?thesis by (simp add: show_int_def parse_i64_def check_i64_def)
next
  case False
  obtain c cs where c: "show_nat (nat n) = c # cs" by (cases "show_nat (nat n)") auto
  then have "c \<in> digits" by (rule show_nat_Cons_digit)
  then have "c \<noteq> CHR ''-''" "c \<noteq> CHR ''+''" by (auto simp: digits_def)
  with False assms c parse_nat_show_nat [of "nat n"] show ?thesis
    by (simp add: show_int_def parse_i64_def check_i64_def)
qed

lemma set_show_int: "set (show_int n) \<subseteq> insert (CHR ''-'') digits"
  using set_show_nat by (auto simp: show_int_def)

lemma show_int_ascii [simp]: "is_ascii (show_int n)"
  using set_show_int [of n] by (force simp: is_ascii_def digits_def)

lemma show_int_no_CR [simp]: "CR \<notin> set (show_int n)"
  using set_show_int [of n] by (auto simp: digits_def)

lemma parse_i64_in_i64: "parse_i64 s = Some n \<Longrightarrow> in_i64 n"
  by (auto simp: parse_i64_def check_i64_def split: list.splits if_splits option.splits
      elim!: bind_eq_Some_conv [THEN iffD1, elim_format])

lemma later_0 [simp]: "later 0 clk = clk"
  by (simp add: later_def)

lemma later_apply [simp]: "later n clk i = clk (n + i)"
  by (simp add: later_def)

lemma mono_later [simp, intro]: "mono clk \<Longrightarrow> mono (later n clk)"
  by (simp add: later_def mono_def)

end
