(* ===== verification/Resp.thy ===== *)
theory Resp
  imports Rust_Std
begin

section \<open>The RESP codec (crates/redis-protocol/src/resp.rs)\<close>

text \<open>
  The values of the Redis serialization protocol, the incremental parser \<open>RespParser\<close> and the
  encoder \<open>RespEncoder\<close>. The parser works on the connection's \<open>BytesMut\<close>: a call takes the
  buffer and returns its result together with the buffer after every \<open>advance\<close> it made, also
  when it fails. \<open>Inr None\<close> is \<open>Ok(None)\<close>, an incomplete frame; \<open>Inl e\<close> is \<open>Err(e)\<close>.
\<close>

datatype resp_value =
    SimpleString string
  | Error string
  | Integer int
  | BulkString bytes
  | Null
  | Array "resp_value list"
  | NullArray

datatype resp_error =
    InvalidData
  | InvalidInteger string
  | Io string

definition resp_error_display :: "resp_error \<Rightarrow> string" where
  "resp_error_display e =
     (case e of
        InvalidData \<Rightarrow> ''Invalid RESP data''
      | InvalidInteger s \<Rightarrow> ''Invalid integer: '' @ s
      | Io m \<Rightarrow> ''IO error: '' @ m)"

type_synonym 'a parse_result = "(resp_error + 'a option) \<times> bytes"

definition as_str :: "resp_value \<Rightarrow> string option" where
  "as_str v = (case v of BulkString b \<Rightarrow> from_utf8 b | SimpleString s \<Rightarrow> Some s | _ \<Rightarrow> None)"

definition as_integer :: "resp_value \<Rightarrow> int option" where
  "as_integer v =
     (case v of
        Integer n \<Rightarrow> Some n
      | BulkString b \<Rightarrow> Option.bind (from_utf8 b) parse_i64
      | _ \<Rightarrow> None)"

definition is_null :: "resp_value \<Rightarrow> bool" where
  "is_null v = (case v of Null \<Rightarrow> True | NullArray \<Rightarrow> True | _ \<Rightarrow> False)"

subsection \<open>The parser\<close>

text \<open>The range \<open>buf[a..b]\<close>.\<close>

definition slice :: "'a list \<Rightarrow> nat \<Rightarrow> nat \<Rightarrow> 'a list" where
  "slice buf a b = take (b - a) (drop a buf)"

text \<open>The loop \<open>for i in start..buf.len().saturating_sub(1)\<close> of \<open>find_crlf\<close>.\<close>

function find_crlf :: "bytes \<Rightarrow> nat \<Rightarrow> nat option" where
  "find_crlf buf i =
     (if i < length buf - 1
      then (if buf ! i = CR \<and> buf ! (i + 1) = LF then Some i else find_crlf buf (i + 1))
      else None)"
  by pat_completeness auto
termination
  by (relation "measure (\<lambda>(buf, i). length buf - i)") auto

declare find_crlf.simps [simp del]

definition find_crlf_in :: "bytes \<Rightarrow> nat \<Rightarrow> nat option" where
  "find_crlf_in buf start = find_crlf buf start"

definition parse_line :: "bytes \<Rightarrow> string parse_result" where
  "parse_line buf =
     (case find_crlf buf 1 of
        Some pos \<Rightarrow>
          (case from_utf8 (slice buf 1 pos) of
             None \<Rightarrow> (Inl InvalidData, buf)
           | Some line \<Rightarrow> (Inr (Some line), drop (pos + 2) buf))
      | None \<Rightarrow> (Inr None, buf))"

definition parse_line_inline :: "bytes \<Rightarrow> string parse_result" where
  "parse_line_inline buf =
     (case find_crlf buf 0 of
        Some pos \<Rightarrow>
          (case from_utf8 (slice buf 0 pos) of
             None \<Rightarrow> (Inl InvalidData, buf)
           | Some line \<Rightarrow> (Inr (Some line), drop (pos + 2) buf))
      | None \<Rightarrow> (Inr None, buf))"

definition parse_simple_string :: "bytes \<Rightarrow> resp_value parse_result" where
  "parse_simple_string buf = map_prod (map_sum id (map_option SimpleString)) id (parse_line buf)"

definition parse_error :: "bytes \<Rightarrow> resp_value parse_result" where
  "parse_error buf = map_prod (map_sum id (map_option Error)) id (parse_line buf)"

definition parse_integer :: "bytes \<Rightarrow> resp_value parse_result" where
  "parse_integer buf =
     (case parse_line buf of
        (Inr (Some line), rest) \<Rightarrow>
          (case parse_i64 line of
             Some n \<Rightarrow> (Inr (Some (Integer n)), rest)
           | None \<Rightarrow> (Inl (InvalidInteger line), rest))
      | (Inr None, rest) \<Rightarrow> (Inr None, rest)
      | (Inl e, rest) \<Rightarrow> (Inl e, rest))"

definition parse_bulk_string :: "bytes \<Rightarrow> resp_value parse_result" where
  "parse_bulk_string buf =
     (case find_crlf buf 1 of
        None \<Rightarrow> (Inr None, buf)
      | Some newline_pos \<Rightarrow>
          (case from_utf8 (slice buf 1 newline_pos) of
             None \<Rightarrow> (Inl InvalidData, buf)
           | Some len_str \<Rightarrow>
               (case parse_i64 len_str of
                  None \<Rightarrow> (Inl (InvalidInteger len_str), buf)
                | Some len \<Rightarrow>
                    if len = -1 then (Inr (Some Null), drop (newline_pos + 2) buf)
                    else if len < -1 then (Inl InvalidData, buf)
                    else if len > 512 * 1024 * 1024 then (Inl InvalidData, buf)
                    else
                      (let total_len = newline_pos + 2 + nat len + 2;
                           data_start = newline_pos + 2
                       in if length buf < total_len then (Inr None, buf)
                          else (Inr (Some (BulkString (slice buf data_start (data_start + nat len)))),
                                drop total_len buf)))))"

definition parse_inline :: "bytes \<Rightarrow> resp_value parse_result" where
  "parse_inline buf =
     (case parse_line_inline buf of
        (Inr (Some line), rest) \<Rightarrow> (Inr (Some (Array (map BulkString (split_whitespace line)))), rest)
      | (Inr None, rest) \<Rightarrow> (Inr None, rest)
      | (Inl e, rest) \<Rightarrow> (Inl e, rest))"

definition MAX_DEPTH :: nat where
  "MAX_DEPTH = 128"

text \<open>
  \<open>measure_value buf offset depth\<close> sizes the value at \<open>offset\<close>; \<open>measure_elems\<close> is its loop
  over the elements of an array and returns the position after the last one.
\<close>

function measure_value :: "bytes \<Rightarrow> nat \<Rightarrow> nat \<Rightarrow> nat option"
  and measure_elems :: "bytes \<Rightarrow> nat \<Rightarrow> nat \<Rightarrow> nat \<Rightarrow> nat option" where
  "measure_value buf offset depth =
     (if length buf \<le> offset then None
      else if buf ! offset = CHR ''+'' \<or> buf ! offset = CHR ''-'' \<or> buf ! offset = CHR '':'' then
        (case find_crlf buf (offset + 1) of None \<Rightarrow> None | Some i \<Rightarrow> Some (i + 2 - offset))
      else if buf ! offset = CHR ''$'' then
        (case find_crlf_in buf (offset + 1) of
           None \<Rightarrow> None
         | Some newline_pos \<Rightarrow>
             (case from_utf8 (slice buf (offset + 1) newline_pos) of
                None \<Rightarrow> None
              | Some len_str \<Rightarrow>
                  (case parse_i64 len_str of
                     None \<Rightarrow> None
                   | Some len \<Rightarrow>
                       if len < 0 then Some (newline_pos + 2 - offset)
                       else (let total = newline_pos + 2 + nat len + 2
                             in if total \<le> length buf then Some (total - offset) else None))))
      else if buf ! offset = CHR ''*'' then
        (if MAX_DEPTH \<le> depth then None
         else
           (case find_crlf_in buf (offset + 1) of
              None \<Rightarrow> None
            | Some newline_pos \<Rightarrow>
                (case from_utf8 (slice buf (offset + 1) newline_pos) of
                   None \<Rightarrow> None
                 | Some cnt_str \<Rightarrow>
                     (case parse_i64 cnt_str of
                        None \<Rightarrow> None
                      | Some cnt \<Rightarrow>
                          if cnt < 0 then Some (newline_pos + 2 - offset)
                          else
                            (case measure_elems buf (newline_pos + 2) (depth + 1) (nat cnt) of
                               None \<Rightarrow> None
                             | Some pos \<Rightarrow> if pos \<le> length buf then Some (pos - offset) else None)))))
      else
        (case find_crlf buf offset of None \<Rightarrow> None | Some i \<Rightarrow> Some (i + 2 - offset)))"
| "measure_elems buf pos depth 0 = Some pos"
| "measure_elems buf pos depth (Suc n) =
     (case measure_value buf pos depth of
        None \<Rightarrow> None
      | Some elem_size \<Rightarrow> measure_elems buf (pos + elem_size) depth n)"
  by pat_completeness auto
termination
  by (relation "measures
       [\<lambda>x. case x of Inl (_, _, d) \<Rightarrow> MAX_DEPTH + 1 - d | Inr (_, _, d, _) \<Rightarrow> MAX_DEPTH + 1 - d,
        \<lambda>x. case x of Inl _ \<Rightarrow> 0 | Inr (_, _, _, n) \<Rightarrow> Suc n]") auto

declare measure_value.simps [simp del]

text \<open>\<open>parse_elements\<close> is the loop of \<open>parse_array\<close> that pushes the parsed elements.\<close>

function parse :: "bytes \<Rightarrow> resp_value parse_result"
  and parse_array :: "bytes \<Rightarrow> resp_value parse_result"
  and parse_elements :: "nat \<Rightarrow> resp_value list \<Rightarrow> bytes \<Rightarrow> resp_value parse_result" where
  "parse buf =
     (case buf of
        [] \<Rightarrow> (Inr None, buf)
      | pfx # _ \<Rightarrow>
          if pfx = CHR ''+'' then parse_simple_string buf
          else if pfx = CHR ''-'' then parse_error buf
          else if pfx = CHR '':'' then parse_integer buf
          else if pfx = CHR ''$'' then parse_bulk_string buf
          else if pfx = CHR ''*'' then parse_array buf
          else parse_inline buf)"
| "parse_array buf =
     (case measure_value buf 0 0 of
        None \<Rightarrow> (Inr None, buf)
      | Some total_size \<Rightarrow>
          if length buf < total_size then (Inr None, buf)
          else
            (case find_crlf buf 1 of
               None \<Rightarrow> (Inl InvalidData, buf)
             | Some newline_pos \<Rightarrow>
                 (case from_utf8 (slice buf 1 newline_pos) of
                    None \<Rightarrow> (Inl InvalidData, buf)
                  | Some cnt_str \<Rightarrow>
                      (case parse_i64 cnt_str of
                         None \<Rightarrow> (Inl (InvalidInteger cnt_str), buf)
                       | Some cnt \<Rightarrow>
                           if cnt < 0 then (Inr (Some NullArray), drop (newline_pos + 2) buf)
                           else if cnt > 1000000 then (Inl InvalidData, buf)
                           else parse_elements (nat cnt) [] (drop (newline_pos + 2) buf)))))"
| "parse_elements 0 elements buf = (Inr (Some (Array elements)), buf)"
| "parse_elements (Suc n) elements buf =
     (case parse buf of
        (Inl e, rest) \<Rightarrow> (Inl e, rest)
      | (Inr None, rest) \<Rightarrow> (Inr None, rest)
      | (Inr (Some val), rest) \<Rightarrow> parse_elements n (elements @ [val]) rest)"
  by pat_completeness auto

text \<open>
  The recursion is nested: the loop runs \<open>parse\<close> on what the previous element left. A call
  never lengthens the buffer, which is why it ends.
\<close>

lemma length_parse_line: "length (snd (parse_line buf)) \<le> length buf"
  by (simp add: parse_line_def split: option.splits)

lemma length_parse_simple_string: "length (snd (parse_simple_string buf)) \<le> length buf"
  by (simp add: parse_simple_string_def length_parse_line)

lemma length_parse_error: "length (snd (parse_error buf)) \<le> length buf"
  by (simp add: parse_error_def length_parse_line)

lemma length_parse_integer: "length (snd (parse_integer buf)) \<le> length buf"
  using length_parse_line [of buf]
  by (auto simp: parse_integer_def split: prod.splits sum.splits option.splits)

lemma length_parse_bulk_string: "length (snd (parse_bulk_string buf)) \<le> length buf"
  by (simp add: parse_bulk_string_def Let_def split: option.splits)

lemma length_parse_inline: "length (snd (parse_inline buf)) \<le> length buf"
  by (auto simp: parse_inline_def parse_line_inline_def split: option.splits sum.splits prod.splits)

lemmas length_parse_leaves =
  length_parse_simple_string length_parse_error length_parse_integer length_parse_bulk_string
  length_parse_inline

lemma length_parse_dom:
  "parse_parse_array_parse_elements_dom (Inl buf) \<Longrightarrow> length (snd (parse buf)) \<le> length buf"
  "parse_parse_array_parse_elements_dom (Inr (Inl abuf)) \<Longrightarrow> length (snd (parse_array abuf)) \<le> length abuf"
  "parse_parse_array_parse_elements_dom (Inr (Inr (n, es, ebuf))) \<Longrightarrow>
     length (snd (parse_elements n es ebuf)) \<le> length ebuf"
proof (induction buf and abuf and n es ebuf rule: parse_parse_array_parse_elements.pinduct)
  case (1 buf)
  then show ?case
    using length_parse_leaves [of buf] by (cases buf) (auto simp: parse.psimps)
next
  case (2 buf)
  then show ?case
    by (fastforce simp: parse_array.psimps split: option.splits intro: le_trans [OF _ diff_le_self])
next
  case (3 elements buf)
  then show ?case by (simp add: parse_elements.psimps)
next
  case (4 n elements buf)
  then show ?case
    by (fastforce simp: parse_elements.psimps split: prod.splits sum.splits option.splits)
qed

lemma find_crlf_SomeD: "find_crlf buf i = Some j \<Longrightarrow>
   i \<le> j \<and> j + 1 < length buf \<and> buf ! j = CR \<and> buf ! (j + 1) = LF"
proof (induction buf i rule: find_crlf.induct)
  case (1 buf i)
  then show ?case
    by (subst (asm) (2) find_crlf.simps) (auto split: if_splits)
qed

termination parse
proof (relation "measures
    [\<lambda>x. case x of Inl b \<Rightarrow> length b | Inr (Inl b) \<Rightarrow> length b | Inr (Inr (_, _, b)) \<Rightarrow> length b,
     \<lambda>x. case x of Inl _ \<Rightarrow> 1 | Inr (Inl _) \<Rightarrow> 0 | Inr (Inr (n, _, _)) \<Rightarrow> n + 2]", goal_cases)
  case (3 buf total newline_pos count_str cnt)
  then show ?case by (auto dest: find_crlf_SomeD)
next
  case (5 n elements buf)
  then show ?case using length_parse_dom(1) [of buf] by (auto simp: nat_less_le dest: arg_cong [where f = snd])
qed auto

declare parse.simps [simp del] parse_array.simps [simp del]

lemma length_parse_all:
  "length (snd (parse buf)) \<le> length buf"
  "length (snd (parse_array abuf)) \<le> length abuf"
  "length (snd (parse_elements n es ebuf)) \<le> length ebuf"
proof (induction buf and abuf and n es ebuf rule: parse_parse_array_parse_elements.induct)
  case (1 buf)
  then show ?case using length_parse_leaves [of buf] by (cases buf) (auto simp: parse.simps)
next
  case (2 buf)
  then show ?case
    by (fastforce simp: parse_array.simps [of buf] split: option.splits intro: le_trans [OF _ diff_le_self])
next
  case (4 n elements buf)
  then show ?case by (fastforce split: prod.splits sum.splits option.splits)
qed simp

lemmas length_parse = length_parse_all(1)
lemmas length_parse_elements = length_parse_all(3)

subsection \<open>The encoder\<close>

text \<open>\<open>encode val buf\<close> appends the frame of \<open>val\<close> to \<open>buf\<close>.\<close>

fun encode :: "resp_value \<Rightarrow> bytes \<Rightarrow> bytes" where
  "encode (SimpleString s) buf = buf @ ''+'' @ s @ CRLF"
| "encode (Error e) buf = buf @ ''-'' @ e @ CRLF"
| "encode (Integer n) buf = buf @ '':'' @ show_int n @ CRLF"
| "encode (BulkString b) buf = buf @ ''$'' @ show_nat (length b) @ CRLF @ b @ CRLF"
| "encode Null buf = buf @ ''$-1'' @ CRLF"
| "encode (Array arr) buf = fold encode arr (buf @ ''*'' @ show_nat (length arr) @ CRLF)"
| "encode NullArray buf = buf @ ''*-1'' @ CRLF"

definition encode_to_bytes :: "resp_value \<Rightarrow> bytes" where
  "encode_to_bytes val = encode val []"

definition resp_ok :: bytes where
  "resp_ok = encode_to_bytes (SimpleString ''OK'')"

definition resp_pong :: bytes where
  "resp_pong = encode_to_bytes (SimpleString ''PONG'')"

definition resp_err :: "string \<Rightarrow> bytes" where
  "resp_err msg = encode_to_bytes (Error msg)"

definition resp_integer :: "int \<Rightarrow> bytes" where
  "resp_integer n = encode_to_bytes (Integer n)"

definition resp_bulk :: "bytes \<Rightarrow> bytes" where
  "resp_bulk b = encode_to_bytes (BulkString b)"

definition resp_null :: bytes where
  "resp_null = encode_to_bytes Null"

end
