(* ===== verification/Kv_Store.thy ===== *)
theory Kv_Store
  imports Rust_Std
begin

section \<open>The contract of a store with expiring entries\<close>

text \<open>
  What the command handler relies on: a store has, at every instant, a view from keys to the value
  and expiry of the entries that are still alive. Writing, removing and reading change that view
  as stated by the laws. The consequences a client uses are proved once here.
\<close>

definition alive :: "instant \<Rightarrow> instant option \<Rightarrow> bool" where
  "alive now x = (case x of Some t \<Rightarrow> now \<le> t | None \<Rightarrow> True)"

lemma alive_None [simp]: "alive now None"
  by (simp add: alive_def)

lemma alive_Some [simp]: "alive now (Some t) \<longleftrightarrow> now \<le> t"
  by (simp add: alive_def)

locale kv_store =
  fixes view :: "'s \<Rightarrow> instant \<Rightarrow> string \<Rightarrow> ('v \<times> instant option) option"
    and inv :: "'s \<Rightarrow> bool"
    and put :: "string \<Rightarrow> 'v \<Rightarrow> instant option \<Rightarrow> 's \<Rightarrow> 's"
    and remove :: "string \<Rightarrow> 's \<Rightarrow> 's"
    and read :: "clock \<Rightarrow> 's \<Rightarrow> string \<Rightarrow> 'v option \<times> 's"
  assumes view_put: "inv s \<Longrightarrow>
      view (put k v x s) t = (view s t)(k := if alive t x then Some (v, x) else None)"
    and view_remove: "inv s \<Longrightarrow> view (remove k s) t = (view s t)(k := None)"
    and read_value: "inv s \<Longrightarrow> fst (read clk s k) = map_option fst (view s (clk 0) k)"
    and view_read: "inv s \<Longrightarrow> mono clk \<Longrightarrow> clk 0 \<le> t \<Longrightarrow> view (snd (read clk s k)) t = view s t"
    and inv_put: "inv s \<Longrightarrow> inv (put k v x s)"
    and inv_remove: "inv s \<Longrightarrow> inv (remove k s)"
    and inv_read: "inv s \<Longrightarrow> inv (snd (read clk s k))"
begin

lemma read_after_put:
  "inv s \<Longrightarrow> alive (clk 0) x \<Longrightarrow> fst (read clk (put k v x s) k) = Some v"
  by (simp add: read_value view_put inv_put)

lemma read_after_put_expired:
  "inv s \<Longrightarrow> \<not> alive (clk 0) x \<Longrightarrow> fst (read clk (put k v x s) k) = None"
  by (simp add: read_value view_put inv_put)

lemma read_after_put_other:
  "inv s \<Longrightarrow> k' \<noteq> k \<Longrightarrow> fst (read clk (put k v x s) k') = fst (read clk s k')"
  by (simp add: read_value view_put inv_put)

lemma read_after_remove: "inv s \<Longrightarrow> fst (read clk (remove k s) k) = None"
  by (simp add: read_value view_remove inv_remove)

lemma view_put_remove:
  "inv s \<Longrightarrow> k \<noteq> k' \<Longrightarrow>
     view (remove k (put k' v x s)) t = (view s t)(k' := if alive t x then Some (v, x) else None, k := None)"
  by (auto simp: view_put view_remove inv_put fun_eq_iff)

lemma view_read_put:
  "inv s \<Longrightarrow> mono clk \<Longrightarrow> clk 0 \<le> t \<Longrightarrow>
     view (put k v x (snd (read clk s k'))) t = (view s t)(k := if alive t x then Some (v, x) else None)"
  by (simp add: view_put view_read inv_read)

lemma view_read_remove:
  "inv s \<Longrightarrow> mono clk \<Longrightarrow> clk 0 \<le> t \<Longrightarrow> view (remove k (snd (read clk s k'))) t = (view s t)(k := None)"
  by (simp add: view_remove view_read inv_read)

end

end
