(* ===== verification/RedisStorage.thy ===== *)
theory RedisStorage
  imports Kv_Store "HOL-Library.Word"
begin

section \<open>The Redis keyspace (crates/redis-protocol/src/storage.rs)\<close>

text \<open>
  The in-memory databases of the Redis front end: values, entries with an optional expiry, the
  operations of \<open>Database\<close> and the vector of databases \<open>RedisStorage\<close>. A \<open>DashMap\<close>, a
  \<open>HashMap\<close> and a \<open>HashSet\<close> are lists with distinct keys; a \<open>BTreeSet\<close> is the list of its
  elements in order. Every operation that reads the clock takes the readings as a \<open>clock\<close>.
  An operation whose \<open>Instant + Duration\<close> overflows panics: the result is \<open>None\<close>.

  What the crate takes from outside the repository, or from tables of the standard library, is a
  field of the record \<open>ext\<close>: the Unicode upper-case tables, the iteration order of hashed
  collections, the \<open>regex\<close> crate, and the text form of \<open>f64\<close>.
\<close>

type_synonym f64 = "64 word"

record ext =
  uni_upper :: "string \<Rightarrow> string"
  key_order :: "string list \<Rightarrow> string list"
  regex_new :: "string \<Rightarrow> (string \<Rightarrow> bool) option"
  parse_f64 :: "string \<Rightarrow> f64 option"
  show_f64 :: "f64 \<Rightarrow> string"

text \<open>What is assumed of the iteration order where a property needs it: every element is visited
  exactly once.\<close>

definition order_ok :: "ext \<Rightarrow> bool" where
  "order_ok E \<longleftrightarrow> (\<forall>ks. mset (key_order E ks) = mset ks)"

subsection \<open>Scores\<close>

text \<open>
  \<open>f64::partial_cmp\<close> on the bit patterns: no order when one side is a NaN; otherwise the order of
  sign and magnitude, with the two zeros equal.
\<close>

datatype ordering = Less | Equal | Greater

definition f64_mag :: "f64 \<Rightarrow> int" where
  "f64_mag x = uint x mod 2 ^ 63"

definition f64_is_nan :: "f64 \<Rightarrow> bool" where
  "f64_is_nan x \<longleftrightarrow> 0x7FF0000000000000 < f64_mag x"

definition f64_key :: "f64 \<Rightarrow> int" where
  "f64_key x = (if uint x < 2 ^ 63 then f64_mag x else - f64_mag x)"

definition f64_partial_cmp :: "f64 \<Rightarrow> f64 \<Rightarrow> ordering option" where
  "f64_partial_cmp a b =
     (if f64_is_nan a \<or> f64_is_nan b then None
      else Some (if f64_key a < f64_key b then Less else if f64_key a = f64_key b then Equal else Greater))"

text \<open>The \<open>Ord\<close> of \<open>OrderedFloat\<close>, and of the pairs in a sorted set.\<close>

definition ordered_float_cmp :: "f64 \<Rightarrow> f64 \<Rightarrow> ordering" where
  "ordered_float_cmp a b = (case f64_partial_cmp a b of Some c \<Rightarrow> c | None \<Rightarrow> Equal)"

definition str_cmp :: "string \<Rightarrow> string \<Rightarrow> ordering" where
  "str_cmp a b = (if a < b then Less else if a = b then Equal else Greater)"

definition zset_cmp :: "f64 \<times> string \<Rightarrow> f64 \<times> string \<Rightarrow> ordering" where
  "zset_cmp x y =
     (case ordered_float_cmp (fst x) (fst y) of
        Equal \<Rightarrow> str_cmp (snd x) (snd y)
      | c \<Rightarrow> c)"

text \<open>\<open>BTreeSet::insert\<close>: nothing when an equal element is there.\<close>

fun btree_insert :: "f64 \<times> string \<Rightarrow> (f64 \<times> string) list \<Rightarrow> (f64 \<times> string) list" where
  "btree_insert x [] = [x]"
| "btree_insert x (y # ys) =
     (case zset_cmp x y of
        Less \<Rightarrow> x # y # ys
      | Equal \<Rightarrow> y # ys
      | Greater \<Rightarrow> y # btree_insert x ys)"

subsection \<open>Values and entries\<close>

datatype redis_value =
    RString string
  | RHash "(string \<times> string) list"
  | RList "string list"
  | RSet "string list"
  | RSortedSet "(f64 \<times> string) list"

record entry =
  entry_value :: redis_value
  expires_at :: "instant option"

type_synonym database = "(string \<times> entry) list"

definition expired :: "instant \<Rightarrow> entry \<Rightarrow> bool" where
  "expired now e = (case expires_at e of Some t \<Rightarrow> now > t | None \<Rightarrow> False)"

subsection \<open>Database\<close>

definition db_new :: database where
  "db_new = []"

definition db_get :: "clock \<Rightarrow> database \<Rightarrow> string \<Rightarrow> redis_value option \<times> database" where
  "db_get clk db key =
     (case map_of db key of
        None \<Rightarrow> (None, db)
      | Some e \<Rightarrow>
          if expired (clk 0) e
          then (None, if expired (clk 1) e then AList.delete key db else db)
          else (Some (entry_value e), db))"

definition db_set :: "clock \<Rightarrow> database \<Rightarrow> string \<Rightarrow> redis_value \<Rightarrow> nat option \<Rightarrow> database option" where
  "db_set clk db key v ttl =
     (case ttl of
        None \<Rightarrow> Some (AList.update key \<lparr>entry_value = v, expires_at = None\<rparr> db)
      | Some d \<Rightarrow>
          (case instant_add (clk 0) d of
             None \<Rightarrow> None
           | Some t \<Rightarrow> Some (AList.update key \<lparr>entry_value = v, expires_at = Some t\<rparr> db)))"

definition db_del :: "database \<Rightarrow> string \<Rightarrow> bool \<times> database" where
  "db_del db key = (map_of db key \<noteq> None, AList.delete key db)"

definition db_exists :: "clock \<Rightarrow> database \<Rightarrow> string \<Rightarrow> bool \<times> database" where
  "db_exists clk db key =
     (case map_of db key of
        Some e \<Rightarrow> if expired (clk 0) e then (False, AList.delete key db) else (True, db)
      | None \<Rightarrow> (False, db))"

definition db_expire :: "clock \<Rightarrow> database \<Rightarrow> string \<Rightarrow> nat \<Rightarrow> (bool \<times> database) option" where
  "db_expire clk db key ttl =
     (case map_of db key of
        Some e \<Rightarrow>
          (case instant_add (clk 0) ttl of
             None \<Rightarrow> None
           | Some t \<Rightarrow> Some (True, AList.update key (e\<lparr>expires_at := Some t\<rparr>) db))
      | None \<Rightarrow> Some (False, db))"

definition db_ttl :: "clock \<Rightarrow> database \<Rightarrow> string \<Rightarrow> int \<times> database" where
  "db_ttl clk db key =
     (case map_of db key of
        Some e \<Rightarrow>
          (case expires_at e of
             Some t \<Rightarrow>
               if clk 0 > t then (-2, AList.delete key db)
               else (int ((t - clk 0) div nanos_per_sec), db)
           | None \<Rightarrow> (-1, db))
      | None \<Rightarrow> (-2, db))"

text \<open>The translation of a glob pattern, one character at a time.\<close>

definition regex_specials :: string where
  "regex_specials = ''.+(){}[]^$|''"

fun glob_body :: "string \<Rightarrow> string" where
  "glob_body [] = []"
| "glob_body (ch # rest) =
     (if ch = CHR 0x5C then
        (case rest of
           nxt # rest' \<Rightarrow> CHR 0x5C # nxt # glob_body rest'
         | [] \<Rightarrow> [CHR 0x5C, CHR 0x5C])
      else if ch = CHR ''*'' then ''.*'' @ glob_body rest
      else if ch = CHR ''?'' then ''.'' @ glob_body rest
      else if ch \<in> set regex_specials then CHR 0x5C # ch # glob_body rest
      else ch # glob_body rest)"

definition glob_to_regex :: "string \<Rightarrow> string" where
  "glob_to_regex pattern = ''^'' @ glob_body pattern @ ''$''"

definition db_keys :: "ext \<Rightarrow> clock \<Rightarrow> database \<Rightarrow> string \<Rightarrow> string list \<times> database" where
  "db_keys E clk db pattern =
     (let regex = regex_new E (glob_to_regex pattern);
          db' = filter (\<lambda>(k, e). \<not> expired (clk 0) e) db
      in (filter (\<lambda>k. case regex of None \<Rightarrow> True | Some is_match \<Rightarrow> is_match k)
            (key_order E (map fst db')),
          db'))"

definition db_clear :: "database \<Rightarrow> database" where
  "db_clear db = []"

definition db_len :: "database \<Rightarrow> nat" where
  "db_len db = length db"

subsection \<open>RedisStorage\<close>

type_synonym storage = "database list"

definition storage_new :: "nat \<Rightarrow> storage" where
  "storage_new num_databases = replicate num_databases db_new"

definition get_db :: "storage \<Rightarrow> nat \<Rightarrow> database option" where
  "get_db st db_index = (if db_index < length st then Some (st ! db_index) else None)"

definition clear_all :: "storage \<Rightarrow> storage" where
  "clear_all st = map db_clear st"

definition total_keys :: "storage \<Rightarrow> nat" where
  "total_keys st = sum_list (map db_len st)"

definition storage_default :: storage where
  "storage_default = storage_new 16"

subsection \<open>The live view of a database, and the store contract\<close>

definition live :: "database \<Rightarrow> instant \<Rightarrow> string \<Rightarrow> (redis_value \<times> instant option) option" where
  "live db now k =
     (case map_of db k of
        Some e \<Rightarrow> if expired now e then None else Some (entry_value e, expires_at e)
      | None \<Rightarrow> None)"

definition db_put :: "string \<Rightarrow> redis_value \<Rightarrow> instant option \<Rightarrow> database \<Rightarrow> database" where
  "db_put k v x db = AList.update k \<lparr>entry_value = v, expires_at = x\<rparr> db"

lemma expired_alive: "expired now e \<longleftrightarrow> \<not> alive now (expires_at e)"
  by (auto simp: expired_def alive_def not_le split: option.splits)

lemma expired_mono: "expired now e \<Longrightarrow> now \<le> t \<Longrightarrow> expired t e"
  by (auto simp: expired_def split: option.splits)

lemma live_put [store_simps]:
  "live (db_put k v x db) t = (live db t)(k := if alive t x then Some (v, x) else None)"
  by (auto simp: live_def db_put_def expired_alive fun_eq_iff)

lemma live_delete [store_simps]: "live (AList.delete k db) t = (live db t)(k := None)"
  by (auto simp: live_def fun_eq_iff)

lemma live_delete_expired:
  "map_of db k = Some e \<Longrightarrow> expired now e \<Longrightarrow> now \<le> t \<Longrightarrow> live (AList.delete k db) t = live db t"
  by (auto simp: live_def fun_eq_iff dest: expired_mono)

lemma live_get [store_simps]:
  assumes "mono clk" and "clk 0 \<le> t"
  shows "live (snd (db_get clk db k)) t = live db t"
proof (cases "map_of db k")
  case None
  then show ?thesis by (simp add: db_get_def)
next
  case (Some e)
  with assms(2) show ?thesis by (auto simp: db_get_def intro: live_delete_expired)
qed

lemma fst_db_get [store_simps]: "fst (db_get clk db k) = map_option fst (live db (clk 0) k)"
  by (simp add: db_get_def live_def split: option.splits)

lemma wf_db_get [wf_intros]: "wf_alist db \<Longrightarrow> wf_alist (snd (db_get clk db k))"
  by (simp add: db_get_def split: option.splits)

interpretation redis_kv: kv_store live wf_alist db_put AList.delete db_get
proof
  fix clk :: clock and s :: database and k and t
  assume "wf_alist s" "mono clk" "clk 0 \<le> t"
  then show "live (snd (db_get clk s k)) t = live s t" by (intro live_get)
qed (simp_all add: live_put live_delete fst_db_get wf_db_get, simp add: db_put_def)

text \<open>The remaining operations of \<open>Database\<close> in terms of the contract.\<close>

lemma db_set_eq [store_simps]:
  "db_set clk db k v ttl =
     (case ttl of
        None \<Rightarrow> Some (db_put k v None db)
      | Some d \<Rightarrow> map_option (\<lambda>t. db_put k v (Some t) db) (instant_add (clk 0) d))"
  by (simp add: db_set_def db_put_def split: option.splits)

lemma db_expire_eq:
  "db_expire clk db k d =
     (case map_of db k of
        Some e \<Rightarrow> map_option (\<lambda>t. (True, db_put k (entry_value e) (Some t) db)) (instant_add (clk 0) d)
      | None \<Rightarrow> Some (False, db))"
  by (auto simp: db_expire_def db_put_def split: option.splits intro: arg_cong [where f = "\<lambda>e. AList.update k e db"])

lemma db_exists_live: "fst (db_exists clk db k) \<longleftrightarrow> live db (clk 0) k \<noteq> None"
  by (simp add: db_exists_def live_def split: option.splits)

lemma live_exists: "clk 0 \<le> t \<Longrightarrow> live (snd (db_exists clk db k)) t = live db t"
  by (auto simp: db_exists_def intro: live_delete_expired split: option.splits)

lemma live_ttl: "clk 0 \<le> t \<Longrightarrow> live (snd (db_ttl clk db k)) t = live db t"
  by (auto simp: db_ttl_def expired_def intro: live_delete_expired split: option.splits)

lemma wf_db_exists [wf_intros]: "wf_alist db \<Longrightarrow> wf_alist (snd (db_exists clk db k))"
  by (simp add: db_exists_def split: option.splits)

lemma wf_db_ttl [wf_intros]: "wf_alist db \<Longrightarrow> wf_alist (snd (db_ttl clk db k))"
  by (simp add: db_ttl_def split: option.splits)

lemma live_keys:
  assumes "wf_alist db" and "clk 0 \<le> t"
  shows "live (snd (db_keys E clk db p)) t = live db t"
  using assms
  by (auto simp: db_keys_def Let_def live_def map_of_filter_distinct fun_eq_iff split: option.splits
      dest: expired_mono)

end
