(* ===== verification/RedisHandler.thy ===== *)
theory RedisHandler
  imports Resp RedisStorage
begin

section \<open>The Redis command handler (crates/redis-protocol/src/handler.rs)\<close>

text \<open>
  One definition per command of \<open>DefaultRedisHandler\<close>, each from the storage, the index of the
  selected database and the arguments to the reply and the storage after the command; then the
  dispatch \<open>handle_command\<close>. A reply is the encoded frame, \<open>None\<close> when the command panics.
  \<open>with_db\<close> is the \<open>if let Some(db) = self.storage.get_db(db_index)\<close> around every command
  that touches a database.
\<close>

type_synonym reply = "bytes option"
type_synonym command = "storage \<Rightarrow> nat \<Rightarrow> resp_value list \<Rightarrow> reply \<times> storage"

definition with_db :: "storage \<Rightarrow> nat \<Rightarrow> bytes \<Rightarrow> (database \<Rightarrow> reply \<times> database) \<Rightarrow> reply \<times> storage" where
  "with_db st db_index otherwise f =
     (case get_db st db_index of
        Some db \<Rightarrow> (case f db of (r, db') \<Rightarrow> (r, st[db_index := db']))
      | None \<Rightarrow> (Some otherwise, st))"

definition wrongtype :: bytes where
  "wrongtype = resp_err ''WRONGTYPE Operation against a key holding the wrong kind of value''"

definition arity_error :: "string \<Rightarrow> bytes" where
  "arity_error cmd = resp_err (''ERR wrong number of arguments for '' @ [CHR 0x27] @ cmd @ [CHR 0x27] @ '' command'')"

definition resp_array :: "resp_value list \<Rightarrow> bytes" where
  "resp_array vs = encode_to_bytes (Array vs)"

definition resp_simple :: "string \<Rightarrow> bytes" where
  "resp_simple s = encode_to_bytes (SimpleString s)"

definition get_arg_str :: "resp_value \<Rightarrow> string option" where
  "get_arg_str arg = (case arg of BulkString s \<Rightarrow> from_utf8 s | SimpleString s \<Rightarrow> Some s | _ \<Rightarrow> None)"

definition get_arg_int :: "resp_value \<Rightarrow> int option" where
  "get_arg_int arg =
     (case arg of
        Integer n \<Rightarrow> Some n
      | BulkString s \<Rightarrow> Option.bind (from_utf8 s) parse_i64
      | _ \<Rightarrow> None)"

text \<open>Write back a collection, or delete the key when it has become empty.\<close>

definition set_or_del :: "clock \<Rightarrow> database \<Rightarrow> string \<Rightarrow> bool \<Rightarrow> redis_value \<Rightarrow> bytes \<Rightarrow> reply \<times> database" where
  "set_or_del clk db key gone v r =
     (if gone then (Some r, snd (db_del db key))
      else (case db_set clk db key v None of Some db' \<Rightarrow> (Some r, db') | None \<Rightarrow> (None, db)))"

text \<open>Write a value and reply; a panic in \<open>set\<close> leaves the database as it is.\<close>

definition set_reply :: "clock \<Rightarrow> database \<Rightarrow> string \<Rightarrow> redis_value \<Rightarrow> nat option \<Rightarrow> bytes \<Rightarrow> reply \<times> database" where
  "set_reply clk db key v ttl r =
     (case db_set clk db key v ttl of Some db' \<Rightarrow> (Some r, db') | None \<Rightarrow> (None, db))"

fun chunks2 :: "'a list \<Rightarrow> 'a list list" where
  "chunks2 [] = []"
| "chunks2 [x] = [[x]]"
| "chunks2 (x # y # zs) = [x, y] # chunks2 zs"

subsection \<open>Connection commands\<close>

definition cmd_ping :: "resp_value list \<Rightarrow> reply" where
  "cmd_ping args =
     (case args of
        [] \<Rightarrow> Some resp_pong
      | a # _ \<Rightarrow> (case get_arg_str a of Some msg \<Rightarrow> Some (resp_bulk msg) | None \<Rightarrow> Some resp_pong))"

definition cmd_echo :: "resp_value list \<Rightarrow> reply" where
  "cmd_echo args =
     (case args of
        [] \<Rightarrow> Some (arity_error ''echo'')
      | a # _ \<Rightarrow>
          (case get_arg_str a of
             Some msg \<Rightarrow> Some (resp_bulk msg)
           | None \<Rightarrow> Some (resp_err ''ERR invalid argument'')))"

definition cmd_auth :: "string option \<Rightarrow> resp_value list \<Rightarrow> reply" where
  "cmd_auth password args =
     (case password of
        Some expected \<Rightarrow>
          (case args of
             [] \<Rightarrow> Some (arity_error ''auth'')
           | a # _ \<Rightarrow>
               (case get_arg_str a of
                  Some provided \<Rightarrow>
                    if provided = expected then Some resp_ok
                    else Some (resp_err ''ERR invalid password'')
                | None \<Rightarrow> Some (resp_err ''ERR invalid argument'')))
      | None \<Rightarrow> Some (resp_err ''ERR Client sent AUTH, but no password is set''))"

definition cmd_select :: "resp_value list \<Rightarrow> reply" where
  "cmd_select args =
     (case args of
        [] \<Rightarrow> Some (arity_error ''select'')
      | a # _ \<Rightarrow>
          (case get_arg_int a of
             Some db \<Rightarrow>
               if 0 \<le> db \<and> db < 16 then Some resp_ok
               else Some (resp_err ''ERR DB index out of range'')
           | None \<Rightarrow> Some (resp_err ''ERR invalid DB index'')))"

subsection \<open>Server commands\<close>

definition info_text :: "nat \<Rightarrow> string" where
  "info_text keys = concat (map (\<lambda>l. l @ CRLF)
     [''# Server'', ''redis_version:7.0.0'', ''harness_version:1.1.0'', ''redis_mode:standalone'',
      ''os:Linux'', ''tcp_port:6379'', [],
      ''# Clients'', ''connected_clients:1'', [],
      ''# Memory'', ''used_memory:0'', ''used_memory_human:0B'', [],
      ''# Stats'', ''total_connections_received:1'', ''total_commands_processed:0'', [],
      ''# Keyspace'', ''db0:keys='' @ show_nat keys @ '',expires=0,avg_ttl=0''])"

definition cmd_info :: "storage \<Rightarrow> reply" where
  "cmd_info st = Some (resp_bulk (info_text (total_keys st)))"

definition cmd_dbsize :: "storage \<Rightarrow> nat \<Rightarrow> reply" where
  "cmd_dbsize st db_index =
     (case get_db st db_index of
        Some db \<Rightarrow> Some (resp_integer (int (db_len db)))
      | None \<Rightarrow> Some (resp_integer 0))"

definition cmd_flushdb :: "storage \<Rightarrow> nat \<Rightarrow> reply \<times> storage" where
  "cmd_flushdb st db_index = with_db st db_index resp_ok (\<lambda>db. (Some resp_ok, db_clear db))"

definition cmd_flushall :: "storage \<Rightarrow> reply \<times> storage" where
  "cmd_flushall st = (Some resp_ok, clear_all st)"

definition cmd_config :: "ext \<Rightarrow> resp_value list \<Rightarrow> reply" where
  "cmd_config E args =
     (case args of
        [] \<Rightarrow> Some (arity_error ''config'')
      | a # _ \<Rightarrow>
          (let subcmd = to_uppercase (uni_upper E) (case get_arg_str a of Some s \<Rightarrow> s | None \<Rightarrow> [])
           in if subcmd = ''GET'' then Some (resp_array [])
              else if subcmd = ''SET'' then Some resp_ok
              else Some (resp_err ''ERR Unknown CONFIG subcommand'')))"

definition cmd_client :: "ext \<Rightarrow> resp_value list \<Rightarrow> reply" where
  "cmd_client E args =
     (case args of
        [] \<Rightarrow> Some (arity_error ''client'')
      | a # _ \<Rightarrow>
          (let subcmd = to_uppercase (uni_upper E) (case get_arg_str a of Some s \<Rightarrow> s | None \<Rightarrow> [])
           in if subcmd = ''SETNAME'' then Some resp_ok
              else if subcmd = ''GETNAME'' then Some resp_null
              else if subcmd = ''LIST'' then
                Some (resp_bulk (''id=1 addr=127.0.0.1:12345 fd=5 name= db=0'' @ [LF]))
              else Some resp_ok))"

subsection \<open>Key commands\<close>

fun del_loop :: "resp_value list \<Rightarrow> nat \<Rightarrow> database \<Rightarrow> nat \<times> database" where
  "del_loop [] n db = (n, db)"
| "del_loop (arg # args) n db =
     (case get_arg_str arg of
        Some key \<Rightarrow>
          (case db_del db key of (hit, db') \<Rightarrow> del_loop args (if hit then n + 1 else n) db')
      | None \<Rightarrow> del_loop args n db)"

definition cmd_del :: command where
  "cmd_del st db_index args =
     with_db st db_index (resp_integer 0)
       (\<lambda>db. case del_loop args 0 db of (n, db') \<Rightarrow> (Some (resp_integer (int n)), db'))"

fun exists_loop :: "clock \<Rightarrow> resp_value list \<Rightarrow> nat \<Rightarrow> database \<Rightarrow> nat \<times> database" where
  "exists_loop clk [] n db = (n, db)"
| "exists_loop clk (arg # args) n db =
     (case get_arg_str arg of
        Some key \<Rightarrow>
          (case db_exists clk db key of
             (hit, db') \<Rightarrow> exists_loop (later 1 clk) args (if hit then n + 1 else n) db')
      | None \<Rightarrow> exists_loop clk args n db)"

definition cmd_exists :: "clock \<Rightarrow> command" where
  "cmd_exists clk st db_index args =
     with_db st db_index (resp_integer 0)
       (\<lambda>db. case exists_loop clk args 0 db of (n, db') \<Rightarrow> (Some (resp_integer (int n)), db'))"

definition cmd_expire :: "clock \<Rightarrow> command" where
  "cmd_expire clk st db_index args =
     (case args of
        a # b # _ \<Rightarrow>
          (case get_arg_str a of
             None \<Rightarrow> (Some (resp_err ''ERR invalid key''), st)
           | Some key \<Rightarrow>
               (case get_arg_int b of
                  None \<Rightarrow> (Some (resp_err ''ERR invalid expire time''), st)
                | Some seconds \<Rightarrow>
                    if seconds < 0 then (Some (resp_err ''ERR invalid expire time''), st)
                    else with_db st db_index (resp_integer 0)
                      (\<lambda>db. case db_expire clk db key (nat seconds * nanos_per_sec) of
                          None \<Rightarrow> (None, db)
                        | Some (True, db') \<Rightarrow> (Some (resp_integer 1), db')
                        | Some (False, db') \<Rightarrow> (Some (resp_integer 0), db'))))
      | _ \<Rightarrow> (Some (arity_error ''expire''), st))"

definition cmd_ttl :: "clock \<Rightarrow> command" where
  "cmd_ttl clk st db_index args =
     (case args of
        [] \<Rightarrow> (Some (arity_error ''ttl''), st)
      | a # _ \<Rightarrow>
          (case get_arg_str a of
             None \<Rightarrow> (Some (resp_err ''ERR invalid key''), st)
           | Some key \<Rightarrow>
               with_db st db_index (resp_integer (-2))
                 (\<lambda>db. case db_ttl clk db key of (n, db') \<Rightarrow> (Some (resp_integer n), db'))))"

definition type_name :: "redis_value option \<Rightarrow> string" where
  "type_name v =
     (case v of
        Some (RString _) \<Rightarrow> ''string''
      | Some (RHash _) \<Rightarrow> ''hash''
      | Some (RList _) \<Rightarrow> ''list''
      | Some (RSet _) \<Rightarrow> ''set''
      | Some (RSortedSet _) \<Rightarrow> ''zset''
      | None \<Rightarrow> ''none'')"

definition cmd_type :: "clock \<Rightarrow> command" where
  "cmd_type clk st db_index args =
     (case args of
        [] \<Rightarrow> (Some (arity_error ''type''), st)
      | a # _ \<Rightarrow>
          (case get_arg_str a of
             None \<Rightarrow> (Some (resp_err ''ERR invalid key''), st)
           | Some key \<Rightarrow>
               with_db st db_index (resp_simple ''none'')
                 (\<lambda>db. case db_get clk db key of (v, db') \<Rightarrow> (Some (resp_simple (type_name v)), db'))))"

definition cmd_keys :: "ext \<Rightarrow> clock \<Rightarrow> command" where
  "cmd_keys E clk st db_index args =
     (case args of
        [] \<Rightarrow> (Some (arity_error ''keys''), st)
      | a # _ \<Rightarrow>
          (case get_arg_str a of
             None \<Rightarrow> (Some (resp_err ''ERR invalid pattern''), st)
           | Some pattern \<Rightarrow>
               with_db st db_index (resp_array [])
                 (\<lambda>db. case db_keys E clk db pattern of
                    (ks, db') \<Rightarrow> (Some (resp_array (map BulkString ks)), db'))))"

definition cmd_rename :: "clock \<Rightarrow> command" where
  "cmd_rename clk st db_index args =
     (case args of
        a # b # _ \<Rightarrow>
          (case get_arg_str a of
             None \<Rightarrow> (Some (resp_err ''ERR invalid key''), st)
           | Some old_key \<Rightarrow>
               (case get_arg_str b of
                  None \<Rightarrow> (Some (resp_err ''ERR invalid key''), st)
                | Some new_key \<Rightarrow>
                    with_db st db_index (resp_err ''ERR no such key'')
                      (\<lambda>db. case db_get clk db old_key of
                          (None, db1) \<Rightarrow> (Some (resp_err ''ERR no such key''), db1)
                        | (Some val, db1) \<Rightarrow>
                            (case db_ttl (later 2 clk) db1 old_key of
                               (ttl_secs, db2) \<Rightarrow>
                                 (case db_set (later 3 clk) db2 new_key val
                                     (if ttl_secs > 0 then Some (nat ttl_secs * nanos_per_sec) else None) of
                                    None \<Rightarrow> (None, db2)
                                  | Some db3 \<Rightarrow> (Some resp_ok, snd (db_del db3 old_key)))))))
      | _ \<Rightarrow> (Some (arity_error ''rename''), st))"

subsection \<open>String commands\<close>

definition cmd_get :: "clock \<Rightarrow> command" where
  "cmd_get clk st db_index args =
     (case args of
        [] \<Rightarrow> (Some (arity_error ''get''), st)
      | a # _ \<Rightarrow>
          (case get_arg_str a of
             None \<Rightarrow> (Some (resp_err ''ERR invalid key''), st)
           | Some key \<Rightarrow>
               with_db st db_index resp_null
                 (\<lambda>db. case db_get clk db key of
                     (Some (RString s), db') \<Rightarrow> (Some (resp_bulk s), db')
                   | (Some _, db') \<Rightarrow> (Some wrongtype, db')
                   | (None, db') \<Rightarrow> (Some resp_null, db'))))"

text \<open>The option loop of SET: expiry in nanoseconds, NX, XX; \<open>Inl\<close> is an early error reply.\<close>

fun set_options :: "ext \<Rightarrow> resp_value list \<Rightarrow> nat option \<times> bool \<times> bool \<Rightarrow> bytes + nat option \<times> bool \<times> bool" where
  "set_options E [] acc = Inr acc"
| "set_options E (arg # rest) (ttl, nx, xx) =
     (case get_arg_str arg of
        None \<Rightarrow> set_options E rest (ttl, nx, xx)
      | Some opt \<Rightarrow>
          (let u = to_uppercase (uni_upper E) opt in
           if u = ''EX'' then
             (case rest of
                [] \<Rightarrow> Inl (resp_err ''ERR syntax error'')
              | v # rest' \<Rightarrow>
                  (case get_arg_int v of
                     None \<Rightarrow> set_options E rest' (ttl, nx, xx)
                   | Some secs \<Rightarrow>
                       if secs \<le> 0 then
                         Inl (resp_err (''ERR invalid expire time in '' @ [CHR 0x27] @ ''set'' @ [CHR 0x27] @ '' command''))
                       else set_options E rest' (Some (nat secs * nanos_per_sec), nx, xx)))
           else if u = ''PX'' then
             (case rest of
                [] \<Rightarrow> Inl (resp_err ''ERR syntax error'')
              | v # rest' \<Rightarrow>
                  (case get_arg_int v of
                     None \<Rightarrow> set_options E rest' (ttl, nx, xx)
                   | Some ms \<Rightarrow>
                       if ms \<le> 0 then
                         Inl (resp_err (''ERR invalid expire time in '' @ [CHR 0x27] @ ''set'' @ [CHR 0x27] @ '' command''))
                       else set_options E rest' (Some (nat ms * 1000000), nx, xx)))
           else if u = ''NX'' then set_options E rest (ttl, True, xx)
           else if u = ''XX'' then set_options E rest (ttl, nx, True)
           else set_options E rest (ttl, nx, xx)))"

definition cmd_set :: "ext \<Rightarrow> clock \<Rightarrow> command" where
  "cmd_set E clk st db_index args =
     (case args of
        a # b # opts \<Rightarrow>
          (case get_arg_str a of
             None \<Rightarrow> (Some (resp_err ''ERR invalid key''), st)
           | Some key \<Rightarrow>
               (case get_arg_str b of
                  None \<Rightarrow> (Some (resp_err ''ERR invalid value''), st)
                | Some v \<Rightarrow>
                    (case set_options E opts (None, False, False) of
                       Inl e \<Rightarrow> (Some e, st)
                     | Inr (ttl, nx, xx) \<Rightarrow>
                         with_db st db_index (resp_err ''ERR invalid database'')
                           (\<lambda>db.
                              case (if nx then db_exists clk db key else (False, db)) of
                                (True, db1) \<Rightarrow> (Some resp_null, db1)
                              | (False, db1) \<Rightarrow>
                                  (case (if xx then db_exists (later 1 clk) db1 key else (True, db1)) of
                                     (False, db2) \<Rightarrow> (Some resp_null, db2)
                                   | (True, db2) \<Rightarrow>
                                       set_reply (later 2 clk) db2 key (RString v) ttl resp_ok)))))
      | _ \<Rightarrow> (Some (arity_error ''set''), st))"

fun mget_loop :: "clock \<Rightarrow> resp_value list \<Rightarrow> database \<Rightarrow> resp_value list \<times> database" where
  "mget_loop clk [] db = ([], db)"
| "mget_loop clk (arg # args) db =
     (case get_arg_str arg of
        Some key \<Rightarrow>
          (case db_get clk db key of
             (v, db1) \<Rightarrow>
               (case mget_loop (later 2 clk) args db1 of
                  (vs, db2) \<Rightarrow>
                    ((case v of Some (RString s) \<Rightarrow> BulkString s | _ \<Rightarrow> Null) # vs, db2)))
      | None \<Rightarrow> (case mget_loop clk args db of (vs, db') \<Rightarrow> (Null # vs, db')))"

definition cmd_mget :: "clock \<Rightarrow> command" where
  "cmd_mget clk st db_index args =
     with_db st db_index (resp_array (map (\<lambda>_. Null) args))
       (\<lambda>db. case mget_loop clk args db of (vs, db') \<Rightarrow> (Some (resp_array vs), db'))"

fun mset_loop :: "clock \<Rightarrow> resp_value list list \<Rightarrow> database \<Rightarrow> database" where
  "mset_loop clk [] db = db"
| "mset_loop clk (chunk # chunks) db =
     (case chunk of
        [a, b] \<Rightarrow>
          (case (get_arg_str a, get_arg_str b) of
             (Some key, Some v) \<Rightarrow>
               (case db_set clk db key (RString v) None of
                  Some db' \<Rightarrow> mset_loop clk chunks db'
                | None \<Rightarrow> db)
           | _ \<Rightarrow> mset_loop clk chunks db)
      | _ \<Rightarrow> mset_loop clk chunks db)"

definition cmd_mset :: "clock \<Rightarrow> command" where
  "cmd_mset clk st db_index args =
     (if length args mod 2 \<noteq> 0 then (Some (resp_err ''ERR wrong number of arguments for MSET''), st)
      else with_db st db_index (resp_err ''ERR invalid database'')
        (\<lambda>db. (Some resp_ok, mset_loop clk (chunks2 args) db)))"

definition not_an_integer :: bytes where
  "not_an_integer = resp_err ''ERR value is not an integer or out of range''"

definition cmd_incrby_internal :: "clock \<Rightarrow> storage \<Rightarrow> nat \<Rightarrow> resp_value list \<Rightarrow> int \<Rightarrow> reply \<times> storage" where
  "cmd_incrby_internal clk st db_index args increment =
     (case args of
        [] \<Rightarrow> (Some (resp_err ''ERR wrong number of arguments''), st)
      | a # _ \<Rightarrow>
          (case get_arg_str a of
             None \<Rightarrow> (Some (resp_err ''ERR invalid key''), st)
           | Some key \<Rightarrow>
               with_db st db_index (resp_err ''ERR invalid database'')
                 (\<lambda>db. case db_get clk db key of
                     (Some (RString s), db') \<Rightarrow>
                       (case parse_i64 s of
                          None \<Rightarrow> (Some not_an_integer, db')
                        | Some n \<Rightarrow>
                            (let new_value = wrap_i64 (n + increment)
                             in set_reply (later 2 clk) db' key (RString (show_int new_value)) None
                                  (resp_integer new_value)))
                   | (Some _, db') \<Rightarrow> (Some wrongtype, db')
                   | (None, db') \<Rightarrow>
                       (let new_value = wrap_i64 (0 + increment)
                        in set_reply (later 2 clk) db' key (RString (show_int new_value)) None
                             (resp_integer new_value)))))"

definition cmd_incr :: "clock \<Rightarrow> command" where
  "cmd_incr clk st db_index args = cmd_incrby_internal clk st db_index args 1"

definition cmd_decr :: "clock \<Rightarrow> command" where
  "cmd_decr clk st db_index args = cmd_incrby_internal clk st db_index args (-1)"

definition cmd_incrby :: "clock \<Rightarrow> command" where
  "cmd_incrby clk st db_index args =
     (case args of
        a # b # _ \<Rightarrow>
          (case get_arg_int b of
             None \<Rightarrow> (Some not_an_integer, st)
           | Some increment \<Rightarrow> cmd_incrby_internal clk st db_index [a] increment)
      | _ \<Rightarrow> (Some (arity_error ''incrby''), st))"

definition cmd_decrby :: "clock \<Rightarrow> command" where
  "cmd_decrby clk st db_index args =
     (case args of
        a # b # _ \<Rightarrow>
          (case get_arg_int b of
             None \<Rightarrow> (Some not_an_integer, st)
           | Some decrement \<Rightarrow> cmd_incrby_internal clk st db_index [a] (wrap_i64 (- decrement)))
      | _ \<Rightarrow> (Some (arity_error ''decrby''), st))"

definition cmd_append :: "clock \<Rightarrow> command" where
  "cmd_append clk st db_index args =
     (case args of
        a # b # _ \<Rightarrow>
          (case get_arg_str a of
             None \<Rightarrow> (Some (resp_err ''ERR invalid key''), st)
           | Some key \<Rightarrow>
               (case get_arg_str b of
                  None \<Rightarrow> (Some (resp_err ''ERR invalid value''), st)
                | Some append_value \<Rightarrow>
                    with_db st db_index (resp_err ''ERR invalid database'')
                      (\<lambda>db. case db_get clk db key of
                          (Some (RString s), db') \<Rightarrow>
                            set_reply (later 2 clk) db' key (RString (s @ append_value)) None
                              (resp_integer (int (length (s @ append_value))))
                        | (Some _, db') \<Rightarrow> (Some wrongtype, db')
                        | (None, db') \<Rightarrow>
                            set_reply (later 2 clk) db' key (RString ([] @ append_value)) None
                              (resp_integer (int (length ([] @ append_value)))))))
      | _ \<Rightarrow> (Some (arity_error ''append''), st))"

definition cmd_strlen :: "clock \<Rightarrow> command" where
  "cmd_strlen clk st db_index args =
     (case args of
        [] \<Rightarrow> (Some (arity_error ''strlen''), st)
      | a # _ \<Rightarrow>
          (case get_arg_str a of
             None \<Rightarrow> (Some (resp_err ''ERR invalid key''), st)
           | Some key \<Rightarrow>
               with_db st db_index (resp_integer 0)
                 (\<lambda>db. case db_get clk db key of
                     (Some (RString s), db') \<Rightarrow> (Some (resp_integer (int (length s))), db')
                   | (Some _, db') \<Rightarrow> (Some wrongtype, db')
                   | (None, db') \<Rightarrow> (Some (resp_integer 0), db'))))"

subsection \<open>Hash commands\<close>

definition cmd_hget :: "clock \<Rightarrow> command" where
  "cmd_hget clk st db_index args =
     (case args of
        a # b # _ \<Rightarrow>
          (case get_arg_str a of
             None \<Rightarrow> (Some (resp_err ''ERR invalid key''), st)
           | Some key \<Rightarrow>
               (case get_arg_str b of
                  None \<Rightarrow> (Some (resp_err ''ERR invalid field''), st)
                | Some field \<Rightarrow>
                    with_db st db_index resp_null
                      (\<lambda>db. case db_get clk db key of
                          (Some (RHash h), db') \<Rightarrow>
                            (case map_of h field of
                               Some v \<Rightarrow> (Some (resp_bulk v), db')
                             | None \<Rightarrow> (Some resp_null, db'))
                        | (Some _, db') \<Rightarrow> (Some wrongtype, db')
                        | (None, db') \<Rightarrow> (Some resp_null, db'))))
      | _ \<Rightarrow> (Some (arity_error ''hget''), st))"

fun hset_loop :: "resp_value list list \<Rightarrow> nat \<Rightarrow> (string \<times> string) list \<Rightarrow> nat \<times> (string \<times> string) list" where
  "hset_loop [] added hash = (added, hash)"
| "hset_loop (chunk # chunks) added hash =
     (case chunk of
        [a, b] \<Rightarrow>
          (case (get_arg_str a, get_arg_str b) of
             (Some field, Some v) \<Rightarrow>
               hset_loop chunks (if map_of hash field = None then added + 1 else added)
                 (AList.update field v hash)
           | _ \<Rightarrow> hset_loop chunks added hash)
      | _ \<Rightarrow> hset_loop chunks added hash)"

definition cmd_hset :: "clock \<Rightarrow> command" where
  "cmd_hset clk st db_index args =
     (if length args < 3 \<or> length args mod 2 = 0 then (Some (arity_error ''hset''), st)
      else
        (case args of
           [] \<Rightarrow> (Some (arity_error ''hset''), st)
         | a # rest \<Rightarrow>
             (case get_arg_str a of
                None \<Rightarrow> (Some (resp_err ''ERR invalid key''), st)
              | Some key \<Rightarrow>
                  with_db st db_index (resp_err ''ERR invalid database'')
                    (\<lambda>db. case db_get clk db key of
                        (Some (RHash h), db') \<Rightarrow>
                          (case hset_loop (chunks2 rest) 0 h of
                             (added, h') \<Rightarrow>
                               set_reply (later 2 clk) db' key (RHash h') None (resp_integer (int added)))
                      | (Some _, db') \<Rightarrow> (Some wrongtype, db')
                      | (None, db') \<Rightarrow>
                          (case hset_loop (chunks2 rest) 0 [] of
                             (added, h') \<Rightarrow>
                               set_reply (later 2 clk) db' key (RHash h') None (resp_integer (int added)))))))"

definition hmget_values :: "(string \<times> string) list \<Rightarrow> resp_value list \<Rightarrow> resp_value list" where
  "hmget_values hash args =
     map (\<lambda>arg. case get_arg_str arg of
            Some field \<Rightarrow> (case map_of hash field of Some v \<Rightarrow> BulkString v | None \<Rightarrow> Null)
          | None \<Rightarrow> Null) args"

definition cmd_hmget :: "clock \<Rightarrow> command" where
  "cmd_hmget clk st db_index args =
     (case args of
        a # b # rest \<Rightarrow>
          (case get_arg_str a of
             None \<Rightarrow> (Some (resp_err ''ERR invalid key''), st)
           | Some key \<Rightarrow>
               with_db st db_index (resp_array (map (\<lambda>_. Null) (b # rest)))
                 (\<lambda>db. case db_get clk db key of
                     (Some (RHash h), db') \<Rightarrow> (Some (resp_array (hmget_values h (b # rest))), db')
                   | (Some _, db') \<Rightarrow> (Some wrongtype, db')
                   | (None, db') \<Rightarrow> (Some (resp_array (hmget_values [] (b # rest))), db')))
      | _ \<Rightarrow> (Some (arity_error ''hmget''), st))"

definition cmd_hmset :: "clock \<Rightarrow> command" where
  "cmd_hmset clk st db_index args = cmd_hset clk st db_index args"

fun hdel_loop :: "resp_value list \<Rightarrow> nat \<Rightarrow> (string \<times> string) list \<Rightarrow> nat \<times> (string \<times> string) list" where
  "hdel_loop [] removed hash = (removed, hash)"
| "hdel_loop (arg # args) removed hash =
     (case get_arg_str arg of
        Some field \<Rightarrow>
          hdel_loop args (if map_of hash field \<noteq> None then removed + 1 else removed)
            (AList.delete field hash)
      | None \<Rightarrow> hdel_loop args removed hash)"

definition cmd_hdel :: "clock \<Rightarrow> command" where
  "cmd_hdel clk st db_index args =
     (case args of
        a # b # rest \<Rightarrow>
          (case get_arg_str a of
             None \<Rightarrow> (Some (resp_err ''ERR invalid key''), st)
           | Some key \<Rightarrow>
               with_db st db_index (resp_integer 0)
                 (\<lambda>db. case db_get clk db key of
                     (Some (RHash h), db') \<Rightarrow>
                       (case hdel_loop (b # rest) 0 h of
                          (removed, h') \<Rightarrow>
                            set_or_del (later 2 clk) db' key (h' = []) (RHash h') (resp_integer (int removed)))
                   | (Some _, db') \<Rightarrow> (Some wrongtype, db')
                   | (None, db') \<Rightarrow> (Some (resp_integer 0), db')))
      | _ \<Rightarrow> (Some (arity_error ''hdel''), st))"

text \<open>The entries of a hash in the order its iterator visits them.\<close>

definition hash_iter :: "ext \<Rightarrow> (string \<times> string) list \<Rightarrow> (string \<times> string) list" where
  "hash_iter E h =
     List.map_filter (\<lambda>k. case map_of h k of Some v \<Rightarrow> Some (k, v) | None \<Rightarrow> None) (key_order E (map fst h))"

text \<open>The commands that read one collection: what to reply for a collection of the right type,
  and \<open>absent\<close> for a missing key or database.\<close>

definition read_hash :: "string \<Rightarrow> ((string \<times> string) list \<Rightarrow> bytes) \<Rightarrow> bytes \<Rightarrow> clock \<Rightarrow> command" where
  "read_hash name found absent clk st db_index args =
     (case args of
        [] \<Rightarrow> (Some (arity_error name), st)
      | a # _ \<Rightarrow>
          (case get_arg_str a of
             None \<Rightarrow> (Some (resp_err ''ERR invalid key''), st)
           | Some key \<Rightarrow>
               with_db st db_index absent
                 (\<lambda>db. case db_get clk db key of
                     (Some (RHash h), db') \<Rightarrow> (Some (found h), db')
                   | (Some _, db') \<Rightarrow> (Some wrongtype, db')
                   | (None, db') \<Rightarrow> (Some absent, db'))))"

definition cmd_hgetall :: "ext \<Rightarrow> clock \<Rightarrow> command" where
  "cmd_hgetall E = read_hash ''hgetall''
     (\<lambda>h. resp_array (concat (map (\<lambda>(f, v). [BulkString f, BulkString v]) (hash_iter E h)))) (resp_array [])"

definition cmd_hkeys :: "ext \<Rightarrow> clock \<Rightarrow> command" where
  "cmd_hkeys E = read_hash ''hkeys''
     (\<lambda>h. resp_array (map (\<lambda>(f, v). BulkString f) (hash_iter E h))) (resp_array [])"

definition cmd_hvals :: "ext \<Rightarrow> clock \<Rightarrow> command" where
  "cmd_hvals E = read_hash ''hvals''
     (\<lambda>h. resp_array (map (\<lambda>(f, v). BulkString v) (hash_iter E h))) (resp_array [])"

definition cmd_hlen :: "clock \<Rightarrow> command" where
  "cmd_hlen = read_hash ''hlen'' (\<lambda>h. resp_integer (int (length h))) (resp_integer 0)"

definition cmd_hexists :: "clock \<Rightarrow> command" where
  "cmd_hexists clk st db_index args =
     (case args of
        a # b # _ \<Rightarrow>
          (case get_arg_str a of
             None \<Rightarrow> (Some (resp_err ''ERR invalid key''), st)
           | Some key \<Rightarrow>
               (case get_arg_str b of
                  None \<Rightarrow> (Some (resp_err ''ERR invalid field''), st)
                | Some field \<Rightarrow>
                    with_db st db_index (resp_integer 0)
                      (\<lambda>db. case db_get clk db key of
                          (Some (RHash h), db') \<Rightarrow>
                            (Some (resp_integer (if map_of h field \<noteq> None then 1 else 0)), db')
                        | (Some _, db') \<Rightarrow> (Some wrongtype, db')
                        | (None, db') \<Rightarrow> (Some (resp_integer 0), db'))))
      | _ \<Rightarrow> (Some (arity_error ''hexists''), st))"

subsection \<open>List commands\<close>

fun push_loop :: "bool \<Rightarrow> resp_value list \<Rightarrow> string list \<Rightarrow> string list" where
  "push_loop front [] l = l"
| "push_loop front (arg # args) l =
     (case get_arg_str arg of
        Some v \<Rightarrow> push_loop front args (if front then v # l else l @ [v])
      | None \<Rightarrow> push_loop front args l)"

definition cmd_push :: "string \<Rightarrow> bool \<Rightarrow> clock \<Rightarrow> command" where
  "cmd_push name front clk st db_index args =
     (case args of
        a # b # rest \<Rightarrow>
          (case get_arg_str a of
             None \<Rightarrow> (Some (resp_err ''ERR invalid key''), st)
           | Some key \<Rightarrow>
               with_db st db_index (resp_err ''ERR invalid database'')
                 (\<lambda>db. case db_get clk db key of
                     (Some (RList l), db') \<Rightarrow>
                       (let l' = push_loop front (b # rest) l
                        in set_reply (later 2 clk) db' key (RList l') None (resp_integer (int (length l'))))
                   | (Some _, db') \<Rightarrow> (Some wrongtype, db')
                   | (None, db') \<Rightarrow>
                       (let l' = push_loop front (b # rest) []
                        in set_reply (later 2 clk) db' key (RList l') None (resp_integer (int (length l'))))))
      | _ \<Rightarrow> (Some (arity_error name), st))"

definition cmd_lpush :: "clock \<Rightarrow> command" where
  "cmd_lpush = cmd_push ''lpush'' True"

definition cmd_rpush :: "clock \<Rightarrow> command" where
  "cmd_rpush = cmd_push ''rpush'' False"

text \<open>\<open>pop_front\<close> and \<open>pop_back\<close>.\<close>

definition pop_list :: "bool \<Rightarrow> string list \<Rightarrow> (string \<times> string list) option" where
  "pop_list front l =
     (if l = [] then None else if front then Some (hd l, tl l) else Some (last l, butlast l))"

definition cmd_pop :: "string \<Rightarrow> bool \<Rightarrow> clock \<Rightarrow> command" where
  "cmd_pop name front clk st db_index args =
     (case args of
        [] \<Rightarrow> (Some (arity_error name), st)
      | a # _ \<Rightarrow>
          (case get_arg_str a of
             None \<Rightarrow> (Some (resp_err ''ERR invalid key''), st)
           | Some key \<Rightarrow>
               with_db st db_index resp_null
                 (\<lambda>db. case db_get clk db key of
                     (Some (RList l), db') \<Rightarrow>
                       (case pop_list front l of
                          Some (v, l') \<Rightarrow> set_or_del (later 2 clk) db' key (l' = []) (RList l') (resp_bulk v)
                        | None \<Rightarrow> (Some resp_null, db'))
                   | (Some _, db') \<Rightarrow> (Some wrongtype, db')
                   | (None, db') \<Rightarrow> (Some resp_null, db'))))"

definition cmd_lpop :: "clock \<Rightarrow> command" where
  "cmd_lpop = cmd_pop ''lpop'' True"

definition cmd_rpop :: "clock \<Rightarrow> command" where
  "cmd_rpop = cmd_pop ''rpop'' False"

text \<open>The index arithmetic of LRANGE and ZRANGE: \<open>None\<close> for an empty range, else the number of
  elements to skip and to take.\<close>

definition range_bounds :: "nat \<Rightarrow> int \<Rightarrow> int \<Rightarrow> (nat \<times> nat) option" where
  "range_bounds n start stop =
     (let len = int n;
          start' = i64_as_usize (if start < 0 then max (len + start) 0 else min start len);
          stop' = i64_as_usize (if stop < 0 then max (len + stop) 0 else min stop (len - 1))
      in if stop' < start' \<or> n \<le> start' then None else Some (start', stop' - start' + 1))"

definition cmd_lrange :: "clock \<Rightarrow> command" where
  "cmd_lrange clk st db_index args =
     (case args of
        a # b # c # _ \<Rightarrow>
          (case get_arg_str a of
             None \<Rightarrow> (Some (resp_err ''ERR invalid key''), st)
           | Some key \<Rightarrow>
               (case get_arg_int b of
                  None \<Rightarrow> (Some (resp_err ''ERR invalid start index''), st)
                | Some start \<Rightarrow>
                    (case get_arg_int c of
                       None \<Rightarrow> (Some (resp_err ''ERR invalid stop index''), st)
                     | Some stop \<Rightarrow>
                         with_db st db_index (resp_array [])
                           (\<lambda>db. case db_get clk db key of
                               (Some (RList l), db') \<Rightarrow>
                                 (case range_bounds (length l) start stop of
                                    None \<Rightarrow> (Some (resp_array []), db')
                                  | Some (s, n) \<Rightarrow> (Some (resp_array (map BulkString (take n (drop s l)))), db'))
                             | (Some _, db') \<Rightarrow> (Some wrongtype, db')
                             | (None, db') \<Rightarrow> (Some (resp_array []), db')))))
      | _ \<Rightarrow> (Some (arity_error ''lrange''), st))"

definition cmd_llen :: "clock \<Rightarrow> command" where
  "cmd_llen clk st db_index args =
     (case args of
        [] \<Rightarrow> (Some (arity_error ''llen''), st)
      | a # _ \<Rightarrow>
          (case get_arg_str a of
             None \<Rightarrow> (Some (resp_err ''ERR invalid key''), st)
           | Some key \<Rightarrow>
               with_db st db_index (resp_integer 0)
                 (\<lambda>db. case db_get clk db key of
                     (Some (RList l), db') \<Rightarrow> (Some (resp_integer (int (length l))), db')
                   | (Some _, db') \<Rightarrow> (Some wrongtype, db')
                   | (None, db') \<Rightarrow> (Some (resp_integer 0), db'))))"

definition cmd_lindex :: "clock \<Rightarrow> command" where
  "cmd_lindex clk st db_index args =
     (case args of
        a # b # _ \<Rightarrow>
          (case get_arg_str a of
             None \<Rightarrow> (Some (resp_err ''ERR invalid key''), st)
           | Some key \<Rightarrow>
               (case get_arg_int b of
                  None \<Rightarrow> (Some (resp_err ''ERR invalid index''), st)
                | Some index \<Rightarrow>
                    with_db st db_index resp_null
                      (\<lambda>db. case db_get clk db key of
                          (Some (RList l), db') \<Rightarrow>
                            (let idx = (if index < 0 then i64_as_usize (int (length l) + index) else i64_as_usize index)
                             in if idx < length l then (Some (resp_bulk (l ! idx)), db')
                                else (Some resp_null, db'))
                        | (Some _, db') \<Rightarrow> (Some wrongtype, db')
                        | (None, db') \<Rightarrow> (Some resp_null, db'))))
      | _ \<Rightarrow> (Some (arity_error ''lindex''), st))"

subsection \<open>Set commands\<close>

fun sadd_loop :: "resp_value list \<Rightarrow> nat \<Rightarrow> string list \<Rightarrow> nat \<times> string list" where
  "sadd_loop [] added s = (added, s)"
| "sadd_loop (arg # args) added s =
     (case get_arg_str arg of
        Some m \<Rightarrow> if m \<in> set s then sadd_loop args added s else sadd_loop args (added + 1) (s @ [m])
      | None \<Rightarrow> sadd_loop args added s)"

definition cmd_sadd :: "clock \<Rightarrow> command" where
  "cmd_sadd clk st db_index args =
     (case args of
        a # b # rest \<Rightarrow>
          (case get_arg_str a of
             None \<Rightarrow> (Some (resp_err ''ERR invalid key''), st)
           | Some key \<Rightarrow>
               with_db st db_index (resp_err ''ERR invalid database'')
                 (\<lambda>db. case db_get clk db key of
                     (Some (RSet s), db') \<Rightarrow>
                       (case sadd_loop (b # rest) 0 s of
                          (added, s') \<Rightarrow>
                            set_reply (later 2 clk) db' key (RSet s') None (resp_integer (int added)))
                   | (Some _, db') \<Rightarrow> (Some wrongtype, db')
                   | (None, db') \<Rightarrow>
                       (case sadd_loop (b # rest) 0 [] of
                          (added, s') \<Rightarrow>
                            set_reply (later 2 clk) db' key (RSet s') None (resp_integer (int added)))))
      | _ \<Rightarrow> (Some (arity_error ''sadd''), st))"

fun srem_loop :: "resp_value list \<Rightarrow> nat \<Rightarrow> string list \<Rightarrow> nat \<times> string list" where
  "srem_loop [] removed s = (removed, s)"
| "srem_loop (arg # args) removed s =
     (case get_arg_str arg of
        Some m \<Rightarrow> if m \<in> set s then srem_loop args (removed + 1) (removeAll m s) else srem_loop args removed s
      | None \<Rightarrow> srem_loop args removed s)"

definition cmd_srem :: "clock \<Rightarrow> command" where
  "cmd_srem clk st db_index args =
     (case args of
        a # b # rest \<Rightarrow>
          (case get_arg_str a of
             None \<Rightarrow> (Some (resp_err ''ERR invalid key''), st)
           | Some key \<Rightarrow>
               with_db st db_index (resp_integer 0)
                 (\<lambda>db. case db_get clk db key of
                     (Some (RSet s), db') \<Rightarrow>
                       (case srem_loop (b # rest) 0 s of
                          (removed, s') \<Rightarrow>
                            set_or_del (later 2 clk) db' key (s' = []) (RSet s') (resp_integer (int removed)))
                   | (Some _, db') \<Rightarrow> (Some wrongtype, db')
                   | (None, db') \<Rightarrow> (Some (resp_integer 0), db')))
      | _ \<Rightarrow> (Some (arity_error ''srem''), st))"

definition cmd_smembers :: "ext \<Rightarrow> clock \<Rightarrow> command" where
  "cmd_smembers E clk st db_index args =
     (case args of
        [] \<Rightarrow> (Some (arity_error ''smembers''), st)
      | a # _ \<Rightarrow>
          (case get_arg_str a of
             None \<Rightarrow> (Some (resp_err ''ERR invalid key''), st)
           | Some key \<Rightarrow>
               with_db st db_index (resp_array [])
                 (\<lambda>db. case db_get clk db key of
                     (Some (RSet s), db') \<Rightarrow> (Some (resp_array (map BulkString (key_order E s))), db')
                   | (Some _, db') \<Rightarrow> (Some wrongtype, db')
                   | (None, db') \<Rightarrow> (Some (resp_array []), db'))))"

definition cmd_scard :: "clock \<Rightarrow> command" where
  "cmd_scard clk st db_index args =
     (case args of
        [] \<Rightarrow> (Some (arity_error ''scard''), st)
      | a # _ \<Rightarrow>
          (case get_arg_str a of
             None \<Rightarrow> (Some (resp_err ''ERR invalid key''), st)
           | Some key \<Rightarrow>
               with_db st db_index (resp_integer 0)
                 (\<lambda>db. case db_get clk db key of
                     (Some (RSet s), db') \<Rightarrow> (Some (resp_integer (int (length s))), db')
                   | (Some _, db') \<Rightarrow> (Some wrongtype, db')
                   | (None, db') \<Rightarrow> (Some (resp_integer 0), db'))))"

definition cmd_sismember :: "clock \<Rightarrow> command" where
  "cmd_sismember clk st db_index args =
     (case args of
        a # b # _ \<Rightarrow>
          (case get_arg_str a of
             None \<Rightarrow> (Some (resp_err ''ERR invalid key''), st)
           | Some key \<Rightarrow>
               (case get_arg_str b of
                  None \<Rightarrow> (Some (resp_err ''ERR invalid member''), st)
                | Some m \<Rightarrow>
                    with_db st db_index (resp_integer 0)
                      (\<lambda>db. case db_get clk db key of
                          (Some (RSet s), db') \<Rightarrow> (Some (resp_integer (if m \<in> set s then 1 else 0)), db')
                        | (Some _, db') \<Rightarrow> (Some wrongtype, db')
                        | (None, db') \<Rightarrow> (Some (resp_integer 0), db'))))
      | _ \<Rightarrow> (Some (arity_error ''sismember''), st))"

subsection \<open>Sorted set commands\<close>

fun zadd_loop :: "ext \<Rightarrow> resp_value list list \<Rightarrow> nat \<Rightarrow> (f64 \<times> string) list \<Rightarrow> nat \<times> (f64 \<times> string) list" where
  "zadd_loop E [] added z = (added, z)"
| "zadd_loop E (chunk # chunks) added z =
     (case chunk of
        [a, b] \<Rightarrow>
          (case (get_arg_str a, get_arg_str b) of
             (Some score_str, Some m) \<Rightarrow>
               (case parse_f64 E score_str of
                  Some score \<Rightarrow>
                    (let existed = (\<exists>x \<in> set z. snd x = m);
                         z' = btree_insert (score, m) (filter (\<lambda>x. snd x \<noteq> m) z)
                     in zadd_loop E chunks (if existed then added else added + 1) z')
                | None \<Rightarrow> zadd_loop E chunks added z)
           | _ \<Rightarrow> zadd_loop E chunks added z)
      | _ \<Rightarrow> zadd_loop E chunks added z)"

definition cmd_zadd :: "ext \<Rightarrow> clock \<Rightarrow> command" where
  "cmd_zadd E clk st db_index args =
     (case args of
        a # b # c # rest \<Rightarrow>
          (case get_arg_str a of
             None \<Rightarrow> (Some (resp_err ''ERR invalid key''), st)
           | Some key \<Rightarrow>
               with_db st db_index (resp_err ''ERR invalid database'')
                 (\<lambda>db. case db_get clk db key of
                     (Some (RSortedSet z), db') \<Rightarrow>
                       (case zadd_loop E (chunks2 (b # c # rest)) 0 z of
                          (added, z') \<Rightarrow>
                            set_reply (later 2 clk) db' key (RSortedSet z') None (resp_integer (int added)))
                   | (Some _, db') \<Rightarrow> (Some wrongtype, db')
                   | (None, db') \<Rightarrow>
                       (case zadd_loop E (chunks2 (b # c # rest)) 0 [] of
                          (added, z') \<Rightarrow>
                            set_reply (later 2 clk) db' key (RSortedSet z') None (resp_integer (int added)))))
      | _ \<Rightarrow> (Some (arity_error ''zadd''), st))"

fun zrem_loop :: "resp_value list \<Rightarrow> nat \<Rightarrow> (f64 \<times> string) list \<Rightarrow> nat \<times> (f64 \<times> string) list" where
  "zrem_loop [] removed z = (removed, z)"
| "zrem_loop (arg # args) removed z =
     (case get_arg_str arg of
        Some m \<Rightarrow>
          (let z' = filter (\<lambda>x. snd x \<noteq> m) z
           in zrem_loop args (if length z' < length z then removed + 1 else removed) z')
      | None \<Rightarrow> zrem_loop args removed z)"

definition cmd_zrem :: "clock \<Rightarrow> command" where
  "cmd_zrem clk st db_index args =
     (case args of
        a # b # rest \<Rightarrow>
          (case get_arg_str a of
             None \<Rightarrow> (Some (resp_err ''ERR invalid key''), st)
           | Some key \<Rightarrow>
               with_db st db_index (resp_integer 0)
                 (\<lambda>db. case db_get clk db key of
                     (Some (RSortedSet z), db') \<Rightarrow>
                       (case zrem_loop (b # rest) 0 z of
                          (removed, z') \<Rightarrow>
                            set_or_del (later 2 clk) db' key (z' = []) (RSortedSet z') (resp_integer (int removed)))
                   | (Some _, db') \<Rightarrow> (Some wrongtype, db')
                   | (None, db') \<Rightarrow> (Some (resp_integer 0), db')))
      | _ \<Rightarrow> (Some (arity_error ''zrem''), st))"

definition zrange_reply :: "ext \<Rightarrow> bool \<Rightarrow> (f64 \<times> string) list \<Rightarrow> resp_value list" where
  "zrange_reply E withscores z =
     concat (map (\<lambda>(score, m). BulkString m # (if withscores then [BulkString (show_f64 E score)] else [])) z)"

definition cmd_zrange :: "ext \<Rightarrow> clock \<Rightarrow> command" where
  "cmd_zrange E clk st db_index args =
     (case args of
        a # b # c # rest \<Rightarrow>
          (case get_arg_str a of
             None \<Rightarrow> (Some (resp_err ''ERR invalid key''), st)
           | Some key \<Rightarrow>
               (case get_arg_int b of
                  None \<Rightarrow> (Some (resp_err ''ERR invalid start index''), st)
                | Some start \<Rightarrow>
                    (case get_arg_int c of
                       None \<Rightarrow> (Some (resp_err ''ERR invalid stop index''), st)
                     | Some stop \<Rightarrow>
                         (let withscores =
                            (case rest of
                               d # _ \<Rightarrow>
                                 (case get_arg_str d of
                                    Some s \<Rightarrow> to_uppercase (uni_upper E) s = ''WITHSCORES''
                                  | None \<Rightarrow> False)
                             | [] \<Rightarrow> False)
                          in with_db st db_index (resp_array [])
                               (\<lambda>db. case db_get clk db key of
                                   (Some (RSortedSet z), db') \<Rightarrow>
                                     (case range_bounds (length z) start stop of
                                        None \<Rightarrow> (Some (resp_array []), db')
                                      | Some (s, n) \<Rightarrow>
                                          (Some (resp_array (zrange_reply E withscores (take n (drop s z)))), db'))
                                 | (Some _, db') \<Rightarrow> (Some wrongtype, db')
                                 | (None, db') \<Rightarrow> (Some (resp_array []), db'))))))
      | _ \<Rightarrow> (Some (arity_error ''zrange''), st))"

definition cmd_zcard :: "clock \<Rightarrow> command" where
  "cmd_zcard clk st db_index args =
     (case args of
        [] \<Rightarrow> (Some (arity_error ''zcard''), st)
      | a # _ \<Rightarrow>
          (case get_arg_str a of
             None \<Rightarrow> (Some (resp_err ''ERR invalid key''), st)
           | Some key \<Rightarrow>
               with_db st db_index (resp_integer 0)
                 (\<lambda>db. case db_get clk db key of
                     (Some (RSortedSet z), db') \<Rightarrow> (Some (resp_integer (int (length z))), db')
                   | (Some _, db') \<Rightarrow> (Some wrongtype, db')
                   | (None, db') \<Rightarrow> (Some (resp_integer 0), db'))))"

definition cmd_zscore :: "ext \<Rightarrow> clock \<Rightarrow> command" where
  "cmd_zscore E clk st db_index args =
     (case args of
        a # b # _ \<Rightarrow>
          (case get_arg_str a of
             None \<Rightarrow> (Some (resp_err ''ERR invalid key''), st)
           | Some key \<Rightarrow>
               (case get_arg_str b of
                  None \<Rightarrow> (Some (resp_err ''ERR invalid member''), st)
                | Some m \<Rightarrow>
                    with_db st db_index resp_null
                      (\<lambda>db. case db_get clk db key of
                          (Some (RSortedSet z), db') \<Rightarrow>
                            (case List.find (\<lambda>x. snd x = m) z of
                               Some (score, _) \<Rightarrow> (Some (resp_bulk (show_f64 E score)), db')
                             | None \<Rightarrow> (Some resp_null, db'))
                        | (Some _, db') \<Rightarrow> (Some wrongtype, db')
                        | (None, db') \<Rightarrow> (Some resp_null, db'))))
      | _ \<Rightarrow> (Some (arity_error ''zscore''), st))"

subsection \<open>Dispatch\<close>

text \<open>The arms of the \<open>match\<close> in \<open>handle_command\<close>, in its order.\<close>

definition redis_commands :: "ext \<Rightarrow> clock \<Rightarrow> string option \<Rightarrow> (string \<times> command) list" where
  "redis_commands E clk password =
     [(''PING'', \<lambda>st i args. (cmd_ping args, st)),
      (''ECHO'', \<lambda>st i args. (cmd_echo args, st)),
      (''QUIT'', \<lambda>st i args. (Some resp_ok, st)),
      (''AUTH'', \<lambda>st i args. (cmd_auth password args, st)),
      (''SELECT'', \<lambda>st i args. (cmd_select args, st)),
      (''INFO'', \<lambda>st i args. (cmd_info st, st)),
      (''DBSIZE'', \<lambda>st i args. (cmd_dbsize st i, st)),
      (''FLUSHDB'', \<lambda>st i args. cmd_flushdb st i),
      (''FLUSHALL'', \<lambda>st i args. cmd_flushall st),
      (''COMMAND'', \<lambda>st i args. (Some resp_ok, st)),
      (''CONFIG'', \<lambda>st i args. (cmd_config E args, st)),
      (''CLIENT'', \<lambda>st i args. (cmd_client E args, st)),
      (''DEL'', cmd_del),
      (''EXISTS'', cmd_exists clk),
      (''EXPIRE'', cmd_expire clk),
      (''TTL'', cmd_ttl clk),
      (''TYPE'', cmd_type clk),
      (''KEYS'', cmd_keys E clk),
      (''RENAME'', cmd_rename clk),
      (''GET'', cmd_get clk),
      (''SET'', cmd_set E clk),
      (''MGET'', cmd_mget clk),
      (''MSET'', cmd_mset clk),
      (''INCR'', cmd_incr clk),
      (''DECR'', cmd_decr clk),
      (''INCRBY'', cmd_incrby clk),
      (''DECRBY'', cmd_decrby clk),
      (''APPEND'', cmd_append clk),
      (''STRLEN'', cmd_strlen clk),
      (''HGET'', cmd_hget clk),
      (''HSET'', cmd_hset clk),
      (''HMGET'', cmd_hmget clk),
      (''HMSET'', cmd_hmset clk),
      (''HDEL'', cmd_hdel clk),
      (''HGETALL'', cmd_hgetall E clk),
      (''HKEYS'', cmd_hkeys E clk),
      (''HVALS'', cmd_hvals E clk),
      (''HLEN'', cmd_hlen clk),
      (''HEXISTS'', cmd_hexists clk),
      (''LPUSH'', cmd_lpush clk),
      (''RPUSH'', cmd_rpush clk),
      (''LPOP'', cmd_lpop clk),
      (''RPOP'', cmd_rpop clk),
      (''LRANGE'', cmd_lrange clk),
      (''LLEN'', cmd_llen clk),
      (''LINDEX'', cmd_lindex clk),
      (''SADD'', cmd_sadd clk),
      (''SREM'', cmd_srem clk),
      (''SMEMBERS'', cmd_smembers E clk),
      (''SCARD'', cmd_scard clk),
      (''SISMEMBER'', cmd_sismember clk),
      (''ZADD'', cmd_zadd E clk),
      (''ZREM'', cmd_zrem clk),
      (''ZRANGE'', cmd_zrange E clk),
      (''ZCARD'', cmd_zcard clk),
      (''ZSCORE'', cmd_zscore E clk)]"

definition command_name :: "ext \<Rightarrow> resp_value \<Rightarrow> string option" where
  "command_name E v =
     (case v of
        BulkString s \<Rightarrow> Some (to_uppercase (uni_upper E) (from_utf8_lossy s))
      | SimpleString s \<Rightarrow> Some (to_uppercase (uni_upper E) s)
      | _ \<Rightarrow> None)"

definition handle_command :: "ext \<Rightarrow> clock \<Rightarrow> string option \<Rightarrow> command" where
  "handle_command E clk password st db_index cmd =
     (case cmd of
        [] \<Rightarrow> (Some (resp_err ''ERR empty command''), st)
      | c # args \<Rightarrow>
          (case command_name E c of
             None \<Rightarrow> (Some (resp_err ''ERR invalid command format''), st)
           | Some name \<Rightarrow>
               (case map_of (redis_commands E clk password) name of
                  Some f \<Rightarrow> f st db_index args
                | None \<Rightarrow>
                    (Some (resp_err (''ERR unknown command '' @ [CHR 0x27] @ name @ [CHR 0x27])), st))))"

end
