(* ===== verification/Framing.thy ===== *)
theory Framing
  imports Prelude
begin

section \<open>The contract of a framed protocol\<close>

text \<open>
  Every protocol front end cuts a byte stream into frames: a decoder looks at the bytes received so
  far and yields a frame and the bytes after it, asks for more, or rejects them. The locale states
  what the connection loops rely on; the consequence they need, that a stream of encoded frames is
  cut back into exactly those frames however much of the next one has arrived, is proved once.
\<close>

datatype 'v decoded = Got 'v bytes | More | Bad

text \<open>The read loop of a connection: decode until the decoder wants more. \<open>n\<close> bounds the number
  of rounds; every frame consumes at least one byte, so the length of the buffer is enough.\<close>

fun decode_all :: "(bytes \<Rightarrow> 'v decoded) \<Rightarrow> nat \<Rightarrow> bytes \<Rightarrow> 'v list \<times> bytes" where
  "decode_all dec 0 buf = ([], buf)"
| "decode_all dec (Suc n) buf =
     (case dec buf of
        Got v rest \<Rightarrow> (case decode_all dec n rest of (vs, left) \<Rightarrow> (v # vs, left))
      | _ \<Rightarrow> ([], buf))"

locale framing =
  fixes enc :: "'v \<Rightarrow> bytes"
    and wf :: "'v \<Rightarrow> bool"
    and dec :: "bytes \<Rightarrow> 'v decoded"
  assumes dec_enc: "wf v \<Longrightarrow> dec (enc v @ r) = Got v r"
    and dec_part: "wf v \<Longrightarrow> strict_prefix t (enc v) \<Longrightarrow> dec t = More"
    and enc_pos: "wf v \<Longrightarrow> enc v \<noteq> []"
begin

lemma decode_all_frames:
  assumes "\<forall>v \<in> set vs. wf v" and "wf w" and "strict_prefix t (enc w)" and "length vs \<le> n"
  shows "decode_all dec n (concat (map enc vs) @ t) = (vs, t)"
  using assms(1,4)
proof (induction vs arbitrary: n)
  case Nil
  then show ?case using dec_part [OF assms(2,3)] by (cases n) simp_all
next
  case (Cons v vs)
  then obtain m where n: "n = Suc m" by (cases n) auto
  have "dec (enc v @ concat (map enc vs) @ t) = Got v (concat (map enc vs) @ t)"
    using Cons.prems(1) by (intro dec_enc) simp
  with Cons n show ?case by simp
qed

lemma length_frames: "\<forall>v \<in> set vs. wf v \<Longrightarrow> length vs \<le> length (concat (map enc vs))"
proof (induction vs)
  case (Cons v vs)
  then obtain c u where "enc v = c # u" using enc_pos [of v] by (auto simp: neq_Nil_conv)
  with Cons show ?case by simp
qed simp

text \<open>A stream of frames, the last one cut anywhere, is read back exactly.\<close>

lemma decode_stream:
  assumes "\<forall>v \<in> set vs. wf v" and "wf w" and "strict_prefix t (enc w)"
  shows "decode_all dec (length (concat (map enc vs) @ t)) (concat (map enc vs) @ t) = (vs, t)"
  using length_frames [OF assms(1)] by (intro decode_all_frames [OF assms]) simp

text \<open>No frame is the beginning of another one.\<close>

lemma enc_not_strict_prefix: "wf v \<Longrightarrow> wf w \<Longrightarrow> \<not> strict_prefix (enc v) (enc w)"
  using dec_enc [of v "[]"] dec_part [of w "enc v"] by auto

lemma enc_inj: "wf v \<Longrightarrow> wf w \<Longrightarrow> enc v = enc w \<Longrightarrow> v = w"
  using dec_enc [of v "[]"] dec_enc [of w "[]"] by simp

end

end
