(* ===== verification/Resp_Correct.thy ===== *)
theory Resp_Correct
  imports Resp Framing
begin

section \<open>Correctness of the RESP codec\<close>

text \<open>
  What a peer may rely on: a well-formed value survives encoding and parsing, whatever follows
  it in the buffer; a frame that has arrived only in part is reported incomplete and nothing is
  consumed; the result of a parse does not depend on the bytes that follow the frame; a
  successful parse consumes input.
\<close>

subsection \<open>Well-formed values\<close>

fun no_crlf :: "bytes \<Rightarrow> bool" where
  "no_crlf (a # b # s) = (\<not> (a = CR \<and> b = LF) \<and> no_crlf (b # s))"
| "no_crlf s = True"

text \<open>
  \<open>wf_resp d v\<close>: the value fits the limits of the parser, with at most \<open>d\<close> levels of arrays.
\<close>

fun wf_resp :: "nat \<Rightarrow> resp_value \<Rightarrow> bool" where
  "wf_resp d (SimpleString s) = (valid_utf8 s \<and> no_crlf s)"
| "wf_resp d (Error s) = (valid_utf8 s \<and> no_crlf s)"
| "wf_resp d (Integer n) = in_i64 n"
| "wf_resp d (BulkString b) = (int (length b) \<le> 512 * 1024 * 1024)"
| "wf_resp d (Array vs) =
     (0 < d \<and> int (length vs) \<le> 1000000 \<and> (\<forall>v \<in> set vs. wf_resp (d - 1) v))"
| "wf_resp d NullArray = (0 < d)"
| "wf_resp d Null = True"

abbreviation enc :: "resp_value \<Rightarrow> bytes" where
  "enc \<equiv> encode_to_bytes"

subsection \<open>Searching the line end\<close>

lemma find_crlf_here:
  assumes "no_crlf s"
  shows "find_crlf (p @ s @ CR # LF # r) (length p) = Some (length p + length s)"
  using assms
proof (induction s arbitrary: p)
  case Nil
  then show ?case by (subst find_crlf.simps) (simp add: nth_append)
next
  case (Cons c s)
  have "no_crlf s" using Cons.prems by (cases s) auto
  then have IH: "find_crlf ((p @ [c]) @ s @ CR # LF # r) (length (p @ [c])) =
      Some (length (p @ [c]) + length s)"
    by (rule Cons.IH)
  have "\<not> (c = CR \<and> (s @ CR # LF # r) ! 0 = LF)"
    using Cons.prems by (cases s) auto
  with IH show ?case by (subst find_crlf.simps) (simp add: nth_append)
qed

lemma find_crlf_append:
  assumes "find_crlf buf i = Some j"
  shows "find_crlf (buf @ r) i = Some j"
  using assms
proof (induction buf i rule: find_crlf.induct)
  case (1 buf i)
  have len: "i < length buf - 1"
    using "1.prems" by (subst (asm) find_crlf.simps) (simp split: if_splits)
  show ?case
  proof (cases "buf ! i = CR \<and> buf ! (i + 1) = LF")
    case True
    with "1.prems" len show ?thesis
      by (subst find_crlf.simps) (auto simp: nth_append find_crlf.simps [of buf i])
  next
    case False
    with "1.prems" len have "find_crlf buf (i + 1) = Some j"
      by (subst (asm) find_crlf.simps) auto
    with "1.IH" len False have "find_crlf (buf @ r) (i + 1) = Some j" by simp
    with len False show ?thesis
      by (subst find_crlf.simps) (auto simp: nth_append)
  qed
qed

lemma find_crlf_prefix_None:
  assumes "no_crlf s" and "strict_prefix t (s @ CRLF)"
  shows "find_crlf (p @ t) (length p) = None"
proof (cases "find_crlf (p @ t) (length p)")
  case None
  then show ?thesis .
next
  case (Some j)
  obtain u where u: "s @ CRLF = t @ u" "u \<noteq> []"
    using assms(2) by (auto elim: strict_prefixE')
  have "find_crlf (p @ s @ CR # LF # []) (length p) = Some (length p + length s)"
    by (rule find_crlf_here [OF assms(1)])
  moreover have "find_crlf ((p @ t) @ u) (length p) = Some j"
    by (rule find_crlf_append [OF Some])
  ultimately have "j = length p + length s" using u(1) by simp
  moreover have "j + 1 < length p + length t"
    using find_crlf_SomeD [OF Some] by simp
  moreover have "length t < length s + 2" using u by (metis One_nat_def Suc_1 length_Cons length_append length_greater_0_conv less_add_same_cancel1 list.size(3))
  ultimately show ?thesis by simp
qed

subsection \<open>The shape of encoded values\<close>

lemma fold_append_out:
  assumes "\<And>v b. v \<in> set vs \<Longrightarrow> f v b = b @ g v"
  shows "fold f vs b = b @ concat (map g vs)"
  using assms by (induction vs arbitrary: b) simp_all

lemma encode_append: "encode v buf = buf @ enc v"
proof (induction v arbitrary: buf)
  case (Array vs)
  then have "fold encode vs b = b @ concat (map enc vs)" for b
    by (intro fold_append_out)
  then show ?case by (simp add: encode_to_bytes_def)
qed (simp_all add: encode_to_bytes_def)

lemma fold_encode: "fold encode vs b = b @ concat (map enc vs)"
  by (rule fold_append_out) (rule encode_append)

lemma enc_simps [simp]:
  "enc (SimpleString s) = CHR ''+'' # s @ CRLF"
  "enc (Error s) = CHR ''-'' # s @ CRLF"
  "enc (Integer n) = CHR '':'' # show_int n @ CRLF"
  "enc (BulkString b) = CHR ''$'' # show_nat (length b) @ CR # LF # b @ CRLF"
  "enc Null = CHR ''$'' # ''-1'' @ CRLF"
  "enc (Array vs) = CHR ''*'' # show_nat (length vs) @ CR # LF # concat (map enc vs)"
  "enc NullArray = CHR ''*'' # ''-1'' @ CRLF"
  by (simp_all add: encode_to_bytes_def fold_encode)

lemma enc_nonempty [simp]: "enc v \<noteq> []"
  by (cases v) simp_all

subsection \<open>Headers\<close>

lemma no_crlf_if_no_CR [intro]: "CR \<notin> set s \<Longrightarrow> no_crlf s"
  by (induction s rule: no_crlf.induct) auto

lemma show_nat_no_CR [simp]: "CR \<notin> set (show_nat n)"
  using set_show_nat [of n] by (auto simp: digits_def)

lemma no_crlf_show [simp]: "no_crlf (show_nat n)" "no_crlf (show_int i)"
  by auto

lemma show_nat_ascii [simp]: "is_ascii (show_nat n)"
  using set_show_nat [of n] by (auto simp: is_ascii_def digits_def)

lemma parse_i64_show_nat: "in_i64 (int n) \<Longrightarrow> parse_i64 (show_nat n) = Some (int n)"
  using parse_i64_show_int [of "int n"] by (simp add: show_int_def)

lemma parse_i64_len:
  "int n \<le> 512 * 1024 * 1024 \<Longrightarrow> parse_i64 (show_nat n) = Some (int n)"
  "int n \<le> 1000000 \<Longrightarrow> parse_i64 (show_nat n) = Some (int n)"
  by (auto simp: in_i64_def i64_min_def i64_max_def intro!: parse_i64_show_nat)

lemma parse_i64_minus_one [simp]: "parse_i64 ''-1'' = Some (-1)"
  by code_simp

lemma valid_utf8_show [simp]: "valid_utf8 (show_nat n)" "valid_utf8 (show_int i)"
  by (auto intro: valid_utf8_ascii)

lemma valid_utf8_minus_one [simp]: "valid_utf8 ''-1''" "no_crlf ''-1''"
  by code_simp+

text \<open>The line that starts right after a one byte marker at position \<open>length p\<close>.\<close>

lemma find_crlf_after_marker:
  assumes "no_crlf s"
  shows "find_crlf (p @ c # s @ CR # LF # r) (Suc (length p)) = Some (Suc (length p) + length s)"
  using find_crlf_here [OF assms, of "p @ [c]" r] by simp

lemma slice_after_marker [simp]:
  "slice (p @ c # s @ t) (Suc (length p)) (Suc (length p + length s)) = s"
  by (simp add: slice_def)

lemma nth_marker [simp]: "(p @ c # s) ! length p = c"
  by (simp add: nth_append)

lemma find_crlf_after_marker0:
  "no_crlf s \<Longrightarrow> find_crlf (c # s @ CR # LF # r) (Suc 0) = Some (Suc (length s))"
  using find_crlf_after_marker [of s "[]"] by simp

lemma slice_after_marker0 [simp]: "slice (c # s @ t) (Suc 0) (Suc (length s)) = s"
  using slice_after_marker [of "[]"] by simp

subsection \<open>Sizing what the encoder wrote\<close>

lemma measure_elems_enc:
  assumes "\<And>v p r. v \<in> set vs \<Longrightarrow> measure_value (p @ enc v @ r) (length p) d = Some (length (enc v))"
  shows "measure_elems (p @ concat (map enc vs) @ r) (length p) d (length vs) =
    Some (length p + length (concat (map enc vs)))"
  using assms
proof (induction vs arbitrary: p)
  case Nil
  then show ?case by simp
next
  case (Cons v vs)
  have "measure_elems ((p @ enc v) @ concat (map enc vs) @ r) (length (p @ enc v)) d (length vs) =
      Some (length (p @ enc v) + length (concat (map enc vs)))"
    using Cons.prems by (intro Cons.IH) simp
  with Cons.prems [of v p "concat (map enc vs) @ r"] show ?case by simp
qed

lemma measure_enc:
  assumes "wf_resp k v" and "k + d \<le> MAX_DEPTH"
  shows "measure_value (p @ enc v @ r) (length p) d = Some (length (enc v))"
  using assms
proof (induction v arbitrary: k d p r)
  case (Array vs)
  let ?n = "length vs" and ?body = "concat (map enc vs)"
  let ?hdr = "p @ CHR ''*'' # show_nat ?n @ CRLF"
  have IH: "measure_value (q @ enc v @ t) (length q) (Suc d) = Some (length (enc v))"
    if "v \<in> set vs" for v q t
    using that Array.prems by (intro Array.IH [of v "k - 1"]) auto
  have elems: "measure_elems (?hdr @ ?body @ r) (length ?hdr) (Suc d) ?n =
      Some (length ?hdr + length ?body)"
    by (rule measure_elems_enc) (rule IH)
  have "find_crlf (p @ CHR ''*'' # show_nat ?n @ CR # LF # ?body @ r) (Suc (length p)) =
      Some (Suc (length p) + length (show_nat ?n))"
    by (rule find_crlf_after_marker) simp
  with elems Array.prems show ?case
    by (subst measure_value.simps) (simp add: find_crlf_in_def parse_i64_len)
next
  case (BulkString b)
  have "find_crlf (p @ CHR ''$'' # show_nat (length b) @ CR # LF # b @ CRLF @ r) (Suc (length p)) =
      Some (Suc (length p) + length (show_nat (length b)))"
    by (rule find_crlf_after_marker) simp
  with BulkString.prems show ?case
    by (subst measure_value.simps) (simp add: find_crlf_in_def parse_i64_len Let_def)
next
  case Null
  have "find_crlf (p @ CHR ''$'' # ''-1'' @ CR # LF # r) (Suc (length p)) =
      Some (Suc (length p) + length ''-1'')"
    by (rule find_crlf_after_marker) simp
  then show ?case
    using slice_after_marker [of p "CHR ''$''" "''-1''" "CRLF @ r"]
    by (subst measure_value.simps) (simp add: find_crlf_in_def)
next
  case NullArray
  have "find_crlf (p @ CHR ''*'' # ''-1'' @ CR # LF # r) (Suc (length p)) =
      Some (Suc (length p) + length ''-1'')"
    by (rule find_crlf_after_marker) simp
  then show ?case
    using NullArray slice_after_marker [of p "CHR ''*''" "''-1''" "CRLF @ r"]
    by (subst measure_value.simps) (simp add: find_crlf_in_def)
qed (subst measure_value.simps; simp add: find_crlf_after_marker)+

subsection \<open>Parsing what the encoder wrote\<close>

lemma parse_elements_enc:
  assumes "\<And>v r. v \<in> set vs \<Longrightarrow> parse (enc v @ r) = (Inr (Some v), r)"
  shows "parse_elements (length vs) es (concat (map enc vs) @ r) = (Inr (Some (Array (es @ vs))), r)"
  using assms by (induction vs arbitrary: es) simp_all

lemma drop_bulk_body: "drop (4 + length b) (x # y # b @ z # w # r) = r"
  by (simp add: numeral_eq_Suc)

lemmas parse_leaf_defs =
  parse_simple_string_def parse_error_def parse_integer_def parse_line_def parse_bulk_string_def

lemma parse_enc:
  assumes "wf_resp k v" and "k \<le> MAX_DEPTH"
  shows "parse (enc v @ r) = (Inr (Some v), r)"
  using assms
proof (induction v arbitrary: k r)
  case (Array vs)
  let ?n = "length vs" and ?body = "concat (map enc vs)"
  have sz: "measure_value (enc (Array vs) @ r) 0 0 = Some (length (enc (Array vs)))"
    using measure_enc [OF Array.prems(1), of 0 "[]" r] Array.prems(2) by simp
  have "parse_elements ?n [] (?body @ r) = (Inr (Some (Array ([] @ vs))), r)"
  proof (rule parse_elements_enc)
    fix v r assume "v \<in> set vs"
    then show "parse (enc v @ r) = (Inr (Some v), r)"
      using Array.prems by (intro Array.IH [of v "k - 1"]) auto
  qed
  then have "parse_array (enc (Array vs) @ r) = (Inr (Some (Array vs)), r)"
    using sz Array.prems(1)
    by (simp add: parse_array.simps find_crlf_after_marker0 parse_i64_len)
  then show ?case by (subst parse.simps) simp
next
  case NullArray
  have sz: "measure_value (enc NullArray @ r) 0 0 = Some (length (enc NullArray))"
    using measure_enc [OF NullArray(1), of 0 "[]" r] NullArray(2) by simp
  have "parse_array (enc NullArray @ r) = (Inr (Some NullArray), r)"
    using sz find_crlf_after_marker0 [of "''-1''" "CHR ''*''" r]
      slice_after_marker0 [of "CHR ''*''" "''-1''" "CRLF @ r"]
    by (simp add: parse_array.simps)
  then show ?case by (subst parse.simps) simp
next
  case Null
  show ?case
    using find_crlf_after_marker0 [of "''-1''" "CHR ''$''" r]
      slice_after_marker0 [of "CHR ''$''" "''-1''" "CRLF @ r"]
    by (subst parse.simps) (simp add: parse_leaf_defs)
next
  case (BulkString b)
  then show ?case
    by (subst parse.simps)
       (simp add: parse_leaf_defs find_crlf_after_marker0 parse_i64_len Let_def, simp add: slice_def drop_bulk_body)
qed (subst parse.simps; simp add: parse_leaf_defs find_crlf_after_marker0)+

subsection \<open>Bytes that follow do not matter\<close>

lemma slice_append: "b \<le> length buf \<Longrightarrow> slice (buf @ r) a b = slice buf a b"
  by (simp add: slice_def)

text \<open>What a sized array looks like, and the converse.\<close>

lemma measure_array_SomeE:
  assumes "measure_value buf off d = Some n" and "buf ! off = CHR ''*''"
  obtains pos str cnt where
    "off < length buf" "d < MAX_DEPTH" "find_crlf_in buf (off + 1) = Some pos"
    "from_utf8 (slice buf (off + 1) pos) = Some str" "parse_i64 str = Some cnt"
    "(if cnt < 0 then n = pos + 2 - off
      else (\<exists>q. measure_elems buf (pos + 2) (d + 1) (nat cnt) = Some q \<and> q \<le> length buf \<and> n = q - off))"
  using assms(1)
  by (subst (asm) measure_value.simps) (auto simp: assms(2) not_le split: if_splits option.splits)

lemma measure_array_SomeI:
  assumes "off < length buf" "d < MAX_DEPTH" "find_crlf_in buf (off + 1) = Some pos"
    "from_utf8 (slice buf (off + 1) pos) = Some str" "parse_i64 str = Some cnt"
    "(if cnt < 0 then n = pos + 2 - off
      else (\<exists>q. measure_elems buf (pos + 2) (d + 1) (nat cnt) = Some q \<and> q \<le> length buf \<and> n = q - off))"
    and "buf ! off = CHR ''*''"
  shows "measure_value buf off d = Some n"
  using assms by (subst measure_value.simps) (auto split: if_splits)

lemma measure_bounds:
  "measure_value buf off d = Some n \<Longrightarrow> 2 \<le> n \<and> off + n \<le> length buf"
  "measure_elems buf pos d m = Some q \<Longrightarrow> pos \<le> q \<and> (0 < m \<longrightarrow> q \<le> length buf)"
proof (induction buf off d and buf pos d m arbitrary: n and q rule: measure_value_measure_elems.induct)
  case (1 buf off d)
  show ?case
  proof (cases "buf ! off = CHR ''*''")
    case True
    from "1.prems" True show ?thesis
    proof (rule measure_array_SomeE)
      fix pos str cnt
      assume h: "off < length buf" "d < MAX_DEPTH" "find_crlf_in buf (off + 1) = Some pos"
        "from_utf8 (slice buf (off + 1) pos) = Some str" "parse_i64 str = Some cnt"
        "(if cnt < 0 then n = pos + 2 - off
          else (\<exists>q. measure_elems buf (pos + 2) (d + 1) (nat cnt) = Some q \<and> q \<le> length buf \<and> n = q - off))"
      have pos: "off + 1 \<le> pos" "pos + 1 < length buf"
        using h(3) by (auto simp: find_crlf_in_def dest: find_crlf_SomeD)
      show ?thesis
      proof (cases "cnt < 0")
        case True
        with h(6) pos show ?thesis by auto
      next
        case False
        with h(6) obtain q where q: "measure_elems buf (pos + 2) (d + 1) (nat cnt) = Some q"
          "q \<le> length buf" "n = q - off" by auto
        have "pos + 2 \<le> q" using "1.IH" [OF _ _ _ True _ h(3,4,5) False q(1)] h True by simp
        with q pos show ?thesis by auto
      qed
    qed
  next
    case False
    from "1.prems" show ?thesis
      by (subst (asm) measure_value.simps)
         (auto simp: False find_crlf_in_def Let_def split: if_splits option.splits dest: find_crlf_SomeD)
  qed
next
  case (3 buf pos d m)
  from "3.prems" obtain sz where sz: "measure_value buf pos d = Some sz"
    and rest: "measure_elems buf (pos + sz) d m = Some q"
    by (auto split: option.splits)
  show ?case
    using "3.IH"(1) [OF sz] "3.IH"(2) [OF sz rest] rest by (cases m) auto
qed simp

lemma measure_append:
  "measure_value buf off d = Some n \<Longrightarrow> measure_value (buf @ r) off d = Some n"
  "measure_elems buf pos d m = Some q \<Longrightarrow> measure_elems (buf @ r) pos d m = Some q"
proof (induction buf off d and buf pos d m arbitrary: n and q rule: measure_value_measure_elems.induct)
  case (1 buf off d)
  have off: "off < length buf"
    using "1.prems" by (subst (asm) measure_value.simps) (simp split: if_splits)
  show ?case
  proof (cases "buf ! off = CHR ''*''")
    case True
    from "1.prems" True show ?thesis
    proof (rule measure_array_SomeE)
      fix pos str cnt
      assume h: "off < length buf" "d < MAX_DEPTH" "find_crlf_in buf (off + 1) = Some pos"
        "from_utf8 (slice buf (off + 1) pos) = Some str" "parse_i64 str = Some cnt"
        "(if cnt < 0 then n = pos + 2 - off
          else (\<exists>q. measure_elems buf (pos + 2) (d + 1) (nat cnt) = Some q \<and> q \<le> length buf \<and> n = q - off))"
      have "measure_elems (buf @ r) (pos + 2) (d + 1) (nat cnt) = Some q"
        if "\<not> cnt < 0" "measure_elems buf (pos + 2) (d + 1) (nat cnt) = Some q" for q
        using "1.IH" [OF _ _ _ True _ h(3,4,5) that(1) that(2)] h True by simp
      with h show ?thesis
        using find_crlf_SomeD [of buf "off + 1" pos] True
        by (intro measure_array_SomeI [of off "buf @ r" d pos str cnt])
           (auto simp: find_crlf_in_def find_crlf_append nth_append slice_append)
    qed
  next
    case False
    from "1.prems" show ?thesis
      by (subst (asm) measure_value.simps, subst measure_value.simps)
         (auto simp: False find_crlf_in_def Let_def nth_append off slice_append find_crlf_append
           split: if_splits option.splits dest: find_crlf_SomeD)
  qed
next
  case (3 buf pos d m)
  then show ?case by (auto split: option.splits)
qed simp

lemma parse_line_append:
  "parse_line buf = (res, rest) \<Longrightarrow> res \<noteq> Inr None \<Longrightarrow> parse_line (buf @ c) = (res, rest @ c)"
  by (auto simp: parse_line_def find_crlf_append slice_append split: option.splits dest: find_crlf_SomeD)

lemma parse_line_inline_append:
  "parse_line_inline buf = (res, rest) \<Longrightarrow> res \<noteq> Inr None \<Longrightarrow> parse_line_inline (buf @ c) = (res, rest @ c)"
  by (auto simp: parse_line_inline_def find_crlf_append slice_append split: option.splits dest: find_crlf_SomeD)

lemma parse_mapped_line_append:
  assumes "map_prod (map_sum id (map_option f)) id (parse_line buf) = (res, rest)" and "res \<noteq> Inr None"
  shows "map_prod (map_sum id (map_option f)) id (parse_line (buf @ c)) = (res, rest @ c)"
proof -
  obtain a where a: "parse_line buf = (a, rest)" "res = map_sum id (map_option f) a"
    using assms(1) by (cases "parse_line buf") auto
  with assms(2) have "a \<noteq> Inr None" by auto
  with a show ?thesis by (simp add: parse_line_append)
qed

lemma parse_simple_string_append:
  "parse_simple_string buf = (res, rest) \<Longrightarrow> res \<noteq> Inr None \<Longrightarrow> parse_simple_string (buf @ c) = (res, rest @ c)"
  unfolding parse_simple_string_def by (rule parse_mapped_line_append)

lemma parse_error_append:
  "parse_error buf = (res, rest) \<Longrightarrow> res \<noteq> Inr None \<Longrightarrow> parse_error (buf @ c) = (res, rest @ c)"
  unfolding parse_error_def by (rule parse_mapped_line_append)

lemma parse_integer_append:
  "parse_integer buf = (res, rest) \<Longrightarrow> res \<noteq> Inr None \<Longrightarrow> parse_integer (buf @ c) = (res, rest @ c)"
  using parse_line_append [of buf "fst (parse_line buf)" "snd (parse_line buf)" c]
  by (auto simp: parse_integer_def split: prod.splits sum.splits option.splits)

lemma parse_inline_append:
  "parse_inline buf = (res, rest) \<Longrightarrow> res \<noteq> Inr None \<Longrightarrow> parse_inline (buf @ c) = (res, rest @ c)"
  using parse_line_inline_append [of buf "fst (parse_line_inline buf)" "snd (parse_line_inline buf)" c]
  by (auto simp: parse_inline_def split: prod.splits sum.splits option.splits)

lemma parse_bulk_string_append:
  "parse_bulk_string buf = (res, rest) \<Longrightarrow> res \<noteq> Inr None \<Longrightarrow> parse_bulk_string (buf @ c) = (res, rest @ c)"
  by (auto simp: parse_bulk_string_def find_crlf_append slice_append Let_def
      split: option.splits if_splits dest: find_crlf_SomeD)

lemmas parse_leaf_appends =
  parse_simple_string_append parse_error_append parse_integer_append parse_inline_append
  parse_bulk_string_append

lemma parse_append:
  "parse buf = (res, rest) \<Longrightarrow> res \<noteq> Inr None \<Longrightarrow> parse (buf @ c) = (res, rest @ c)"
  "parse_array abuf = (res, rest) \<Longrightarrow> res \<noteq> Inr None \<Longrightarrow> abuf ! 0 = CHR ''*'' \<Longrightarrow> parse_array (abuf @ c) = (res, rest @ c)"
  "parse_elements n es ebuf = (res, rest) \<Longrightarrow> res \<noteq> Inr None \<Longrightarrow>
     parse_elements n es (ebuf @ c) = (res, rest @ c)"
proof (induction buf and abuf and n es ebuf arbitrary: res rest and res rest and res rest
    rule: parse_parse_array_parse_elements.induct)
  case (1 buf)
  then show ?case
    by (cases buf) (auto simp: parse.simps dest: parse_leaf_appends [where c = c] split: if_splits)
next
  case (2 buf)
  from "2.prems" obtain n where n: "measure_value buf 0 0 = Some n"
    by (auto simp: parse_array.simps [of buf] split: option.splits)
  have le: "n \<le> length buf" using measure_bounds(1) [OF n] by simp
  obtain pos where pos: "find_crlf buf 1 = Some pos"
    using n "2.prems"(3) by (rule measure_array_SomeE) (simp add: find_crlf_in_def)
  then have "pos + 1 < length buf" by (auto dest: find_crlf_SomeD)
  with n le pos "2.prems" measure_append(1) [OF n, of c] find_crlf_append [OF pos, of c]
    "2.IH" [OF n _ pos]
  show ?case
    by (auto simp: parse_array.simps [of buf] parse_array.simps [of "buf @ c"] slice_append
        split: option.splits if_splits)
next
  case (3 elements buf)
  then show ?case by simp
next
  case (4 n elements buf)
  from "4.prems" "4.IH" show ?case
    by (auto split: prod.splits sum.splits option.splits)
qed

subsection \<open>Frames that have arrived in part\<close>

lemma strict_prefix_append_cases:
  assumes "strict_prefix t (xs @ ys)"
  obtains "strict_prefix t xs" | u where "t = xs @ u" "strict_prefix u ys"
proof (cases "prefix xs t")
  case True
  then obtain u where "t = xs @ u" by (auto elim: prefixE)
  with assms that(2) [of u] show ?thesis by (auto simp: strict_prefix_def)
next
  case False
  with assms have "strict_prefix t xs" by (auto simp: strict_prefix_def prefix_append)
  with that(1) show ?thesis .
qed

lemma find_crlf_partial_line:
  assumes "no_crlf s" and "strict_prefix t (c # s @ CRLF)" and "t \<noteq> []"
  shows "find_crlf (p @ t) (Suc (length p)) = None"
proof -
  obtain u where u: "t = c # u" "strict_prefix u (s @ CRLF)"
    using assms(2,3) by (cases t) auto
  with find_crlf_prefix_None [OF assms(1) u(2), of "p @ [c]"] show ?thesis by simp
qed

lemma measure_partial_line:
  assumes "no_crlf s" and "strict_prefix t (c # s @ CRLF)"
    and "c \<in> {CHR ''+'', CHR ''-'', CHR '':'', CHR ''$'', CHR ''*''}"
  shows "measure_value (p @ t) (length p) d = None"
proof (cases "t = []")
  case True
  then show ?thesis by (subst measure_value.simps) simp
next
  case False
  then obtain u where u: "t = c # u" using assms(2) by (cases t) auto
  have "find_crlf (p @ t) (Suc (length p)) = None"
    using assms(1,2) False by (rule find_crlf_partial_line)
  with u assms(3) show ?thesis
    by (subst measure_value.simps) (auto simp: find_crlf_in_def)
qed

lemma measure_elems_partial:
  assumes "\<And>v p t. v \<in> set vs \<Longrightarrow> strict_prefix t (enc v) \<Longrightarrow> measure_value (p @ t) (length p) d = None"
    and "\<And>v p r. v \<in> set vs \<Longrightarrow> measure_value (p @ enc v @ r) (length p) d = Some (length (enc v))"
    and "strict_prefix t (concat (map enc vs))"
  shows "measure_elems (p @ t) (length p) d (length vs) = None"
  using assms
proof (induction vs arbitrary: p t)
  case Nil
  then show ?case by simp
next
  case (Cons v vs)
  from Cons.prems(3) have "strict_prefix t (enc v @ concat (map enc vs))" by simp
  then show ?case
  proof (cases rule: strict_prefix_append_cases)
    case 1
    then show ?thesis using Cons.prems(1) [of v t p] by simp
  next
    case (2 u)
    have "measure_elems ((p @ enc v) @ u) (length (p @ enc v)) d (length vs) = None"
      using Cons.prems(1,2) 2(2) by (intro Cons.IH) auto
    with 2 Cons.prems(2) [of v p u] show ?thesis by simp
  qed
qed

lemma measure_partial:
  assumes "wf_resp k v" and "k + d \<le> MAX_DEPTH" and "strict_prefix t (enc v)"
  shows "measure_value (p @ t) (length p) d = None"
  using assms
proof (induction v arbitrary: k d p t)
  case (BulkString b)
  let ?s = "show_nat (length b)"
  from BulkString.prems(3) have "strict_prefix t ((CHR ''$'' # ?s @ CRLF) @ (b @ CRLF))" by simp
  then show ?case
  proof (cases rule: strict_prefix_append_cases)
    case 1
    then show ?thesis by (intro measure_partial_line [of ?s _ "CHR ''$''"]) simp_all
  next
    case (2 u)
    then have short: "length u < length b + 2" using prefix_length_less by fastforce
    have "find_crlf (p @ CHR ''$'' # ?s @ CR # LF # u) (Suc (length p)) = Some (Suc (length p) + length ?s)"
      by (rule find_crlf_after_marker) simp
    with 2 short BulkString.prems(1) show ?thesis
      by (subst measure_value.simps) (simp add: find_crlf_in_def parse_i64_len Let_def)
  qed
next
  case (Array vs)
  let ?s = "show_nat (length vs)"
  from Array.prems(3) have "strict_prefix t ((CHR ''*'' # ?s @ CRLF) @ concat (map enc vs))" by simp
  then show ?case
  proof (cases rule: strict_prefix_append_cases)
    case 1
    then show ?thesis by (intro measure_partial_line [of ?s _ "CHR ''*''"]) simp_all
  next
    case (2 u)
    let ?hdr = "p @ CHR ''*'' # ?s @ CRLF"
    have "measure_elems (?hdr @ u) (length ?hdr) (Suc d) (length vs) = None"
    proof (rule measure_elems_partial [OF _ _ 2(2)])
      show "measure_value (q @ w) (length q) (Suc d) = None"
        if "v \<in> set vs" "strict_prefix w (enc v)" for v q w
        using that Array.prems by (intro Array.IH [of v "k - 1"]) auto
      show "measure_value (q @ enc v @ r) (length q) (Suc d) = Some (length (enc v))"
        if "v \<in> set vs" for v q r
        using that Array.prems by (intro measure_enc [of "k - 1"]) auto
    qed
    moreover have "find_crlf (p @ CHR ''*'' # ?s @ CR # LF # u) (Suc (length p)) = Some (Suc (length p) + length ?s)"
      by (rule find_crlf_after_marker) simp
    ultimately show ?thesis
      using 2 Array.prems(1)
      by (subst measure_value.simps) (simp add: find_crlf_in_def parse_i64_len)
  qed
next
  case Null
  then show ?case using measure_partial_line [of "''-1''" t "CHR ''$''" p d] by simp
next
  case NullArray
  then show ?case using measure_partial_line [of "''-1''" t "CHR ''*''" p d] by simp
next
  case (SimpleString s)
  then show ?case by (intro measure_partial_line [of s _ "CHR ''+''"]) simp_all
next
  case (Error s)
  then show ?case by (intro measure_partial_line [of s _ "CHR ''-''"]) simp_all
next
  case (Integer n)
  then show ?case by (intro measure_partial_line [of "show_int n" _ "CHR '':''"]) simp_all
qed

lemma parse_partial:
  assumes wf: "wf_resp k v" and k: "k \<le> MAX_DEPTH" and t: "strict_prefix t (enc v)"
  shows "parse t = (Inr None, t)"
proof (cases t)
  case Nil
  then show ?thesis by (simp add: parse.simps)
next
  case (Cons c u)
  have sz: "measure_value t 0 0 = None"
    using measure_partial [OF wf _ t, of 0 "[]"] k by simp
  have line: "find_crlf t 1 = None" if "strict_prefix t (c # s @ CRLF)" "no_crlf s" for s
    using find_crlf_partial_line [OF that(2,1), of "[]"] Cons by simp
  show ?thesis
  proof (cases v)
    case (BulkString b)
    let ?s = "show_nat (length b)"
    from t BulkString Cons have c: "c = CHR ''$''"
      and "strict_prefix t ((CHR ''$'' # ?s @ CRLF) @ (b @ CRLF))" by simp_all
    from this(2) show ?thesis
    proof (cases rule: strict_prefix_append_cases)
      case 1
      with line [of ?s] c Cons show ?thesis by (simp add: parse.simps parse_bulk_string_def)
    next
      case (2 w)
      then have "length w < length b + 2" using prefix_length_less by fastforce
      with 2 wf BulkString show ?thesis
        by (simp add: parse.simps parse_bulk_string_def find_crlf_after_marker0 parse_i64_len Let_def)
    qed
  next
    case Null
    with t Cons line [of "''-1''"] show ?thesis by (simp add: parse.simps parse_bulk_string_def)
  next
    case (SimpleString s)
    with t Cons wf line [of s] show ?thesis by (simp add: parse.simps parse_leaf_defs)
  next
    case (Error s)
    with t Cons wf line [of s] show ?thesis by (simp add: parse.simps parse_leaf_defs)
  next
    case (Integer n)
    with t Cons wf line [of "show_int n"] show ?thesis by (simp add: parse.simps parse_leaf_defs)
  qed (use t Cons sz in \<open>simp_all add: parse.simps parse_array.simps\<close>)
qed

subsection \<open>Progress\<close>

lemma parse_line_progress: "parse_line buf = (Inr (Some v), rest) \<Longrightarrow> length rest < length buf"
  by (auto simp: parse_line_def split: option.splits dest: find_crlf_SomeD)

lemma parse_mapped_line_progress:
  "map_prod (map_sum id (map_option f)) id (parse_line buf) = (Inr (Some v), rest) \<Longrightarrow> length rest < length buf"
  using parse_line_progress [of buf] by (cases "parse_line buf"; cases "fst (parse_line buf)") auto

lemma parse_progress:
  assumes "parse buf = (Inr (Some v), rest)"
  shows "length rest < length buf"
proof (cases buf)
  case Nil
  with assms show ?thesis by (simp add: parse.simps)
next
  case (Cons c u)
  have arr: "length rest < length buf"
    if "find_crlf buf (Suc 0) = Some pos" "parse_elements n es (drop (Suc (Suc pos)) buf) = (x, rest)"
    for n es pos x
    using length_parse_elements [of n es "drop (Suc (Suc pos)) buf"] that
    by (auto dest!: find_crlf_SomeD)
  have "length rest < length buf" if "parse_array buf = (Inr (Some v), rest)"
    using that by (auto simp: parse_array.simps [of buf] split: option.splits if_splits dest: find_crlf_SomeD intro: arr)
  with assms Cons show ?thesis
    by (auto simp: parse.simps parse_simple_string_def parse_error_def parse_integer_def parse_bulk_string_def
        parse_inline_def parse_line_inline_def Let_def
        split: if_splits prod.splits sum.splits option.splits
        dest: parse_line_progress parse_mapped_line_progress find_crlf_SomeD)
qed

subsection \<open>Sizing and parsing agree\<close>

lemma find_crlf_shift: "find_crlf (p @ buf) (length p + i) = map_option ((+) (length p)) (find_crlf buf i)"
proof (induction buf i rule: find_crlf.induct)
  case (1 buf i)
  have lim: "length p + i < length (p @ buf) - 1 \<longleftrightarrow> i < length buf - 1" by auto
  have L: "find_crlf (p @ buf) (length p + i) =
     (if i < length buf - 1
      then (if buf ! i = CR \<and> buf ! (i + 1) = LF then Some (length p + i) else find_crlf (p @ buf) (length p + (i + 1)))
      else None)"
    by (subst find_crlf.simps) (simp only: lim nth_append_length_plus add.assoc)
  show ?case
  proof (cases "i < length buf - 1 \<and> \<not> (buf ! i = CR \<and> buf ! (i + 1) = LF)")
    case True
    have "find_crlf buf i = find_crlf buf (i + 1)" using True by (subst find_crlf.simps) auto
    with True 1 L show ?thesis by presburger
  next
    case False
    then show ?thesis unfolding L by (subst find_crlf.simps) auto
  qed
qed

lemma slice_shift: "slice (p @ buf) (length p + a) (length p + b) = slice buf a b"
  by (simp add: slice_def)

lemma measure_shift:
  "measure_value (p @ buf) (length p + off) d = measure_value buf off d"
  "measure_elems (p @ buf) (length p + pos) d n = map_option ((+) (length p)) (measure_elems buf pos d n)"
proof (induction buf off d and buf pos d n rule: measure_value_measure_elems.induct)
  case (1 buf off d)
  have crlf: "find_crlf (p @ buf) (Suc (length p + off)) = map_option ((+) (length p)) (find_crlf buf (Suc off))"
    "find_crlf (p @ buf) (length p + off) = map_option ((+) (length p)) (find_crlf buf off)"
    using find_crlf_shift [of p buf "Suc off"] find_crlf_shift [of p buf off] by simp_all
  have sl: "slice (p @ buf) (Suc (length p + off)) (length p + b) = slice buf (Suc off) b" for b
    using slice_shift [of p buf "Suc off" b] by simp
  show ?case
    using "1.IH" unfolding measure_value.simps [of "p @ buf" "length p + off" d] measure_value.simps [of buf off d]
    by (auto simp: find_crlf_in_def crlf sl Let_def add.assoc nth_append split: option.split)
next
  case (3 buf pos d n)
  then show ?case by (auto simp: add.assoc split: option.splits)
qed auto

lemma measure_leaf_depth:
  assumes "buf ! off \<noteq> CHR ''*''"
  shows "measure_value buf off d = measure_value buf off d'"
  by (rule trans [OF measure_value.simps [of buf off d] trans [OF _ measure_value.simps [of buf off d', symmetric]]],
      intro if_cong refl) (simp_all only: assms simp_thms if_False)

lemma measure_depth_mono:
  "measure_value buf off d = Some n \<Longrightarrow> d' \<le> d \<Longrightarrow> measure_value buf off d' = Some n"
  "measure_elems buf pos d m = Some q \<Longrightarrow> d' \<le> d \<Longrightarrow> measure_elems buf pos d' m = Some q"
proof (induction buf off d and buf pos d m arbitrary: n d' and q d' rule: measure_value_measure_elems.induct)
  case (1 buf off d)
  show ?case
  proof (cases "buf ! off = CHR ''*''")
    case True
    from "1.prems"(1) True obtain pos str cnt where *:
      "off < length buf" "d < MAX_DEPTH" "find_crlf_in buf (off + 1) = Some pos"
      "from_utf8 (slice buf (off + 1) pos) = Some str" "parse_i64 str = Some cnt"
      "(if cnt < 0 then n = pos + 2 - off
        else (\<exists>q. measure_elems buf (pos + 2) (d + 1) (nat cnt) = Some q \<and> q \<le> length buf \<and> n = q - off))"
      by (rule measure_array_SomeE)
    have "measure_elems buf (pos + 2) (d' + 1) (nat cnt) = Some q"
      if "\<not> cnt < 0" "measure_elems buf (pos + 2) (d + 1) (nat cnt) = Some q" for q
      by (rule "1.IH" [of pos str cnt]) (use * True that "1.prems"(2) in simp_all)
    with *(6) have "if cnt < 0 then n = pos + 2 - off
      else (\<exists>q. measure_elems buf (pos + 2) (d' + 1) (nat cnt) = Some q \<and> q \<le> length buf \<and> n = q - off)"
      by (cases "cnt < 0") auto
    with * True "1.prems"(2) show ?thesis by (intro measure_array_SomeI [of off buf d' pos str cnt]) simp_all
  next
    case False
    then have "measure_value buf off d' = measure_value buf off d" by (rule measure_leaf_depth)
    with "1.prems"(1) show ?thesis by (rule trans [rotated])
  qed
next
  case (3 buf pos d m)
  from "3.prems"(1) obtain k where k: "measure_value buf pos d = Some k" "measure_elems buf (pos + k) d m = Some q"
    by (auto split: option.splits)
  with "3.IH"(1) [OF k(1) "3.prems"(2)] "3.IH"(2) [OF k "3.prems"(2)] show ?case by simp
qed simp

lemma drop_marker: "off < length buf \<Longrightarrow> drop off buf = buf ! off # drop (Suc off) buf"
  by (simp add: Cons_nth_drop_Suc)

lemma find_crlf_drop:
  "off \<le> length buf \<Longrightarrow> find_crlf buf (off + i) = map_option ((+) off) (find_crlf (drop off buf) i)"
  using find_crlf_shift [of "take off buf" "drop off buf" i] by simp

lemma measure_drop:
  "off \<le> length buf \<Longrightarrow> measure_value (drop off buf) 0 d = measure_value buf off d"
  using measure_shift(1) [of "take off buf" "drop off buf" 0 d] by simp

text \<open>\<open>consumes buf n res\<close>: a parse that fails, or yields a value and consumes exactly \<open>n\<close> bytes.\<close>

definition consumes :: "bytes \<Rightarrow> nat \<Rightarrow> resp_value parse_result \<Rightarrow> bool" where
  "consumes buf n res \<longleftrightarrow> (\<exists>e rest. res = (Inl e, rest)) \<or> (\<exists>v. res = (Inr (Some v), drop n buf))"

lemma parse_line_consumes:
  assumes "find_crlf buf 1 = Some i"
  shows "consumes buf (i + 2) (parse_simple_string buf)" "consumes buf (i + 2) (parse_error buf)"
    "consumes buf (i + 2) (parse_integer buf)"
  using assms by (auto simp: consumes_def parse_leaf_defs split: option.splits)

lemma measure_leaf_consumes:
  assumes "measure_value buf 0 d = Some n" and "buf ! 0 \<noteq> CHR ''*''"
  shows "consumes buf n (parse buf)"
proof (cases buf)
  case Nil
  with assms show ?thesis by (simp add: measure_value.simps)
next
  case (Cons c u)
  show ?thesis
  proof (cases "c = CHR ''$''")
    case True
    with assms Cons show ?thesis
      by (auto simp: consumes_def parse.simps parse_bulk_string_def measure_value.simps [of "CHR ''$'' # u"] find_crlf_in_def
          Let_def split: option.splits if_splits)
  next
    case False
    show ?thesis
    proof (cases "c \<in> {CHR ''+'', CHR ''-'', CHR '':''}")
      case True
      with assms Cons obtain i where "find_crlf buf 1 = Some i" "n = i + 2"
        by (auto simp: measure_value.simps [of "_ # u"] split: option.splits)
      with parse_line_consumes [of buf i] True Cons show ?thesis by (auto simp: parse.simps)
    next
      case line: False
      with False assms Cons show ?thesis
        by (auto simp: parse.simps measure_value.simps [of "c # u"] consumes_def parse_inline_def
            parse_line_inline_def split: option.splits)
    qed
  qed
qed


lemma measure_consumes:
  "measure_value buf off d = Some n \<Longrightarrow> consumes (drop off buf) n (parse (drop off buf))"
  "measure_elems buf pos d m = Some q \<Longrightarrow> consumes buf q (parse_elements m es (drop pos buf))"
proof (induction buf off d and buf pos d m arbitrary: n and q es rule: measure_value_measure_elems.induct)
  case (1 buf off d)
  have off: "off < length buf" using measure_bounds(1) [OF "1.prems"] by simp
  have here: "measure_value (drop off buf) 0 d = Some n"
    using off "1.prems" by (simp add: measure_drop)
  show ?case
  proof (cases "buf ! off = CHR ''*''")
    case False
    with here off show ?thesis by (intro measure_leaf_consumes) simp_all
  next
    case True
    from "1.prems" True obtain pos str cnt where *:
      "off < length buf" "d < MAX_DEPTH" "find_crlf_in buf (off + 1) = Some pos"
      "from_utf8 (slice buf (off + 1) pos) = Some str" "parse_i64 str = Some cnt"
      "(if cnt < 0 then n = pos + 2 - off
        else (\<exists>q. measure_elems buf (pos + 2) (d + 1) (nat cnt) = Some q \<and> q \<le> length buf \<and> n = q - off))"
      by (rule measure_array_SomeE)
    obtain pos' where pos': "find_crlf (drop off buf) 1 = Some pos'" "pos = off + pos'"
      using *(3) find_crlf_drop [of off buf 1] off
      by (cases "find_crlf (drop off buf) 1") (auto simp: find_crlf_in_def)
    have str: "slice (drop off buf) 1 pos' = slice buf (off + 1) pos"
      using slice_shift [of "take off buf" "drop off buf" 1 pos'] off by (simp add: pos'(2))
    have size: "measure_value (drop off buf) 0 0 = Some n" "n \<le> length (drop off buf)"
      using measure_depth_mono(1) [OF here, of 0] measure_bounds(1) [OF here] by simp_all
    have arr: "parse_array (drop off buf) =
        (if cnt < 0 then (Inr (Some NullArray), drop (pos' + 2) (drop off buf))
         else if cnt > 1000000 then (Inl InvalidData, drop off buf)
         else parse_elements (nat cnt) [] (drop (pos' + 2) (drop off buf)))"
      using size pos'(1) str *(4,5) by (simp add: parse_array.simps [of "drop off buf"])
    have "consumes (drop off buf) n (parse_array (drop off buf))"
    proof (cases "cnt < 0 \<or> cnt > 1000000")
      case True
      with arr *(6) pos'(2) show ?thesis by (auto simp: consumes_def)
    next
      case False
      with *(6) obtain q where q: "measure_elems buf (pos + 2) (d + 1) (nat cnt) = Some q" "n = q - off" by auto
      have "pos + 2 \<le> q" using measure_bounds(2) [OF q(1)] by simp
      moreover have "consumes buf q (parse_elements (nat cnt) [] (drop (pos + 2) buf))"
        using "1.IH" * True False q(1) by simp
      ultimately show ?thesis using arr False q(2) pos'(2) by (simp add: consumes_def add.commute add.left_commute)
    qed
    with off True show ?thesis by (simp add: parse.simps drop_marker)
  qed
next
  case (2 buf pos d)
  then show ?case by (simp add: consumes_def)
next
  case (3 buf pos d m)
  from "3.prems" obtain k where k: "measure_value buf pos d = Some k" "measure_elems buf (pos + k) d m = Some q"
    by (auto split: option.splits)
  have rest_ok: "consumes buf q (parse_elements m es' (drop (k + pos) buf))" for es'
    using "3.IH"(2) [OF k, of es'] by (simp add: add.commute)
  from "3.IH"(1) [OF k(1)] consider e rest where "parse (drop pos buf) = (Inl e, rest)"
    | v where "parse (drop pos buf) = (Inr (Some v), drop (k + pos) buf)"
    by (auto simp: consumes_def)
  then show ?case
    by cases (simp_all add: rest_ok, simp add: consumes_def)
qed

lemma parse_incomplete: "parse buf = (Inr None, rest) \<Longrightarrow> rest = buf"
proof (cases buf)
  case (Cons c u)
  assume p: "parse buf = (Inr None, rest)"
  have "rest = buf" if "c = CHR ''*''"
  proof (cases "measure_value buf 0 0")
    case None
    with p that Cons show ?thesis by (simp add: parse.simps parse_array.simps)
  next
    case (Some n)
    with measure_consumes(1) [OF Some] p show ?thesis by (simp add: consumes_def)
  qed
  with p Cons show ?thesis
    by (auto simp: parse.simps parse_leaf_defs parse_inline_def parse_line_inline_def Let_def
        split: if_splits option.splits)
qed (simp add: parse.simps)

subsection \<open>The codec is a framed protocol\<close>

definition resp_decode :: "bytes \<Rightarrow> resp_value decoded" where
  "resp_decode buf =
     (case parse buf of
        (Inr (Some v), rest) \<Rightarrow> Got v rest
      | (Inr None, rest) \<Rightarrow> More
      | (Inl e, rest) \<Rightarrow> Bad)"

interpretation resp_frames: framing encode_to_bytes "wf_resp MAX_DEPTH" resp_decode
proof
  show "wf_resp MAX_DEPTH v \<Longrightarrow> resp_decode (enc v @ r) = Got v r" for v r
    by (simp add: resp_decode_def parse_enc)
  show "wf_resp MAX_DEPTH v \<Longrightarrow> strict_prefix t (enc v) \<Longrightarrow> resp_decode t = More" for v t
    by (simp add: resp_decode_def parse_partial)
qed simp

subsection \<open>Properties\<close>

text \<open>
  C4. Every value within the limits of the protocol (no CRLF inside simple strings and errors,
  bulk strings of at most 512 MB, arrays of at most a million elements nested at most 128 deep)
  is read back from the bytes \<open>encode_to_bytes\<close> writes, whatever follows them in the buffer,
  and exactly its bytes are consumed.
\<close>

theorem resp_roundtrip:
  assumes "wf_resp MAX_DEPTH v"
  shows "parse (encode_to_bytes v @ r) = (Inr (Some v), r)"
  using assms by (rule parse_enc) simp

theorem resp_roundtrip_witness:
  "parse (encode_to_bytes (Array [BulkString ''GET'', Integer (-7), Null]) @ ''+x'') =
     (Inr (Some (Array [BulkString ''GET'', Integer (-7), Null])), ''+x'')"
  by (rule resp_roundtrip) code_simp

text \<open>
  C5. While only part of a frame has arrived, the parser asks for more and leaves the buffer as
  it is: no prefix of an encoded value is mistaken for a value or for an error.
\<close>

theorem resp_incomplete:
  assumes "wf_resp MAX_DEPTH v" and "strict_prefix t (encode_to_bytes v)"
  shows "parse t = (Inr None, t)"
  using assms(1) order_refl assms(2) by (rule parse_partial)

theorem resp_incomplete_witness:
  "parse ''*1'' = (Inr None, ''*1'')"
  by (rule resp_incomplete [of "Array [Integer 5]"]) code_simp+

text \<open>
  What the parser decides does not depend on bytes that arrive later: once a value or an
  error is found, appending bytes to the buffer changes only what is left over.
\<close>

theorem resp_stable:
  assumes "parse buf = (res, rest)" and "res \<noteq> Inr None"
  shows "parse (buf @ more) = (res, rest @ more)"
  using assms by (rule parse_append(1))

theorem resp_stable_witness:
  "parse ('':7'' @ CRLF @ ''$3'') = (Inr (Some (Integer 7)), ''$3'')"
  using resp_stable [of "'':7'' @ CRLF" "Inr (Some (Integer 7))" "[]" "''$3''"]
  by (simp add: parse.simps parse_integer_def parse_line_def) (code_simp)

text \<open>
  C6. The two passes over an array agree: when \<open>measure_value\<close> sizes the value at the head of
  the buffer as \<open>n\<close> bytes, \<open>parse\<close> never asks for more, and when it yields a value it has
  consumed exactly those \<open>n\<close> bytes.
\<close>

theorem resp_size_agrees:
  assumes "measure_value buf 0 0 = Some n"
  shows "fst (parse buf) \<noteq> Inr None \<and> (\<forall>v rest. parse buf = (Inr (Some v), rest) \<longrightarrow> rest = drop n buf)"
  using measure_consumes(1) [OF assms] by (auto simp: consumes_def)

theorem resp_size_agrees_witness:
  "fst (parse (''*1'' @ CRLF @ '':5'' @ CRLF)) \<noteq> Inr None"
  by (rule conjunct1 [OF resp_size_agrees [of _ 8]]) code_simp

text \<open>
  An array header whose count is not a number is never reported: the parser keeps asking for
  more bytes whatever is sent after it, so the connection is stuck (the \<open>InvalidInteger\<close> branch
  of \<open>parse_array\<close> is never reached).
\<close>

theorem resp_bad_count_stuck:
  assumes "no_crlf h" and "valid_utf8 h" and "parse_i64 h = None"
  shows "parse (CHR ''*'' # h @ CRLF @ more) = (Inr None, CHR ''*'' # h @ CRLF @ more)"
  using assms find_crlf_after_marker0 [OF assms(1), of "CHR ''*''" more]
  by (simp add: parse.simps parse_array.simps measure_value.simps find_crlf_in_def)

theorem resp_bad_count_stuck_witness:
  "parse (CHR ''*'' # ''2x'' @ CRLF @ ''PING'' @ CRLF) =
     (Inr None, CHR ''*'' # ''2x'' @ CRLF @ ''PING'' @ CRLF)"
  by (rule resp_bad_count_stuck) code_simp+

end
