(* ===== verification/RedisInvariant.thy ===== *)
theory RedisInvariant
  imports RedisHandler Resp_Correct
begin

section \<open>The invariant of the Redis keyspace\<close>

text \<open>
  The type invariant Rust's types give the data (strings are UTF-8, keys of maps and members of
  sets are distinct, integers fit 64 bits), and the two facts about every command of the handler:
  it keeps the invariant, and it touches no database but the selected one unless it is FLUSHALL.
\<close>

subsection \<open>Definitions\<close>

fun resp_typed :: "resp_value \<Rightarrow> bool" where
  "resp_typed (SimpleString s) = valid_utf8 s"
| "resp_typed (Error s) = valid_utf8 s"
| "resp_typed (Integer n) = in_i64 n"
| "resp_typed (Array vs) = (\<forall>v \<in> set vs. resp_typed v)"
| "resp_typed _ = True"

fun wf_value :: "redis_value \<Rightarrow> bool" where
  "wf_value (RString s) = valid_utf8 s"
| "wf_value (RHash h) = (wf_alist h \<and> (\<forall>(f, v) \<in> set h. valid_utf8 f \<and> valid_utf8 v))"
| "wf_value (RList l) = (\<forall>v \<in> set l. valid_utf8 v)"
| "wf_value (RSet s) = (distinct s \<and> (\<forall>m \<in> set s. valid_utf8 m))"
| "wf_value (RSortedSet z) = (distinct (map snd z) \<and> (\<forall>m \<in> snd ` set z. valid_utf8 m))"

definition wf_db :: "database \<Rightarrow> bool" where
  "wf_db db \<longleftrightarrow> wf_alist db \<and> (\<forall>(k, e) \<in> set db. valid_utf8 k \<and> wf_value (entry_value e))"

definition wf_storage :: "storage \<Rightarrow> bool" where
  "wf_storage st \<longleftrightarrow> (\<forall>db \<in> set st. wf_db db)"

text \<open>\<open>only_db i st st'\<close>: nothing but database \<open>i\<close> differs.\<close>

definition only_db :: "nat \<Rightarrow> storage \<Rightarrow> storage \<Rightarrow> bool" where
  "only_db i st st' \<longleftrightarrow> length st' = length st \<and> (\<forall>j < length st. j \<noteq> i \<longrightarrow> st' ! j = st ! j)"

subsection \<open>The parser yields typed values\<close>

lemma parse_line_typed: "parse_line buf = (Inr (Some line), rest) \<Longrightarrow> valid_utf8 line"
  by (auto simp: parse_line_def split: option.splits dest: from_utf8_SomeD)

lemma parse_mapped_line_typed:
  assumes "map_prod (map_sum id (map_option f)) id (parse_line buf) = (Inr (Some v), rest)"
  obtains line where "v = f line" "valid_utf8 line"
  using assms parse_line_typed [of buf]
  by (cases "parse_line buf"; cases "fst (parse_line buf)") auto

lemma parse_typed:
  "parse buf = (Inr (Some v), rest) \<Longrightarrow> resp_typed v"
  "parse_array abuf = (Inr (Some v), rest) \<Longrightarrow> resp_typed v"
  "parse_elements n es ebuf = (Inr (Some v), rest) \<Longrightarrow> (\<forall>e \<in> set es. resp_typed e) \<Longrightarrow> resp_typed v"
proof (induction buf and abuf and n es ebuf arbitrary: v rest and v rest and v rest
    rule: parse_parse_array_parse_elements.induct)
  case (1 buf)
  show ?case
  proof (cases buf)
    case Nil
    with "1.prems" show ?thesis by (simp add: parse.simps)
  next
    case (Cons c cs)
    have arr: "resp_typed v" if "c = CHR ''*''"
      using that "1.IH" [of c cs] "1.prems" Cons by (simp add: parse.simps)
    have int: "resp_typed v" if "parse_integer buf = (Inr (Some v), rest)"
      using that by (auto simp: parse_integer_def split: prod.splits sum.splits option.splits dest: parse_i64_in_i64)
    have bulk: "resp_typed v" if "parse_bulk_string buf = (Inr (Some v), rest)"
      using that by (auto simp: parse_bulk_string_def Let_def split: option.splits if_splits)
    have inl: "resp_typed v" if "parse_inline buf = (Inr (Some v), rest)"
      using that by (auto simp: parse_inline_def split: prod.splits sum.splits option.splits)
    from "1.prems" Cons show ?thesis
      by (auto simp: parse.simps parse_simple_string_def parse_error_def split: if_splits
          intro: arr int bulk inl elim: parse_mapped_line_typed)
  qed
next
  case (2 buf)
  then show ?case by (auto simp: parse_array.simps [of buf] split: option.splits if_splits)
next
  case (3 es buf)
  then show ?case by auto
next
  case (4 n es buf)
  then show ?case by (auto split: prod.splits sum.splits option.splits)
qed

subsection \<open>The operations keep the invariant\<close>

lemma wf_storage_nth: "wf_storage st \<Longrightarrow> i < length st \<Longrightarrow> wf_db (st ! i)"
  by (simp add: wf_storage_def)

lemma wf_storage_update: "wf_storage st \<Longrightarrow> wf_db db \<Longrightarrow> wf_storage (st[i := db])"
  by (auto simp: wf_storage_def dest: set_update_subset_insert [THEN subsetD])

lemma wf_db_delete [wf_intros]: "wf_db db \<Longrightarrow> wf_db (AList.delete k db)"
  using set_alist_delete [of k db] by (auto simp: wf_db_def)

lemma wf_db_put [wf_intros]: "wf_db db \<Longrightarrow> valid_utf8 k \<Longrightarrow> wf_value v \<Longrightarrow> wf_db (db_put k v x db)"
  using set_alist_update [of k "\<lparr>entry_value = v, expires_at = x\<rparr>" db]
  by (auto simp: wf_db_def db_put_def)

lemma wf_db_value: "wf_db db \<Longrightarrow> map_of db k = Some e \<Longrightarrow> wf_value (entry_value e)"
  by (auto simp: wf_db_def dest: map_of_SomeD)

lemma wf_get: "wf_db db \<Longrightarrow> db_get clk db k = (v, db') \<Longrightarrow> wf_db db'"
  by (auto simp: db_get_def split: option.splits if_splits intro: wf_db_delete)

lemma wf_get_value: "wf_db db \<Longrightarrow> db_get clk db k = (Some v, db') \<Longrightarrow> wf_value v"
  by (auto simp: db_get_def split: option.splits if_splits intro: wf_db_value)

lemma wf_exists: "wf_db db \<Longrightarrow> db_exists clk db k = (b, db') \<Longrightarrow> wf_db db'"
  by (auto simp: db_exists_def split: option.splits if_splits intro: wf_db_delete)

lemma wf_ttl: "wf_db db \<Longrightarrow> db_ttl clk db k = (n, db') \<Longrightarrow> wf_db db'"
  by (auto simp: db_ttl_def split: option.splits if_splits intro: wf_db_delete)

lemma wf_del: "wf_db db \<Longrightarrow> wf_db (snd (db_del db k))"
  by (simp add: db_del_def wf_db_delete)

lemma wf_set: "wf_db db \<Longrightarrow> valid_utf8 k \<Longrightarrow> wf_value v \<Longrightarrow> db_set clk db k v ttl = Some db' \<Longrightarrow> wf_db db'"
  by (auto simp: db_set_eq split: option.splits intro: wf_db_put)

lemma wf_expire: "wf_db db \<Longrightarrow> db_expire clk db k d = Some (b, db') \<Longrightarrow> wf_db db'"
  by (auto simp: db_expire_eq split: option.splits intro!: wf_db_put wf_db_value)
     (auto simp: wf_db_def dest: map_of_SomeD)

lemma wf_keys: "wf_db db \<Longrightarrow> db_keys E clk db p = (ks, db') \<Longrightarrow> wf_db db'"
  by (auto simp: db_keys_def Let_def wf_db_def)

lemma wf_set_reply: "wf_db db \<Longrightarrow> valid_utf8 k \<Longrightarrow> wf_value v \<Longrightarrow> wf_db (snd (set_reply clk db k v ttl r))"
  by (auto simp: set_reply_def split: option.splits intro: wf_set)

lemma wf_set_or_del: "wf_db db \<Longrightarrow> valid_utf8 k \<Longrightarrow> wf_value v \<Longrightarrow> wf_db (snd (set_or_del clk db k gone v r))"
  by (auto simp: set_or_del_def wf_del split: option.splits intro: wf_set)

lemma wf_get_arg_str: "resp_typed a \<Longrightarrow> get_arg_str a = Some s \<Longrightarrow> valid_utf8 s"
  by (auto simp: get_arg_str_def split: resp_value.splits dest: from_utf8_SomeD)

lemma wf_with_db:
  assumes st: "wf_storage st" and f: "\<And>db. wf_db db \<Longrightarrow> wf_db (snd (f db))"
  shows "wf_storage (snd (with_db st i d f))"
proof (cases "i < length st")
  case True
  then have "wf_db (snd (f (st ! i)))" by (intro f wf_storage_nth [OF st])
  with True st show ?thesis
    by (auto simp: with_db_def get_db_def wf_storage_update split: prod.splits)
next
  case False
  with st show ?thesis by (simp add: with_db_def get_db_def)
qed

lemma wf_chunks2: "(\<forall>a \<in> set args. resp_typed a) \<Longrightarrow> \<forall>c \<in> set (chunks2 args). \<forall>a \<in> set c. resp_typed a"
  by (induction args rule: chunks2.induct) auto

subsection \<open>Loops\<close>

lemma wf_del_loop: "wf_db db \<Longrightarrow> del_loop args n db = (m, db') \<Longrightarrow> wf_db db'"
  by (induction args n db rule: del_loop.induct)
     (auto simp: db_del_def wf_db_delete split: option.splits)

lemma wf_exists_loop: "wf_db db \<Longrightarrow> exists_loop clk args n db = (m, db') \<Longrightarrow> wf_db db'"
  by (induction clk args n db rule: exists_loop.induct)
     (auto split: option.splits prod.splits dest: wf_exists)

lemma wf_mget_loop: "wf_db db \<Longrightarrow> wf_db (snd (mget_loop clk args db))"
proof (induction clk args db rule: mget_loop.induct)
  case (2 clk arg args db)
  show ?case
  proof (cases "get_arg_str arg")
    case None
    with 2 show ?thesis by (simp add: case_prod_beta)
  next
    case (Some key)
    obtain v db1 where get: "db_get clk db key = (v, db1)" by (cases "db_get clk db key")
    with "2.prems" have "wf_db db1" by (rule wf_get)
    then have "wf_db (snd (mget_loop (later 2 clk) args db1))"
      by (rule "2.IH"(2) [OF Some get [symmetric]])
    with Some get show ?thesis by (simp add: case_prod_beta)
  qed
qed simp

lemma wf_mset_loop:
  "wf_db db \<Longrightarrow> (\<forall>c \<in> set chunks. \<forall>a \<in> set c. resp_typed a) \<Longrightarrow> wf_db (mset_loop clk chunks db)"
proof (induction clk chunks db rule: mset_loop.induct)
  case (2 clk chunk chunks db)
  have "wf_db db'" if "chunk = [a, b]" "get_arg_str a = Some k" "get_arg_str b = Some v"
    "db_set clk db k (RString v) None = Some db'" for a b k v db'
    using that "2.prems" by (intro wf_set [OF _ _ _ that(4)]) (auto intro: wf_get_arg_str)
  with 2 show ?case by (auto split: list.splits option.splits)
qed simp

lemma wf_hash_update:
  "wf_value (RHash h) \<Longrightarrow> valid_utf8 f \<Longrightarrow> valid_utf8 v \<Longrightarrow> wf_value (RHash (AList.update f v h))"
  using set_alist_update [of f v h] by auto

lemma wf_hset_loop:
  "wf_value (RHash h) \<Longrightarrow> (\<forall>c \<in> set chunks. \<forall>a \<in> set c. resp_typed a) \<Longrightarrow>
     hset_loop chunks n h = (m, h') \<Longrightarrow> wf_value (RHash h')"
proof (induction chunks n h rule: hset_loop.induct)
  case (2 chunk chunks n h)
  have "wf_value (RHash (AList.update f v h))"
    if "chunk = [a, b]" "get_arg_str a = Some f" "get_arg_str b = Some v" for a b f v
    using that "2.prems" by (intro wf_hash_update) (auto intro: wf_get_arg_str)
  with 2 show ?case by (auto simp del: wf_value.simps split: list.splits option.splits if_splits)
qed simp

lemma wf_hdel_loop: "wf_value (RHash h) \<Longrightarrow> hdel_loop args n h = (m, h') \<Longrightarrow> wf_value (RHash h')"
proof (induction args n h rule: hdel_loop.induct)
  case (2 arg args n h)
  have "wf_value (RHash (AList.delete f h))" for f
    using "2.prems" set_alist_delete [of f h] by auto
  with 2 show ?case by (auto simp del: wf_value.simps split: option.splits if_splits)
qed simp

lemma wf_push_loop:
  "(\<forall>v \<in> set l. valid_utf8 v) \<Longrightarrow> (\<forall>a \<in> set args. resp_typed a) \<Longrightarrow> \<forall>v \<in> set (push_loop front args l). valid_utf8 v"
proof (induction front args l rule: push_loop.induct)
  case (2 front arg args l)
  show ?case
  proof (cases "get_arg_str arg")
    case None
    with "2.IH"(1) "2.prems" show ?thesis by simp
  next
    case (Some v)
    have "\<forall>w \<in> set (if front then v # l else l @ [v]). valid_utf8 w"
      using Some "2.prems" by (auto intro: wf_get_arg_str)
    from "2.IH"(2) [OF Some this] Some "2.prems" show ?thesis by simp
  qed
qed simp

lemma wf_pop_list: "(\<forall>v \<in> set l. valid_utf8 v) \<Longrightarrow> pop_list front l = Some (x, l') \<Longrightarrow> \<forall>v \<in> set l'. valid_utf8 v"
  by (auto simp: pop_list_def split: if_splits dest: in_set_butlastD list.set_sel(2))

lemma wf_sadd_loop:
  "wf_value (RSet s) \<Longrightarrow> (\<forall>a \<in> set args. resp_typed a) \<Longrightarrow> sadd_loop args n s = (m, s') \<Longrightarrow> wf_value (RSet s')"
proof (induction args n s rule: sadd_loop.induct)
  case (2 arg args n s)
  have "valid_utf8 v" if "get_arg_str arg = Some v" for v
    using that "2.prems" by (auto intro: wf_get_arg_str)
  with 2 show ?case by (cases "get_arg_str arg") (simp_all split: if_splits)
qed simp

lemma wf_srem_loop: "wf_value (RSet s) \<Longrightarrow> srem_loop args n s = (m, s') \<Longrightarrow> wf_value (RSet s')"
  by (induction args n s rule: srem_loop.induct) (auto simp: distinct_removeAll split: option.splits if_splits)

lemma set_btree_insert: "set (btree_insert x z) \<subseteq> insert x (set z)"
  by (induction z) (auto split: ordering.splits)

lemma distinct_btree_insert:
  "distinct (map snd z) \<Longrightarrow> snd x \<notin> snd ` set z \<Longrightarrow> distinct (map snd (btree_insert x z))"
proof (induction z)
  case (Cons y z)
  have "snd y \<notin> snd ` set (btree_insert x z)"
    using Cons.prems set_btree_insert [of x z] by auto
  with Cons show ?case by (simp split: ordering.split)
qed simp

lemma wf_zset_insert:
  "wf_value (RSortedSet z) \<Longrightarrow> valid_utf8 m \<Longrightarrow>
     wf_value (RSortedSet (btree_insert (score, m) (filter (\<lambda>x. snd x \<noteq> m) z)))"
  using set_btree_insert [of "(score, m)" "filter (\<lambda>x. snd x \<noteq> m) z"]
  by (auto intro!: distinct_btree_insert distinct_map_filter)

lemma wf_zadd_loop:
  "wf_value (RSortedSet z) \<Longrightarrow> (\<forall>c \<in> set chunks. \<forall>a \<in> set c. resp_typed a) \<Longrightarrow>
     zadd_loop E chunks n z = (m, z') \<Longrightarrow> wf_value (RSortedSet z')"
proof (induction chunks arbitrary: n z)
  case (Cons chunk chunks)
  have typed: "\<forall>c \<in> set chunks. \<forall>a \<in> set c. resp_typed a" using Cons.prems(2) by simp
  have "(\<exists>a b x v s. chunk = [a, b] \<and> get_arg_str a = Some x \<and> get_arg_str b = Some v \<and> parse_f64 E x = Some s) \<or>
      zadd_loop E (chunk # chunks) n z = zadd_loop E chunks n z"
    by (auto split: list.split option.split)
  then consider a b x v s where "chunk = [a, b]" "get_arg_str a = Some x" "get_arg_str b = Some v" "parse_f64 E x = Some s"
    | "zadd_loop E (chunk # chunks) n z = zadd_loop E chunks n z"
    by blast
  then show ?case
  proof cases
    case 1
    then have "wf_value (RSortedSet (btree_insert (s, v) (filter (\<lambda>y. snd y \<noteq> v) z)))"
      using Cons.prems by (intro wf_zset_insert) (auto intro: wf_get_arg_str)
    then show ?thesis using 1 Cons.prems(3) by (intro Cons.IH [OF _ typed]) (simp_all add: Let_def del: wf_value.simps)
  next
    case 2
    then show ?thesis using Cons.IH [OF Cons.prems(1) typed] Cons.prems(3) by simp
  qed
qed simp

lemma wf_zrem_loop: "wf_value (RSortedSet z) \<Longrightarrow> zrem_loop args n z = (m, z') \<Longrightarrow> wf_value (RSortedSet z')"
proof (induction args n z rule: zrem_loop.induct)
  case (2 arg args n z)
  have "wf_value (RSortedSet (filter (\<lambda>x. snd x \<noteq> v) z))" for v
    using "2.prems" by (auto intro: distinct_map_filter)
  with 2 show ?case by (auto simp del: wf_value.simps simp: Let_def split: option.splits)
qed simp

lemmas wf_loops = wf_del_loop wf_exists_loop wf_mget_loop wf_hset_loop wf_hdel_loop wf_sadd_loop
  wf_srem_loop wf_zadd_loop wf_zrem_loop

subsection \<open>Every command keeps the invariant\<close>

text \<open>The shape of most commands: read a key, then act on what was found.\<close>

lemma wf_case_get:
  assumes "wf_db db"
    and "\<And>db'. wf_db db' \<Longrightarrow> wf_db (snd (g db'))"
    and "\<And>v db'. wf_db db' \<Longrightarrow> wf_value v \<Longrightarrow> wf_db (snd (f db' v))"
  shows "wf_db (snd (case db_get clk db k of (r, db') \<Rightarrow> case r of None \<Rightarrow> g db' | Some v \<Rightarrow> f db' v))"
proof (cases "db_get clk db k")
  case (Pair r db')
  then have "wf_db db'" by (rule wf_get [OF assms(1)])
  moreover have "wf_value v" if "r = Some v" for v
    using wf_get_value [OF assms(1)] Pair that by simp
  ultimately show ?thesis using assms(2, 3) Pair by (cases r) simp_all
qed

lemma wf_case_option:
  "(x = None \<Longrightarrow> wf_storage (snd g)) \<Longrightarrow> (\<And>v. x = Some v \<Longrightarrow> wf_storage (snd (f v))) \<Longrightarrow>
     wf_storage (snd (case x of None \<Rightarrow> g | Some v \<Rightarrow> f v))"
  by (cases x) simp_all

lemma wf_case_value:
  assumes "wf_value v" "wf_db db"
    and "\<And>s. wf_value (RString s) \<Longrightarrow> wf_db (snd (f1 s))"
    and "\<And>h. wf_value (RHash h) \<Longrightarrow> wf_db (snd (f2 h))"
    and "\<And>l. wf_value (RList l) \<Longrightarrow> wf_db (snd (f3 l))"
    and "\<And>s. wf_value (RSet s) \<Longrightarrow> wf_db (snd (f4 s))"
    and "\<And>z. wf_value (RSortedSet z) \<Longrightarrow> wf_db (snd (f5 z))"
  shows "wf_db (snd (case v of RString s \<Rightarrow> f1 s | RHash h \<Rightarrow> f2 h | RList l \<Rightarrow> f3 l
                     | RSet s \<Rightarrow> f4 s | RSortedSet z \<Rightarrow> f5 z))"
  using assms by (cases v) simp_all

lemma wf_reply [simp]: "wf_db db \<Longrightarrow> wf_db (snd (r, db))"
  by simp

lemmas wf_command = wf_with_db wf_case_get wf_case_option wf_case_value
  wf_set_reply wf_set_or_del

lemma wf_read_hash: "wf_storage st \<Longrightarrow> wf_storage (snd (read_hash name found absent clk st i args))"
  unfolding read_hash_def
  by (cases args) (auto simp del: wf_value.simps intro!: wf_command)

lemma wf_read_commands [simp]:
  assumes "wf_storage st"
  shows "wf_storage (snd (cmd_get clk st i args))"
    "wf_storage (snd (cmd_strlen clk st i args))" "wf_storage (snd (cmd_hget clk st i args))"
    "wf_storage (snd (cmd_hmget clk st i args))" "wf_storage (snd (cmd_hexists clk st i args))"
    "wf_storage (snd (cmd_llen clk st i args))"
    "wf_storage (snd (cmd_smembers E clk st i args))" "wf_storage (snd (cmd_scard clk st i args))"
    "wf_storage (snd (cmd_sismember clk st i args))" "wf_storage (snd (cmd_zcard clk st i args))"
  using assms
  unfolding cmd_get_def cmd_strlen_def cmd_hget_def cmd_hmget_def cmd_hexists_def
    cmd_llen_def cmd_smembers_def cmd_scard_def cmd_sismember_def cmd_zcard_def
  by (auto simp del: wf_value.simps split: list.split option.split intro!: wf_command)

lemma wf_indexed_read_commands [simp]:
  assumes "wf_storage st"
  shows "wf_storage (snd (cmd_lrange clk st i args))" "wf_storage (snd (cmd_lindex clk st i args))"
    "wf_storage (snd (cmd_zrange E clk st i args))" "wf_storage (snd (cmd_zscore E clk st i args))"
  using assms
  unfolding cmd_lrange_def cmd_lindex_def cmd_zrange_def cmd_zscore_def
  by (auto simp del: wf_value.simps simp: Let_def split: list.split option.split intro!: wf_command)

lemma wf_key_commands [simp]:
  assumes "wf_storage st"
  shows "wf_storage (snd (cmd_type clk st i args))" "wf_storage (snd (cmd_ttl clk st i args))"
    "wf_storage (snd (cmd_keys E clk st i args))" "wf_storage (snd (cmd_del st i args))"
    "wf_storage (snd (cmd_exists clk st i args))" "wf_storage (snd (cmd_expire clk st i args))"
  using assms
  unfolding cmd_type_def cmd_ttl_def cmd_keys_def cmd_del_def cmd_exists_def cmd_expire_def
  by (auto split: list.split option.split prod.split bool.split intro!: wf_with_db
      dest: wf_get wf_ttl wf_keys wf_del_loop wf_exists_loop wf_expire)

lemma wf_cmd_mget [simp]: "wf_storage st \<Longrightarrow> wf_storage (snd (cmd_mget clk st i args))"
  unfolding cmd_mget_def by (auto simp: case_prod_beta intro!: wf_with_db wf_mget_loop)

lemma wf_rename_ttl:
  assumes "wf_db db" "valid_utf8 new_key" "wf_value v" 
  shows "wf_db (snd (case db_ttl clk db old_key of
        (ttl, db2) \<Rightarrow> (case db_set (clk' ttl) db2 new_key v (life ttl) of
             None \<Rightarrow> (None, db2) | Some db3 \<Rightarrow> (Some resp_ok, snd (db_del db3 old_key)))))"
  using assms by (auto split: prod.split option.split intro!: wf_del dest: wf_ttl wf_set)

lemma wf_cmd_rename [simp]:
  assumes "wf_storage st" "\<forall>a \<in> set args. resp_typed a"
  shows "wf_storage (snd (cmd_rename clk st i args))"
  using assms
  unfolding cmd_rename_def
  by (auto split: list.split option.split intro!: wf_with_db wf_case_get wf_rename_ttl intro: wf_get_arg_str)

lemma wf_flush_commands [simp]:
  assumes "wf_storage st"
  shows "wf_storage (snd (cmd_flushdb st i))" "wf_storage (snd (cmd_flushall st))"
  using assms
  by (auto simp: cmd_flushdb_def cmd_flushall_def clear_all_def db_clear_def wf_storage_def [of "map _ _"]
      intro!: wf_with_db) (simp_all add: wf_db_def)

lemma wf_case_exists:
  assumes "wf_db db"
    and "\<And>db'. wf_db db' \<Longrightarrow> wf_db (snd (f db'))" "\<And>db'. wf_db db' \<Longrightarrow> wf_db (snd (g db'))"
  shows "wf_db (snd (case (if b then db_exists clk db k else (c, db)) of
           (hit, db') \<Rightarrow> (case hit of True \<Rightarrow> f db' | False \<Rightarrow> g db')))"
  using assms wf_exists [OF assms(1)] by (auto split: prod.split bool.split)

lemma wf_cmd_set [simp]:
  assumes "wf_storage st" "\<forall>a \<in> set args. resp_typed a"
  shows "wf_storage (snd (cmd_set E clk st i args))"
  using assms
  unfolding cmd_set_def
  by (auto simp del: if_split split: list.split option.split sum.split
      intro!: wf_with_db wf_case_exists wf_set_reply intro: wf_get_arg_str)

lemma wf_cmd_mset [simp]:
  assumes "wf_storage st" "\<forall>a \<in> set args. resp_typed a"
  shows "wf_storage (snd (cmd_mset clk st i args))"
  using assms wf_chunks2 [of args]
  unfolding cmd_mset_def by (auto intro!: wf_with_db wf_mset_loop)

lemma wf_incrby_internal [simp]:
  assumes "wf_storage st" "\<forall>a \<in> set args. resp_typed a"
  shows "wf_storage (snd (cmd_incrby_internal clk st i args n))"
  using assms
  unfolding cmd_incrby_internal_def
  by (auto simp: Let_def split: list.split option.split intro!: wf_command intro: wf_get_arg_str)

lemma wf_cmd_append [simp]:
  assumes "wf_storage st" "\<forall>a \<in> set args. resp_typed a"
  shows "wf_storage (snd (cmd_append clk st i args))"
  using assms
  unfolding cmd_append_def
  by (auto split: list.split option.split intro!: wf_command valid_utf8_append intro: wf_get_arg_str)

lemma wf_empty_values [simp]:
  "wf_value (RHash [])" "wf_value (RList [])" "wf_value (RSet [])" "wf_value (RSortedSet [])"
  by simp_all

lemma wf_list_push:
  "wf_value (RList l) \<Longrightarrow> (\<forall>a \<in> set args. resp_typed a) \<Longrightarrow> wf_value (RList (push_loop front args l))"
  using wf_push_loop by simp

lemma wf_list_pop: "wf_value (RList l) \<Longrightarrow> pop_list front l = Some (x, l') \<Longrightarrow> wf_value (RList l')"
  using wf_pop_list by simp

lemma wf_case_loop:
  fixes x :: "nat \<times> 'c"
  assumes "wf_db (snd (f (fst x) (snd x)))"
  shows "wf_db (snd (case x of (n, b) \<Rightarrow> f n b))"
  using assms by (cases x) simp

lemma wf_snd_loops:
  "wf_value (RHash h) \<Longrightarrow> (\<forall>c \<in> set chunks. \<forall>a \<in> set c. resp_typed a) \<Longrightarrow> wf_value (RHash (snd (hset_loop chunks n h)))"
  "wf_value (RHash h) \<Longrightarrow> wf_value (RHash (snd (hdel_loop args n h)))"
  "wf_value (RSet s) \<Longrightarrow> (\<forall>a \<in> set args. resp_typed a) \<Longrightarrow> wf_value (RSet (snd (sadd_loop args n s)))"
  "wf_value (RSet s) \<Longrightarrow> wf_value (RSet (snd (srem_loop args n s)))"
  "wf_value (RSortedSet z) \<Longrightarrow> (\<forall>c \<in> set chunks. \<forall>a \<in> set c. resp_typed a) \<Longrightarrow> wf_value (RSortedSet (snd (zadd_loop E chunks n z)))"
  "wf_value (RSortedSet z) \<Longrightarrow> wf_value (RSortedSet (snd (zrem_loop args n z)))"
  by (erule (1) wf_hset_loop wf_sadd_loop wf_zadd_loop, rule prod.collapse [symmetric]
      | erule wf_hdel_loop wf_srem_loop wf_zrem_loop, rule prod.collapse [symmetric])+

lemmas wf_write = wf_with_db wf_case_get wf_case_value wf_case_loop wf_set_reply wf_set_or_del
  wf_list_push wf_snd_loops

lemma wf_cmd_push [simp]:
  assumes "wf_storage st" "\<forall>a \<in> set args. resp_typed a"
  shows "wf_storage (snd (cmd_push name front clk st i args))"
  using assms
  unfolding cmd_push_def
  by (auto simp: Let_def simp del: push_loop.simps wf_value.simps split: list.split option.split
      intro!: wf_write wf_get_arg_str)

lemma wf_cmd_pop [simp]:
  assumes "wf_storage st" "\<forall>a \<in> set args. resp_typed a"
  shows "wf_storage (snd (cmd_pop name front clk st i args))"
  using assms
  unfolding cmd_pop_def
  by (auto simp del: wf_value.simps split: list.split option.split
      intro!: wf_write intro: wf_list_pop wf_get_arg_str)

lemma wf_cmd_hset [simp]:
  assumes "wf_storage st" "\<forall>a \<in> set args. resp_typed a"
  shows "wf_storage (snd (cmd_hset clk st i args))"
  using assms wf_chunks2 [of "tl args"]
  unfolding cmd_hset_def
  by (auto simp del: wf_value.simps hset_loop.simps chunks2.simps split: list.split option.split
      intro!: wf_write wf_get_arg_str)

lemma wf_cmd_hdel [simp]:
  assumes "wf_storage st" "\<forall>a \<in> set args. resp_typed a"
  shows "wf_storage (snd (cmd_hdel clk st i args))"
  using assms
  unfolding cmd_hdel_def
  by (auto simp del: wf_value.simps hdel_loop.simps split: list.split option.split
      intro!: wf_write wf_get_arg_str)

lemma wf_cmd_sadd [simp]:
  assumes "wf_storage st" "\<forall>a \<in> set args. resp_typed a"
  shows "wf_storage (snd (cmd_sadd clk st i args))"
  using assms
  unfolding cmd_sadd_def
  by (auto simp del: wf_value.simps sadd_loop.simps split: list.split option.split
      intro!: wf_write wf_get_arg_str)

lemma wf_cmd_srem [simp]:
  assumes "wf_storage st" "\<forall>a \<in> set args. resp_typed a"
  shows "wf_storage (snd (cmd_srem clk st i args))"
  using assms
  unfolding cmd_srem_def
  by (auto simp del: wf_value.simps srem_loop.simps split: list.split option.split
      intro!: wf_write wf_get_arg_str)

lemma wf_cmd_zadd [simp]:
  assumes "wf_storage st" "\<forall>a \<in> set args. resp_typed a"
  shows "wf_storage (snd (cmd_zadd E clk st i args))"
proof (cases "length args < 3")
  case True
  with assms(1) show ?thesis
    by (auto simp: cmd_zadd_def split: list.split)
next
  case False
  then obtain a b c rest where args: "args = a # b # c # rest"
    by (cases args rule: list.exhaust; cases "tl args"; cases "tl (tl args)") auto
  have "\<forall>ch \<in> set (chunks2 (b # c # rest)). \<forall>x \<in> set ch. resp_typed x"
    using assms(2) by (intro wf_chunks2) (simp add: args)
  with assms show ?thesis
    unfolding cmd_zadd_def args list.case
    by (auto simp del: wf_value.simps zadd_loop.simps chunks2.simps split: option.split
        intro!: wf_write wf_get_arg_str)
qed

lemma wf_cmd_zrem [simp]:
  assumes "wf_storage st" "\<forall>a \<in> set args. resp_typed a"
  shows "wf_storage (snd (cmd_zrem clk st i args))"
  using assms
  unfolding cmd_zrem_def
  by (auto simp del: wf_value.simps zrem_loop.simps split: list.split option.split
      intro!: wf_write wf_get_arg_str)

lemma wf_derived_commands [simp]:
  assumes "wf_storage st" "\<forall>a \<in> set args. resp_typed a"
  shows "wf_storage (snd (cmd_incr clk st i args))" "wf_storage (snd (cmd_decr clk st i args))"
    "wf_storage (snd (cmd_incrby clk st i args))" "wf_storage (snd (cmd_decrby clk st i args))"
    "wf_storage (snd (cmd_hmset clk st i args))"
    "wf_storage (snd (cmd_lpush clk st i args))" "wf_storage (snd (cmd_rpush clk st i args))"
    "wf_storage (snd (cmd_lpop clk st i args))" "wf_storage (snd (cmd_rpop clk st i args))"
    "wf_storage (snd (cmd_hgetall E clk st i args))" "wf_storage (snd (cmd_hkeys E clk st i args))"
    "wf_storage (snd (cmd_hvals E clk st i args))" "wf_storage (snd (cmd_hlen clk st i args))"
  using assms
  by (auto simp: cmd_incr_def cmd_decr_def cmd_incrby_def cmd_decrby_def cmd_hmset_def cmd_lpush_def
      cmd_rpush_def cmd_lpop_def cmd_rpop_def cmd_hgetall_def cmd_hkeys_def cmd_hvals_def cmd_hlen_def
      wf_read_hash split: list.split option.split)

lemma wf_table:
  "(name, f) \<in> set (redis_commands E clk pw) \<Longrightarrow> wf_storage st \<Longrightarrow> (\<forall>a \<in> set args. resp_typed a) \<Longrightarrow>
     wf_storage (snd (f st i args))"
  by (auto simp: redis_commands_def)

subsection \<open>Commands touch only the selected database\<close>

lemma only_db_refl [simp]: "only_db i st st"
  by (simp add: only_db_def)

lemma only_db_with_db [simp]: "only_db i st (snd (with_db st i d f))"
  by (simp add: only_db_def with_db_def get_db_def split: option.splits prod.splits)

lemma only_db_incrby [simp]: "only_db i st (snd (cmd_incrby_internal clk st i args n))"
  by (simp add: cmd_incrby_internal_def split: list.splits option.splits)

lemma only_db_commands [simp]:
  "only_db i st (snd (cmd_del st i args))"
  "only_db i st (snd (cmd_exists clk st i args))"
  "only_db i st (snd (cmd_expire clk st i args))"
  "only_db i st (snd (cmd_ttl clk st i args))"
  "only_db i st (snd (cmd_type clk st i args))"
  "only_db i st (snd (cmd_keys E clk st i args))"
  "only_db i st (snd (cmd_rename clk st i args))"
  "only_db i st (snd (cmd_get clk st i args))"
  "only_db i st (snd (cmd_set E clk st i args))"
  "only_db i st (snd (cmd_mget clk st i args))"
  "only_db i st (snd (cmd_mset clk st i args))"
  "only_db i st (snd (cmd_append clk st i args))"
  "only_db i st (snd (cmd_strlen clk st i args))"
  "only_db i st (snd (cmd_hget clk st i args))"
  "only_db i st (snd (cmd_hset clk st i args))"
  "only_db i st (snd (cmd_hmget clk st i args))"
  "only_db i st (snd (cmd_hdel clk st i args))"
  "only_db i st (snd (cmd_hgetall E clk st i args))"
  "only_db i st (snd (cmd_hkeys E clk st i args))"
  "only_db i st (snd (cmd_hvals E clk st i args))"
  "only_db i st (snd (cmd_hlen clk st i args))"
  "only_db i st (snd (cmd_hexists clk st i args))"
  "only_db i st (snd (cmd_lpush clk st i args))"
  "only_db i st (snd (cmd_rpush clk st i args))"
  "only_db i st (snd (cmd_lpop clk st i args))"
  "only_db i st (snd (cmd_rpop clk st i args))"
  "only_db i st (snd (cmd_lrange clk st i args))"
  "only_db i st (snd (cmd_llen clk st i args))"
  "only_db i st (snd (cmd_lindex clk st i args))"
  "only_db i st (snd (cmd_sadd clk st i args))"
  "only_db i st (snd (cmd_srem clk st i args))"
  "only_db i st (snd (cmd_smembers E clk st i args))"
  "only_db i st (snd (cmd_scard clk st i args))"
  "only_db i st (snd (cmd_sismember clk st i args))"
  "only_db i st (snd (cmd_zadd E clk st i args))"
  "only_db i st (snd (cmd_zrem clk st i args))"
  "only_db i st (snd (cmd_zrange E clk st i args))"
  "only_db i st (snd (cmd_zcard clk st i args))"
  "only_db i st (snd (cmd_zscore E clk st i args))"
  by (simp_all add: cmd_del_def cmd_exists_def cmd_expire_def cmd_ttl_def cmd_type_def cmd_keys_def cmd_rename_def cmd_get_def cmd_set_def cmd_mget_def cmd_mset_def cmd_append_def cmd_strlen_def cmd_hget_def cmd_hset_def cmd_hmget_def cmd_hdel_def cmd_hgetall_def cmd_hkeys_def cmd_hvals_def cmd_hlen_def cmd_hexists_def cmd_lpush_def cmd_rpush_def cmd_lpop_def cmd_rpop_def cmd_lrange_def cmd_llen_def cmd_lindex_def cmd_sadd_def cmd_srem_def cmd_smembers_def cmd_scard_def cmd_sismember_def cmd_zadd_def cmd_zrem_def cmd_zrange_def cmd_zcard_def cmd_zscore_def
      read_hash_def cmd_push_def cmd_pop_def Let_def split: list.splits option.splits sum.splits prod.splits)

lemma only_db_counters [simp]:
  "only_db i st (snd (cmd_incr clk st i args))" "only_db i st (snd (cmd_decr clk st i args))"
  "only_db i st (snd (cmd_incrby clk st i args))" "only_db i st (snd (cmd_decrby clk st i args))"
  "only_db i st (snd (cmd_hmset clk st i args))" "only_db i st (snd (cmd_flushdb st i))"
  by (simp_all add: cmd_incr_def cmd_decr_def cmd_incrby_def cmd_decrby_def cmd_hmset_def cmd_flushdb_def
      split: list.splits option.splits)

lemma only_db_entries:
  "list_all (\<lambda>(name, f). name \<noteq> ''FLUSHALL'' \<longrightarrow> (\<forall>st i args. only_db i st (snd (f st i args)))) (redis_commands E clk pw)"
  by (simp add: redis_commands_def)

lemma only_db_table:
  "(name, f) \<in> set (redis_commands E clk pw) \<Longrightarrow> name \<noteq> ''FLUSHALL'' \<Longrightarrow> only_db i st (snd (f st i args))"
  using only_db_entries [of E clk pw] by (force simp: list_all_iff)

text \<open>The dispatch either replies without touching the storage or runs one command of the table.\<close>

lemma handle_command_cases:
  assumes "handle_command E clk pw st i cmd = (r, st')"
  obtains (Unknown) "st' = st"
  | (Command) c args name f where "cmd = c # args" "command_name E c = Some name"
      "(name, f) \<in> set (redis_commands E clk pw)" "f st i args = (r, st')"
  using assms
  by (auto simp: handle_command_def split: list.splits option.splits dest: map_of_SomeD)

lemma handle_command_wf:
  assumes "wf_storage st" and "\<forall>a \<in> set cmd. resp_typed a"
    and "handle_command E clk pw st i cmd = (r, st')"
  shows "wf_storage st'"
  using assms(3)
proof (cases rule: handle_command_cases)
  case (Command c args name f)
  with wf_table [OF Command(3) assms(1), of args i] assms(2) show ?thesis by simp
qed (simp add: assms(1))

lemma handle_command_only_db:
  assumes "handle_command E clk pw st i cmd = (r, st')"
    and "\<And>c args. cmd = c # args \<Longrightarrow> command_name E c \<noteq> Some ''FLUSHALL''"
  shows "only_db i st st'"
  using assms(1)
proof (cases rule: handle_command_cases)
  case (Command c args name f)
  with only_db_table [OF Command(3), of i st args] assms(2) show ?thesis by auto
qed simp

end
