(* ===== verification/RedisConnection.thy ===== *)
theory RedisConnection
  imports RedisInvariant
begin

section \<open>The Redis connection loop (crates/redis-protocol/src/connection.rs, server.rs)\<close>

text \<open>
  One connection: a read buffer and the selected database. Reads from the socket are events; the
  inner loop \<open>serve\<close> parses and answers the commands the buffer holds. The bytes written are
  the list of the frames, one per \<open>write_all\<close>. \<open>clks n\<close> are the readings of the clock during
  the \<open>n\<close>th command. A panic in the handler closes the connection at the recovery boundary of
  the server. Write errors of the socket are not modelled.
\<close>

record redis_server_config =
  port :: nat
  password :: "string option"
  num_databases :: nat

definition redis_server_config_default :: redis_server_config where
  "redis_server_config_default = \<lparr>port = 6379, password = None, num_databases = 16\<rparr>"

definition server_new_storage :: "redis_server_config \<Rightarrow> storage" where
  "server_new_storage config = storage_new (num_databases config)"

record redis_connection =
  read_buf :: bytes
  db_index :: nat

definition connection_new :: redis_connection where
  "connection_new = \<lparr>read_buf = [], db_index = 0\<rparr>"

subsection \<open>SELECT\<close>

definition select_name :: "resp_value \<Rightarrow> string option" where
  "select_name v =
     (case v of
        BulkString s \<Rightarrow> from_utf8 s
      | SimpleString s \<Rightarrow> Some s
      | _ \<Rightarrow> None)"

definition select_target :: "resp_value \<Rightarrow> nat option" where
  "select_target v =
     (case v of
        Integer n \<Rightarrow> Some (i64_as_usize n)
      | BulkString s \<Rightarrow> Option.bind (from_utf8 s) parse_usize
      | _ \<Rightarrow> None)"

definition select_index :: "ext \<Rightarrow> resp_value \<Rightarrow> nat \<Rightarrow> nat" where
  "select_index E command idx =
     (case command of
        Array (a # b # _) \<Rightarrow>
          (case select_name a of
             Some cmd_str \<Rightarrow>
               if to_uppercase (uni_upper E) cmd_str = ''SELECT'' then
                 (case select_target b of
                    Some db \<Rightarrow> if db < 16 then db else idx
                  | None \<Rightarrow> idx)
               else idx
           | None \<Rightarrow> idx)
      | _ \<Rightarrow> idx)"

definition cmd_array :: "resp_value \<Rightarrow> resp_value list" where
  "cmd_array command = (case command of Array arr \<Rightarrow> arr | _ \<Rightarrow> [command])"

subsection \<open>The loops\<close>

text \<open>How the inner loop ends: the buffer is empty or holds part of a command (\<open>Drained\<close>), a
  parse error was answered (\<open>ProtocolError\<close>), or the handler panicked.\<close>

datatype serve_end = Drained | ProtocolError | Panicked

record served =
  ended :: serve_end
  written :: "bytes list"
  s_storage :: storage
  s_conn :: redis_connection
  s_clocks :: "nat \<Rightarrow> clock"

definition after_reply :: "bytes \<Rightarrow> served \<Rightarrow> served" where
  "after_reply r s = s\<lparr>written := r # written s\<rparr>"

function serve :: "ext \<Rightarrow> string option \<Rightarrow> (nat \<Rightarrow> clock) \<Rightarrow> storage \<Rightarrow> redis_connection \<Rightarrow> served" where
  "serve E pw clks st conn =
     (if read_buf conn = [] then
        \<lparr>ended = Drained, written = [], s_storage = st, s_conn = conn, s_clocks = clks\<rparr>
      else
        (case parse (read_buf conn) of
           (Inr (Some command), rest) \<Rightarrow>
             (let idx = select_index E command (db_index conn);
                  conn' = conn\<lparr>read_buf := rest, db_index := idx\<rparr>
              in (case handle_command E (clks 0) pw st idx (cmd_array command) of
                    (Some response, st') \<Rightarrow>
                      after_reply response (serve E pw (\<lambda>n. clks (Suc n)) st' conn')
                  | (None, st') \<Rightarrow>
                      \<lparr>ended = Panicked, written = [], s_storage = st', s_conn = conn',
                       s_clocks = (\<lambda>n. clks (Suc n))\<rparr>))
         | (Inr None, rest) \<Rightarrow>
             \<lparr>ended = Drained, written = [], s_storage = st, s_conn = conn\<lparr>read_buf := rest\<rparr>, s_clocks = clks\<rparr>
         | (Inl e, rest) \<Rightarrow>
             \<lparr>ended = ProtocolError, written = [resp_err ''ERR protocol error''], s_storage = st,
              s_conn = conn\<lparr>read_buf := rest\<rparr>, s_clocks = clks\<rparr>))"
  by pat_completeness auto
termination
  by (relation "measure (\<lambda>(E, pw, clks, st, conn). length (read_buf conn))")
     (auto dest: parse_progress [OF sym])

declare serve.simps [simp del]

datatype read_event = ReadOk bytes | ReadErr

datatype conn_end = Waiting | Closed | IoError | Crashed

text \<open>The outer loop over the results of the reads: \<open>Waiting\<close> when they are used up.\<close>

fun run :: "ext \<Rightarrow> string option \<Rightarrow> (nat \<Rightarrow> clock) \<Rightarrow> storage \<Rightarrow> redis_connection \<Rightarrow> read_event list
    \<Rightarrow> conn_end \<times> bytes list \<times> storage \<times> redis_connection" where
  "run E pw clks st conn [] = (Waiting, [], st, conn)"
| "run E pw clks st conn (ReadErr # evs) = (IoError, [], st, conn)"
| "run E pw clks st conn (ReadOk bs # evs) =
     (if bs = [] then (Closed, [], st, conn)
      else
        (let s = serve E pw clks st (conn\<lparr>read_buf := read_buf conn @ bs\<rparr>)
         in if ended s = Panicked then (Crashed, written s, s_storage s, s_conn s)
            else (case run E pw (s_clocks s) (s_storage s) (s_conn s) evs of
                    (e, out, st', conn') \<Rightarrow> (e, written s @ out, st', conn'))))"

subsection \<open>Lemmas\<close>

definition add_input :: "bytes \<Rightarrow> redis_connection \<Rightarrow> redis_connection" where
  "add_input bs conn = conn\<lparr>read_buf := read_buf conn @ bs\<rparr>"

definition after_replies :: "bytes list \<Rightarrow> served \<Rightarrow> served" where
  "after_replies rs s = s\<lparr>written := rs @ written s\<rparr>"

lemma add_input_simps [simp]:
  "read_buf (add_input bs conn) = read_buf conn @ bs" "db_index (add_input bs conn) = db_index conn"
  "add_input bs (conn\<lparr>read_buf := x, db_index := i\<rparr>) = conn\<lparr>read_buf := x @ bs, db_index := i\<rparr>"
  "(add_input bs conn)\<lparr>read_buf := x, db_index := i\<rparr> = conn\<lparr>read_buf := x, db_index := i\<rparr>"
  "add_input [] conn = conn" "add_input bs (add_input as conn) = add_input (as @ bs) conn"
  by (simp_all add: add_input_def)

lemma after_reply_simps [simp]:
  "ended (after_reply r s) = ended s" "written (after_reply r s) = r # written s"
  "s_storage (after_reply r s) = s_storage s" "s_conn (after_reply r s) = s_conn s"
  "s_clocks (after_reply r s) = s_clocks s"
  "after_reply r (after_replies rs s) = after_replies (r # rs) s"
  "(after_reply r s)\<lparr>s_conn := c\<rparr> = after_reply r (s\<lparr>s_conn := c\<rparr>)"
  by (simp_all add: after_reply_def after_replies_def)

lemma after_replies_simps [simp]:
  "ended (after_replies rs s) = ended s" "written (after_replies rs s) = rs @ written s"
  "s_storage (after_replies rs s) = s_storage s" "s_conn (after_replies rs s) = s_conn s"
  "s_clocks (after_replies rs s) = s_clocks s" "after_replies [] s = s"
  by (simp_all add: after_replies_def)

text \<open>One round of the inner loop, by what the parser said.\<close>

lemma serve_empty: "read_buf conn = [] \<Longrightarrow>
    serve E pw clks st conn = \<lparr>ended = Drained, written = [], s_storage = st, s_conn = conn, s_clocks = clks\<rparr>"
  by (simp add: serve.simps)

lemma serve_incomplete: "parse (read_buf conn) = (Inr None, rest) \<Longrightarrow>
    serve E pw clks st conn = \<lparr>ended = Drained, written = [], s_storage = st, s_conn = conn, s_clocks = clks\<rparr>"
  using parse_incomplete [of "read_buf conn" rest] by (simp add: serve.simps)

lemma parse_nonempty: "parse buf = (res, rest) \<Longrightarrow> res \<noteq> Inr None \<Longrightarrow> buf \<noteq> []"
  by (auto simp: parse.simps)

lemma serve_error: "parse (read_buf conn) = (Inl e, rest) \<Longrightarrow>
    serve E pw clks st conn =
      \<lparr>ended = ProtocolError, written = [resp_err ''ERR protocol error''], s_storage = st,
       s_conn = conn\<lparr>read_buf := rest\<rparr>, s_clocks = clks\<rparr>"
  using parse_nonempty [of "read_buf conn"] by (simp add: serve.simps)

lemma serve_command:
  assumes "parse (read_buf conn) = (Inr (Some command), rest)"
    and "handle_command E (clks 0) pw st (select_index E command (db_index conn)) (cmd_array command) = (r, st')"
  shows "serve E pw clks st conn =
    (let conn' = conn\<lparr>read_buf := rest, db_index := select_index E command (db_index conn)\<rparr>
     in case r of
          Some response \<Rightarrow> after_reply response (serve E pw (\<lambda>n. clks (Suc n)) st' conn')
        | None \<Rightarrow> \<lparr>ended = Panicked, written = [], s_storage = st', s_conn = conn', s_clocks = (\<lambda>n. clks (Suc n))\<rparr>)"
  using assms parse_nonempty [OF assms(1)] by (simp add: serve.simps [of E pw clks st conn] Let_def)

lemma serve_append:
  "serve E pw clks st (add_input bs conn) =
     (let s = serve E pw clks st conn
      in if ended s = Drained
         then after_replies (written s) (serve E pw (s_clocks s) (s_storage s) (add_input bs (s_conn s)))
         else s\<lparr>s_conn := add_input bs (s_conn s)\<rparr>)"
proof (induction E pw clks st conn rule: serve.induct)
  case (1 E pw clks st conn)
  show ?case
  proof (cases "read_buf conn = []")
    case True
    then show ?thesis by (simp add: serve_empty Let_def)
  next
    case False
    obtain res rest where p: "parse (read_buf conn) = (res, rest)" by (cases "parse (read_buf conn)")
    consider "res = Inr None" | e where "res = Inl e" | command where "res = Inr (Some command)"
      by (metis option.exhaust sum.exhaust)
    then show ?thesis
    proof cases
      case 1
      with p have "serve E pw clks st conn = \<lparr>ended = Drained, written = [], s_storage = st, s_conn = conn, s_clocks = clks\<rparr>"
        by (intro serve_incomplete) simp
      then show ?thesis by (simp add: Let_def)
    next
      case 2
      with p parse_append(1) [OF p, of bs]
      have "serve E pw clks st conn = \<lparr>ended = ProtocolError, written = [resp_err ''ERR protocol error''], s_storage = st,
          s_conn = conn\<lparr>read_buf := rest\<rparr>, s_clocks = clks\<rparr>"
        "serve E pw clks st (add_input bs conn) = \<lparr>ended = ProtocolError, written = [resp_err ''ERR protocol error''], s_storage = st,
          s_conn = (add_input bs conn)\<lparr>read_buf := rest @ bs\<rparr>, s_clocks = clks\<rparr>"
        by (auto intro!: serve_error)
      then show ?thesis by (simp add: Let_def add_input_def)
    next
      case (3 command)
      let ?i = "select_index E command (db_index conn)"
      let ?c = "conn\<lparr>read_buf := rest, db_index := ?i\<rparr>"
      obtain r st' where h: "handle_command E (clks 0) pw st ?i (cmd_array command) = (r, st')" by force
      have long: "parse (read_buf (add_input bs conn)) = (Inr (Some command), rest @ bs)"
        using parse_append(1) [OF p, of bs] 3 by simp
      have short: "serve E pw clks st conn = (case r of
          Some response \<Rightarrow> after_reply response (serve E pw (\<lambda>n. clks (Suc n)) st' ?c)
        | None \<Rightarrow> \<lparr>ended = Panicked, written = [], s_storage = st', s_conn = ?c, s_clocks = (\<lambda>n. clks (Suc n))\<rparr>)"
        using serve_command [of conn command rest] p 3 h by (simp add: Let_def)
      have ext: "serve E pw clks st (add_input bs conn) = (case r of
          Some response \<Rightarrow> after_reply response (serve E pw (\<lambda>n. clks (Suc n)) st' (add_input bs ?c))
        | None \<Rightarrow> \<lparr>ended = Panicked, written = [], s_storage = st', s_conn = add_input bs ?c, s_clocks = (\<lambda>n. clks (Suc n))\<rparr>)"
        using serve_command [OF long, of E clks pw st] h by (cases r) (simp_all add: Let_def)
      show ?thesis
      proof (cases r)
        case None
        then show ?thesis unfolding short ext by (simp add: Let_def)
      next
        case (Some response)
        have IH: "serve E pw (\<lambda>n. clks (Suc n)) st' (add_input bs ?c) =
           (let s = serve E pw (\<lambda>n. clks (Suc n)) st' ?c
            in if ended s = Drained
               then after_replies (written s) (serve E pw (s_clocks s) (s_storage s) (add_input bs (s_conn s)))
               else s\<lparr>s_conn := add_input bs (s_conn s)\<rparr>)"
          by (rule "1.IH" [OF False p [symmetric] 3 refl refl refl h [symmetric] Some])
        then show ?thesis unfolding short ext Some by (simp add: Let_def)
      qed
    qed
  qed
qed

subsection \<open>Segmentation does not matter\<close>

lemma run_ReadOk:
  assumes "bs \<noteq> []"
  shows "run E pw clks st conn (ReadOk bs # evs) =
    (let s = serve E pw clks st (add_input bs conn)
     in if ended s = Panicked then (Crashed, written s, s_storage s, s_conn s)
        else (case run E pw (s_clocks s) (s_storage s) (s_conn s) evs of
                (e, out, st', conn') \<Rightarrow> (e, written s @ out, st', conn')))"
  using assms by (simp add: add_input_def)

declare run.simps(3) [simp del]

lemma run_split_read:
  assumes "as \<noteq> []" "bs \<noteq> []"
    and ok: "ended (serve E pw clks st (add_input (as @ bs) conn)) = Drained"
  shows "run E pw clks st conn (ReadOk as # ReadOk bs # evs) = run E pw clks st conn (ReadOk (as @ bs) # evs)"
proof -
  let ?s = "serve E pw clks st (add_input as conn)"
  have whole: "serve E pw clks st (add_input (as @ bs) conn) =
      (if ended ?s = Drained
       then after_replies (written ?s) (serve E pw (s_clocks ?s) (s_storage ?s) (add_input bs (s_conn ?s)))
       else ?s\<lparr>s_conn := add_input bs (s_conn ?s)\<rparr>)"
    using serve_append [of E pw clks st bs "add_input as conn"] by (simp add: Let_def)
  then have "ended ?s = Drained" using ok by (auto split: if_splits)
  with whole ok assms(1,2) show ?thesis
    by (simp add: run_ReadOk Let_def split: prod.split)
qed


lemma serve_append_Drained:
  assumes "ended (serve E pw clks st (add_input (as @ bs) conn)) = Drained"
  shows "ended (serve E pw clks st (add_input as conn)) = Drained"
  using assms serve_append [of E pw clks st bs "add_input as conn"] by (auto simp: Let_def split: if_splits)

lemma run_segments:
  assumes "a \<noteq> []" "[] \<notin> set cs"
    and "ended (serve E pw clks st (add_input (a @ concat cs) conn)) = Drained"
  shows "run E pw clks st conn (ReadOk a # map ReadOk cs @ evs) = run E pw clks st conn (ReadOk (a @ concat cs) # evs)"
  using assms
proof (induction cs arbitrary: a)
  case (Cons b cs)
  from Cons.prems have "run E pw clks st conn (ReadOk (a @ b) # map ReadOk cs @ evs) =
      run E pw clks st conn (ReadOk ((a @ b) @ concat cs) # evs)"
    by (intro Cons.IH) auto
  moreover have "run E pw clks st conn (ReadOk a # ReadOk b # map ReadOk cs @ evs) =
      run E pw clks st conn (ReadOk (a @ b) # map ReadOk cs @ evs)"
    using Cons.prems serve_append_Drained [of E pw clks st "a @ b" "concat cs" conn]
    by (intro run_split_read) auto
  ultimately show ?case by simp
qed simp

subsection \<open>The commands one after the other\<close>

fun exec_commands :: "ext \<Rightarrow> string option \<Rightarrow> (nat \<Rightarrow> clock) \<Rightarrow> storage \<Rightarrow> nat \<Rightarrow> resp_value list
    \<Rightarrow> serve_end \<times> bytes list \<times> storage \<times> nat" where
  "exec_commands E pw clks st idx [] = (Drained, [], st, idx)"
| "exec_commands E pw clks st idx (c # cs) =
     (let i = select_index E c idx
      in case handle_command E (clks 0) pw st i (cmd_array c) of
           (None, st') \<Rightarrow> (Panicked, [], st', i)
         | (Some r, st') \<Rightarrow>
             (case exec_commands E pw (\<lambda>n. clks (Suc n)) st' i cs of
                (e, out, st'', i') \<Rightarrow> (e, r # out, st'', i')))"

lemma serve_pipeline:
  assumes "\<forall>c \<in> set cs. wf_resp MAX_DEPTH c" and "parse tail = (Inr None, tail')"
  shows "(let s = serve E pw clks st (conn\<lparr>read_buf := concat (map enc cs) @ tail\<rparr>)
          in (ended s, written s, s_storage s, db_index (s_conn s))) =
         exec_commands E pw clks st (db_index conn) cs"
  using assms(1)
proof (induction cs arbitrary: clks st conn)
  case Nil
  show ?case
    using serve_incomplete [of "conn\<lparr>read_buf := tail\<rparr>"] assms(2) by (simp add: Let_def)
next
  case (Cons c cs)
  let ?i = "select_index E c (db_index conn)"
  let ?rest = "concat (map enc cs) @ tail"
  obtain r st' where h: "handle_command E (clks 0) pw st ?i (cmd_array c) = (r, st')" by force
  have p: "parse (read_buf (conn\<lparr>read_buf := enc c @ ?rest\<rparr>)) = (Inr (Some c), ?rest)"
    using Cons.prems parse_enc [of MAX_DEPTH c ?rest] by simp
  have IH: "(let s = serve E pw (\<lambda>n. clks (Suc n)) st' (conn\<lparr>db_index := ?i, read_buf := ?rest\<rparr>)
          in (ended s, written s, s_storage s, db_index (s_conn s))) =
         exec_commands E pw (\<lambda>n. clks (Suc n)) st' ?i cs"
    using Cons.IH [of "\<lambda>n. clks (Suc n)" st' "conn\<lparr>db_index := ?i\<rparr>"] Cons.prems by simp
  have swap: "conn\<lparr>read_buf := ?rest, db_index := ?i\<rparr> = conn\<lparr>db_index := ?i, read_buf := ?rest\<rparr>" by simp
  show ?case
    using serve_command [OF p, of E clks pw st] h IH [symmetric] unfolding swap
    by (cases r) (simp_all add: Let_def swap)
qed

lemma serve_wf:
  assumes "wf_storage st"
  shows "wf_storage (s_storage (serve E pw clks st conn))"
  using assms
proof (induction E pw clks st conn rule: serve.induct)
  case (1 E pw clks st conn)
  obtain res rest where p: "parse (read_buf conn) = (res, rest)" by (cases "parse (read_buf conn)")
  consider "res = Inr None" | e where "res = Inl e" | command where "res = Inr (Some command)"
    by (metis option.exhaust sum.exhaust)
  then show ?case
  proof cases
    case (3 command)
    let ?i = "select_index E command (db_index conn)"
    obtain r st' where h: "handle_command E (clks 0) pw st ?i (cmd_array command) = (r, st')" by force
    have "resp_typed command" using p 3 parse_typed(1) by simp
    then have "\<forall>a \<in> set (cmd_array command). resp_typed a"
      by (auto simp: cmd_array_def split: resp_value.splits)
    then have st': "wf_storage st'" by (rule handle_command_wf [OF "1.prems" _ h])
    show ?thesis
    proof (cases r)
      case None
      with serve_command [of conn command rest] p 3 h st' show ?thesis by (simp add: Let_def)
    next
      case (Some response)
      have "read_buf conn \<noteq> []" using parse_nonempty [OF p] 3 by simp
      from "1.IH" [OF this p [symmetric] 3 refl refl refl h [symmetric] Some st']
        serve_command [of conn command rest] p 3 h Some show ?thesis by (simp add: Let_def)
    qed
  qed (use p "1.prems" in \<open>simp_all add: serve_incomplete serve_error\<close>)
qed

end
