(* ===== verification/RedisProps.thy ===== *)
theory RedisProps
  imports RedisConnection
begin

section \<open>What the Redis commands do\<close>

text \<open>
  The functional properties of the command handler, stated on requests as a client sends them
  (arrays of bulk strings) and on the view of the keyspace: at an instant, the value and expiry of
  every entry that has not expired. Each property rests on the store contract of the keyspace
  (\<open>redis_kv\<close>) and on one lemma per command that says what it writes.
\<close>

subsection \<open>Definitions\<close>

definition request :: "string list \<Rightarrow> resp_value list" where
  "request words = map BulkString words"

definition key_view :: "storage \<Rightarrow> nat \<Rightarrow> instant \<Rightarrow> string \<Rightarrow> (redis_value \<times> instant option) option" where
  "key_view st i t = live (st ! i) t"

definition get_answer :: "(redis_value \<times> instant option) option \<Rightarrow> bytes" where
  "get_answer v =
     (case v of
        None \<Rightarrow> resp_null
      | Some (RString s, _) \<Rightarrow> resp_bulk s
      | Some _ \<Rightarrow> wrongtype)"

definition incr_operand :: "(redis_value \<times> instant option) option \<Rightarrow> bytes + int" where
  "incr_operand v =
     (case v of
        None \<Rightarrow> Inr 0
      | Some (RString s, _) \<Rightarrow> (case parse_i64 s of Some n \<Rightarrow> Inr n | None \<Rightarrow> Inl not_an_integer)
      | Some _ \<Rightarrow> Inl wrongtype)"

definition hash_at :: "(redis_value \<times> instant option) option \<Rightarrow> (string \<times> string) list option" where
  "hash_at v = (case v of None \<Rightarrow> Some [] | Some (RHash h, _) \<Rightarrow> Some h | Some _ \<Rightarrow> None)"

definition list_at :: "(redis_value \<times> instant option) option \<Rightarrow> string list option" where
  "list_at v = (case v of None \<Rightarrow> Some [] | Some (RList l, _) \<Rightarrow> Some l | Some _ \<Rightarrow> None)"

definition list_index :: "nat \<Rightarrow> int \<Rightarrow> int" where
  "list_index n j = (if j < 0 then int n + j else j)"

definition list_slice :: "string list \<Rightarrow> int \<Rightarrow> int \<Rightarrow> string list" where
  "list_slice l start stop =
     map ((!) l) (filter (\<lambda>p. list_index (length l) start \<le> int p \<and> int p \<le> list_index (length l) stop) [0..<length l])"

definition set_at :: "(redis_value \<times> instant option) option \<Rightarrow> string list option" where
  "set_at v = (case v of None \<Rightarrow> Some [] | Some (RSet s, _) \<Rightarrow> Some s | Some _ \<Rightarrow> None)"

text \<open>
  The number a bit pattern stands for by IEEE 754, in units of the smallest subnormal: fraction
  for exponent 0, fraction with the implicit bit shifted by the exponent otherwise. The infinities
  come out above every finite number.
\<close>

definition f64_value :: "f64 \<Rightarrow> int" where
  "f64_value x =
     (let e = nat (uint x div 2 ^ 52 mod 2 ^ 11); m = uint x mod 2 ^ 52;
          v = (if e = 0 then m else (2 ^ 52 + m) * 2 ^ (e - 1))
      in if uint x < 2 ^ 63 then v else - v)"

text \<open>A sorted set as it should be: one score per member, ascending by score and then by member.\<close>

definition zset_before :: "f64 \<times> string \<Rightarrow> f64 \<times> string \<Rightarrow> bool" where
  "zset_before x y \<longleftrightarrow>
     f64_value (fst x) < f64_value (fst y) \<or> f64_value (fst x) = f64_value (fst y) \<and> snd x < snd y"

definition zset_ok :: "(f64 \<times> string) list \<Rightarrow> bool" where
  "zset_ok z \<longleftrightarrow> distinct (map snd z) \<and> (\<forall>x \<in> set z. \<not> f64_is_nan (fst x)) \<and> sorted_wrt zset_before z"

text \<open>The content of a sorted set as a map from members to scores, and what pairs of score and member
  given to ZADD make of it: each updates its member, one whose score is no number is skipped.\<close>

definition zset_scores :: "(f64 \<times> string) list \<Rightarrow> string \<rightharpoonup> f64" where
  "zset_scores z = map_of (map (\<lambda>(s, m). (m, s)) z)"

fun zadd_scores :: "ext \<Rightarrow> (string \<times> string) list \<Rightarrow> (string \<rightharpoonup> f64) \<Rightarrow> (string \<rightharpoonup> f64)" where
  "zadd_scores E [] sc = sc"
| "zadd_scores E ((s, m) # ps) sc =
     zadd_scores E ps (case parse_f64 E s of Some x \<Rightarrow> sc(m \<mapsto> x) | None \<Rightarrow> sc)"

definition zadd_words :: "(string \<times> string) list \<Rightarrow> string list" where
  "zadd_words ps = concat (map (\<lambda>(s, m). [s, m]) ps)"

definition zset_at :: "(redis_value \<times> instant option) option \<Rightarrow> (f64 \<times> string) list option" where
  "zset_at v = (case v of None \<Rightarrow> Some [] | Some (RSortedSet z, _) \<Rightarrow> Some z | Some _ \<Rightarrow> None)"

text \<open>Concrete instances of the parameters, for the witnesses.\<close>

definition sample_ext :: ext where
  "sample_ext = \<lparr>uni_upper = (\<lambda>s. s), key_order = (\<lambda>ks. ks), regex_new = (\<lambda>_. Some (\<lambda>k. k \<noteq> ''s'')),
     parse_f64 = (\<lambda>s. if s = ''1'' then Some 0x3FF0000000000000 else if s = ''2'' then Some 0x4000000000000000 else None),
     show_f64 = (\<lambda>_. ''1'')\<rparr>"

definition sample_storage :: storage where
  "sample_storage =
     [[(''n'', \<lparr>entry_value = RString ''41'', expires_at = None\<rparr>),
       (''l'', \<lparr>entry_value = RList [''a'', ''b'', ''c''], expires_at = None\<rparr>),
       (''s'', \<lparr>entry_value = RSet [''x''], expires_at = None\<rparr>),
       (''z'', \<lparr>entry_value = RSortedSet [(0x3FF0000000000000, ''m'')], expires_at = None\<rparr>),
       (''old'', \<lparr>entry_value = RString ''v'', expires_at = Some 5\<rparr>)], []]"

subsection \<open>Dispatch of a request\<close>

lemma handle_upper:
  assumes "is_ascii n" and "map ascii_upper n = n" and "map_of (redis_commands E clk pw) n = Some f"
  shows "handle_command E clk pw st i (request (n # args)) = f st i (map BulkString args)"
  using assms by (simp add: handle_command_def command_name_def to_uppercase_def request_def
      from_utf8_lossy_id valid_utf8_ascii)

lemma dispatch:
  "handle_command E clk pw st i (request (''GET'' # args)) = cmd_get clk st i (map BulkString args)"
  "handle_command E clk pw st i (request (''SET'' # args)) = cmd_set E clk st i (map BulkString args)"
  "handle_command E clk pw st i (request (''DEL'' # args)) = cmd_del st i (map BulkString args)"
  "handle_command E clk pw st i (request (''EXPIRE'' # args)) = cmd_expire clk st i (map BulkString args)"
  "handle_command E clk pw st i (request (''TTL'' # args)) = cmd_ttl clk st i (map BulkString args)"
  "handle_command E clk pw st i (request (''KEYS'' # args)) = cmd_keys E clk st i (map BulkString args)"
  "handle_command E clk pw st i (request (''RENAME'' # args)) = cmd_rename clk st i (map BulkString args)"
  "handle_command E clk pw st i (request (''INCRBY'' # args)) = cmd_incrby clk st i (map BulkString args)"
  "handle_command E clk pw st i (request (''HSET'' # args)) = cmd_hset clk st i (map BulkString args)"
  "handle_command E clk pw st i (request (''HGET'' # args)) = cmd_hget clk st i (map BulkString args)"
  "handle_command E clk pw st i (request (''LPUSH'' # args)) = cmd_lpush clk st i (map BulkString args)"
  "handle_command E clk pw st i (request (''RPUSH'' # args)) = cmd_rpush clk st i (map BulkString args)"
  "handle_command E clk pw st i (request (''LPOP'' # args)) = cmd_lpop clk st i (map BulkString args)"
  "handle_command E clk pw st i (request (''LRANGE'' # args)) = cmd_lrange clk st i (map BulkString args)"
  "handle_command E clk pw st i (request (''SADD'' # args)) = cmd_sadd clk st i (map BulkString args)"
  "handle_command E clk pw st i (request (''SISMEMBER'' # args)) = cmd_sismember clk st i (map BulkString args)"
  "handle_command E clk pw st i (request (''ZADD'' # args)) = cmd_zadd E clk st i (map BulkString args)"
  "handle_command E clk pw st i (request (''SELECT'' # args)) = (cmd_select (map BulkString args), st)"
  by (subst handle_upper, code_simp, code_simp, simp add: redis_commands_def, rule refl)+

lemma get_arg_str_bulk [simp]: "valid_utf8 s \<Longrightarrow> get_arg_str (BulkString s) = Some s"
  by (simp add: get_arg_str_def)

lemma get_arg_int_show [simp]: "in_i64 n \<Longrightarrow> get_arg_int (BulkString (show_int n)) = Some n"
  by (simp add: get_arg_int_def)

lemma with_db_valid:
  "i < length st \<Longrightarrow> with_db st i d f = (fst (f (st ! i)), st[i := snd (f (st ! i))])"
  by (simp add: with_db_def get_db_def split: prod.split)

lemma wf_storage_alist: "wf_storage st \<Longrightarrow> i < length st \<Longrightarrow> wf_alist (st ! i)"
  by (auto dest: wf_storage_nth simp: wf_db_def)

subsection \<open>Replies and effects on the view\<close>

lemma key_view_update: "i < length st \<Longrightarrow> key_view (st[i := db]) i t = live db t"
  by (simp add: key_view_def)

lemma key_view_put: "i < length st \<Longrightarrow>
    key_view (st[i := db_put k v x db]) i t = (live db t)(k := if alive t x then Some (v, x) else None)"
  by (simp add: key_view_update live_put)

text \<open>A command that reads one key: its answer as a function of the view.\<close>

lemma case_get_view:
  "fst (case db_get clk db k of (r, db') \<Rightarrow> (case r of None \<Rightarrow> (a, db') | Some v \<Rightarrow> (f v, db'))) =
     (case live db (clk 0) k of None \<Rightarrow> a | Some (v, x) \<Rightarrow> f v)"
  using fst_db_get [of clk db k] by (cases "db_get clk db k") (auto split: option.splits)

lemma cmd_get_view:
  "i < length st \<Longrightarrow> valid_utf8 k \<Longrightarrow>
     fst (cmd_get clk st i (BulkString k # rest)) = Some (get_answer (key_view st i (clk 0) k))"
  using fst_db_get [of clk "st ! i" k]
  by (cases "db_get clk (st ! i) k")
     (auto simp: cmd_get_def with_db_valid get_answer_def key_view_def split: option.splits redis_value.splits)

text \<open>Reading a key leaves the view as it is, now and later.\<close>

lemma db_get_live:
  assumes "db_get clk db k = (r, db')" and "mono clk" and "clk 0 \<le> t"
  shows "live db' t = live db t" "r = map_option fst (live db (clk 0) k)"
  using live_get [OF assms(2,3), of db k] fst_db_get [of clk db k] assms(1) by auto

text \<open>
  GET answers from the view of the keyspace at the instant it runs: the string of a live
  string, null for a missing or expired key, the type error for a live key of another type; and
  it leaves that view as it is at every later instant.
\<close>

theorem get_reads_view:
  assumes "i < length st" and "valid_utf8 k" and "mono clk" and "clk 0 \<le> t"
    and "handle_command E clk pw st i (request [''GET'', k]) = (r, st')"
  shows "r = Some (get_answer (key_view st i (clk 0) k)) \<and> key_view st' i t = key_view st i t"
proof -
  have "snd (cmd_get clk st i [BulkString k]) = st[i := snd (db_get clk (st ! i) k)]"
    using assms(1,2) by (auto simp: cmd_get_def with_db_valid split: prod.split option.split redis_value.split)
  with assms(5) have "st' = st[i := snd (db_get clk (st ! i) k)]" by (simp add: dispatch)
  moreover have "r = Some (get_answer (key_view st i (clk 0) k))"
    using assms(5) cmd_get_view [OF assms(1,2), of clk "[]"] by (simp add: dispatch)
  ultimately show ?thesis
    using assms(1) live_get [OF assms(3,4), of "st ! i" k] by (simp add: key_view_def)
qed

theorem get_reads_view_witness:
  "fst (handle_command sample_ext (\<lambda>_. 0) None sample_storage 0 (request [''GET'', ''n''])) =
     Some (get_answer (key_view sample_storage 0 0 ''n''))"
  using get_reads_view [of 0 sample_storage "''n''" "\<lambda>_. 0" 0 sample_ext None, OF _ _ _ _ surjective_pairing]
  by (simp add: sample_storage_def valid_utf8_ascii is_ascii_def mono_def)

lemma cmd_set_plain:
  "i < length st \<Longrightarrow> valid_utf8 k \<Longrightarrow> valid_utf8 v \<Longrightarrow>
     cmd_set E clk st i [BulkString k, BulkString v] = (Some resp_ok, st[i := db_put k (RString v) None (st ! i)])"
  by (simp add: cmd_set_def with_db_valid set_reply_def db_set_eq)

text \<open>
  C7. SET without options stores the string without an expiry, whatever was there before, and
  changes no other key; a GET at any later time returns it.
\<close>

theorem set_get:
  assumes "i < length st" and "valid_utf8 k" and "valid_utf8 v"
    and "handle_command E clk pw st i (request [''SET'', k, v]) = (r, st')"
  shows "r = Some resp_ok \<and> (\<forall>t. key_view st' i t = (key_view st i t)(k \<mapsto> (RString v, None)))
    \<and> fst (handle_command E clk' pw st' i (request [''GET'', k])) = Some (resp_bulk v)"
proof -
  have st': "r = Some resp_ok" "st' = st[i := db_put k (RString v) None (st ! i)]"
    using assms by (auto simp: dispatch cmd_set_plain)
  then have view: "key_view st' i t = (key_view st i t)(k \<mapsto> (RString v, None))" for t
    using assms(1) by (simp add: key_view_put) (simp add: key_view_def)
  with st' assms(1,2) show ?thesis by (simp add: dispatch cmd_get_view get_answer_def)
qed

theorem set_get_witness:
  "fst (handle_command sample_ext (\<lambda>_. 9) None
     (snd (handle_command sample_ext (\<lambda>_. 0) None sample_storage 0 (request [''SET'', ''k'', ''v'']))) 0
     (request [''GET'', ''k''])) = Some (resp_bulk ''v'')"
  using set_get [of 0 sample_storage "''k''" "''v''" sample_ext "\<lambda>_. 0" None _ _ "\<lambda>_. 9", OF _ _ _ surjective_pairing]
  by (simp add: sample_storage_def valid_utf8_ascii is_ascii_def mono_def)

lemma upper_EX [simp]: "to_uppercase u ''EX'' = ''EX''" "to_uppercase u ''NX'' = ''NX''"
  by (simp_all add: to_uppercase_def is_ascii_def ascii_upper_def)

lemma valid_ascii_words [simp]: "valid_utf8 ''EX''" "valid_utf8 ''NX''"
  by code_simp+

text \<open>
  C8. SET with EX stores the string with a deadline of that many seconds from the moment it is
  written: the key is visible with its value up to the deadline and absent after it, and no other
  key changes. A deadline beyond the range of the clock panics before anything is written.
\<close>

theorem set_with_expiry:
  assumes "i < length st" and "valid_utf8 k" and "valid_utf8 v" and "0 < secs" and "in_i64 secs"
    and "handle_command E clk pw st i (request [''SET'', k, v, ''EX'', show_int secs]) = (r, st')"
    and "deadline = clk 2 + nat secs * nanos_per_sec"
  shows "if deadline < instant_limit
    then r = Some resp_ok \<and>
      (\<forall>t. key_view st' i t = (key_view st i t)(k := if t \<le> deadline then Some (RString v, Some deadline) else None))
    else r = None \<and> st' = st"
proof -
  have "cmd_set E clk st i (map BulkString [k, v, ''EX'', show_int secs]) =
      (let p = set_reply (later 2 clk) (st ! i) k (RString v) (Some (nat secs * nanos_per_sec)) resp_ok
       in (fst p, st[i := snd p]))"
    using assms(1-5) by (simp add: cmd_set_def with_db_valid Let_def)
  with assms(6,7) show ?thesis
    using assms(1)
    by (auto simp: dispatch set_reply_def db_set_eq instant_add_def Let_def key_view_put fun_eq_iff split: if_splits)
       (auto simp: key_view_def)
qed

theorem set_with_expiry_witness:
  "fst (handle_command sample_ext (\<lambda>_. 0) None sample_storage 0
     (request [''SET'', ''k'', ''v'', ''EX'', show_int 10])) = Some resp_ok"
  using set_with_expiry [of 0 sample_storage "''k''" "''v''" 10 sample_ext "\<lambda>_. 0" None _ _ "10 * nanos_per_sec",
      OF _ _ _ _ _ surjective_pairing]
  by (simp add: sample_storage_def valid_utf8_ascii is_ascii_def in_i64_def i64_min_def i64_max_def
      instant_limit_def nanos_per_sec_def)

lemma cmd_set_nx:
  "i < length st \<Longrightarrow> valid_utf8 k \<Longrightarrow> valid_utf8 v \<Longrightarrow>
     cmd_set E clk st i (map BulkString [k, v, ''NX'']) =
       (if live (st ! i) (clk 0) k \<noteq> None
        then (Some resp_null, st[i := snd (db_exists clk (st ! i) k)])
        else (Some resp_ok, st[i := db_put k (RString v) None (snd (db_exists clk (st ! i) k))]))"
  using db_exists_live [of clk "st ! i" k]
  by (auto simp: cmd_set_def with_db_valid set_reply_def db_set_eq split: prod.splits bool.splits)

text \<open>
  SET with NX writes only when no live entry is there: on a live key it answers null and the
  view does not change; otherwise it is a plain SET.
\<close>

theorem set_nx:
  assumes "i < length st" and "valid_utf8 k" and "valid_utf8 v" and "clk 0 \<le> t"
    and "handle_command E clk pw st i (request [''SET'', k, v, ''NX'']) = (r, st')"
  shows "if key_view st i (clk 0) k \<noteq> None
    then r = Some resp_null \<and> key_view st' i t = key_view st i t
    else r = Some resp_ok \<and> key_view st' i t = (key_view st i t)(k \<mapsto> (RString v, None))"
  using assms cmd_set_nx [OF assms(1-3), of E clk] live_exists [of clk t "st ! i" k]
  by (auto simp: dispatch key_view_def live_put split: if_splits)

theorem set_nx_witness:
  "fst (handle_command sample_ext (\<lambda>_. 0) None sample_storage 0 (request [''SET'', ''n'', ''v'', ''NX''])) =
     Some resp_null"
proof -
  have "key_view sample_storage 0 0 ''n'' \<noteq> None" by code_simp
  then show ?thesis
    using set_nx [of 0 sample_storage "''n''" "''v''" "\<lambda>_. 0" 0 sample_ext None, OF _ _ _ _ surjective_pairing]
    by (simp add: sample_storage_def valid_utf8_ascii is_ascii_def)
qed

lemma incrby_internal_view:
  assumes "i < length st" and "valid_utf8 k" and "mono clk" and "clk 0 \<le> t"
    and "cmd_incrby_internal clk st i [BulkString k] d = (r, st')"
  shows "case incr_operand (key_view st i (clk 0) k) of
      Inr n \<Rightarrow> r = Some (resp_integer (wrap_i64 (n + d))) \<and>
        key_view st' i t = (key_view st i t)(k \<mapsto> (RString (show_int (wrap_i64 (n + d))), None))
    | Inl e \<Rightarrow> r = Some e \<and> key_view st' i t = key_view st i t"
proof -
  obtain x db' where g: "db_get clk (st ! i) k = (x, db')" by force
  note view = db_get_live [OF g assms(3,4)]
  show ?thesis
    using assms(5) g view assms(1,2)
    by (auto simp: cmd_incrby_internal_def with_db_valid incr_operand_def set_reply_def db_set_eq
        key_view_put Let_def key_view_def live_put split: option.splits redis_value.splits)
qed

text \<open>
  C9. INCRBY: a missing or expired key counts as 0, a live string that is a decimal \<open>i64\<close> as its
  number; the sum, wrapped to 64 bits, is answered and stored in decimal without an expiry. Any
  other string is answered with the not-an-integer error, any other type with the type error, and
  then the view does not change.
\<close>

theorem incrby_spec:
  assumes "i < length st" and "valid_utf8 k" and "in_i64 d" and "mono clk" and "clk 0 \<le> t"
    and "handle_command E clk pw st i (request [''INCRBY'', k, show_int d]) = (r, st')"
  shows "case incr_operand (key_view st i (clk 0) k) of
      Inr n \<Rightarrow> r = Some (resp_integer (wrap_i64 (n + d))) \<and>
        key_view st' i t = (key_view st i t)(k \<mapsto> (RString (show_int (wrap_i64 (n + d))), None))
    | Inl e \<Rightarrow> r = Some e \<and> key_view st' i t = key_view st i t"
  using assms(6,3) by (intro incrby_internal_view [OF assms(1,2,4,5)]) (simp add: dispatch cmd_incrby_def)

theorem incrby_spec_witness:
  "fst (handle_command sample_ext (\<lambda>_. 0) None sample_storage 0 (request [''INCRBY'', ''n'', show_int 1])) =
     Some (resp_integer 42)"
proof -
  have "incr_operand (key_view sample_storage 0 0 ''n'') = Inr 41" "wrap_i64 42 = 42" by code_simp+
  then show ?thesis
    using incrby_spec [of 0 sample_storage "''n''" 1 "\<lambda>_. 0" 0 sample_ext None, OF _ _ _ _ _ surjective_pairing]
    by (simp add: sample_storage_def valid_utf8_ascii is_ascii_def in_i64_def i64_min_def i64_max_def mono_def)
qed

lemma cmd_rename_persistent:
  assumes "i < length st" and "valid_utf8 a" and "valid_utf8 b"
    and "live (st ! i) (clk 0) a = Some (v, None)"
  shows "cmd_rename clk st i (map BulkString [a, b]) =
    (Some resp_ok, st[i := AList.delete a (db_put b v None (st ! i))])"
proof -
  obtain e where e: "map_of (st ! i) a = Some e" "entry_value e = v" "expires_at e = None"
    using assms(4) by (auto simp: live_def split: option.splits if_splits)
  then have "db_get clk (st ! i) a = (Some v, st ! i)" "db_ttl (later 2 clk) (st ! i) a = (-1, st ! i)"
    by (simp_all add: db_get_def db_ttl_def expired_def)
  with assms(1-3) show ?thesis
    by (simp add: cmd_rename_def with_db_valid db_set_eq db_del_def)
qed

text \<open>
  RENAME of a live key without an expiry moves its value: the new name holds it, the old one
  is gone and every other key is as before.
\<close>

theorem rename_moves:
  assumes "i < length st" and "valid_utf8 a" and "valid_utf8 b" and "a \<noteq> b"
    and "key_view st i (clk 0) a = Some (v, None)"
    and "handle_command E clk pw st i (request [''RENAME'', a, b]) = (r, st')"
  shows "r = Some resp_ok \<and> key_view st' i t = (key_view st i t)(b \<mapsto> (v, None), a := None)"
  using assms cmd_rename_persistent [of i st a b clk v]
  by (auto simp: dispatch key_view_def live_put live_delete fun_eq_iff)

theorem rename_moves_witness:
  "fst (handle_command sample_ext (\<lambda>_. 0) None sample_storage 0 (request [''RENAME'', ''n'', ''m''])) = Some resp_ok"
proof -
  have "key_view sample_storage 0 0 ''n'' = Some (RString ''41'', None)" by code_simp
  then show ?thesis
    using rename_moves [of 0 sample_storage "''n''" "''m''" "\<lambda>_. 0" "RString ''41''" sample_ext None,
        OF _ _ _ _ _ surjective_pairing]
    by (simp add: sample_storage_def valid_utf8_ascii is_ascii_def mono_def)
qed

text \<open>
  RENAME of a key to its own name answers OK and deletes the key.
\<close>

theorem rename_same_key_deletes:
  assumes "i < length st" and "valid_utf8 a" and "key_view st i (clk 0) a = Some (v, None)"
    and "handle_command E clk pw st i (request [''RENAME'', a, a]) = (r, st')"
  shows "r = Some resp_ok \<and> key_view st' i t = (key_view st i t)(a := None)"
  using assms cmd_rename_persistent [of i st a a clk v]
  by (auto simp: dispatch key_view_def live_put live_delete fun_eq_iff)

theorem rename_same_key_deletes_witness:
  "key_view (snd (handle_command sample_ext (\<lambda>_. 0) None sample_storage 0 (request [''RENAME'', ''n'', ''n'']))) 0 0 =
     (key_view sample_storage 0 0)(''n'' := None)"
proof -
  have "key_view sample_storage 0 0 ''n'' = Some (RString ''41'', None)" by code_simp
  then show ?thesis
    using rename_same_key_deletes [of 0 sample_storage "''n''" "\<lambda>_. 0" "RString ''41''" sample_ext None,
        OF _ _ _ surjective_pairing]
    by (simp add: sample_storage_def valid_utf8_ascii is_ascii_def mono_def)
qed

lemma cmd_hset_one:
  assumes "i < length st" and "valid_utf8 k" and "valid_utf8 f" and "valid_utf8 v"
    and "hash_at (key_view st i (clk 0) k) = Some h"
  shows "cmd_hset clk st i (map BulkString [k, f, v]) =
    (Some (resp_integer (if map_of h f = None then 1 else 0)),
     st[i := db_put k (RHash (AList.update f v h)) None (snd (db_get clk (st ! i) k))])"
proof -
  obtain x db' where g: "db_get clk (st ! i) k = (x, db')" by force
  moreover have "x = map_option fst (live (st ! i) (clk 0) k)"
    using g fst_db_get [of clk "st ! i" k] by simp
  ultimately show ?thesis
    using assms
    by (auto simp: cmd_hset_def with_db_valid hash_at_def set_reply_def db_set_eq key_view_def
        split: option.splits redis_value.splits)
qed

text \<open>
  HSET of one field on a missing key or a live hash stores the field and keeps the others;
  the answer counts the new fields, and HGET then returns the value.
\<close>

theorem hset_hget:
  assumes "i < length st" and "valid_utf8 k" and "valid_utf8 f" and "valid_utf8 v" and "valid_utf8 f'"
    and "wf_storage st" and "hash_at (key_view st i (clk 0) k) = Some h"
    and "handle_command E clk pw st i (request [''HSET'', k, f, v]) = (r, st')"
  shows "r = Some (resp_integer (if map_of h f = None then 1 else 0)) \<and>
    fst (handle_command E clk' pw st' i (request [''HGET'', k, f'])) =
      Some (case ((map_of h)(f \<mapsto> v)) f' of Some w \<Rightarrow> resp_bulk w | None \<Rightarrow> resp_null)"
proof -
  let ?db = "db_put k (RHash (AList.update f v h)) None (snd (db_get clk (st ! i) k))"
  have st': "r = Some (resp_integer (if map_of h f = None then 1 else 0))" "st' = st[i := ?db]"
    using assms cmd_hset_one [of i st k f v clk h] by (auto simp: dispatch)
  have "fst (db_get clk' ?db k) = Some (RHash (AList.update f v h))"
    using assms(1,6) by (intro redis_kv.read_after_put wf_db_get wf_storage_alist) simp_all
  then obtain db2 where "db_get clk' ?db k = (Some (RHash (AList.update f v h)), db2)"
    by (cases "db_get clk' ?db k") auto
  with st' assms(1,2,5) show ?thesis
    by (auto simp: dispatch cmd_hget_def with_db_valid split: option.splits)
qed

theorem hset_hget_witness:
  "fst (handle_command sample_ext (\<lambda>_. 9) None
     (snd (handle_command sample_ext (\<lambda>_. 0) None sample_storage 0 (request [''HSET'', ''h'', ''f'', ''v'']))) 0
     (request [''HGET'', ''h'', ''f''])) = Some (resp_bulk ''v'')"
proof -
  have "wf_storage sample_storage" "hash_at (key_view sample_storage 0 0 ''h'') = Some []" by code_simp+
  then show ?thesis
    using hset_hget [of 0 sample_storage "''h''" "''f''" "''v''" "''f''" "\<lambda>_. 0" "[]" sample_ext None _ _ "\<lambda>_. 9",
        OF _ _ _ _ _ _ _ surjective_pairing]
    by (simp add: sample_storage_def valid_utf8_ascii is_ascii_def)
qed

text \<open>A command that reads a key and writes the new value back.\<close>

lemma read_write_view:
  assumes "wf_storage st" and "i < length st" and "mono clk" and "clk 0 \<le> t"
  shows "key_view (st[i := db_put k v None (snd (db_get clk (st ! i) k))]) i t = (key_view st i t)(k \<mapsto> (v, None))"
  using assms redis_kv.view_read_put [OF wf_storage_alist, of st i clk t k v None k]
  by (simp add: key_view_def)

lemma push_loop_words:
  assumes "\<forall>w \<in> set ws. valid_utf8 w"
  shows "push_loop front (map BulkString ws) l = (if front then rev ws @ l else l @ ws)"
  using assms by (induction ws arbitrary: l) auto

lemma cmd_push_view:
  assumes "i < length st" and "valid_utf8 k" and "ws \<noteq> []" and "\<forall>w \<in> set ws. valid_utf8 w"
    and "list_at (key_view st i (clk 0) k) = Some l"
    and "l' = (if front then rev ws @ l else l @ ws)"
  shows "cmd_push name front clk st i (map BulkString (k # ws)) =
    (Some (resp_integer (int (length l'))), st[i := db_put k (RList l') None (snd (db_get clk (st ! i) k))])"
proof -
  obtain x db' where g: "db_get clk (st ! i) k = (x, db')" by force
  moreover have "x = map_option fst (live (st ! i) (clk 0) k)"
    using g fst_db_get [of clk "st ! i" k] by simp
  moreover obtain w ws' where ws: "ws = w # ws'" using assms(3) by (cases ws) auto
  moreover have "push_loop front (BulkString w # map BulkString ws') xs = (if front then rev ws @ xs else xs @ ws)" for xs
    using push_loop_words [OF assms(4)] ws by simp
  ultimately show ?thesis
    using assms
    by (auto simp: cmd_push_def with_db_valid list_at_def set_reply_def db_set_eq key_view_def Let_def
        simp del: push_loop.simps split: option.splits redis_value.splits)
qed

text \<open>
  C11. RPUSH appends its elements in order and LPUSH prepends them one by one, on a live list or a
  missing key; the answer is the new length and no other key changes.
\<close>

theorem push_spec:
  assumes "wf_storage st" and "i < length st" and "mono clk" and "clk 0 \<le> t"
    and "valid_utf8 k" and "ws \<noteq> []" and "\<forall>w \<in> set ws. valid_utf8 w"
    and "list_at (key_view st i (clk 0) k) = Some l"
    and "l' = (if front then rev ws @ l else l @ ws)"
    and "handle_command E clk pw st i (request ((if front then ''LPUSH'' else ''RPUSH'') # k # ws)) = (r, st')"
  shows "r = Some (resp_integer (int (length l'))) \<and> key_view st' i t = (key_view st i t)(k \<mapsto> (RList l', None))"
  using assms(10) cmd_push_view [OF assms(2,5-7), of clk l l' front] assms(8,9)
    read_write_view [OF assms(1-4), of k "RList l'"]
  by (cases front) (auto simp: dispatch cmd_lpush_def cmd_rpush_def)

theorem push_spec_witness:
  "fst (handle_command sample_ext (\<lambda>_. 0) None sample_storage 0 (request [''RPUSH'', ''l'', ''d''])) =
     Some (resp_integer 4)"
proof -
  have "wf_storage sample_storage" "list_at (key_view sample_storage 0 0 ''l'') = Some [''a'', ''b'', ''c'']" by code_simp+
  then show ?thesis
    using push_spec [of sample_storage 0 "\<lambda>_. 0" 0 "''l''" "[''d'']" _ _ False sample_ext None,
        OF _ _ _ _ _ _ _ _ refl surjective_pairing]
    by (simp add: sample_storage_def valid_utf8_ascii is_ascii_def mono_def)
qed

lemma i64_as_usize_nat: "0 \<le> n \<Longrightarrow> n \<le> i64_max \<Longrightarrow> i64_as_usize n = nat n"
  by (simp add: i64_as_usize_def i64_max_def)

lemma filter_upt_between: "filter (\<lambda>p. a \<le> p \<and> p \<le> b) [0..<n] = [a..<min (Suc b) n]"
  by (induction n) (auto simp: min_def le_Suc_eq)

lemma map_nth_upt: "b \<le> length l \<Longrightarrow> map ((!) l) [a..<b] = take (b - a) (drop a l)"
  by (intro nth_equalityI) auto

lemma range_bounds_slice:
  assumes "int (length l) \<le> i64_max" and "in_i64 start" and "in_i64 stop" and "- int (length l) \<le> stop"
  shows "(case range_bounds (length l) start stop of None \<Rightarrow> [] | Some (s, n) \<Rightarrow> take n (drop s l)) =
    list_slice l start stop"
proof (cases "l = []")
  case True
  then show ?thesis by (simp add: range_bounds_def list_slice_def Let_def)
next
  case False
  let ?n = "length l"
  define a where "a = nat (if start < 0 then max (int ?n + start) 0 else min start (int ?n))"
  define b where "b = nat (if stop < 0 then max (int ?n + stop) 0 else min stop (int ?n - 1))"
  have n: "0 < ?n" using False by simp
  have bounds: "range_bounds ?n start stop = (if b < a \<or> ?n \<le> a then None else Some (a, b - a + 1))"
  proof -
    have "i64_as_usize (if start < 0 then max (int ?n + start) 0 else min start (int ?n)) = a"
      "i64_as_usize (if stop < 0 then max (int ?n + stop) 0 else min stop (int ?n - 1)) = b"
      using assms(1) n unfolding a_def b_def by (intro i64_as_usize_nat; simp add: max_def min_def)+
    then show ?thesis by (simp only: range_bounds_def Let_def)
  qed
  have bn: "b < ?n" using n assms(4) unfolding b_def by (simp add: min_def max_def nat_less_iff del: length_greater_0_conv)
  have "list_index ?n start \<le> int p \<longleftrightarrow> a \<le> p" "int p \<le> list_index ?n stop \<longleftrightarrow> p \<le> b" if "p < ?n" for p
    using that assms(4) by (auto simp: a_def b_def list_index_def)
  then have "filter (\<lambda>p. list_index ?n start \<le> int p \<and> int p \<le> list_index ?n stop) [0..<?n] =
      filter (\<lambda>p. a \<le> p \<and> p \<le> b) [0..<?n]"
    by (intro filter_cong) auto
  also have "\<dots> = [a..<Suc b]" using bn by (simp add: filter_upt_between)
  finally have "list_slice l start stop = take (Suc b - a) (drop a l)"
    using bn by (simp add: list_slice_def map_nth_upt del: upt_Suc)
  then show ?thesis unfolding bounds by (auto simp: Suc_diff_le)
qed

lemma cmd_lrange_view:
  assumes "i < length st" and "valid_utf8 k" and "in_i64 start" and "in_i64 stop"
    and "list_at (key_view st i (clk 0) k) = Some l"
  shows "fst (cmd_lrange clk st i (map BulkString [k, show_int start, show_int stop])) =
    Some (resp_array (map BulkString (case range_bounds (length l) start stop of None \<Rightarrow> [] | Some (s, n) \<Rightarrow> take n (drop s l))))"
proof -
  obtain x db' where g: "db_get clk (st ! i) k = (x, db')" by force
  moreover have "x = map_option fst (live (st ! i) (clk 0) k)"
    using g fst_db_get [of clk "st ! i" k] by simp
  ultimately show ?thesis
    using assms
    by (auto simp: cmd_lrange_def with_db_valid list_at_def key_view_def
        split: option.splits redis_value.splits)
qed

text \<open>
  C12. LRANGE: for indices within \<open>i64\<close> and a stop index that does not point before the head of
  the list, the answer is the elements at the positions between the two, negative indices counting
  from the end.
\<close>

theorem lrange_spec:
  assumes "i < length st" and "valid_utf8 k" and "in_i64 start" and "in_i64 stop"
    and "list_at (key_view st i (clk 0) k) = Some l"
    and "int (length l) \<le> i64_max" and "- int (length l) \<le> stop"
  shows "fst (handle_command E clk pw st i (request [''LRANGE'', k, show_int start, show_int stop])) =
    Some (resp_array (map BulkString (list_slice l start stop)))"
  using cmd_lrange_view [of i st k start stop clk l] assms range_bounds_slice [of l start stop]
  by (simp add: dispatch)

theorem lrange_spec_witness:
  "fst (handle_command sample_ext (\<lambda>_. 0) None sample_storage 0 (request [''LRANGE'', ''l'', show_int 0, show_int (-2)])) =
     Some (resp_array (map BulkString (list_slice [''a'', ''b'', ''c''] 0 (-2))))"
  by (rule lrange_spec) code_simp+

text \<open>
  A stop index before the head of the list is clamped to the first element: LRANGE answers
  that element where the slice is empty.
\<close>

theorem lrange_stop_clamped:
  assumes "i < length st" and "valid_utf8 k" and "in_i64 stop"
    and "key_view st i (clk 0) k = Some (RList (x # l), e)"
    and "int (length (x # l)) \<le> i64_max" and "stop < - int (length (x # l))"
  shows "fst (handle_command E clk pw st i (request [''LRANGE'', k, show_int 0, show_int stop])) =
      Some (resp_array [BulkString x]) \<and> list_slice (x # l) 0 stop = []"
proof -
  have "range_bounds (length (x # l)) 0 stop = Some (0, 1)"
    using assms(3,5,6) by (simp add: range_bounds_def Let_def i64_as_usize_def)
  moreover have "list_at (key_view st i (clk 0) k) = Some (x # l)" using assms(4) by (simp add: list_at_def)
  moreover have "in_i64 0" by (simp add: in_i64_def i64_min_def i64_max_def)
  ultimately have "fst (handle_command E clk pw st i (request [''LRANGE'', k, show_int 0, show_int stop])) =
      Some (resp_array [BulkString x])"
    using cmd_lrange_view [of i st k 0 stop clk "x # l"] assms(1-3) by (simp add: dispatch)
  moreover have "list_slice (x # l) 0 stop = []"
    using assms(6) by (auto simp: list_slice_def list_index_def filter_empty_conv)
  ultimately show ?thesis by simp
qed

theorem lrange_stop_clamped_witness:
  "fst (handle_command sample_ext (\<lambda>_. 0) None sample_storage 0 (request [''LRANGE'', ''l'', show_int 0, show_int (-9)])) =
     Some (resp_array [BulkString ''a''])"
  by (rule lrange_stop_clamped [THEN conjunct1, of 0 sample_storage "''l''" "-9" "\<lambda>_. 0" "''a''" "[''b'', ''c'']" None]) code_simp+

lemma sadd_loop_words:
  assumes "\<forall>w \<in> set ws. valid_utf8 w" and "sadd_loop (map BulkString ws) n s = (m, s')"
  shows "set s' = set s \<union> set ws \<and> m = n + card (set ws - set s)"
  using assms
proof (induction ws arbitrary: n s)
  case (Cons w ws)
  show ?case
  proof (cases "w \<in> set s")
    case True
    then have "set (w # ws) - set s = set ws - set s" by auto
    with Cons True show ?thesis by auto
  next
    case False
    have "set (w # ws) - set s = insert w (set ws - set (s @ [w]))" using False by auto
    then have "card (set (w # ws) - set s) = Suc (card (set ws - set (s @ [w])))" by simp
    with Cons.IH [of "n + 1" "s @ [w]"] Cons.prems False show ?thesis by auto
  qed
qed simp

text \<open>
  C13. SADD makes the stored set the union with the given members, answers how many of them are
  new, and changes no other key.
\<close>

theorem sadd_spec:
  assumes "wf_storage st" and "i < length st" and "mono clk" and "clk 0 \<le> t"
    and "valid_utf8 k" and "ws \<noteq> []" and "\<forall>w \<in> set ws. valid_utf8 w"
    and "set_at (key_view st i (clk 0) k) = Some s"
    and "handle_command E clk pw st i (request (''SADD'' # k # ws)) = (r, st')"
  shows "\<exists>s'. r = Some (resp_integer (int (card (set ws - set s)))) \<and> set s' = set s \<union> set ws
    \<and> key_view st' i t = (key_view st i t)(k \<mapsto> (RSet s', None))"
proof -
  obtain n s' where loop: "sadd_loop (map BulkString ws) 0 s = (n, s')" by force
  have s': "set s' = set s \<union> set ws" "n = card (set ws - set s)"
    using sadd_loop_words [OF assms(7) loop] by simp_all
  obtain w ws' where ws: "ws = w # ws'" using assms(6) by (cases ws) auto
  obtain x db' where g: "db_get clk (st ! i) k = (x, db')" by force
  have x: "x = map_option fst (live (st ! i) (clk 0) k)"
    using g fst_db_get [of clk "st ! i" k] by simp
  have "cmd_sadd clk st i (map BulkString (k # ws)) =
      (Some (resp_integer (int n)), st[i := db_put k (RSet s') None (snd (db_get clk (st ! i) k))])"
    using g x loop assms(2,5,8) ws
    by (auto simp: cmd_sadd_def with_db_valid set_at_def set_reply_def db_set_eq key_view_def
        simp del: sadd_loop.simps split: option.splits redis_value.splits)
  with assms(9) s' read_write_view [OF assms(1-4), of k "RSet s'"] show ?thesis
    by (auto simp: dispatch)
qed

theorem sadd_spec_witness:
  "fst (handle_command sample_ext (\<lambda>_. 0) None sample_storage 0 (request [''SADD'', ''s'', ''x'', ''y''])) =
     Some (resp_integer 1)"
proof -
  have "wf_storage sample_storage" "set_at (key_view sample_storage 0 0 ''s'') = Some [''x'']" by code_simp+
  then show ?thesis
    using sadd_spec [of sample_storage 0 "\<lambda>_. 0" 0 "''s''" "[''x'', ''y'']" "[''x'']" sample_ext None,
        OF _ _ _ _ _ _ _ _ surjective_pairing]
    by (simp add: sample_storage_def valid_utf8_ascii is_ascii_def mono_def insert_Diff_if)
qed

lemma keys_live:
  assumes "order_ok E" and "wf_alist db" and "db_keys E clk db p = (ks, db')"
    and "regex_new E (glob_to_regex p) = Some is_match"
  shows "set ks = {k. live db (clk 0) k \<noteq> None \<and> is_match k} \<and> distinct ks"
proof -
  have db': "db' = filter (\<lambda>(k, e). \<not> expired (clk 0) e) db" using assms(3) by (simp add: db_keys_def Let_def)
  have ks: "ks = filter is_match (key_order E (map fst db'))"
    using assms(3,4) by (auto simp: db_keys_def Let_def)
  have perm: "mset (key_order E (map fst db')) = mset (map fst db')" using assms(1) by (simp add: order_ok_def)
  then have "set (key_order E (map fst db')) = fst ` set db'" "distinct (key_order E (map fst db'))"
    using assms(2) wf_alist_filter [OF assms(2)] mset_eq_setD [OF perm] mset_eq_imp_distinct_iff [OF perm]
    by (auto simp: db' wf_alist_def)
  moreover have "k \<in> fst ` set db' \<longleftrightarrow> live db (clk 0) k \<noteq> None" for k
  proof -
    have "k \<in> fst ` set db' \<longleftrightarrow> map_of db' k \<noteq> None" by (force simp: map_of_eq_None_iff)
    also have "\<dots> \<longleftrightarrow> live db (clk 0) k \<noteq> None"
      unfolding db' by (simp add: map_of_filter_distinct [OF assms(2)] live_def split: option.splits)
    finally show ?thesis .
  qed
  ultimately show ?thesis using ks by auto
qed

text \<open>
  KEYS answers exactly the live keys the translated pattern matches, each once, and drops
  only entries that have expired.
\<close>

theorem keys_spec:
  assumes "order_ok E" and "wf_storage st" and "i < length st" and "valid_utf8 p" and "clk 0 \<le> t"
    and "regex_new E (glob_to_regex p) = Some is_match"
    and "handle_command E clk pw st i (request [''KEYS'', p]) = (r, st')"
  shows "\<exists>ks. r = Some (resp_array (map BulkString ks)) \<and> distinct ks
    \<and> set ks = {k. key_view st i (clk 0) k \<noteq> None \<and> is_match k}
    \<and> key_view st' i t = key_view st i t"
proof -
  obtain ks db' where k: "db_keys E clk (st ! i) p = (ks, db')" by force
  have alist: "wf_alist (st ! i)" using assms(2,3) by (rule wf_storage_alist)
  have "r = Some (resp_array (map BulkString ks))" "st' = st[i := db']"
    using assms(3,4,7) k by (auto simp: dispatch cmd_keys_def with_db_valid)
  with keys_live [OF assms(1) alist k assms(6)] live_keys [of "st ! i" clk t E p] alist assms(3,5) k
  show ?thesis by (auto simp: key_view_def)
qed

theorem keys_spec_witness:
  "\<exists>ks. fst (handle_command sample_ext (\<lambda>_. 0) None sample_storage 0 (request [''KEYS'', ''*''])) =
      Some (resp_array (map BulkString ks)) \<and> distinct ks"
proof -
  have "order_ok sample_ext" by (simp add: order_ok_def sample_ext_def)
  moreover have "wf_storage sample_storage" by code_simp
  moreover have "regex_new sample_ext (glob_to_regex ''*'') = Some (\<lambda>k. k \<noteq> ''s'')" by (simp add: sample_ext_def)
  ultimately show ?thesis
    using keys_spec [of sample_ext sample_storage 0 "''*''" "\<lambda>_. 0" 0 _ None, OF _ _ _ _ _ _ surjective_pairing]
    by (fastforce simp: sample_storage_def valid_utf8_ascii is_ascii_def)
qed

text \<open>
  The order of a sorted set. The comparison of bit patterns by sign and magnitude is the
  comparison of the numbers they stand for.
\<close>

definition magnitude_value :: "int \<Rightarrow> int" where
  "magnitude_value k = (let e = nat (k div 2 ^ 52); m = k mod 2 ^ 52 in if e = 0 then m else (2 ^ 52 + m) * 2 ^ (e - 1))"

lemma magnitude_value_less:
  assumes "0 \<le> a" and "a < b"
  shows "magnitude_value a < magnitude_value b"
proof -
  define e where "e = nat (a div 2 ^ 52)"
  define d where "d = nat (b div 2 ^ 52)"
  have ab: "a = int e * 2 ^ 52 + a mod 2 ^ 52" "b = int d * 2 ^ 52 + b mod 2 ^ 52"
    using assms by (simp_all add: e_def d_def pos_imp_zdiv_nonneg_iff)
  have m: "0 \<le> a mod 2 ^ 52" "a mod 2 ^ 52 < 2 ^ 52" "0 \<le> b mod 2 ^ 52" by simp_all
  have le: "e \<le> d" using assms by (simp add: e_def d_def nat_mono zdiv_mono1)
  have va: "magnitude_value a = (if e = 0 then a mod 2 ^ 52 else (2 ^ 52 + a mod 2 ^ 52) * 2 ^ (e - 1))"
    and vb: "magnitude_value b = (if d = 0 then b mod 2 ^ 52 else (2 ^ 52 + b mod 2 ^ 52) * 2 ^ (d - 1))"
    by (simp_all only: magnitude_value_def Let_def e_def d_def)
  show ?thesis
  proof (cases "e = d")
    case True
    then have "a mod 2 ^ 52 < b mod 2 ^ 52" using ab assms(2) by simp
    then show ?thesis unfolding va vb True by (simp add: mult_strict_right_mono)
  next
    case False
    then obtain f where d: "d = Suc f" "e \<le> f" using le by (cases d) auto
    have "magnitude_value a < 2 ^ 52 * 2 ^ e"
    proof (cases e)
      case 0
      then show ?thesis unfolding va using m by simp
    next
      case (Suc g)
      have "(2 ^ 52 + a mod 2 ^ 52) * 2 ^ g < (2 ^ 53 :: int) * 2 ^ g"
        using m(2) by (intro mult_strict_right_mono) simp_all
      with Suc show ?thesis unfolding va by simp
    qed
    also have "\<dots> \<le> (2 ^ 52 + b mod 2 ^ 52) * 2 ^ f"
      using d(2) m(3) by (intro mult_mono) (simp_all add: power_increasing)
    also have "\<dots> = magnitude_value b" using d by (simp add: vb)
    finally show ?thesis .
  qed
qed

lemma magnitude_value_nonneg: "0 \<le> a \<Longrightarrow> 0 \<le> magnitude_value a"
  by (simp add: magnitude_value_def Let_def)

lemma f64_value_mag: "f64_value x = (if uint x < 2 ^ 63 then magnitude_value (f64_mag x) else - magnitude_value (f64_mag x))"
proof -
  have "uint x div 2 ^ 52 mod 2 ^ 11 = f64_mag x div 2 ^ 52" "uint x mod 2 ^ 52 = f64_mag x mod 2 ^ 52"
    using div_exp_mod_exp_eq [of "uint x" 52 11] by (simp_all add: f64_mag_def mod_mod_cancel)
  then show ?thesis by (simp only: f64_value_def magnitude_value_def Let_def)
qed

lemma f64_value_less: "f64_value x < f64_value y \<longleftrightarrow> f64_key x < f64_key y"
proof -
  have mono: "magnitude_value a < magnitude_value b \<longleftrightarrow> a < b" if "0 \<le> a" "0 \<le> b" for a b
    using that magnitude_value_less [of a b] magnitude_value_less [of b a] by (cases a b rule: linorder_cases) auto
  have zero: "magnitude_value 0 = 0" by (simp add: magnitude_value_def)
  have nn: "0 \<le> f64_mag x" "0 \<le> f64_mag y" by (simp_all add: f64_mag_def)
  note pos = mono [of 0 "f64_mag x"] mono [of 0 "f64_mag y"]
  show ?thesis
    using nn mono [OF nn] mono [OF nn(2,1)] pos magnitude_value_nonneg [OF nn(1)] magnitude_value_nonneg [OF nn(2)]
    by (simp add: f64_value_mag f64_key_def zero) linarith
qed

lemma f64_value_eq: "f64_value x = f64_value y \<longleftrightarrow> f64_key x = f64_key y"
  using f64_value_less [of x y] f64_value_less [of y x] by linarith

lemma zset_cmp_before:
  assumes "\<not> f64_is_nan (fst x)" and "\<not> f64_is_nan (fst y)"
  shows "zset_cmp x y = Less \<longleftrightarrow> zset_before x y" "zset_cmp x y = Greater \<longleftrightarrow> zset_before y x"
  using assms
  by (auto simp: zset_cmp_def ordered_float_cmp_def f64_partial_cmp_def str_cmp_def zset_before_def
      f64_value_less f64_value_eq split: ordering.splits if_splits)

lemma zset_before_trans: "zset_before x y \<Longrightarrow> zset_before y z \<Longrightarrow> zset_before x z"
  by (auto simp: zset_before_def)

lemma set_btree_insert_new: "snd x \<notin> snd ` set z \<Longrightarrow> set (btree_insert x z) = insert x (set z)"
proof (induction z)
  case (Cons y z)
  have "zset_cmp x y \<noteq> Equal"
    using Cons.prems by (auto simp: zset_cmp_def str_cmp_def split: ordering.splits if_splits)
  then show ?case using Cons by (auto split: ordering.splits)
qed simp

lemma sorted_btree_insert:
  "sorted_wrt zset_before z \<Longrightarrow> \<forall>y \<in> set (x # z). \<not> f64_is_nan (fst y) \<Longrightarrow> snd x \<notin> snd ` set z \<Longrightarrow>
     sorted_wrt zset_before (btree_insert x z)"
proof (induction z)
  case (Cons y z)
  have eq: "zset_cmp x y \<noteq> Equal"
    using Cons.prems by (auto simp: zset_cmp_def str_cmp_def split: ordering.splits if_splits)
  have "sorted_wrt zset_before (btree_insert x z)" "set (btree_insert x z) = insert x (set z)"
    using Cons set_btree_insert_new [of x z] by simp_all
  then show ?case using Cons.prems eq zset_cmp_before [of x y] zset_before_trans [of x y]
    by (auto split: ordering.splits)
qed simp

lemma zset_ok_insert:
  assumes "zset_ok z" and "\<not> f64_is_nan s"
  shows "zset_ok (btree_insert (s, m) (filter (\<lambda>x. snd x \<noteq> m) z))"
proof -
  let ?f = "filter (\<lambda>x. snd x \<noteq> m) z"
  have f: "distinct (map snd ?f)" "m \<notin> snd ` set ?f" "sorted_wrt zset_before ?f"
    "\<forall>x \<in> set ?f. \<not> f64_is_nan (fst x)"
    using assms(1) by (auto simp: zset_ok_def sorted_wrt_filter distinct_map_filter)
  with assms(2) show ?thesis
    by (simp add: zset_ok_def distinct_btree_insert sorted_btree_insert set_btree_insert_new)
qed

lemma zset_scores_iff: "distinct (map snd z) \<Longrightarrow> zset_scores z m = Some s \<longleftrightarrow> (s, m) \<in> set z"
  by (induction z) (force simp: zset_scores_def)+

lemma dom_zset_scores: "dom (zset_scores z) = snd ` set z"
  by (simp add: zset_scores_def dom_map_of_conv_image_fst image_image split_beta)

lemma zset_scores_insert:
  assumes "zset_ok z" and "\<not> f64_is_nan s"
  shows "zset_scores (btree_insert (s, m) (filter (\<lambda>x. snd x \<noteq> m) z)) = (zset_scores z)(m \<mapsto> s)"
proof -
  let ?z = "btree_insert (s, m) (filter (\<lambda>x. snd x \<noteq> m) z)"
  have d: "distinct (map snd z)" "distinct (map snd ?z)"
    using assms(1) zset_ok_insert [OF assms] by (simp_all add: zset_ok_def)
  have m: "set ?z = insert (s, m) {x \<in> set z. snd x \<noteq> m}" by (subst set_btree_insert_new) auto
  have "zset_scores ?z a = Some x \<longleftrightarrow> ((zset_scores z)(m \<mapsto> s)) a = Some x" for a x
    using d by (auto simp: zset_scores_iff m)
  then have "zset_scores ?z a = ((zset_scores z)(m \<mapsto> s)) a" for a by (cases "((zset_scores z)(m \<mapsto> s)) a") (metis not_Some_eq, simp)
  then show ?thesis by (rule ext)
qed

lemma zadd_loop_spec:
  assumes "\<forall>(s, m) \<in> set ps. valid_utf8 s \<and> valid_utf8 m \<and> (\<forall>x. parse_f64 E s = Some x \<longrightarrow> \<not> f64_is_nan x)"
    and "zset_ok z" and "zadd_loop E (map (\<lambda>(s, m). [BulkString s, BulkString m]) ps) n z = (n', z')"
  shows "zset_ok z' \<and> zset_scores z' = zadd_scores E ps (zset_scores z) \<and>
    n' + card (dom (zset_scores z)) = n + card (dom (zset_scores z'))"
  using assms
proof (induction ps arbitrary: n z)
  case (Cons p ps)
  obtain s m where p: "p = (s, m)" by force
  show ?case
  proof (cases "parse_f64 E s")
    case None
    with Cons p show ?thesis by simp
  next
    case (Some x)
    let ?z = "btree_insert (x, m) (filter (\<lambda>y. snd y \<noteq> m) z)"
    have x: "\<not> f64_is_nan x" using Cons.prems(1) Some p by auto
    have ok: "zset_ok ?z" "zset_scores ?z = (zset_scores z)(m \<mapsto> x)"
      using zset_ok_insert [OF Cons.prems(2) x] zset_scores_insert [OF Cons.prems(2) x] .
    have fin: "finite (dom (zset_scores z))" and mem: "(\<exists>y \<in> set z. snd y = m) \<longleftrightarrow> m \<in> dom (zset_scores z)"
      by (auto simp: dom_zset_scores)
    have "zadd_loop E (map (\<lambda>(s, m). [BulkString s, BulkString m]) ps)
        (if \<exists>y \<in> set z. snd y = m then n else n + 1) ?z = (n', z')"
      using Cons.prems Some p by (simp add: Let_def)
    with Cons.IH [OF _ ok(1)] Cons.prems(1) show ?thesis
      using fin by (fastforce simp: p Some ok(2) mem insert_absorb split: if_splits)
  qed
qed simp

lemma chunks2_words: "chunks2 (map BulkString (zadd_words ps)) = map (\<lambda>(s, m). [BulkString s, BulkString m]) ps"
  by (induction ps) (auto simp: zadd_words_def)

text \<open>
  C10. ZADD with pairs of score and member, no score a NaN, on an absent key or a sorted set: the
  stored set is again ascending by the number of the score and then by member, with one score per
  member; its content is the old content updated by the pairs in order, pairs whose score is no
  number being skipped; and the answer is the number of members added. Other keys stay.
\<close>

theorem zadd_spec:
  assumes "wf_storage st" and "i < length st" and "mono clk" and "clk 0 \<le> t" and "valid_utf8 k"
    and "ps \<noteq> []" and "\<forall>(s, m) \<in> set ps. valid_utf8 s \<and> valid_utf8 m \<and> (\<forall>x. parse_f64 E s = Some x \<longrightarrow> \<not> f64_is_nan x)"
    and "zset_at (key_view st i (clk 0) k) = Some z" and "zset_ok z"
    and "handle_command E clk pw st i (request (''ZADD'' # k # zadd_words ps)) = (r, st')"
  shows "\<exists>z'. zset_ok z' \<and> zset_scores z' = zadd_scores E ps (zset_scores z)
    \<and> r = Some (resp_integer (int (card (dom (zset_scores z'))) - int (card (dom (zset_scores z)))))
    \<and> key_view st' i t = (key_view st i t)(k \<mapsto> (RSortedSet z', None))"
proof -
  obtain n z' where loop: "zadd_loop E (chunks2 (map BulkString (zadd_words ps))) 0 z = (n, z')" by force
  have z': "zset_ok z'" "zset_scores z' = zadd_scores E ps (zset_scores z)"
    "n + card (dom (zset_scores z)) = card (dom (zset_scores z'))"
    using zadd_loop_spec [OF assms(7,9) loop [unfolded chunks2_words]] by simp_all
  then have n: "int n = int (card (dom (zset_scores z'))) - int (card (dom (zset_scores z)))" by linarith
  obtain a b ws where ws: "zadd_words ps = a # b # ws" using assms(6) by (cases ps) (auto simp: zadd_words_def)
  obtain x db' where g: "db_get clk (st ! i) k = (x, db')" by force
  have x: "x = map_option fst (live (st ! i) (clk 0) k)"
    using g fst_db_get [of clk "st ! i" k] by simp
  have "cmd_zadd E clk st i (map BulkString (k # zadd_words ps)) =
      (Some (resp_integer (int n)), st[i := db_put k (RSortedSet z') None (snd (db_get clk (st ! i) k))])"
    using g x loop assms(2,5,8) ws
    by (auto simp: cmd_zadd_def with_db_valid zset_at_def set_reply_def db_set_eq key_view_def
        simp del: zadd_loop.simps chunks2.simps split: option.splits redis_value.splits)
  with assms(10) z'(1,2) n read_write_view [OF assms(1-4), of k "RSortedSet z'"] show ?thesis
    by (auto simp: dispatch)
qed

theorem zadd_spec_witness:
  "\<exists>z'. zset_ok z' \<and> zset_scores z' ''m'' = Some 0x3FF0000000000000 \<and> zset_scores z' ''k'' = Some 0x4000000000000000
    \<and> fst (handle_command sample_ext (\<lambda>_. 0) None sample_storage 0
        (request (''ZADD'' # ''z'' # zadd_words [(''2'', ''k''), (''1'', ''m'')]))) = Some (resp_integer 1)"
proof -
  have "wf_storage sample_storage" "zset_at (key_view sample_storage 0 0 ''z'') = Some [(0x3FF0000000000000, ''m'')]"
    "zset_ok [(0x3FF0000000000000, ''m'')]" "\<not> f64_is_nan 0x4000000000000000" "\<not> f64_is_nan 0x3FF0000000000000" by code_simp+
  moreover have "\<forall>(s, m) \<in> set [(''2'', ''k''), (''1'', ''m'')]. valid_utf8 s \<and> valid_utf8 m \<and>
      (\<forall>x. parse_f64 sample_ext s = Some x \<longrightarrow> \<not> f64_is_nan x)"
    using calculation(4,5) by (simp add: sample_ext_def valid_utf8_ascii is_ascii_def)
  ultimately obtain z' where z': "zset_ok z'"
    "zset_scores z' = zadd_scores sample_ext [(''2'', ''k''), (''1'', ''m'')] (zset_scores [(0x3FF0000000000000, ''m'')])"
    "fst (handle_command sample_ext (\<lambda>_. 0) None sample_storage 0
        (request (''ZADD'' # ''z'' # zadd_words [(''2'', ''k''), (''1'', ''m'')]))) =
      Some (resp_integer (int (card (dom (zset_scores z'))) - int (card (dom (zset_scores [(0x3FF0000000000000, ''m'')])))))"
    using zadd_spec [of sample_storage 0 "\<lambda>_. 0" 0 "''z''" "[(''2'', ''k''), (''1'', ''m'')]" sample_ext _ None,
        OF _ _ _ _ _ _ _ _ _ surjective_pairing]
    by (auto simp: sample_storage_def valid_utf8_ascii is_ascii_def mono_def)
  show ?thesis by (rule exI [of _ z']) (use z' in \<open>simp add: zset_scores_def sample_ext_def\<close>)
qed

lemma redis_commands_password:
  "name \<noteq> ''AUTH'' \<Longrightarrow> map_of (redis_commands E clk pw) name = map_of (redis_commands E clk pw') name"
  by (simp add: redis_commands_def)

text \<open>
  The password is checked by AUTH alone: every other command gives the same answer and the
  same effect whether a password is configured or not, and whether AUTH was sent or not.
\<close>

theorem auth_not_enforced:
  assumes "command_name E c \<noteq> Some ''AUTH''"
  shows "handle_command E clk pw st i (c # args) = handle_command E clk None st i (c # args)"
  using assms redis_commands_password [of _ E clk pw None]
  by (auto simp: handle_command_def split: option.splits)

theorem auth_not_enforced_witness:
  "handle_command sample_ext (\<lambda>_. 0) (Some ''secret'') sample_storage 0 (BulkString ''FLUSHALL'' # []) =
   handle_command sample_ext (\<lambda>_. 0) None sample_storage 0 (BulkString ''FLUSHALL'' # [])"
  by (rule auth_not_enforced) code_simp

text \<open>
  EXPIRE on an entry whose deadline has passed but which no read has removed yet answers 1 and
  brings the old value back to life until the new deadline.
\<close>

theorem expire_revives:
  assumes "i < length st" and "valid_utf8 k" and "map_of (st ! i) k = Some e" and "expired (clk 0) e"
    and "0 \<le> secs" and "in_i64 secs" and "deadline = clk 0 + nat secs * nanos_per_sec"
    and "deadline < instant_limit"
    and "handle_command E clk pw st i (request [''EXPIRE'', k, show_int secs]) = (r, st')"
  shows "key_view st i (clk 0) k = None \<and> r = Some (resp_integer 1) \<and>
    (\<forall>t \<le> deadline. key_view st' i t k = Some (entry_value e, Some deadline))"
  using assms
  by (auto simp: dispatch cmd_expire_def with_db_valid db_expire_eq instant_add_def key_view_put live_def [of "st ! i"]
      key_view_def [of st])

theorem expire_revives_witness:
  "fst (handle_command sample_ext (\<lambda>_. 100) None sample_storage 0 (request [''EXPIRE'', ''old'', show_int 1])) =
     Some (resp_integer 1)"
proof -
  let ?e = "\<lparr>entry_value = RString ''v'', expires_at = Some 5\<rparr>"
  have "map_of (sample_storage ! 0) ''old'' = Some ?e" "expired 100 ?e" by code_simp+
  then show ?thesis
    using expire_revives [of 0 sample_storage "''old''" ?e "\<lambda>_. 100" 1 "100 + nanos_per_sec" sample_ext None,
        OF _ _ _ _ _ _ _ _ surjective_pairing]
    by (simp add: sample_storage_def valid_utf8_ascii is_ascii_def mono_def in_i64_def i64_min_def i64_max_def instant_limit_def nanos_per_sec_def)
qed

text \<open>
  An unknown command name is echoed into the error reply as it is: a name with a line break
  ends the error frame early, and the peer reads the rest of the name as further frames.
\<close>

theorem unknown_command_splits_reply:
  assumes "name = a @ CRLF @ b" and "is_ascii name" and "map ascii_upper name = name" and "no_crlf a"
    and "map_of (redis_commands E clk pw) name = None"
    and "handle_command E clk pw st i (request (name # args)) = (Some r, st')"
  shows "parse r = (Inr (Some (Error (''ERR unknown command '' @ [CHR 0x27] @ a))), b @ [CHR 0x27] @ CRLF)"
proof -
  let ?e = "''ERR unknown command '' @ [CHR 0x27] @ a"
  have up: "to_uppercase (uni_upper E) (from_utf8_lossy name) = name"
    using assms(2,3) by (simp add: to_uppercase_def from_utf8_lossy_id valid_utf8_ascii)
  have "handle_command E clk pw st i (request (name # args)) =
      (Some (resp_err (''ERR unknown command '' @ [CHR 0x27] @ name @ [CHR 0x27])), st)"
    using assms(5) up by (simp add: handle_command_def command_name_def request_def)
  with assms(6) have "r = resp_err (''ERR unknown command '' @ [CHR 0x27] @ name @ [CHR 0x27])" by simp
  then have "r = encode_to_bytes (Error ?e) @ b @ [CHR 0x27] @ CRLF"
    using assms(1) by (simp add: resp_err_def)
  moreover have "wf_resp MAX_DEPTH (Error ?e)"
  proof -
    have "is_ascii ?e" using assms(1,2) by (auto simp: is_ascii_def)
    moreover have "no_crlf ?e" using assms(4) by (cases a) simp_all
    ultimately show ?thesis by (simp add: valid_utf8_ascii)
  qed
  ultimately show ?thesis using parse_enc [of MAX_DEPTH "Error ?e"] by simp
qed

theorem unknown_command_splits_reply_witness:
  "parse (resp_err (''ERR unknown command '' @ [CHR 0x27] @ (''X'' @ CRLF @ ''+OK'') @ [CHR 0x27])) =
     (Inr (Some (Error (''ERR unknown command '' @ [CHR 0x27] @ ''X''))), ''+OK'' @ [CHR 0x27] @ CRLF)"
  by (rule unknown_command_splits_reply [where E = sample_ext and clk = "\<lambda>_. 0" and pw = None and st = sample_storage
        and i = 0 and args = "[]" and st' = sample_storage, OF refl]) code_simp+


text \<open>
  The commands read and write the storage in separate operations, each under a lock of its own. So an
  increment can be lost between two connections: here one has read 41 for INCRBY 1 when the
  other's INCRBY 1 runs and answers 42; the first then writes 42 as well.
\<close>

lemma incr_not_atomic:
  "let db = sample_storage ! 0; (v, db1) = db_get (\<lambda>_. 0) db ''n'';
       (r, st2) = handle_command sample_ext (\<lambda>_. 0) None [db1] 0 (request [''INCRBY'', ''n'', ''1''])
   in v = Some (RString ''41'') \<and> r = Some (resp_integer 42) \<and>
      map_option (\<lambda>db3. fst (db_get (\<lambda>_. 0) db3 ''n'')) (db_set (\<lambda>_. 0) (st2 ! 0) ''n'' (RString (show_int (41 + 1))) None) =
        Some (Some (RString ''42''))"
  by code_simp

end
