(* ===== verification/RedisServer.thy ===== *)
theory RedisServer
  imports RedisConnection
begin

section \<open>The Redis server (crates/redis-protocol/src/server.rs)\<close>

text \<open>
  The server with its connections as a step relation: a client is accepted, bytes arrive on a
  connection, a connection answers the next command of its buffer, a panic or the end of the
  stream closes it. The storage is shared by all connections. One step runs a whole command, so
  the interleavings are those of commands. In the program each operation on the storage takes a lock of
  its own, so the operations of two commands can also interleave; that is not part of this model.
  The readings of the clock are arbitrary.
\<close>

record redis_server_state =
  srv_storage :: storage
  srv_conns :: "nat \<Rightarrow> redis_connection option"

inductive server_step :: "ext \<Rightarrow> string option \<Rightarrow> redis_server_state \<Rightarrow> redis_server_state \<Rightarrow> bool"
  for E :: ext and pw :: "string option" where
  accept: "srv_conns s c = None \<Longrightarrow>
    server_step E pw s (s\<lparr>srv_conns := (srv_conns s)(c \<mapsto> connection_new)\<rparr>)"
| receive: "srv_conns s c = Some conn \<Longrightarrow>
    server_step E pw s (s\<lparr>srv_conns := (srv_conns s)(c \<mapsto> conn\<lparr>read_buf := read_buf conn @ bs\<rparr>)\<rparr>)"
| command: "srv_conns s c = Some conn \<Longrightarrow> parse (read_buf conn) = (Inr (Some v), rest) \<Longrightarrow>
    idx = select_index E v (db_index conn) \<Longrightarrow>
    handle_command E clk pw (srv_storage s) idx (cmd_array v) = (Some r, st') \<Longrightarrow>
    server_step E pw s
      \<lparr>srv_storage = st', srv_conns = (srv_conns s)(c \<mapsto> conn\<lparr>read_buf := rest, db_index := idx\<rparr>)\<rparr>"
| panic: "srv_conns s c = Some conn \<Longrightarrow> parse (read_buf conn) = (Inr (Some v), rest) \<Longrightarrow>
    idx = select_index E v (db_index conn) \<Longrightarrow>
    handle_command E clk pw (srv_storage s) idx (cmd_array v) = (None, st') \<Longrightarrow>
    server_step E pw s \<lparr>srv_storage = st', srv_conns = (srv_conns s)(c := None)\<rparr>"
| bad_frame: "srv_conns s c = Some conn \<Longrightarrow> parse (read_buf conn) = (Inl e, rest) \<Longrightarrow>
    server_step E pw s (s\<lparr>srv_conns := (srv_conns s)(c \<mapsto> conn\<lparr>read_buf := rest\<rparr>)\<rparr>)"
| close: "srv_conns s c = Some conn \<Longrightarrow> server_step E pw s (s\<lparr>srv_conns := (srv_conns s)(c := None)\<rparr>)"

definition server_start :: "redis_server_config \<Rightarrow> redis_server_state" where
  "server_start config = \<lparr>srv_storage = server_new_storage config, srv_conns = (\<lambda>_. None)\<rparr>"

text \<open>The invariant of the server: typed data in every database, as many databases as configured, and
  selected databases below 16.\<close>

definition server_inv :: "nat \<Rightarrow> redis_server_state \<Rightarrow> bool" where
  "server_inv n s \<longleftrightarrow> wf_storage (srv_storage s) \<and> length (srv_storage s) = n \<and> (\<forall>c conn. srv_conns s c = Some conn \<longrightarrow> db_index conn < 16)"

lemma length_table:
  assumes "(name, f) \<in> set (redis_commands E clk pw)"
  shows "length (snd (f st i args)) = length st"
proof (cases "name = ''FLUSHALL''")
  case True
  with assms show ?thesis by (auto simp: redis_commands_def cmd_flushall_def clear_all_def)
next
  case False
  with only_db_table [OF assms, of i st args] show ?thesis by (simp add: only_db_def)
qed

lemma handle_command_length: "handle_command E clk pw st i cmd = (r, st') \<Longrightarrow> length st' = length st"
  by (erule handle_command_cases) (simp, metis length_table snd_conv)

lemma select_index_bound: "idx < 16 \<Longrightarrow> select_index E v idx < 16"
  by (auto simp: select_index_def split: resp_value.splits list.splits option.splits)

lemma typed_cmd_array: "resp_typed v \<Longrightarrow> \<forall>a \<in> set (cmd_array v). resp_typed a"
  by (auto simp: cmd_array_def split: resp_value.splits)

lemma server_step_inv:
  assumes "server_step E pw s s'" and "server_inv n s"
  shows "server_inv n s'"
  using assms
proof (induction rule: server_step.induct)
  case (command s c conn v rest idx clk r st')
  have "wf_storage st'"
    using command by (intro handle_command_wf [OF _ typed_cmd_array command(4)]) (auto simp: server_inv_def dest: parse_typed(1))
  with command handle_command_length [OF command(4)] select_index_bound [of "db_index conn" E v] show ?case by (auto simp: server_inv_def)
next
  case (panic s c conn v rest idx clk st')
  have "wf_storage st'"
    using panic by (intro handle_command_wf [OF _ typed_cmd_array panic(4)]) (auto simp: server_inv_def dest: parse_typed(1))
  with panic handle_command_length [OF panic(4)] show ?case by (auto simp: server_inv_def)
qed (auto simp: server_inv_def connection_new_def)

lemma server_start_inv: "server_inv (num_databases config) (server_start config)"
  by (simp add: server_inv_def server_start_def server_new_storage_def storage_new_def wf_storage_def wf_db_def db_new_def)


lemma server_reachable_inv:
  assumes "(server_step E pw)\<^sup>*\<^sup>* (server_start config) s"
  shows "server_inv (num_databases config) s"
  using assms
proof (induction rule: rtranclp_induct)
  case base
  show ?case by (rule server_start_inv)
next
  case (step s s')
  from step(2,3) show ?case by (rule server_step_inv)
qed

end
