(* ===== verification/Bytes.thy ===== *)
theory Bytes
  imports Prelude "HOL-Library.Word"
begin

section \<open>Fixed-width integers on the wire\<close>

text \<open>
  \<open>to_be_bytes\<close>, \<open>from_be_bytes\<close> and the little-endian forms of the standard library and of
  the \<open>bytes\<close> crate, for any number of bytes: \<open>be_bytes n x\<close> are the \<open>n\<close> bytes of \<open>x\<close>, most
  significant first. An unsigned integer is a \<open>nat\<close>; a signed one an \<open>int\<close>, read and written
  through its two's complement (\<open>to_signed\<close>, \<open>of_signed\<close>). An \<open>as\<close> cast to a narrower type
  is the same truncation the encoders do.
\<close>

fun le_bytes :: "nat \<Rightarrow> nat \<Rightarrow> bytes" where
  "le_bytes 0 x = []"
| "le_bytes (Suc n) x = char_of (x mod 256) # le_bytes n (x div 256)"

fun le_val :: "bytes \<Rightarrow> nat" where
  "le_val [] = 0"
| "le_val (b # bs) = byte_val b + 256 * le_val bs"

definition be_bytes :: "nat \<Rightarrow> nat \<Rightarrow> bytes" where
  "be_bytes n x = rev (le_bytes n x)"

definition be_val :: "bytes \<Rightarrow> nat" where
  "be_val bs = le_val (rev bs)"

definition to_signed :: "nat \<Rightarrow> nat \<Rightarrow> int" where
  "to_signed w x = (if x < 2 ^ (w - 1) then int x else int x - 2 ^ w)"

definition of_signed :: "nat \<Rightarrow> int \<Rightarrow> nat" where
  "of_signed w x = nat (x mod 2 ^ w)"

definition in_signed :: "nat \<Rightarrow> int \<Rightarrow> bool" where
  "in_signed w x \<longleftrightarrow> - (2 ^ (w - 1)) \<le> x \<and> x < 2 ^ (w - 1)"

subsection \<open>Lemmas\<close>

lemma length_le_bytes [simp]: "length (le_bytes n x) = n"
  by (induction n arbitrary: x) simp_all

lemma length_be_bytes [simp]: "length (be_bytes n x) = n"
  by (simp add: be_bytes_def)

lemma le_val_le_bytes: "le_val (le_bytes n x) = x mod 256 ^ n"
proof (induction n arbitrary: x)
  case (Suc n)
  have "x mod 256 ^ Suc n = 256 * (x div 256 mod 256 ^ n) + x mod 256"
    by (simp add: mod_mult2_eq)
  with Suc show ?case by simp
qed simp

lemma be_val_be_bytes [simp]: "be_val (be_bytes n x) = x mod 256 ^ n"
  by (simp add: be_val_def be_bytes_def le_val_le_bytes)

lemma le_val_less: "le_val bs < 256 ^ length bs"
proof (induction bs)
  case (Cons b bs)
  have "byte_val b + 256 * le_val bs < 256 + 256 * le_val bs" by simp
  also have "\<dots> \<le> 256 * 256 ^ length bs" using Cons by (simp flip: mult_Suc_right)
  finally show ?case by simp
qed simp

lemma be_val_less: "be_val bs < 256 ^ length bs"
  using le_val_less [of "rev bs"] by (simp add: be_val_def)

lemma le_bytes_le_val [simp]: "length bs = n \<Longrightarrow> le_bytes n (le_val bs) = bs"
proof (induction bs arbitrary: n)
  case (Cons b bs)
  then show ?case by (cases n) (simp_all add: char_of_mod_256)
qed simp

lemma be_bytes_be_val [simp]: "length bs = n \<Longrightarrow> be_bytes n (be_val bs) = bs"
  by (simp add: be_bytes_def be_val_def)

lemma of_signed_less [simp]: "of_signed w x < 2 ^ w"
proof -
  have "x mod 2 ^ w < 2 ^ w" by simp
  then show ?thesis by (simp add: of_signed_def nat_less_iff)
qed

lemma to_signed_of_signed:
  assumes "in_signed w x" and "0 < w"
  shows "to_signed w (of_signed w x) = x"
proof -
  have w: "(2 :: int) ^ w = 2 * 2 ^ (w - 1)" using assms(2) by (cases w) simp_all
  show ?thesis
  proof (cases "0 \<le> x")
    case True
    with assms(1) w have "x mod 2 ^ w = x" by (simp add: in_signed_def)
    with assms(1) True show ?thesis
      by (simp add: to_signed_def of_signed_def in_signed_def nat_less_iff)
  next
    case False
    have "(x + 2 ^ w) mod 2 ^ w = x + 2 ^ w"
      using False assms(1) w by (intro mod_pos_pos_trivial) (auto simp: in_signed_def)
    then have "x mod 2 ^ w = x + 2 ^ w" by simp
    with False assms(1) w show ?thesis
      by (simp add: to_signed_def of_signed_def in_signed_def nat_less_iff)
  qed
qed

lemma of_signed_to_signed:
  assumes "x < 2 ^ w"
  shows "of_signed w (to_signed w x) = x"
proof -
  have "int x < 2 ^ w" using assms by (metis of_nat_less_iff of_nat_numeral of_nat_power)
  then show ?thesis by (auto simp: of_signed_def to_signed_def)
qed

lemma of_signed_nat: "int n < 2 ^ w \<Longrightarrow> of_signed w (int n) = n"
  by (simp add: of_signed_def)

end
