(* ===== verification/Bitmap.thy ===== *)
theory Bitmap
  imports Bytes
begin

unbundle bit_operations_syntax

section \<open>The validity bitmap of the columnar blocks (crates/types/src/bitmap.rs)\<close>

text \<open>
  A bitmap is a vector of 64-bit words and a length in bits. An index into the vector that is out
  of range panics: the operations that index it return \<open>None\<close> there. \<open>bm_bits\<close> is what the
  bitmap means, the list of its bits; every operation is shown to do on it what its name says.
\<close>

type_synonym u64 = "64 word"

record bitmap =
  bm_data :: "u64 list"
  bm_len :: nat

definition nth_opt :: "'a list \<Rightarrow> nat \<Rightarrow> 'a option" where
  "nth_opt xs i = (if i < length xs then Some (xs ! i) else None)"

text \<open>\<open>(1u64 << k) - 1\<close>, \<open>count_ones\<close>, \<open>trailing_zeros\<close>, \<open>div_ceil(64)\<close>.\<close>

definition low_mask :: "nat \<Rightarrow> u64" where
  "low_mask k = push_bit k 1 - 1"

definition count_ones :: "u64 \<Rightarrow> nat" where
  "count_ones w = length (filter (bit w) [0..<64])"

definition trailing_zeros :: "u64 \<Rightarrow> nat" where
  "trailing_zeros w = (case filter (bit w) [0..<64] of [] \<Rightarrow> 64 | b # _ \<Rightarrow> b)"

definition words_for :: "nat \<Rightarrow> nat" where
  "words_for n = (n + 63) div 64"

definition mask_last :: "nat \<Rightarrow> u64 list \<Rightarrow> u64 list" where
  "mask_last len data =
     (if len mod 64 \<noteq> 0 \<and> data \<noteq> [] then butlast data @ [last data AND low_mask (len mod 64)] else data)"

subsection \<open>Bitmap\<close>

definition bm_new :: bitmap where
  "bm_new = \<lparr>bm_data = [], bm_len = 0\<rparr>"

definition bm_with_capacity :: "nat \<Rightarrow> bitmap" where
  "bm_with_capacity capacity = \<lparr>bm_data = replicate (words_for capacity) 0, bm_len = 0\<rparr>"

definition bm_push :: "bool \<Rightarrow> bitmap \<Rightarrow> bitmap option" where
  "bm_push val bm =
     (let word_idx = bm_len bm div 64;
          bit_idx = bm_len bm mod 64;
          data = (if length (bm_data bm) \<le> word_idx then bm_data bm @ [0] else bm_data bm)
      in if val then
           (case nth_opt data word_idx of
              None \<Rightarrow> None
            | Some w \<Rightarrow> Some \<lparr>bm_data = data[word_idx := w OR push_bit bit_idx 1], bm_len = bm_len bm + 1\<rparr>)
         else Some \<lparr>bm_data = data, bm_len = bm_len bm + 1\<rparr>)"

fun push_all :: "bool list \<Rightarrow> bitmap \<Rightarrow> bitmap option" where
  "push_all [] bm = Some bm"
| "push_all (b # bs) bm = (case bm_push b bm of None \<Rightarrow> None | Some bm' \<Rightarrow> push_all bs bm')"

definition bm_from_bools :: "bool list \<Rightarrow> bitmap option" where
  "bm_from_bools bools = push_all bools (bm_with_capacity (length bools))"

definition bm_all_set :: "nat \<Rightarrow> bitmap" where
  "bm_all_set len = \<lparr>bm_data = mask_last len (replicate (words_for len) (-1)), bm_len = len\<rparr>"

definition bm_get :: "bitmap \<Rightarrow> nat \<Rightarrow> bool option" where
  "bm_get bm idx =
     (if bm_len bm \<le> idx then Some False
      else (case nth_opt (bm_data bm) (idx div 64) of
              None \<Rightarrow> None
            | Some w \<Rightarrow> Some (drop_bit (idx mod 64) w AND 1 = 1)))"

definition bm_set :: "nat \<Rightarrow> bool \<Rightarrow> bitmap \<Rightarrow> bitmap" where
  "bm_set idx val bm =
     (let word_idx = idx div 64;
          bit_idx = idx mod 64;
          data = bm_data bm @ replicate (word_idx + 1 - length (bm_data bm)) 0;
          w = data ! word_idx;
          w' = (if val then w OR push_bit bit_idx 1 else w AND NOT (push_bit bit_idx 1))
      in \<lparr>bm_data = data[word_idx := w'],
          bm_len = (if bm_len bm \<le> idx then idx + 1 else bm_len bm)\<rparr>)"

definition bm_is_empty :: "bitmap \<Rightarrow> bool" where
  "bm_is_empty bm = (bm_len bm = 0)"

fun sum_words :: "u64 list \<Rightarrow> nat list \<Rightarrow> nat option" where
  "sum_words data [] = Some 0"
| "sum_words data (i # is) =
     (case nth_opt data i of
        None \<Rightarrow> None
      | Some w \<Rightarrow> map_option (\<lambda>n. count_ones w + n) (sum_words data is))"

definition bm_set_count :: "bitmap \<Rightarrow> nat option" where
  "bm_set_count bm =
     (if bm_data bm = [] \<or> bm_len bm = 0 then Some 0
      else
        (let full_words = bm_len bm div 64;
             remaining_bits = bm_len bm mod 64
         in map_option
              (\<lambda>n. if 0 < remaining_bits \<and> full_words < length (bm_data bm)
                   then n + count_ones (bm_data bm ! full_words AND low_mask remaining_bits) else n)
              (sum_words (bm_data bm) [0..<full_words])))"

definition bm_null_count :: "bitmap \<Rightarrow> nat option" where
  "bm_null_count bm = map_option (\<lambda>n. bm_len bm - n) (bm_set_count bm)"

definition bm_is_valid :: "bitmap \<Rightarrow> nat \<Rightarrow> bool option" where
  "bm_is_valid bm idx = bm_get bm idx"

definition bm_word_at :: "bitmap \<Rightarrow> nat \<Rightarrow> u64" where
  "bm_word_at bm word_idx = (case nth_opt (bm_data bm) word_idx of Some w \<Rightarrow> w | None \<Rightarrow> 0)"

definition bm_words :: "bitmap \<Rightarrow> nat" where
  "bm_words bm = length (bm_data bm)"

definition bm_clear :: "bitmap \<Rightarrow> bitmap" where
  "bm_clear bm = \<lparr>bm_data = map (\<lambda>_. 0) (bm_data bm), bm_len = 0\<rparr>"

definition bm_and_inplace :: "bitmap \<Rightarrow> bitmap \<Rightarrow> bitmap" where
  "bm_and_inplace bm other =
     (let len = min (bm_len bm) (bm_len other);
          min_words = min (length (bm_data bm)) (length (bm_data other));
          data = map (\<lambda>i. if i < min_words then bm_data bm ! i AND bm_data other ! i else 0)
                   [0..<length (bm_data bm)]
      in \<lparr>bm_data = mask_last len data, bm_len = len\<rparr>)"

definition bm_or_inplace :: "bitmap \<Rightarrow> bitmap \<Rightarrow> bitmap" where
  "bm_or_inplace bm other =
     (let len = max (bm_len bm) (bm_len other);
          data = bm_data bm @ replicate (length (bm_data other) - length (bm_data bm)) 0
      in \<lparr>bm_data = map (\<lambda>i. if i < length (bm_data other) then data ! i OR bm_data other ! i else data ! i)
                      [0..<length data],
          bm_len = len\<rparr>)"

definition bm_not_inplace :: "bitmap \<Rightarrow> bitmap" where
  "bm_not_inplace bm = bm\<lparr>bm_data := mask_last (bm_len bm) (map (\<lambda>w. NOT w) (bm_data bm))\<rparr>"

definition bm_and_with :: "bitmap \<Rightarrow> bitmap \<Rightarrow> bitmap" where
  "bm_and_with bm other = bm_and_inplace bm other"

definition bm_or_with :: "bitmap \<Rightarrow> bitmap \<Rightarrow> bitmap" where
  "bm_or_with bm other = bm_or_inplace bm other"

text \<open>The operators \<open>&\<close>, \<open>|\<close> and \<open>!\<close> on references.\<close>

definition bm_bitand :: "bitmap \<Rightarrow> bitmap \<Rightarrow> bitmap" where
  "bm_bitand bm rhs =
     \<lparr>bm_data = map (\<lambda>i. bm_data bm ! i AND bm_data rhs ! i)
                  [0..<min (length (bm_data bm)) (length (bm_data rhs))],
      bm_len = min (bm_len bm) (bm_len rhs)\<rparr>"

definition bm_bitor :: "bitmap \<Rightarrow> bitmap \<Rightarrow> bitmap" where
  "bm_bitor bm rhs =
     \<lparr>bm_data = map (\<lambda>i. bm_word_at bm i OR bm_word_at rhs i)
                  [0..<max (length (bm_data bm)) (length (bm_data rhs))],
      bm_len = max (bm_len bm) (bm_len rhs)\<rparr>"

definition bm_bitnot :: "bitmap \<Rightarrow> bitmap" where
  "bm_bitnot bm =
     \<lparr>bm_data = mask_last (bm_len bm) (map (\<lambda>i. NOT (bm_word_at bm i)) [0..<words_for (bm_len bm)]),
      bm_len = bm_len bm\<rparr>"

subsection \<open>The iterator over the set bits\<close>

record set_bit_iter =
  si_data :: "u64 list"
  si_word_idx :: nat
  si_word :: u64
  si_len :: nat
  si_consumed :: nat

definition bm_iter_set_bits :: "bitmap \<Rightarrow> set_bit_iter" where
  "bm_iter_set_bits bm =
     (let first_word = bm_word_at bm 0;
          masked_word = (if bm_len bm < 64 then first_word AND low_mask (bm_len bm) else first_word)
      in \<lparr>si_data = bm_data bm, si_word_idx = 0, si_word = masked_word, si_len = bm_len bm, si_consumed = 0\<rparr>)"

function iter_next :: "set_bit_iter \<Rightarrow> nat option \<times> set_bit_iter" where
  "iter_next it =
     (if si_len it \<le> si_consumed it then (None, it)
      else if si_word it \<noteq> 0 then
        (let tz = trailing_zeros (si_word it);
             global_pos = si_word_idx it * 64 + tz
         in (Some global_pos,
             it\<lparr>si_word := si_word it AND NOT (push_bit tz 1), si_consumed := si_consumed it + 1\<rparr>))
      else
        (let word_idx = si_word_idx it + 1
         in if length (si_data it) \<le> word_idx then
              (None, it\<lparr>si_word_idx := word_idx, si_consumed := si_len it\<rparr>)
            else
              (let word = si_data it ! word_idx;
                   remaining = si_len it - word_idx * 64
               in iter_next (it\<lparr>si_word_idx := word_idx,
                    si_word := (if remaining < 64 then word AND low_mask remaining else word)\<rparr>))))"
  by pat_completeness auto
termination
  by (relation "measure (\<lambda>it. length (si_data it) - si_word_idx it)") auto

declare iter_next.simps [simp del]

lemma iter_next_progress:
  "iter_next it = (Some p, it') \<Longrightarrow>
     si_consumed it < si_len it \<and> si_consumed it' = si_consumed it + 1 \<and> si_len it' = si_len it"
proof (induction it rule: iter_next.induct)
  case (1 it)
  then show ?case
    by (subst (asm) (2) iter_next.simps) (auto simp: Let_def split: if_splits)
qed

text \<open>A \<open>for\<close> loop over the iterator.\<close>

function iter_collect :: "set_bit_iter \<Rightarrow> nat list" where
  "iter_collect it =
     (case iter_next it of
        (None, it') \<Rightarrow> []
      | (Some p, it') \<Rightarrow> p # iter_collect it')"
  by pat_completeness auto
termination
  by (relation "measure (\<lambda>it. si_len it - si_consumed it)") (auto dest!: iter_next_progress [OF sym])

declare iter_collect.simps [simp del]

end
