(* ===== verification/Bitmap_Correct.thy ===== *)
theory Bitmap_Correct
  imports Bitmap
begin

section \<open>Correctness of the bitmap\<close>

text \<open>
  The meaning of a bitmap is the list of its bits. The representation invariant says the words
  cover the length and no bit is set beyond it; under it the operations are those of a list of
  booleans, stated as the locale of a growing bit array and interpreted on the bitmap.
\<close>

subsection \<open>Definitions\<close>

definition data_bit :: "u64 list \<Rightarrow> nat \<Rightarrow> bool" where
  "data_bit d i \<longleftrightarrow> i div 64 < length d \<and> bit (d ! (i div 64)) (i mod 64)"

definition bm_bits :: "bitmap \<Rightarrow> bool list" where
  "bm_bits bm = map (data_bit (bm_data bm)) [0..<bm_len bm]"

definition bm_inv :: "bitmap \<Rightarrow> bool" where
  "bm_inv bm \<longleftrightarrow> bm_len bm \<le> 64 * length (bm_data bm) \<and>
     (\<forall>i \<in> {bm_len bm..<64 * length (bm_data bm)}. \<not> data_bit (bm_data bm) i)"

definition set_positions :: "bool list \<Rightarrow> nat list" where
  "set_positions bs = filter (\<lambda>i. bs ! i) [0..<length bs]"

text \<open>The positions the iterator has still to yield.\<close>

definition iter_pending :: "set_bit_iter \<Rightarrow> nat list" where
  "iter_pending it =
     map ((+) (64 * si_word_idx it)) (filter (bit (si_word it)) [0..<64]) @
     filter (data_bit (si_data it)) [64 * (si_word_idx it + 1)..<si_len it]"

locale bit_array =
  fixes bits :: "'s \<Rightarrow> bool list"
    and inv :: "'s \<Rightarrow> bool"
    and push :: "bool \<Rightarrow> 's \<Rightarrow> 's option"
    and get :: "'s \<Rightarrow> nat \<Rightarrow> bool option"
    and put :: "nat \<Rightarrow> bool \<Rightarrow> 's \<Rightarrow> 's"
  assumes push: "inv s \<Longrightarrow> \<exists>s'. push b s = Some s' \<and> inv s' \<and> bits s' = bits s @ [b]"
    and get: "inv s \<Longrightarrow> get s i = Some (i < length (bits s) \<and> bits s ! i)"
    and put: "inv s \<Longrightarrow> bits (put i b s) = (bits s @ replicate (i + 1 - length (bits s)) False)[i := b]"
    and inv_put: "inv s \<Longrightarrow> inv (put i b s)"
begin

lemma get_push:
  assumes "inv s" and "push b s = Some s'"
  shows "get s' i = (if i = length (bits s) then Some b else get s i)"
proof -
  from push [OF assms(1), of b] assms(2) have "inv s'" "bits s' = bits s @ [b]" by auto
  then show ?thesis using get [OF assms(1)] by (auto simp: get nth_append less_Suc_eq)
qed

lemma get_put:
  assumes "inv s"
  shows "get (put i b s) j = (if j = i then Some b else get s j)"
  using assms
  by (auto simp: get put inv_put nth_append nth_list_update)

end

subsection \<open>Words\<close>

lemma bit_low_mask [simp]: "k \<le> 64 \<Longrightarrow> bit (low_mask k) b \<longleftrightarrow> b < k"
proof -
  assume k: "k \<le> 64"
  have "low_mask k = mask k" by (simp add: low_mask_def mask_eq_exp_minus_1 push_bit_eq_mult)
  with k show "bit (low_mask k) b \<longleftrightarrow> b < k" by (auto simp: bit_mask_iff)
qed

lemma bit_one_shift [simp]: "k < 64 \<Longrightarrow> bit ((2 :: u64) ^ k) b \<longleftrightarrow> b = k"
  by (auto simp: bit_exp_iff)

lemma drop_and_one [simp]: "drop_bit k (w :: u64) AND 1 = 1 \<longleftrightarrow> bit w k"
  by (simp add: and_one_eq bit_iff_odd_drop_bit mod2_eq_if)

lemma bit_AND_NOT [simp]: "bit (w AND NOT v) b \<longleftrightarrow> bit w b \<and> \<not> bit v b" for w v :: u64
  by (auto simp: bit_simps dest: bit_imp_le_length)

lemma div_mod_64: "i div 64 = j div 64 \<and> i mod 64 = j mod 64 \<longleftrightarrow> i = (j :: nat)"
  by (metis div_mult_mod_eq)

lemma data_bit_update:
  "k < length d \<Longrightarrow> data_bit (d[k := w]) i \<longleftrightarrow> (if i div 64 = k then bit w (i mod 64) else data_bit d i)"
  by (auto simp: data_bit_def nth_list_update)

lemma data_bit_or:
  assumes "n div 64 < length d"
  shows "data_bit (d[n div 64 := d ! (n div 64) OR push_bit (n mod 64) 1]) i \<longleftrightarrow> data_bit d i \<or> i = n"
proof (cases "i div 64 = n div 64")
  case True
  then have "i mod 64 = n mod 64 \<longleftrightarrow> i = n" using div_mod_64 [of i n] by simp
  with True assms show ?thesis by (auto simp: data_bit_update bit_or_iff data_bit_def [of d])
next
  case False
  then have "i \<noteq> n" by auto
  with False assms show ?thesis by (simp add: data_bit_update)
qed

lemma data_bit_and_not:
  assumes "n div 64 < length d"
  shows "data_bit (d[n div 64 := d ! (n div 64) AND NOT (push_bit (n mod 64) 1)]) i \<longleftrightarrow> data_bit d i \<and> i \<noteq> n"
proof (cases "i div 64 = n div 64")
  case True
  then have "i mod 64 = n mod 64 \<longleftrightarrow> i = n" using div_mod_64 [of i n] by simp
  with True assms show ?thesis by (auto simp: data_bit_update data_bit_def [of d])
next
  case False
  then have "i \<noteq> n" by auto
  with False assms show ?thesis by (simp add: data_bit_update)
qed

lemma data_bit_zeros [simp]: "data_bit (d @ replicate n 0) i = data_bit d i"
  by (auto simp: data_bit_def nth_append)

lemma data_bit_zero_end [simp]: "data_bit (d @ [0]) i = data_bit d i"
  using data_bit_zeros [of d 1 i] by simp

lemma data_bit_replicate_0 [simp]: "\<not> data_bit (replicate n 0) i"
  by (auto simp: data_bit_def)

lemma data_bit_beyond: "64 * length d \<le> i \<Longrightarrow> \<not> data_bit d i"
  by (auto simp: data_bit_def)

lemma bm_inv_beyond: "bm_inv bm \<Longrightarrow> bm_len bm \<le> i \<Longrightarrow> \<not> data_bit (bm_data bm) i"
  using data_bit_beyond [of "bm_data bm" i] by (cases "i < 64 * length (bm_data bm)") (auto simp: bm_inv_def)

lemma bm_invI:
  assumes "bm_len bm \<le> 64 * length (bm_data bm)" and "\<And>i. bm_len bm \<le> i \<Longrightarrow> \<not> data_bit (bm_data bm) i"
  shows "bm_inv bm"
  using assms by (simp add: bm_inv_def)

lemma length_bm_bits [simp]: "length (bm_bits bm) = bm_len bm"
  by (simp add: bm_bits_def)

lemma nth_bm_bits [simp]: "i < bm_len bm \<Longrightarrow> bm_bits bm ! i = data_bit (bm_data bm) i"
  by (simp add: bm_bits_def)

lemma data_bit_inv: "bm_inv bm \<Longrightarrow> data_bit (bm_data bm) i \<longleftrightarrow> i < bm_len bm \<and> bm_bits bm ! i"
  using bm_inv_beyond [of bm i] by (cases "i < bm_len bm") auto

lemma bm_inv_less: "bm_inv bm \<Longrightarrow> data_bit (bm_data bm) i \<Longrightarrow> i < bm_len bm"
  using bm_inv_beyond [of bm i] by (cases "i < bm_len bm") auto

lemma word_index: "bm_len bm \<le> 64 * length (bm_data bm) \<Longrightarrow> i < bm_len bm \<Longrightarrow> i div 64 < length (bm_data bm)"
  by (simp add: div_less_iff_less_mult mult.commute)

subsection \<open>push, get and set\<close>

lemma bm_get_eq: "bm_inv bm \<Longrightarrow> bm_get bm i = Some (i < length (bm_bits bm) \<and> bm_bits bm ! i)"
  using word_index [of bm i] by (auto simp: bm_get_def nth_opt_def bm_inv_def data_bit_def)

lemma bm_push_eq:
  assumes "bm_inv bm"
  shows "\<exists>bm'. bm_push b bm = Some bm' \<and> bm_inv bm' \<and> bm_bits bm' = bm_bits bm @ [b]"
proof -
  let ?n = "bm_len bm" and ?d = "bm_data bm"
  let ?d1 = "if length ?d \<le> ?n div 64 then ?d @ [0] else ?d"
  let ?d2 = "if b then ?d1[?n div 64 := ?d1 ! (?n div 64) OR push_bit (?n mod 64) 1] else ?d1"
  have len: "?n \<le> 64 * length ?d" using assms by (simp add: bm_inv_def)
  have k: "?n div 64 < length ?d1"
  proof (cases "length ?d \<le> ?n div 64")
    case True
    have "?n div 64 \<le> length ?d" using len by (simp add: div_le_mono [of _ "64 * _" 64, simplified])
    with True show ?thesis by simp
  qed simp
  have push: "bm_push b bm = Some \<lparr>bm_data = ?d2, bm_len = ?n + 1\<rparr>"
    using k by (auto simp: bm_push_def nth_opt_def Let_def)
  have "data_bit ?d2 i \<longleftrightarrow> data_bit ?d1 i \<or> b \<and> i = ?n" for i
    using data_bit_or [OF k, of i] by (cases b) simp_all
  moreover have "data_bit ?d1 i = data_bit ?d i" for i by simp
  moreover have "\<not> data_bit ?d ?n" using bm_inv_beyond [OF assms] by simp
  ultimately have bits: "data_bit ?d2 i = (if i = ?n then b else data_bit ?d i)" for i by auto
  have "length ?d2 = length ?d1" by simp
  then have "?n + 1 \<le> 64 * length ?d2" using k by (simp add: div_less_iff_less_mult)
  then have "bm_inv \<lparr>bm_data = ?d2, bm_len = ?n + 1\<rparr>"
    using bm_inv_beyond [OF assms] bits by (intro bm_invI) simp_all
  moreover have "bm_bits \<lparr>bm_data = ?d2, bm_len = ?n + 1\<rparr> = bm_bits bm @ [b]"
    using bits by (intro nth_equalityI) (auto simp: nth_append less_Suc_eq bm_bits_def)
  ultimately show ?thesis using push by blast
qed

lemma bm_set_data:
  "data_bit (bm_data (bm_set idx val bm)) i = (if i = idx then val else data_bit (bm_data bm) i)"
proof -
  define d where "d = bm_data bm @ replicate (idx div 64 + 1 - length (bm_data bm)) 0"
  have k: "idx div 64 < length d" by (simp add: d_def)
  have d: "data_bit d j = data_bit (bm_data bm) j" for j unfolding d_def by (rule data_bit_zeros)
  have "bm_data (bm_set idx val bm) = d[idx div 64 := (if val then d ! (idx div 64) OR push_bit (idx mod 64) 1
      else d ! (idx div 64) AND NOT (push_bit (idx mod 64) 1))]"
    by (simp add: bm_set_def Let_def d_def)
  then show ?thesis
    using data_bit_or [OF k, of i] data_bit_and_not [OF k, of i] d by (cases val) auto
qed

lemma bm_inv_set:
  assumes "bm_inv bm"
  shows "bm_inv (bm_set idx val bm)"
proof (rule bm_invI)
  have "bm_len bm \<le> 64 * length (bm_data bm)" using assms by (simp add: bm_inv_def)
  moreover have "idx + 1 \<le> 64 * (idx div 64 + 1)"
    using div_mult_mod_eq [of idx 64] mod_less_divisor [of 64 idx] by simp
  ultimately show "bm_len (bm_set idx val bm) \<le> 64 * length (bm_data (bm_set idx val bm))"
    by (auto simp: bm_set_def Let_def)
  show "\<not> data_bit (bm_data (bm_set idx val bm)) i" if "bm_len (bm_set idx val bm) \<le> i" for i
    using that bm_inv_beyond [OF assms, of i] bm_set_data [of idx val bm i]
    by (auto simp: bm_set_def Let_def split: if_splits)
qed

lemma bm_set_bits:
  assumes "bm_inv bm"
  shows "bm_bits (bm_set idx val bm) = (bm_bits bm @ replicate (idx + 1 - length (bm_bits bm)) False)[idx := val]"
proof (rule nth_equalityI)
  show len: "length (bm_bits (bm_set idx val bm)) =
      length ((bm_bits bm @ replicate (idx + 1 - length (bm_bits bm)) False)[idx := val])"
    by (auto simp: bm_set_def Let_def)
  show "bm_bits (bm_set idx val bm) ! i =
      (bm_bits bm @ replicate (idx + 1 - length (bm_bits bm)) False)[idx := val] ! i"
    if "i < length (bm_bits (bm_set idx val bm))" for i
    using that bm_inv_beyond [OF assms, of i] len
    by (auto simp: bm_set_data nth_list_update nth_append)
qed

interpretation bitmap_array: bit_array bm_bits bm_inv bm_push bm_get bm_set
  using bm_push_eq bm_get_eq bm_set_bits bm_inv_set by unfold_locales


subsection \<open>Construction\<close>

lemma bm_inv_capacity [simp]: "bm_inv (bm_with_capacity n)" "bm_bits (bm_with_capacity n) = []"
  by (auto simp: bm_with_capacity_def bm_inv_def bm_bits_def)

lemma push_all_bits:
  "bm_inv bm \<Longrightarrow> \<exists>bm'. push_all bs bm = Some bm' \<and> bm_inv bm' \<and> bm_bits bm' = bm_bits bm @ bs"
proof (induction bs arbitrary: bm)
  case (Cons b bs)
  from bitmap_array.push [OF Cons.prems, of b] obtain bm1
    where bm1: "bm_push b bm = Some bm1" "bm_inv bm1" "bm_bits bm1 = bm_bits bm @ [b]" by auto
  from Cons.IH [OF bm1(2)] bm1 show ?case by auto
qed simp

subsection \<open>Masks and whole-word operations\<close>

lemma data_bit_mask_last:
  "data_bit (mask_last len d) i \<longleftrightarrow>
     data_bit d i \<and> \<not> (len mod 64 \<noteq> 0 \<and> i div 64 = length d - 1 \<and> len mod 64 \<le> i mod 64)"
proof (cases "len mod 64 \<noteq> 0 \<and> d \<noteq> []")
  case True
  then obtain ws w where d: "d = ws @ [w]" by (cases d rule: rev_cases) auto
  have "len mod 64 \<le> 64" by (simp add: less_imp_le)
  with True show ?thesis
    by (cases "i div 64 = length ws") (auto simp: mask_last_def d data_bit_def nth_append bit_and_iff)
next
  case False
  then show ?thesis by (auto simp: mask_last_def data_bit_def)
qed

lemma length_mask_last [simp]: "length (mask_last len d) = length d"
  by (simp add: mask_last_def)

text \<open>Masking the last word loses no bit below the length when the words cover the length.\<close>

lemma mask_last_within:
  assumes "i < len" and "len \<le> 64 * length d"
  shows "data_bit (mask_last len d) i \<longleftrightarrow> data_bit d i"
proof -
  have "i mod 64 < len mod 64" if "len mod 64 \<noteq> 0" "i div 64 = length d - 1"
  proof -
    have "64 * (i div 64) + i mod 64 = i" "64 * (len div 64) + len mod 64 = len" by simp_all
    moreover have "len < length d * 64" using assms(2) that(1) by (cases "len = 64 * length d") auto
    then have "len div 64 \<le> length d - 1" by (simp add: div_less_iff_less_mult [symmetric] less_imp_le_nat Suc_leI le_diff_conv2 Suc_le_eq)
    moreover have "i div 64 \<le> len div 64" using assms(1) by (simp add: div_le_mono)
    ultimately show ?thesis using assms(1) that(2) by linarith
  qed
  then show ?thesis by (auto simp: data_bit_mask_last)
qed

lemma data_bit_map:
  "data_bit (map f [0..<n]) i \<longleftrightarrow> i div 64 < n \<and> bit (f (i div 64)) (i mod 64)"
  by (auto simp: data_bit_def)

lemma bm_word_at_bit: "bit (bm_word_at bm k) b \<longleftrightarrow> k < length (bm_data bm) \<and> bit (bm_data bm ! k) b"
  by (simp add: bm_word_at_def nth_opt_def)

lemma bit_NOT_mod64 [simp]: "bit (NOT w) (i mod 64) \<longleftrightarrow> \<not> bit w (i mod 64)" for w :: u64
  by (simp add: bit_not_iff)

lemma bm_bitsI:
  assumes "bm_len bm = n" and "\<And>i. i < n \<Longrightarrow> data_bit (bm_data bm) i = f i"
  shows "bm_bits bm = map f [0..<n]"
  using assms by (simp add: bm_bits_def)

lemma and_inplace_data:
  "data_bit (bm_data (bm_and_inplace a b)) i \<longleftrightarrow>
     data_bit (mask_last (min (bm_len a) (bm_len b))
       (map (\<lambda>k. if k < min (length (bm_data a)) (length (bm_data b)) then bm_data a ! k AND bm_data b ! k else 0)
         [0..<length (bm_data a)])) i"
  by (simp add: bm_and_inplace_def Let_def)

lemma and_inplace_bits:
  assumes "bm_inv a" and "bm_inv b"
  shows "bm_bits (bm_and_inplace a b) = map2 (\<and>) (bm_bits a) (bm_bits b)" "bm_inv (bm_and_inplace a b)"
proof -
  let ?n = "min (bm_len a) (bm_len b)"
  have len: "bm_len (bm_and_inplace a b) = ?n" "length (bm_data (bm_and_inplace a b)) = length (bm_data a)"
    by (simp_all add: bm_and_inplace_def Let_def)
  have n: "?n \<le> 64 * length (bm_data a)" using assms(1) by (simp add: bm_inv_def min.coboundedI1)
  have le: "data_bit (bm_data (bm_and_inplace a b)) i \<Longrightarrow> data_bit (bm_data a) i \<and> data_bit (bm_data b) i" for i
    unfolding and_inplace_data data_bit_mask_last data_bit_map by (auto simp: data_bit_def bit_and_iff split: if_splits)
  have "data_bit (bm_data (bm_and_inplace a b)) i \<longleftrightarrow> data_bit (bm_data a) i \<and> data_bit (bm_data b) i" if "i < ?n" for i
    using that n unfolding and_inplace_data
    by (subst mask_last_within) (auto simp: data_bit_map data_bit_def [of "bm_data _"] bit_and_iff split: if_splits)
  then have "bm_bits (bm_and_inplace a b) = map (\<lambda>i. data_bit (bm_data a) i \<and> data_bit (bm_data b) i) [0..<?n]"
    using len by (intro bm_bitsI) simp_all
  also have "\<dots> = map2 (\<and>) (bm_bits a) (bm_bits b)" by (intro nth_equalityI) simp_all
  finally show "bm_bits (bm_and_inplace a b) = map2 (\<and>) (bm_bits a) (bm_bits b)" .
  show "bm_inv (bm_and_inplace a b)"
    using n len le bm_inv_beyond [OF assms(1)] bm_inv_beyond [OF assms(2)]
    by (intro bm_invI) (auto simp: min_le_iff_disj)
qed

lemma or_inplace_data:
  "data_bit (bm_data (bm_or_inplace a b)) i \<longleftrightarrow> data_bit (bm_data a) i \<or> data_bit (bm_data b) i"
  "length (bm_data (bm_or_inplace a b)) = max (length (bm_data a)) (length (bm_data b))"
proof -
  define d where "d = bm_data a @ replicate (length (bm_data b) - length (bm_data a)) 0"
  have d: "data_bit d i = data_bit (bm_data a) i" unfolding d_def by (rule data_bit_zeros)
  have len: "length d = max (length (bm_data a)) (length (bm_data b))" by (simp add: d_def)
  have o: "bm_data (bm_or_inplace a b) = map (\<lambda>k. if k < length (bm_data b) then d ! k OR bm_data b ! k else d ! k) [0..<length d]"
    by (simp add: bm_or_inplace_def Let_def d_def)
  show "data_bit (bm_data (bm_or_inplace a b)) i \<longleftrightarrow> data_bit (bm_data a) i \<or> data_bit (bm_data b) i"
    unfolding o data_bit_map d [symmetric]
    using len by (auto simp: data_bit_def bit_or_iff split: if_splits)
  show "length (bm_data (bm_or_inplace a b)) = max (length (bm_data a)) (length (bm_data b))"
    using o len by simp
qed

lemma or_inplace_bits:
  assumes "bm_inv a" and "bm_inv b"
  shows "bm_bits (bm_or_inplace a b) =
      map (\<lambda>i. (i < bm_len a \<and> bm_bits a ! i) \<or> (i < bm_len b \<and> bm_bits b ! i)) [0..<max (bm_len a) (bm_len b)]"
    "bm_inv (bm_or_inplace a b)"
proof -
  have len: "bm_len (bm_or_inplace a b) = max (bm_len a) (bm_len b)" by (simp add: bm_or_inplace_def Let_def)
  show "bm_bits (bm_or_inplace a b) =
      map (\<lambda>i. (i < bm_len a \<and> bm_bits a ! i) \<or> (i < bm_len b \<and> bm_bits b ! i)) [0..<max (bm_len a) (bm_len b)]"
    by (intro bm_bitsI len) (simp only: or_inplace_data data_bit_inv [OF assms(1)] data_bit_inv [OF assms(2)])
  have "bm_len a \<le> 64 * length (bm_data a)" "bm_len b \<le> 64 * length (bm_data b)"
    using assms by (simp_all add: bm_inv_def)
  then show "bm_inv (bm_or_inplace a b)"
    using len by (intro bm_invI) (auto simp: or_inplace_data dest: bm_inv_less [OF assms(1)] bm_inv_less [OF assms(2)])
qed

lemma not_inplace_bits:
  assumes "bm_inv bm"
  shows "bm_bits (bm_not_inplace bm) = map Not (bm_bits bm)"
proof -
  have n: "bm_len bm \<le> 64 * length (bm_data bm)" using assms by (simp add: bm_inv_def)
  have "data_bit (bm_data (bm_not_inplace bm)) i \<longleftrightarrow> \<not> data_bit (bm_data bm) i" if "i < bm_len bm" for i
    using that n word_index [OF n that]
    by (simp add: bm_not_inplace_def mask_last_within) (auto simp: data_bit_def)
  then show ?thesis by (simp add: bm_bits_def bm_not_inplace_def)
qed

lemma words_for_eq: "words_for n = n div 64 + (if n mod 64 = 0 then 0 else 1)"
proof -
  have "words_for n = (n mod 64 + 63 + n div 64 * 64) div 64" by (simp add: words_for_def)
  also have "\<dots> = n div 64 + (n mod 64 + 63) div 64" by (subst div_mult_self1) simp_all
  also have "(n mod 64 + 63) div 64 = (if n mod 64 = 0 then 0 else 1)"
    using mod_less_divisor [of 64 n] by (auto intro!: div_nat_eqI)
  finally show ?thesis .
qed

lemma words_cover: "n \<le> 64 * words_for n"
proof (cases "n mod 64 = 0")
  case True
  then show ?thesis using mult_div_mod_eq [of 64 n] by (simp add: words_for_eq)
next
  case False
  have "64 * (n div 64) + n mod 64 = n" "n mod 64 < 64" by simp_all
  then have "n \<le> 64 * (n div 64) + 64" by linarith
  with False show ?thesis by (simp add: words_for_eq)
qed

lemma word_covered: "i < n \<Longrightarrow> i div 64 < words_for n"
  using words_cover [of n] by (simp add: div_less_iff_less_mult mult.commute)

text \<open>A position beyond the length in the last of exactly enough words is masked.\<close>

lemma last_word_masked:
  assumes "i div 64 < words_for n" and "n \<le> i"
  shows "n mod 64 \<noteq> 0 \<and> i div 64 = words_for n - 1 \<and> n mod 64 \<le> i mod 64"
proof -
  have le: "n div 64 \<le> i div 64" using assms(2) by (rule div_le_mono)
  with assms(1) have "n mod 64 \<noteq> 0" "i div 64 = n div 64" by (auto simp: words_for_eq split: if_splits)
  moreover have "64 * (i div 64) + i mod 64 = i" "64 * (n div 64) + n mod 64 = n" by simp_all
  ultimately have "n mod 64 \<le> i mod 64" using assms(2) by linarith
  with \<open>n mod 64 \<noteq> 0\<close> \<open>i div 64 = n div 64\<close> show ?thesis by (simp add: words_for_eq)
qed

lemma not_inplace_inv:
  assumes "bm_inv bm" and "length (bm_data bm) = words_for (bm_len bm)"
  shows "bm_inv (bm_not_inplace bm)"
proof (rule bm_invI)
  show "bm_len (bm_not_inplace bm) \<le> 64 * length (bm_data (bm_not_inplace bm))"
    using assms(1) by (simp add: bm_not_inplace_def bm_inv_def)
  show "\<not> data_bit (bm_data (bm_not_inplace bm)) i" if "bm_len (bm_not_inplace bm) \<le> i" for i
  proof
    assume set: "data_bit (bm_data (bm_not_inplace bm)) i"
    then have k: "i div 64 < words_for (bm_len bm)"
      using assms(2) by (simp add: bm_not_inplace_def data_bit_mask_last data_bit_def)
    have len: "bm_len bm \<le> i" using that by (simp add: bm_not_inplace_def)
    have "bm_len bm mod 64 \<noteq> 0 \<and> i div 64 = words_for (bm_len bm) - 1 \<and> bm_len bm mod 64 \<le> i mod 64"
      by (rule last_word_masked [OF k len])
    with set assms(2) show False by (simp add: bm_not_inplace_def data_bit_mask_last)
  qed
qed

lemma bitnot_bits:
  assumes "bm_inv bm"
  shows "bm_bits (bm_bitnot bm) = map Not (bm_bits bm)" "bm_inv (bm_bitnot bm)"
proof -
  have bit: "data_bit (map (\<lambda>k. NOT (bm_word_at bm k)) [0..<words_for (bm_len bm)]) i \<longleftrightarrow>
      i div 64 < words_for (bm_len bm) \<and> \<not> data_bit (bm_data bm) i" for i
    by (simp add: data_bit_map bm_word_at_bit data_bit_def [of "bm_data bm"])
  show "bm_bits (bm_bitnot bm) = map Not (bm_bits bm)"
    by (simp add: bm_bits_def bm_bitnot_def mask_last_within words_cover word_covered bit)
  show "bm_inv (bm_bitnot bm)"
  proof (rule bm_invI)
    show "bm_len (bm_bitnot bm) \<le> 64 * length (bm_data (bm_bitnot bm))" by (simp add: bm_bitnot_def words_cover)
    show "\<not> data_bit (bm_data (bm_bitnot bm)) i" if "bm_len (bm_bitnot bm) \<le> i" for i
      using that last_word_masked [of i "bm_len bm"]
      by (auto simp: bm_bitnot_def data_bit_mask_last bit)
  qed
qed

lemma bitand_bits:
  assumes "bm_inv a" and "bm_inv b"
  shows "bm_bits (bm_bitand a b) = map2 (\<and>) (bm_bits a) (bm_bits b)" "bm_inv (bm_bitand a b)"
proof -
  have bit: "data_bit (bm_data (bm_bitand a b)) i \<longleftrightarrow> data_bit (bm_data a) i \<and> data_bit (bm_data b) i" for i
    by (auto simp: bm_bitand_def data_bit_map data_bit_def [of "bm_data _"] bit_and_iff)
  have len: "bm_len (bm_bitand a b) = min (bm_len a) (bm_len b)"
    "length (bm_data (bm_bitand a b)) = min (length (bm_data a)) (length (bm_data b))"
    by (simp_all add: bm_bitand_def)
  show "bm_bits (bm_bitand a b) = map2 (\<and>) (bm_bits a) (bm_bits b)"
    by (intro nth_equalityI) (simp_all add: len bit)
  show "bm_inv (bm_bitand a b)"
    using assms len by (intro bm_invI) (auto simp: bm_inv_def min_le_iff_disj bit dest: bm_inv_less [OF assms(1)] bm_inv_less [OF assms(2)])
qed

lemma bitor_bits:
  assumes "bm_inv a" and "bm_inv b"
  shows "bm_bits (bm_bitor a b) = bm_bits (bm_or_inplace a b)" "bm_inv (bm_bitor a b)"
proof -
  have bit: "data_bit (bm_data (bm_bitor a b)) i \<longleftrightarrow> data_bit (bm_data a) i \<or> data_bit (bm_data b) i" for i
    by (auto simp: bm_bitor_def data_bit_map bm_word_at_bit bit_or_iff data_bit_def [of "bm_data _"])
  have len: "bm_len (bm_bitor a b) = max (bm_len a) (bm_len b)"
    "length (bm_data (bm_bitor a b)) = max (length (bm_data a)) (length (bm_data b))"
    by (simp_all add: bm_bitor_def)
  have len': "bm_len (bm_or_inplace a b) = max (bm_len a) (bm_len b)" by (simp add: bm_or_inplace_def Let_def)
  show "bm_bits (bm_bitor a b) = bm_bits (bm_or_inplace a b)"
    by (simp add: bm_bits_def len len' bit or_inplace_data)
  show "bm_inv (bm_bitor a b)"
    using assms len by (intro bm_invI) (auto simp: bm_inv_def bit dest: bm_inv_less [OF assms(1)] bm_inv_less [OF assms(2)])
qed

lemma all_set_bits: "bm_bits (bm_all_set n) = replicate n True" "bm_inv (bm_all_set n)"
proof -
  have ones: "data_bit (replicate k (-1)) i \<longleftrightarrow> i div 64 < k" for k i by (auto simp: data_bit_def)
  show "bm_bits (bm_all_set n) = replicate n True"
    by (intro nth_equalityI) (simp_all add: bm_all_set_def mask_last_within words_cover word_covered ones)
  show "bm_inv (bm_all_set n)"
    using words_cover last_word_masked [of _ n]
    by (intro bm_invI) (auto simp: bm_all_set_def data_bit_mask_last ones)
qed

subsection \<open>Counting\<close>

lemma filter_block:
  assumes "k < length d" and "m \<le> 64"
  shows "filter (data_bit d) [64 * k..<64 * k + m] = map ((+) (64 * k)) (filter (bit (d ! k)) [0..<m])"
proof -
  have "[64 * k..<64 * k + m] = map ((+) (64 * k)) [0..<m]"
    by (simp add: map_add_upt add.commute [of "64 * k"] flip: map_add_upt)
  moreover have "data_bit d (64 * k + j) \<longleftrightarrow> bit (d ! k) j" if "j < m" for j
    using that assms by (simp add: data_bit_def)
  ultimately show ?thesis by (auto simp: filter_map o_def intro: filter_cong)
qed

lemma count_ones_mask:
  "m \<le> 64 \<Longrightarrow> count_ones (w AND low_mask m) = length (filter (bit w) [0..<m])"
proof -
  assume m: "m \<le> 64"
  have "filter (bit (w AND low_mask m)) [0..<64] = filter (\<lambda>b. b < m) (filter (bit w) [0..<64])"
    using m by (simp add: bit_and_iff conj_commute cong: filter_cong)
  also have "\<dots> = filter (bit w) (filter (\<lambda>b. b < m) [0..<64])" by (simp add: conj_commute)
  also have "filter (\<lambda>b. b < m) [0..<64] = [0..<m]"
    using m upt_add_eq_append [of 0 m "64 - m"] by (simp add: filter_empty_conv)
  finally show ?thesis by (simp add: count_ones_def)
qed

lemma sum_words_bits:
  "k \<le> length d \<Longrightarrow> sum_words d [j..<k] = Some (length (filter (data_bit d) [64 * j..<64 * k]))"
proof (induction "k - j" arbitrary: j)
  case (Suc n)
  then have j: "j < k" "j < length d" by simp_all
  have step: "64 * Suc j = 64 * j + 64" by simp
  have "64 * j + 64 \<le> 64 * k" using j(1) by simp
  then have split: "[64 * j..<64 * k] = [64 * j..<64 * j + 64] @ [64 * j + 64..<64 * k]"
    using upt_add_eq_append [of "64 * j" "64 * j + 64" "64 * k - (64 * j + 64)"] by simp
  have "sum_words d [Suc j..<k] = Some (length (filter (data_bit d) [64 * Suc j..<64 * k]))"
    using Suc.hyps(2) by (intro Suc.hyps(1) Suc.prems) simp
  then have "sum_words d [j..<k] = Some (count_ones (d ! j) + length (filter (data_bit d) [64 * j + 64..<64 * k]))"
    using j unfolding step by (simp add: upt_conv_Cons nth_opt_def)
  moreover have "count_ones (d ! j) = length (filter (data_bit d) [64 * j..<64 * j + 64])"
    using filter_block [OF j(2), of 64] by (simp add: count_ones_def)
  ultimately show ?case unfolding split by simp
qed simp

lemma set_count_bits:
  assumes "bm_inv bm"
  shows "bm_set_count bm = Some (length (filter id (bm_bits bm)))"
proof (cases "bm_len bm = 0")
  case True
  then show ?thesis by (simp add: bm_set_count_def bm_bits_def)
next
  case False
  define d where "d = bm_data bm"
  define q where "q = bm_len bm div 64"
  define r where "r = bm_len bm mod 64"
  have n: "bm_len bm = 64 * q + r" by (simp add: q_def r_def)
  have r: "r < 64" by (simp add: r_def)
  have cover: "64 * q + r \<le> 64 * length d" using assms n by (simp add: bm_inv_def d_def)
  have q: "q \<le> length d" "0 < r \<Longrightarrow> q < length d" using cover r by linarith+
  have bits: "length (filter id (bm_bits bm)) = length (filter (data_bit d) ([0..<64 * q] @ [64 * q..<64 * q + r]))"
    using upt_add_eq_append [of 0 "64 * q" r] by (simp add: bm_bits_def filter_map o_def n d_def)
  have full: "sum_words d [0..<q] = Some (length (filter (data_bit d) [0..<64 * q]))"
    using sum_words_bits [OF q(1), of 0] by simp
  have rest: "count_ones (d ! q AND low_mask r) = length (filter (data_bit d) [64 * q..<64 * q + r])" if "0 < r"
    using filter_block [OF q(2) [OF that], of r] r by (simp add: count_ones_mask)
  have "d \<noteq> []" using cover False n by auto
  then have "bm_set_count bm = map_option (\<lambda>m. if 0 < r \<and> q < length d then m + count_ones (d ! q AND low_mask r) else m)
      (sum_words d [0..<q])"
    using False unfolding bm_set_count_def Let_def d_def q_def r_def by simp
  then show ?thesis
    unfolding bits using full rest q(2) by (cases "0 < r") auto
qed


subsection \<open>Iterating over the set bits\<close>

lemma filter_bit_eq_Nil: "filter (bit w) [0..<64] = [] \<longleftrightarrow> w = 0" for w :: u64
  by (auto simp: filter_empty_conv bit_eq_iff dest: bit_imp_le_length)

lemma clear_lowest:
  assumes "w \<noteq> 0" and "w' = w AND NOT (push_bit (trailing_zeros w) 1)"
  shows "filter (bit w) [0..<64] = trailing_zeros w # filter (bit w') [0..<64]"
proof -
  let ?f = "filter (bit w) [0..<64]"
  have ne: "?f \<noteq> []" using assms(1) filter_bit_eq_Nil by simp
  then obtain b bs where f: "?f = b # bs" by (cases ?f) auto
  then have tz: "trailing_zeros w = b" by (simp add: trailing_zeros_def)
  have "b \<in> set ?f" using f by simp
  then have b: "b < 64" by simp
  have "distinct ?f" by simp
  then have "b \<notin> set bs" by (simp add: f)
  have "filter (bit w') [0..<64] = filter (\<lambda>x. x \<noteq> b) ?f"
    using b by (auto simp: assms(2) tz intro!: filter_cong)
  also have "\<dots> = bs" using f \<open>b \<notin> set bs\<close> by (auto simp: filter_id_conv)
  finally show ?thesis using f tz by simp
qed

lemma masked_word_filter:
  "filter (bit (if m < 64 then w AND low_mask m else w)) [0..<64] = filter (bit w) [0..<min m 64]"
proof (cases "m < 64")
  case True
  have "[0..<64] = [0..<m] @ [m..<64]" using True upt_add_eq_append [of 0 m "64 - m"] by simp
  moreover have "filter (bit (w AND low_mask m)) [0..<m] = filter (bit w) [0..<m]"
    using True by (intro filter_cong) (auto simp: bit_and_iff)
  ultimately show ?thesis using True by (auto simp: bit_and_iff filter_empty_conv)
qed simp

lemma pending_next_word:
  assumes "k < length d" and "len \<le> 64 * length d"
  shows "map ((+) (64 * k)) (filter (bit (if len - k * 64 < 64 then d ! k AND low_mask (len - k * 64) else d ! k)) [0..<64])
      @ filter (data_bit d) [64 * (k + 1)..<len] = filter (data_bit d) [64 * k..<len]"
proof -
  define m where "m = min (len - 64 * k) 64"
  have "map ((+) (64 * k)) (filter (bit (d ! k)) [0..<m]) = filter (data_bit d) [64 * k..<64 * k + m]"
    using filter_block [OF assms(1), of m] by (simp add: m_def)
  moreover have "[64 * k..<len] = [64 * k..<64 * k + m] @ [64 * (k + 1)..<len]"
  proof (cases "len - 64 * k \<le> 64")
    case True
    then have "64 * k + m = max len (64 * k)" "[64 * (k + 1)..<len] = []" by (auto simp: m_def)
    then show ?thesis by (cases "64 * k \<le> len") (simp_all add: max_def)
  next
    case False
    then have "m = 64" "64 * k + 64 \<le> len" by (simp_all add: m_def)
    then show ?thesis
      using upt_add_eq_append [of "64 * k" "64 * k + 64" "len - (64 * k + 64)"] by (simp add: add.commute)
  qed
  ultimately show ?thesis by (simp add: masked_word_filter m_def mult.commute)
qed

lemma iter_next_pending:
  assumes "si_len it \<le> 64 * length (si_data it)" and "length (iter_pending it) \<le> si_len it - si_consumed it"
  shows "case iter_next it of
      (None, it') \<Rightarrow> iter_pending it = []
    | (Some p, it') \<Rightarrow> iter_pending it = p # iter_pending it' \<and> si_data it' = si_data it"
  using assms
proof (induction it rule: iter_next.induct)
  case (1 it)
  let ?w = "si_word it" and ?k = "si_word_idx it"
  consider (finished) "si_len it \<le> si_consumed it" | (hit) "si_consumed it < si_len it" "?w \<noteq> 0"
    | (last) "si_consumed it < si_len it" "?w = 0" "length (si_data it) \<le> ?k + 1"
    | (skip) "si_consumed it < si_len it" "?w = 0" "?k + 1 < length (si_data it)" by linarith
  then show ?case
  proof cases
    case finished
    with "1.prems"(2) show ?thesis by (simp add: iter_next.simps)
  next
    case hit
    with clear_lowest [OF hit(2) refl] show ?thesis
      by (simp add: iter_next.simps [of it] Let_def iter_pending_def mult.commute)
  next
    case last
    have "si_len it \<le> 64 * (?k + 1)" using "1.prems"(1) mult_le_mono2 [OF last(3), of 64] by (rule le_trans)
    with last show ?thesis by (simp add: iter_next.simps [of it] Let_def iter_pending_def)
  next
    case skip
    let ?rem = "si_len it - (?k + 1) * 64"
    define it2 where "it2 = it\<lparr>si_word_idx := ?k + 1,
      si_word := (if ?rem < 64 then si_data it ! (?k + 1) AND low_mask ?rem else si_data it ! (?k + 1))\<rparr>"
    have step: "iter_next it = iter_next it2"
      using skip by (simp add: iter_next.simps [of it] Let_def it2_def)
    have pend: "iter_pending it2 = iter_pending it"
      using pending_next_word [OF skip(3) "1.prems"(1)] skip(2) by (simp add: iter_pending_def it2_def)
    have "case iter_next it2 of (None, it') \<Rightarrow> iter_pending it2 = []
      | (Some p, it') \<Rightarrow> iter_pending it2 = p # iter_pending it' \<and> si_data it' = si_data it2"
      unfolding it2_def using skip "1.prems" pend [unfolded it2_def] by (intro "1.IH") simp_all
    moreover have "si_data it2 = si_data it" by (simp add: it2_def)
    ultimately show ?thesis using step pend by (auto split: prod.splits option.splits)
  qed
qed

lemma iter_collect_pending:
  assumes "si_len it \<le> 64 * length (si_data it)" and "length (iter_pending it) \<le> si_len it - si_consumed it"
  shows "iter_collect it = iter_pending it"
  using assms
proof (induction it rule: iter_collect.induct)
  case (1 it)
  obtain r it' where n: "iter_next it = (r, it')" by force
  show ?case
  proof (cases r)
    case None
    with n iter_next_pending [OF "1.prems"] show ?thesis by (simp add: iter_collect.simps)
  next
    case (Some p)
    with n iter_next_pending [OF "1.prems"] have p: "iter_pending it = p # iter_pending it'" "si_data it' = si_data it"
      by simp_all
    have c: "si_consumed it < si_len it" "si_consumed it' = si_consumed it + 1" "si_len it' = si_len it"
      using iter_next_progress [of it p it'] n Some by simp_all
    have "iter_collect it' = iter_pending it'"
      using "1.prems" p c n Some by (intro "1.IH" [OF n [symmetric]]) auto
    with n Some p show ?thesis by (simp add: iter_collect.simps [of it])
  qed
qed

lemma iter_set_bits_positions:
  assumes "bm_inv bm"
  shows "iter_collect (bm_iter_set_bits bm) = set_positions (bm_bits bm)"
proof -
  let ?it = "bm_iter_set_bits bm"
  have cover: "bm_len bm \<le> 64 * length (bm_data bm)" using assms by (simp add: bm_inv_def)
  have pend: "iter_pending ?it = filter (data_bit (bm_data bm)) [0..<bm_len bm]"
  proof (cases "bm_data bm = []")
    case True
    with cover show ?thesis
      by (simp add: iter_pending_def bm_iter_set_bits_def Let_def bm_word_at_def nth_opt_def)
  next
    case False
    with pending_next_word [of 0 "bm_data bm" "bm_len bm"] cover show ?thesis
      by (cases "bm_len bm < 64") (simp_all add: iter_pending_def bm_iter_set_bits_def Let_def bm_word_at_def nth_opt_def)
  qed
  have "length (iter_pending ?it) \<le> bm_len bm"
    unfolding pend using length_filter_le [of "data_bit (bm_data bm)" "[0..<bm_len bm]"] by simp
  then have "iter_collect ?it = iter_pending ?it"
    using cover by (intro iter_collect_pending) (simp_all add: bm_iter_set_bits_def Let_def)
  also have "\<dots> = set_positions (bm_bits bm)"
    unfolding pend by (auto simp: set_positions_def intro: filter_cong)
  finally show ?thesis .
qed

subsection \<open>Properties\<close>

text \<open>
  A bitmap built from booleans never panics and holds exactly them: \<open>get\<close> returns each, false
  beyond the end; setting any position, also one beyond the end, changes that position only, and
  the positions skipped over read false.
\<close>

theorem bitmap_from_bools:
  "\<exists>bm. bm_from_bools bs = Some bm \<and> bm_bits bm = bs
     \<and> (\<forall>i. bm_get bm i = Some (i < length bs \<and> bs ! i))
     \<and> (\<forall>i b j. bm_get (bm_set i b bm) j = (if j = i then Some b else bm_get bm j))"
proof -
  obtain bm where bm: "bm_from_bools bs = Some bm" "bm_inv bm" "bm_bits bm = bs"
    using push_all_bits [of "bm_with_capacity (length bs)" bs] by (auto simp: bm_from_bools_def)
  then show ?thesis using bitmap_array.get [OF bm(2)] bitmap_array.get_put [OF bm(2)] by auto
qed

text \<open>
  C14. The word-wise operations are the boolean ones bit by bit: AND on the common length, OR with
  the shorter bitmap padded by false, NOT on the length; the in-place forms and the operators agree.
\<close>

theorem bitmap_boolean_operations:
  assumes "bm_inv a" and "bm_inv b"
  shows "bm_bits (bm_and_inplace a b) = map2 (\<and>) (bm_bits a) (bm_bits b)
    \<and> bm_bits (bm_bitand a b) = map2 (\<and>) (bm_bits a) (bm_bits b)
    \<and> bm_bits (bm_or_inplace a b) =
        map (\<lambda>i. (i < bm_len a \<and> bm_bits a ! i) \<or> (i < bm_len b \<and> bm_bits b ! i)) [0..<max (bm_len a) (bm_len b)]
    \<and> bm_bits (bm_bitor a b) = bm_bits (bm_or_inplace a b)
    \<and> bm_bits (bm_not_inplace a) = map Not (bm_bits a)
    \<and> bm_bits (bm_bitnot a) = map Not (bm_bits a)"
  using assms by (intro conjI and_inplace_bits bitand_bits or_inplace_bits bitor_bits not_inplace_bits bitnot_bits)

theorem bitmap_boolean_operations_witness:
  "bm_bits (bm_bitand (bm_all_set 70) (bm_set 9 True bm_new)) =
     map2 (\<and>) (bm_bits (bm_all_set 70)) (bm_bits (bm_set 9 True bm_new))"
proof -
  have "bm_inv (bm_set 9 True bm_new)" by (rule bm_inv_set) (simp add: bm_inv_def bm_new_def)
  then show ?thesis using bitmap_boolean_operations [OF all_set_bits(2)] by simp
qed

text \<open>
  C15. The bit-scanning loops agree with the plain definition: iterating over the set bits ends and
  yields their positions in order, \<open>set_count\<close> is their number and \<open>null_count\<close> the number of
  the others.
\<close>

theorem bitmap_scans:
  assumes "bm_inv bm"
  shows "iter_collect (bm_iter_set_bits bm) = set_positions (bm_bits bm)
    \<and> bm_set_count bm = Some (length (filter id (bm_bits bm)))
    \<and> bm_null_count bm = Some (length (filter Not (bm_bits bm)))"
proof -
  have "length (filter id (bm_bits bm)) + length (filter Not (bm_bits bm)) = bm_len bm"
    using sum_length_filter_compl [of id "bm_bits bm"] by simp
  with assms show ?thesis by (simp add: iter_set_bits_positions set_count_bits bm_null_count_def)
qed

theorem bitmap_scans_witness:
  "iter_collect (bm_iter_set_bits (bm_set 66 True (bm_all_set 3))) = set_positions (bm_bits (bm_set 66 True (bm_all_set 3)))"
  by (rule bitmap_scans [THEN conjunct1]) (intro bm_inv_set all_set_bits(2))

text \<open>
  NOT in place on a bitmap with spare capacity leaves set bits beyond its length: a false
  pushed afterwards reads back as true.
\<close>

theorem bitmap_not_inplace_stray_bits:
  assumes "0 < n" and "n \<le> 64"
  shows "\<exists>bm. bm_push False (bm_not_inplace (bm_with_capacity n)) = Some bm \<and> bm_get bm 0 = Some True"
proof -
  have "words_for n = 1" using assms by (auto simp: words_for_def intro!: div_nat_eqI)
  then have "bm_not_inplace (bm_with_capacity n) = \<lparr>bm_data = [-1], bm_len = 0\<rparr>"
    by (simp add: bm_not_inplace_def bm_with_capacity_def mask_last_def)
  then show ?thesis by (simp add: bm_push_def bm_get_def nth_opt_def Let_def)
qed

theorem bitmap_not_inplace_stray_bits_witness:
  "\<exists>bm. bm_push False (bm_not_inplace (bm_with_capacity 8)) = Some bm \<and> bm_get bm 0 = Some True"
  by (rule bitmap_not_inplace_stray_bits) simp_all

end
