(* ===== verification/SystemVariables.thy ===== *)
theory SystemVariables
  imports Rust_Std
begin

section \<open>System variables (crates/fe-config/src/variables.rs)\<close>

text \<open>
  Global and session variables with their scopes and validation, and the LIKE matcher behind
  SHOW VARIABLES. A \<open>HashMap\<close> is an association list with distinct keys; an error is its
  message. The lower- and upper-case tables for names outside ASCII and the parser of floating
  point numbers are the fields of \<open>text_lib\<close>.
\<close>

record text_lib =
  uni_lower :: "string \<Rightarrow> string"
  uni_upper_t :: "string \<Rightarrow> string"
  f64_parses :: "string \<Rightarrow> bool"

datatype var_scope = ScopeGlobal | ScopeSession | ScopeBoth

datatype var_kind = VBool | VInt | VFloat | VString | VEnum "string list"

datatype var_def = VarDef (vd_name: string) (vd_default: string) (vd_scope: var_scope) (vd_kind: var_kind)
  (vd_description: string)

definition SYSTEM_VARIABLE_DEFS :: "var_def list" where
  "SYSTEM_VARIABLE_DEFS =
     [VarDef ''version'' ''8.0.33'' ScopeGlobal VString
        ''Server version string'',
      VarDef ''version_comment'' ''HarnessDB'' ScopeGlobal VString
        ''Server version comment'',
      VarDef ''version_compile_os'' ''Linux'' ScopeGlobal VString
        ''Compile OS'',
      VarDef ''version_compile_machine'' ''x86_64'' ScopeGlobal VString
        ''Compile machine type'',
      VarDef ''max_connections'' ''100'' ScopeGlobal VInt
        ''Maximum number of simultaneous connections'',
      VarDef ''query_timeout'' ''300'' ScopeBoth VInt
        ''Query timeout in seconds'',
      VarDef ''max_allowed_packet'' ''4194304'' ScopeBoth VInt
        ''Maximum packet size in bytes'',
      VarDef ''storage_compression'' ''zstd'' ScopeGlobal (VEnum [''zstd'', ''snappy'', ''uncompressed''])
        ''Default storage compression algorithm'',
      VarDef ''enable_audit_log'' ''true'' ScopeGlobal VBool
        ''Enable audit logging'',
      VarDef ''slow_query_threshold'' ''1000'' ScopeBoth VInt
        ''Slow query threshold in milliseconds'',
      VarDef ''default_storage_backend'' ''parquet'' ScopeGlobal VString
        ''Default storage engine'',
      VarDef ''wait_timeout'' ''28800'' ScopeBoth VInt
        ''Connection idle timeout in seconds'',
      VarDef ''interactive_timeout'' ''28800'' ScopeBoth VInt
        ''Interactive connection timeout in seconds'',
      VarDef ''autocommit'' ''1'' ScopeBoth VBool
        ''Auto-commit mode (1=on, 0=off)'',
      VarDef ''character_set_client'' ''utf8mb4'' ScopeSession VString
        ''Client character set'',
      VarDef ''character_set_connection'' ''utf8mb4'' ScopeSession VString
        ''Connection character set'',
      VarDef ''character_set_results'' ''utf8mb4'' ScopeSession VString
        ''Results character set'',
      VarDef ''character_set_server'' ''utf8mb4'' ScopeGlobal VString
        ''Server character set'',
      VarDef ''collation_connection'' ''utf8mb4_general_ci'' ScopeSession VString
        ''Connection collation'',
      VarDef ''collation_server'' ''utf8mb4_general_ci'' ScopeGlobal VString
        ''Server collation'',
      VarDef ''sql_mode'' [] ScopeBoth VString
        ''SQL mode'',
      VarDef ''time_zone'' ''SYSTEM'' ScopeBoth VString
        ''Server time zone'',
      VarDef ''net_buffer_length'' ''16384'' ScopeBoth VInt
        ''Network buffer length'',
      VarDef ''audit_log_slow_only'' ''false'' ScopeGlobal VBool
        ''Log only slow queries to audit log'',
      VarDef ''http_port'' ''8080'' ScopeGlobal VInt
        ''HTTP port for SQL editor web UI'',
      VarDef ''tx_isolation'' ''REPEATABLE-READ'' ScopeBoth (VEnum [''READ-UNCOMMITTED'', ''READ-COMMITTED'', ''REPEATABLE-READ'', ''SERIALIZABLE''])
        ''Transaction isolation level'',
      VarDef ''tx_read_only'' ''0'' ScopeBoth VBool
        ''Transaction read-only mode'',
      VarDef ''profiling'' ''0'' ScopeBoth VBool
        ''Query profiling'',
      VarDef ''lower_case_table_names'' ''0'' ScopeGlobal VInt
        ''Lowercase table names (0=case sensitive, 1=lowercase)'',
      VarDef ''init_connect'' [] ScopeGlobal VString
        ''SQL executed on each client connect'',
      VarDef ''max_concurrent_queries'' ''50'' ScopeGlobal VInt
        ''Maximum number of concurrent query executions'',
      VarDef ''max_dml_rows'' ''10000000'' ScopeGlobal VInt
        ''Maximum rows for UPDATE/DELETE operations (prevents OOM on large tables)'']"

type_synonym var_map = "(string \<times> string) list"

subsection \<open>Global variables\<close>

definition lower :: "text_lib \<Rightarrow> string \<Rightarrow> string" where
  "lower T s = to_lowercase (uni_lower T) s"

definition upper :: "text_lib \<Rightarrow> string \<Rightarrow> string" where
  "upper T s = to_uppercase (uni_upper_t T) s"

definition find_def :: "text_lib \<Rightarrow> string \<Rightarrow> var_def option" where
  "find_def T name_lower = List.find (\<lambda>d. lower T (vd_name d) = name_lower) SYSTEM_VARIABLE_DEFS"

definition gv_new :: "text_lib \<Rightarrow> var_map" where
  "gv_new T = fold (\<lambda>d. AList.update (lower T (vd_name d)) (vd_default d)) SYSTEM_VARIABLE_DEFS []"

definition gv_get :: "text_lib \<Rightarrow> var_map \<Rightarrow> string \<Rightarrow> string option" where
  "gv_get T g name = map_of g (lower T name)"

fun join :: "string \<Rightarrow> string list \<Rightarrow> string" where
  "join sep [] = []"
| "join sep [s] = s"
| "join sep (s # ss) = s @ sep @ join sep ss"

definition validate_value :: "text_lib \<Rightarrow> var_def \<Rightarrow> string \<Rightarrow> string + unit" where
  "validate_value T d val =
     (case vd_kind d of
        VBool \<Rightarrow>
          if lower T val \<in> set [''0'', ''1'', ''true'', ''false'', ''on'', ''off''] then Inr ()
          else Inl (''Variable '' @ quoted (vd_name d) @ '' requires a boolean value (0/1, true/false, on/off)'')
      | VInt \<Rightarrow>
          if parse_i64 val = None then Inl (''Variable '' @ quoted (vd_name d) @ '' requires an integer value'')
          else Inr ()
      | VFloat \<Rightarrow>
          if \<not> f64_parses T val then Inl (''Variable '' @ quoted (vd_name d) @ '' requires a numeric value'')
          else Inr ()
      | VEnum valid_values \<Rightarrow>
          if \<exists>vv \<in> set valid_values. upper T vv = upper T val then Inr ()
          else Inl (''Variable '' @ quoted (vd_name d) @ '' must be one of: '' @ join '', '' valid_values)
      | VString \<Rightarrow> Inr ())"

definition gv_set :: "text_lib \<Rightarrow> var_map \<Rightarrow> string \<Rightarrow> string \<Rightarrow> string + var_map" where
  "gv_set T g name val =
     (case find_def T (lower T name) of
        Some d \<Rightarrow>
          (case validate_value T d val of
             Inl e \<Rightarrow> Inl e
           | Inr _ \<Rightarrow> Inr (AList.update (lower T name) val g))
      | None \<Rightarrow> Inr (AList.update (lower T name) val g))"

definition gv_all_vars :: "var_map \<Rightarrow> (string \<times> string) list" where
  "gv_all_vars g = sort_key fst g"

subsection \<open>Session variables\<close>

definition sv_new :: var_map where
  "sv_new = []"

definition sv_get :: "text_lib \<Rightarrow> var_map \<Rightarrow> var_map \<Rightarrow> string \<Rightarrow> string option" where
  "sv_get T g s name =
     (case map_of s (lower T name) of
        Some v \<Rightarrow> Some v
      | None \<Rightarrow> gv_get T g name)"

definition sv_set :: "text_lib \<Rightarrow> var_map \<Rightarrow> string \<Rightarrow> string \<Rightarrow> string + var_map" where
  "sv_set T s name val =
     (case find_def T (lower T name) of
        Some d \<Rightarrow>
          if vd_scope d = ScopeGlobal then
            Inl (''Variable '' @ quoted (vd_name d) @
              '' is GLOBAL only and cannot be set at session level. Use SET GLOBAL '' @ vd_name d @ '' = '' @ quoted val)
          else Inr (AList.update (lower T name) val s)
      | None \<Rightarrow> Inr (AList.update (lower T name) val s))"

definition sv_all_vars :: "var_map \<Rightarrow> var_map \<Rightarrow> (string \<times> string) list" where
  "sv_all_vars g s = sort_key fst (fold (\<lambda>(k, v). AList.update k v) s (gv_all_vars g))"

subsection \<open>The LIKE matcher\<close>

function skip_percent :: "string \<Rightarrow> nat \<Rightarrow> nat" where
  "skip_percent pat pi = (if pi < length pat \<and> pat ! pi = CHR ''%'' then skip_percent pat (pi + 1) else pi)"
  by pat_completeness auto
termination
  by (relation "measure (\<lambda>(pat, pi). length pat - pi)") auto

declare skip_percent.simps [simp del]

lemma skip_percent_le: "pi \<le> skip_percent pat pi"
proof (induction pat pi rule: skip_percent.induct)
  case (1 pat pi)
  then show ?case by (subst skip_percent.simps) auto
qed

lemma skip_percent_less:
  assumes "pi < length pat" and "pat ! pi = CHR ''%''"
  shows "pi < skip_percent pat pi"
proof -
  have "skip_percent pat pi = skip_percent pat (pi + 1)" using assms by (subst skip_percent.simps) simp
  then show ?thesis using skip_percent_le [of "pi + 1" pat] by simp
qed

function like_match_impl :: "string \<Rightarrow> nat \<Rightarrow> string \<Rightarrow> nat \<Rightarrow> bool" where
  "like_match_impl pat pi txt ti =
     (if pi < length pat then
        if pat ! pi = CHR ''%'' then
          (let pi' = skip_percent pat pi
           in if pi' = length pat then True
              else list_ex (\<lambda>i. like_match_impl pat pi' txt i) [ti..<Suc (length txt)])
        else if pat ! pi = CHR ''_'' then
          (if length txt \<le> ti then False else like_match_impl pat (pi + 1) txt (ti + 1))
        else
          (if length txt \<le> ti \<or> txt ! ti \<noteq> pat ! pi then False
           else like_match_impl pat (pi + 1) txt (ti + 1))
      else ti = length txt)"
  by pat_completeness auto
termination
  by (relation "measure (\<lambda>(pat, pi, txt, ti). length pat - pi)")
     (auto simp: skip_percent_less diff_less_mono2)

declare like_match_impl.simps [simp del]

definition like_match :: "string \<Rightarrow> string \<Rightarrow> bool" where
  "like_match pattern txt = like_match_impl pattern 0 txt 0"

subsection \<open>The manager\<close>

definition mgr_new :: "text_lib \<Rightarrow> var_map" where
  "mgr_new T = gv_new T"

definition create_session :: var_map where
  "create_session = sv_new"

definition mgr_get :: "text_lib \<Rightarrow> var_map \<Rightarrow> string \<Rightarrow> var_map option \<Rightarrow> string option" where
  "mgr_get T g name session = (case session of Some sess \<Rightarrow> sv_get T g sess name | None \<Rightarrow> gv_get T g name)"

definition set_global :: "text_lib \<Rightarrow> var_map \<Rightarrow> string \<Rightarrow> string \<Rightarrow> string + var_map" where
  "set_global T g name val =
     (case find_def T (lower T name) of
        Some d \<Rightarrow>
          if vd_scope d = ScopeSession then
            Inl (''Variable '' @ quoted (vd_name d) @ '' is SESSION only and cannot be set globally'')
          else gv_set T g name val
      | None \<Rightarrow> gv_set T g name val)"

definition set_session :: "text_lib \<Rightarrow> string \<Rightarrow> string \<Rightarrow> var_map \<Rightarrow> string + var_map" where
  "set_session T name val session = sv_set T session name val"

definition match_like :: "text_lib \<Rightarrow> var_map \<Rightarrow> string option \<Rightarrow> var_map option \<Rightarrow> (string \<times> string) list" where
  "match_like T g pattern session =
     (let all_vars = (case session of Some sess \<Rightarrow> sv_all_vars g sess | None \<Rightarrow> gv_all_vars g)
      in case pattern of
           None \<Rightarrow> all_vars
         | Some pat \<Rightarrow> filter (\<lambda>(name, _). like_match (lower T pat) (lower T name)) all_vars)"

end
