(* ===== verification/SystemVariables_Correct.thy ===== *)
theory SystemVariables_Correct
  imports SystemVariables
begin

section \<open>Properties of the system variables\<close>

text \<open>
  The LIKE matcher against an inductive specification, the scope rules of global and session
  variables, and what every defined global variable holds after any statements.
\<close>

subsection \<open>The LIKE matcher\<close>

text \<open>What a LIKE pattern matches: a percent sign any text, an underscore any one byte, every
  other byte itself.\<close>

inductive like_matches :: "string \<Rightarrow> string \<Rightarrow> bool" where
  like_end: "like_matches [] []"
| like_any: "like_matches p t \<Longrightarrow> like_matches (CHR ''%'' # p) (s @ t)"
| like_one: "like_matches p t \<Longrightarrow> like_matches (CHR ''_'' # p) (c # t)"
| like_lit: "like_matches p t \<Longrightarrow> c \<noteq> CHR ''%'' \<Longrightarrow> c \<noteq> CHR ''_'' \<Longrightarrow> like_matches (c # p) (c # t)"

inductive_simps like_matches_Nil: "like_matches [] t"
inductive_simps like_matches_Cons: "like_matches (c # p) t"

lemma like_matches_percent:
  "like_matches (CHR ''%'' # p) t \<longleftrightarrow> (\<exists>i \<le> length t. like_matches p (drop i t))"
  (is "?l \<longleftrightarrow> ?r")
proof
  assume ?l
  then obtain s u where "t = s @ u" "like_matches p u" by (auto simp: like_matches_Cons)
  then show ?r by (auto intro!: exI [of _ "length s"])
next
  assume ?r
  then obtain i where "like_matches p (drop i t)" by blast
  then have "like_matches (CHR ''%'' # p) (take i t @ drop i t)" by (rule like_any)
  then show ?l by simp
qed

lemma like_matches_percent_twice:
  "like_matches (CHR ''%'' # CHR ''%'' # p) t \<longleftrightarrow> like_matches (CHR ''%'' # p) t"
proof
  assume "like_matches (CHR ''%'' # CHR ''%'' # p) t"
  then obtain s u where t: "t = s @ u" and "like_matches (CHR ''%'' # p) u"
    by (auto simp: like_matches_Cons)
  then obtain s' u' where "u = s' @ u'" "like_matches p u'" by (auto simp: like_matches_Cons)
  with t like_any [of p u' "s @ s'"] show "like_matches (CHR ''%'' # p) t" by simp
next
  assume "like_matches (CHR ''%'' # p) t"
  then show "like_matches (CHR ''%'' # CHR ''%'' # p) t" using like_any [of _ t "[]"] by simp
qed

lemma skip_percent_matches:
  assumes "pi < length pat" and "pat ! pi = CHR ''%''"
  shows "skip_percent pat pi \<le> length pat \<and>
         (like_matches (drop pi pat) t \<longleftrightarrow> like_matches (CHR ''%'' # drop (skip_percent pat pi) pat) t)"
  using assms
proof (induction pat pi rule: skip_percent.induct)
  case (1 pat pi)
  have here: "drop pi pat = CHR ''%'' # drop (pi + 1) pat" using 1(2,3) by (simp add: Cons_nth_drop_Suc [symmetric])
  have sk: "skip_percent pat pi = skip_percent pat (pi + 1)" using 1(2,3) by (subst skip_percent.simps) simp
  show ?case
  proof (cases "pi + 1 < length pat \<and> pat ! (pi + 1) = CHR ''%''")
    case True
    then have next_one: "drop (Suc pi) pat = CHR ''%'' # drop (Suc (Suc pi)) pat"
      by (simp add: Cons_nth_drop_Suc [symmetric])
    from 1(1) 1(2,3) True show ?thesis
      by (simp add: sk here) (simp add: next_one like_matches_percent_twice)
  next
    case False
    then have "skip_percent pat (pi + 1) = pi + 1" by (subst skip_percent.simps) auto
    with sk here 1(2) show ?thesis by simp
  qed
qed

lemma ex_offset:
  assumes "ti \<le> length tx"
  shows "(\<exists>i. ti \<le> i \<and> i \<le> length tx \<and> P (drop i tx)) \<longleftrightarrow>
         (\<exists>j \<le> length (drop ti tx). P (drop j (drop ti tx)))" (is "?l \<longleftrightarrow> ?r")
proof
  assume ?l
  then obtain i where "ti \<le> i" "i \<le> length tx" "P (drop i tx)" by blast
  then show ?r by (intro exI [of _ "i - ti"]) simp
next
  assume ?r
  then obtain j where "j \<le> length (drop ti tx)" "P (drop j (drop ti tx))" by blast
  then show ?l using assms by (intro exI [of _ "ti + j"]) (simp add: add.commute)
qed

lemma like_match_impl_spec:
  "ti \<le> length tx \<Longrightarrow> like_match_impl pat pi tx ti \<longleftrightarrow> like_matches (drop pi pat) (drop ti tx)"
proof (induction pat pi tx ti rule: like_match_impl.induct)
  case (1 pat pi tx ti)
  show ?case
  proof (cases "pi < length pat")
    case False
    then show ?thesis using 1(4) by (subst like_match_impl.simps) (auto simp: like_matches_Nil)
  next
    case pi: True
    then have dp: "drop pi pat = pat ! pi # drop (pi + 1) pat" by (simp add: Cons_nth_drop_Suc)
    show ?thesis
    proof (cases "pat ! pi = CHR ''%''")
      case True
      define pi' where "pi' = skip_percent pat pi"
      have sk: "like_matches (drop pi pat) (drop ti tx)
          \<longleftrightarrow> like_matches (CHR ''%'' # drop pi' pat) (drop ti tx)" and le: "pi' \<le> length pat"
        using skip_percent_matches [OF pi True] by (simp_all add: pi'_def)
      show ?thesis
      proof (cases "pi' = length pat")
        case end_pat: True
        then have "like_match_impl pat pi tx ti"
          using pi True by (subst like_match_impl.simps) (simp add: pi'_def)
        moreover have "like_matches (CHR ''%'' # []) (drop ti tx @ [])"
          by (rule like_any) (rule like_end)
        ultimately show ?thesis using sk end_pat by simp
      next
        case more: False
        have IH: "like_match_impl pat pi' tx i \<longleftrightarrow> like_matches (drop pi' pat) (drop i tx)"
          if "ti \<le> i" "i \<le> length tx" for i
          using 1(1) [OF pi True pi'_def more, of i] that by (simp del: upt_Suc)
        have "like_match_impl pat pi tx ti \<longleftrightarrow> (\<exists>i. ti \<le> i \<and> i \<le> length tx \<and> like_match_impl pat pi' tx i)"
          using pi True more by (subst like_match_impl.simps) (auto simp: pi'_def Let_def list_ex_iff less_Suc_eq_le)
        also have "\<dots> \<longleftrightarrow> (\<exists>i. ti \<le> i \<and> i \<le> length tx \<and> like_matches (drop pi' pat) (drop i tx))"
          using IH by blast
        also have "\<dots> \<longleftrightarrow> (\<exists>j \<le> length (drop ti tx). like_matches (drop pi' pat) (drop j (drop ti tx)))"
          by (rule ex_offset) (rule 1(4))
        finally show ?thesis using sk by (simp add: like_matches_percent)
      qed
    next
      case np: False
      show ?thesis
      proof (cases "ti < length tx")
        case True
        then have dt: "drop ti tx = tx ! ti # drop (ti + 1) tx" by (simp add: Cons_nth_drop_Suc)
        show ?thesis
        proof (cases "pat ! pi = CHR ''_''")
          case us: True
          with pi np True have "like_match_impl pat pi tx ti = like_match_impl pat (pi + 1) tx (ti + 1)"
            by (subst like_match_impl.simps) simp
          with 1(2) [OF pi np us] True us show ?thesis by (simp add: dp dt like_matches_Cons)
        next
          case us: False
          with pi np True have "like_match_impl pat pi tx ti
              \<longleftrightarrow> tx ! ti = pat ! pi \<and> like_match_impl pat (pi + 1) tx (ti + 1)"
            by (subst like_match_impl.simps) simp
          with 1(3) [OF pi np us] True us np show ?thesis by (auto simp: dp dt like_matches_Cons)
        qed
      next
        case False
        with pi np have "\<not> like_match_impl pat pi tx ti" by (subst like_match_impl.simps) simp
        with False np show ?thesis by (auto simp: dp like_matches_Cons)
      qed
    qed
  qed
qed

text \<open>
  C16. The backtracking LIKE matcher of SHOW VARIABLES decides exactly the language of the
  pattern: a percent sign stands for any text, an underscore for one byte, every other byte for
  itself. It always returns: the matcher is a total function.
\<close>

theorem like_match_spec: "like_match pattern tx \<longleftrightarrow> like_matches pattern tx"
  by (simp add: like_match_def like_match_impl_spec)


subsection \<open>The table of definitions\<close>

lemma defs_lower_ascii:
  "list_all (\<lambda>d. is_ascii (vd_name d) \<and> map ascii_lower (vd_name d) = vd_name d) SYSTEM_VARIABLE_DEFS"
  by code_simp

lemma defs_distinct: "distinct (map vd_name SYSTEM_VARIABLE_DEFS)"
  by code_simp

lemma lower_def_name: "d \<in> set SYSTEM_VARIABLE_DEFS \<Longrightarrow> lower T (vd_name d) = vd_name d"
  using defs_lower_ascii by (auto simp: lower_def to_lowercase_def list_all_iff)

lemma find_def_Some_iff:
  "find_def T n = Some d \<longleftrightarrow> d \<in> set SYSTEM_VARIABLE_DEFS \<and> vd_name d = n"
proof
  assume "find_def T n = Some d"
  then show "d \<in> set SYSTEM_VARIABLE_DEFS \<and> vd_name d = n"
    by (auto simp: find_def_def find_Some_iff lower_def_name)
next
  assume d: "d \<in> set SYSTEM_VARIABLE_DEFS \<and> vd_name d = n"
  then obtain e where e: "find_def T n = Some e"
    by (cases "find_def T n") (auto simp: find_def_def find_None_iff lower_def_name)
  then have "e \<in> set SYSTEM_VARIABLE_DEFS" "vd_name e = n"
    by (auto simp: find_def_def find_Some_iff lower_def_name)
  with d defs_distinct have "e = d" by (auto simp: distinct_map inj_on_def)
  with e show "find_def T n = Some d" by simp
qed

lemma find_def_None_iff:
  "find_def T n = None \<longleftrightarrow> (\<forall>d \<in> set SYSTEM_VARIABLE_DEFS. vd_name d \<noteq> n)"
  by (auto simp: find_def_def find_None_iff lower_def_name)

subsection \<open>Every defined variable keeps a valid value\<close>

text \<open>
  The values of a kind, said without the code. An integer is an optional sign and decimal digits
  whose number fits 64 bits; a boolean is one of six words and an enumeration value a word of its
  list, both up to case; a number is what the standard parser reads.
\<close>

definition digits_value :: "string \<Rightarrow> int" where
  "digits_value ds = (\<Sum>i < length ds. (int (byte_val (ds ! i)) - 48) * 10 ^ (length ds - 1 - i))"

definition i64_literal :: "string \<Rightarrow> bool" where
  "i64_literal v \<longleftrightarrow>
     (\<exists>sign ds. v = sign @ ds \<and> sign \<in> {[], ''+'', ''-''} \<and> ds \<noteq> [] \<and> set ds \<subseteq> digits \<and>
       (if sign = ''-'' then digits_value ds \<le> 2 ^ 63 else digits_value ds < 2 ^ 63))"

fun has_kind :: "text_lib \<Rightarrow> var_kind \<Rightarrow> string \<Rightarrow> bool" where
  "has_kind T VBool v \<longleftrightarrow> lower T v \<in> {''0'', ''1'', ''true'', ''false'', ''on'', ''off''}"
| "has_kind T VInt v \<longleftrightarrow> i64_literal v"
| "has_kind T VFloat v \<longleftrightarrow> f64_parses T v"
| "has_kind T (VEnum vs) v \<longleftrightarrow> upper T v \<in> upper T ` set vs"
| "has_kind T VString v \<longleftrightarrow> True"

lemma digits_value_simps [simp]:
  "digits_value [] = 0"
  "digits_value (c # cs) = (int (byte_val c) - 48) * 10 ^ length cs + digits_value cs"
  by (simp_all add: digits_value_def lessThan_Suc_eq_insert_0 sum.reindex)

lemma parse_digits_value:
  "parse_digits acc ds = (if set ds \<subseteq> digits then Some (nat (int acc * 10 ^ length ds + digits_value ds)) else None)"
proof (induction ds arbitrary: acc)
  case (Cons c ds)
  show ?case
  proof (cases "c \<in> digits")
    case True
    then have "digit_val c = Some (byte_val c - 48)" "48 \<le> byte_val c" by (auto simp: digits_def digit_val_def)
    with True Cons show ?thesis by (simp add: algebra_simps of_nat_diff)
  qed (auto simp: digits_def digit_val_def)
qed simp

lemma digits_value_nonneg: "set ds \<subseteq> digits \<Longrightarrow> 0 \<le> digits_value ds"
  by (induction ds) (auto simp: digits_def)

lemma parse_i64_literal: "parse_i64 v \<noteq> None \<longleftrightarrow> i64_literal v"
proof -
  have nat: "parse_nat ds = (if ds \<noteq> [] \<and> set ds \<subseteq> digits then Some (nat (digits_value ds)) else None)" for ds
    by (simp add: parse_nat_def parse_digits_value)
  have signs: "CHR ''-'' \<notin> digits" "CHR ''+'' \<notin> digits" by (simp_all add: digits_def)
  show ?thesis
  proof (cases v)
    case Nil
    then show ?thesis by (simp add: parse_i64_def i64_literal_def)
  next
    case (Cons c cs)
    have "i64_literal v \<longleftrightarrow>
        (c = CHR ''-'' \<and> cs \<noteq> [] \<and> set cs \<subseteq> digits \<and> digits_value cs \<le> 2 ^ 63) \<or>
        (c = CHR ''+'' \<and> cs \<noteq> [] \<and> set cs \<subseteq> digits \<and> digits_value cs < 2 ^ 63) \<or>
        (set v \<subseteq> digits \<and> digits_value v < 2 ^ 63)"
    proof -
      have split: "(\<exists>sign ds. c # cs = sign @ ds \<and> sign \<in> {[], [a], [b]} \<and> P sign ds) \<longleftrightarrow>
          (c = b \<and> P [b] cs) \<or> (c = a \<and> P [a] cs) \<or> P [] (c # cs)" for a b P
      proof -
        have "c # cs = [x] @ cs" if "c = x" for x using that by simp
        then show ?thesis by (auto; blast)
      qed
      show ?thesis unfolding i64_literal_def Cons split by simp
    qed
    moreover have "check_i64 (int (nat n)) \<noteq> None \<longleftrightarrow> n < 2 ^ 63" "check_i64 (- int (nat n)) \<noteq> None \<longleftrightarrow> n \<le> 2 ^ 63"
      if "0 \<le> n" for n
      using that by (simp_all add: check_i64_def in_i64_def i64_min_def i64_max_def)
    ultimately show ?thesis
      using signs digits_value_nonneg [of cs] digits_value_nonneg [of v]
      by (cases "c = CHR ''-''"; cases "c = CHR ''+''")
        (simp_all add: Cons parse_i64_def nat del: digits_value_simps(2), blast?)
  qed
qed

lemma validate_value_kind: "validate_value T d v = Inr () \<longleftrightarrow> has_kind T (vd_kind d) v"
proof (cases "vd_kind d")
  case (VEnum vs)
  have "(\<exists>vv \<in> set vs. upper T vv = upper T v) \<longleftrightarrow> upper T v \<in> upper T ` set vs" by (auto intro: rev_image_eqI)
  with VEnum show ?thesis by (simp add: validate_value_def)
qed (use parse_i64_literal [of v] in \<open>auto simp: validate_value_def\<close>)

lemma set_global_get:
  assumes "d \<in> set SYSTEM_VARIABLE_DEFS"
  shows "gv_get T (case set_global T g name val of Inl _ \<Rightarrow> g | Inr g' \<Rightarrow> g') (vd_name d) =
    (if lower T name = vd_name d \<and> vd_scope d \<noteq> ScopeSession \<and> has_kind T (vd_kind d) val then Some val
     else gv_get T g (vd_name d))"
proof (cases "lower T name = vd_name d")
  case True
  with assms have "find_def T (lower T name) = Some d" by (simp add: find_def_Some_iff)
  with True validate_value_kind [of T d val] show ?thesis
    by (cases "validate_value T d val") (auto simp: set_global_def gv_set_def gv_get_def lower_def_name [OF assms])
next
  case False
  have "set_global T g name val = Inr g' \<Longrightarrow> g' = AList.update (lower T name) val g" for g'
    by (auto simp: set_global_def gv_set_def split: option.splits if_splits sum.splits)
  with False show ?thesis
    by (cases "set_global T g name val") (auto simp: gv_get_def lower_def_name [OF assms])
qed

text \<open>A sequence of SET GLOBAL statements; a rejected one changes nothing.\<close>

definition run_set_global :: "text_lib \<Rightarrow> (string \<times> string) list \<Rightarrow> var_map \<Rightarrow> var_map" where
  "run_set_global T = apply_all (\<lambda>g (name, val). set_global T g name val)"

text \<open>The values among them that are for a variable, allowed by its scope and of its kind.\<close>

definition accepted :: "text_lib \<Rightarrow> var_def \<Rightarrow> (string \<times> string) list \<Rightarrow> string list" where
  "accepted T d cmds =
     map snd (filter (\<lambda>(name, val). lower T name = vd_name d \<and> vd_scope d \<noteq> ScopeSession \<and> has_kind T (vd_kind d) val) cmds)"

lemma run_set_global_get:
  assumes "d \<in> set SYSTEM_VARIABLE_DEFS" and "gv_get T g (vd_name d) = Some v"
  shows "gv_get T (run_set_global T cmds g) (vd_name d) = Some (last (v # accepted T d cmds))"
  using assms(2)
proof (induction cmds arbitrary: g v)
  case (Cons c cmds)
  then show ?case
    using set_global_get [OF assms(1), of T g "fst c" "snd c"]
    by (cases c) (auto simp: run_set_global_def accepted_def)
qed (simp add: run_set_global_def accepted_def)

lemma fold_update_distinct:
  "distinct (map f ds) \<Longrightarrow> d \<in> set ds \<Longrightarrow> map_of (fold (\<lambda>d. AList.update (f d) (h d)) ds al) (f d) = Some (h d)"
proof (induction ds arbitrary: al)
  case (Cons e ds)
  have other: "map_of (fold (\<lambda>d. AList.update (f d) (h d)) ds al) k = map_of al k" if "k \<notin> f ` set ds" for k al
    using that by (induction ds arbitrary: al) auto
  show ?case using Cons other [of "f e" "AList.update (f e) (h e) al"] by auto
qed simp

lemma gv_new_get:
  assumes "d \<in> set SYSTEM_VARIABLE_DEFS"
  shows "gv_get T (gv_new T) (vd_name d) = Some (vd_default d)"
proof -
  have "map (\<lambda>d. lower T (vd_name d)) SYSTEM_VARIABLE_DEFS = map vd_name SYSTEM_VARIABLE_DEFS"
    by (rule map_cong) (simp_all add: lower_def_name)
  with defs_distinct have "distinct (map (\<lambda>d. lower T (vd_name d)) SYSTEM_VARIABLE_DEFS)" by metis
  from fold_update_distinct [OF this assms, of vd_default "[]"] show ?thesis
    by (simp add: gv_get_def gv_new_def)
qed

text \<open>A check of the defaults that does not look at the tables of the text library.\<close>

definition plainly_valid :: "var_def \<Rightarrow> bool" where
  "plainly_valid d \<longleftrightarrow>
     (case vd_kind d of
        VBool \<Rightarrow> is_ascii (vd_default d) \<and> map ascii_lower (vd_default d) \<in> {''0'', ''1'', ''true'', ''false'', ''on'', ''off''}
      | VInt \<Rightarrow> parse_i64 (vd_default d) \<noteq> None
      | VFloat \<Rightarrow> False
      | VEnum vs \<Rightarrow> vd_default d \<in> set vs
      | VString \<Rightarrow> True)"

lemma plainly_valid_defaults: "list_all plainly_valid SYSTEM_VARIABLE_DEFS"
  by code_simp

lemma default_has_kind:
  assumes "d \<in> set SYSTEM_VARIABLE_DEFS"
  shows "has_kind T (vd_kind d) (vd_default d)"
proof -
  have "plainly_valid d" using assms plainly_valid_defaults by (simp add: list_all_iff)
  then show ?thesis
    by (cases "vd_kind d") (auto simp: plainly_valid_def lower_def to_lowercase_def simp flip: parse_i64_literal)
qed

text \<open>
  C17. Whatever sequence of SET GLOBAL statements runs after start-up, every system variable of the
  table holds the last value given to it (under any spelling of its name) that is of its kind,
  unless it is a session variable, and its default if there is none; and this value is of its kind.
\<close>

theorem global_variables_spec:
  assumes "d \<in> set SYSTEM_VARIABLE_DEFS"
  shows "\<exists>v. gv_get T (run_set_global T cmds (mgr_new T)) (vd_name d) = Some v
    \<and> v = last (vd_default d # accepted T d cmds) \<and> has_kind T (vd_kind d) v"
proof -
  have "has_kind T (vd_kind d) (last (vd_default d # accepted T d cmds))"
    using last_in_set [of "vd_default d # accepted T d cmds"] default_has_kind [OF assms]
    by (auto simp: accepted_def)
  with run_set_global_get [OF assms] gv_new_get [OF assms] show ?thesis by (simp add: mgr_new_def)
qed

text \<open>A text library without letters beyond ASCII, for the witnesses.\<close>

definition plain_text :: text_lib where
  "plain_text = \<lparr>uni_lower = (\<lambda>s. s), uni_upper_t = (\<lambda>s. s), f64_parses = (\<lambda>_. False)\<rparr>"

theorem global_variables_spec_witness:
  "\<exists>v. gv_get plain_text (run_set_global plain_text
      [(''AutoCommit'', ''OFF''), (''autocommit'', ''maybe'')] (mgr_new plain_text)) ''autocommit'' = Some v \<and> v = ''OFF''"
proof -
  define d where "d = SYSTEM_VARIABLE_DEFS ! 13"
  have d: "d \<in> set SYSTEM_VARIABLE_DEFS" "vd_name d = ''autocommit''" "vd_kind d = VBool" "vd_scope d = ScopeBoth"
    unfolding d_def by code_simp+
  have "lower plain_text ''AutoCommit'' = ''autocommit''" "lower plain_text ''OFF'' = ''off''"
    "lower plain_text ''autocommit'' = ''autocommit''" "lower plain_text ''maybe'' = ''maybe''" by code_simp+
  then have "accepted plain_text d [(''AutoCommit'', ''OFF''), (''autocommit'', ''maybe'')] = [''OFF'']"
    by (simp add: accepted_def d)
  with global_variables_spec [OF d(1), of plain_text "[(''AutoCommit'', ''OFF''), (''autocommit'', ''maybe'')]"] d(2)
  show ?thesis by simp
qed

subsection \<open>Scopes\<close>

definition run_set_session :: "text_lib \<Rightarrow> (string \<times> string) list \<Rightarrow> var_map \<Rightarrow> var_map" where
  "run_set_session T = apply_all (\<lambda>s (name, val). set_session T name val s)"

lemma sv_set_no_global:
  assumes "d \<in> set SYSTEM_VARIABLE_DEFS" and "vd_scope d = ScopeGlobal"
    and "map_of s (vd_name d) = None" and "set_session T name val s = Inr s'"
  shows "map_of s' (vd_name d) = None"
proof -
  have "lower T name \<noteq> vd_name d"
  proof
    assume "lower T name = vd_name d"
    with assms(1) have "find_def T (lower T name) = Some d" by (simp add: find_def_Some_iff)
    with assms(2,4) show False by (simp add: set_session_def sv_set_def)
  qed
  with assms(3,4) show ?thesis
    by (auto simp: set_session_def sv_set_def split: option.splits if_splits)
qed

lemma run_set_session_no_global:
  assumes "d \<in> set SYSTEM_VARIABLE_DEFS" and "vd_scope d = ScopeGlobal"
  shows "map_of s (vd_name d) = None \<Longrightarrow> map_of (run_set_session T cmds s) (vd_name d) = None"
  unfolding run_set_session_def by (rule apply_all_inv) (auto intro: sv_set_no_global [OF assms])

text \<open>
  A variable of global scope reads the same in every session as it does globally: no sequence
  of SET SESSION statements in a new session can shadow it, whatever its spelling.
\<close>

theorem global_scope_never_shadowed:
  assumes "d \<in> set SYSTEM_VARIABLE_DEFS" and "vd_scope d = ScopeGlobal" and "lower T name = vd_name d"
  shows "mgr_get T g name (Some (run_set_session T cmds create_session)) = mgr_get T g name None"
  using run_set_session_no_global [OF assms(1,2), of create_session T cmds] assms(3)
  by (simp add: mgr_get_def sv_get_def create_session_def sv_new_def)

text \<open>The witness: SET SESSION max_connections = 5 leaves the variable as it is.\<close>

theorem global_scope_never_shadowed_witness:
  "mgr_get plain_text (mgr_new plain_text) ''MAX_CONNECTIONS''
      (Some (run_set_session plain_text [(''max_connections'', ''5'')] create_session))
    = mgr_get plain_text (mgr_new plain_text) ''MAX_CONNECTIONS'' None"
  by (rule global_scope_never_shadowed [where d = "SYSTEM_VARIABLE_DEFS ! 4"]) code_simp+

text \<open>
  A successful SET SESSION is seen by that session under every spelling of the name that
  lower-cases alike, and by no other reader: the globals are not touched and every other name of
  the session reads as before.
\<close>

theorem session_set_get:
  assumes "set_session T name val s = Inr s'"
  shows "mgr_get T g other (Some s') =
           (if lower T other = lower T name then Some val else mgr_get T g other (Some s))"
  using assms by (auto simp: set_session_def sv_set_def mgr_get_def sv_get_def split: option.splits if_splits)

theorem session_set_get_witness:
  "mgr_get plain_text (mgr_new plain_text) ''Sql_Mode''
      (Some (projr (set_session plain_text ''SQL_MODE'' ''ANSI'' create_session))) = Some ''ANSI''"
proof -
  have "set_session plain_text ''SQL_MODE'' ''ANSI'' create_session = Inr (projr (set_session plain_text ''SQL_MODE'' ''ANSI'' create_session))"
    by code_simp
  moreover have "lower plain_text ''Sql_Mode'' = lower plain_text ''SQL_MODE''" by code_simp
  ultimately show ?thesis using session_set_get by simp
qed

text \<open>
  SET SESSION does not validate: unlike SET GLOBAL, which rejects the value, a session accepts
  any text for a boolean variable and then reports it.
\<close>

theorem session_set_unvalidated:
  "(\<exists>e. set_global T g ''autocommit'' ''maybe'' = Inl e) \<and>
   (\<exists>s'. set_session T ''autocommit'' ''maybe'' s = Inr s' \<and> mgr_get T g ''autocommit'' (Some s') = Some ''maybe'')"
proof -
  define d where "d = SYSTEM_VARIABLE_DEFS ! 13"
  have d: "d \<in> set SYSTEM_VARIABLE_DEFS" "vd_name d = ''autocommit''" "vd_kind d = VBool" "vd_scope d = ScopeBoth"
    unfolding d_def by code_simp+
  have low: "lower T ''autocommit'' = ''autocommit''" using lower_def_name [OF d(1)] d(2) by simp
  have fd: "find_def T ''autocommit'' = Some d" using d(1,2) by (simp add: find_def_Some_iff)
  have maybe: "lower T ''maybe'' = ''maybe''"
    by (simp add: lower_def to_lowercase_def is_ascii_def ascii_lower_def)
  show ?thesis
    by (simp add: set_global_def gv_set_def set_session_def sv_set_def mgr_get_def sv_get_def low fd d
        validate_value_def maybe)
qed

end
