(* ===== verification/Smap.thy ===== *)
theory Smap
  imports Prelude
begin

section \<open>Maps with string keys\<close>

text \<open>
  The catalog keeps its data in \<open>HashMap\<close> and \<open>DashMap\<close> values, and persists them as JSON and
  in an ordered key-value store. Here such a map is an association list in strictly increasing key
  order: equal maps are equal lists, and the entries of an ordered store come in the order of a
  range scan. For a hash map the order in which an iteration visits the entries is not specified
  by the standard library; the model visits them in key order, and no property depends on it.
\<close>

type_synonym 'v smap = "(string \<times> 'v) list"

fun sm_put :: "string \<Rightarrow> 'v \<Rightarrow> 'v smap \<Rightarrow> 'v smap" where
  "sm_put k v [] = [(k, v)]"
| "sm_put k v ((k', v') # m) =
     (if k < k' then (k, v) # (k', v') # m
      else if k = k' then (k, v) # m
      else (k', v') # sm_put k v m)"

definition sm_del :: "string \<Rightarrow> 'v smap \<Rightarrow> 'v smap" where
  "sm_del k m = filter (\<lambda>p. fst p \<noteq> k) m"

abbreviation sm_get :: "'v smap \<Rightarrow> string \<Rightarrow> 'v option" where
  "sm_get m k \<equiv> map_of m k"

definition wf_smap :: "'v smap \<Rightarrow> bool" where
  "wf_smap m \<longleftrightarrow> sorted_wrt (<) (map fst m)"

text \<open>The entries whose key is \<open>p\<close> followed by something, and inserting a list of entries.\<close>

definition sm_scan :: "string \<Rightarrow> 'v smap \<Rightarrow> 'v smap" where
  "sm_scan p m = filter (\<lambda>e. prefix p (fst e)) m"

fun sm_puts :: "(string \<times> 'v) list \<Rightarrow> 'v smap \<Rightarrow> 'v smap" where
  "sm_puts [] m = m"
| "sm_puts ((k, v) # es) m = sm_puts es (sm_put k v m)"

subsection \<open>Lookup\<close>

lemma sm_get_put [simp]:
  "sm_get (sm_put k v m) = (sm_get m)(k \<mapsto> v)"
  by (induction k v m rule: sm_put.induct) (auto simp: fun_eq_iff)

lemma sm_get_del [simp]: "sm_get (sm_del k m) = (sm_get m)(k := None)"
  by (induction m) (auto simp: sm_del_def fun_eq_iff)

lemma map_of_filter_key:
  "map_of (filter (\<lambda>e. P (fst e)) m) k = (if P k then map_of m k else None)"
  by (induction m) auto

lemma sm_get_scan [simp]: "sm_get (sm_scan p m) k = (if prefix p k then sm_get m k else None)"
  unfolding sm_scan_def by (rule map_of_filter_key)

lemma dom_put [simp]: "fst ` set (sm_put k v m) = insert k (fst ` set m)"
  by (induction k v m rule: sm_put.induct) auto

lemma set_del [simp]: "set (sm_del k m) = {e \<in> set m. fst e \<noteq> k}"
  by (auto simp: sm_del_def)

subsection \<open>The representation invariant\<close>

lemma wf_smap_Nil [simp, intro]: "wf_smap []"
  by (simp add: wf_smap_def)

lemma wf_smap_Cons: "wf_smap ((k, v) # m) \<longleftrightarrow> (\<forall>k' \<in> fst ` set m. k < k') \<and> wf_smap m"
  by (auto simp: wf_smap_def)

lemma wf_smap_filter [simp, intro, wf_intros]: "wf_smap m \<Longrightarrow> wf_smap (filter P m)"
  by (induction m) (auto simp: wf_smap_Cons)

lemma wf_sm_del [simp, intro, wf_intros]: "wf_smap m \<Longrightarrow> wf_smap (sm_del k m)"
  by (simp add: sm_del_def wf_smap_filter)

lemma wf_sm_scan [simp, intro, wf_intros]: "wf_smap m \<Longrightarrow> wf_smap (sm_scan p m)"
  by (simp add: sm_scan_def wf_smap_filter)

lemma wf_sm_put [simp, intro, wf_intros]: "wf_smap m \<Longrightarrow> wf_smap (sm_put k v m)"
proof (induction k v m rule: sm_put.induct)
  case (2 k v k' v' m)
  then show ?case by (auto simp: wf_smap_Cons not_less intro: less_trans)
qed (simp add: wf_smap_def)

lemma wf_sm_puts [simp, intro, wf_intros]: "wf_smap m \<Longrightarrow> wf_smap (sm_puts es m)"
  by (induction es m rule: sm_puts.induct) auto

lemma wf_smap_distinct: "wf_smap m \<Longrightarrow> distinct (map fst m)"
  by (simp add: wf_smap_def strict_sorted_iff)

lemma sm_get_iff: "wf_smap m \<Longrightarrow> sm_get m k = Some v \<longleftrightarrow> (k, v) \<in> set m"
  by (simp add: wf_smap_distinct)

lemma sm_get_None_iff: "sm_get m k = None \<longleftrightarrow> k \<notin> fst ` set m"
  by (rule map_of_eq_None_iff)

text \<open>Two maps with the same entries are the same list.\<close>

lemma smap_ext:
  assumes "wf_smap m" and "wf_smap m'" and "\<And>k. sm_get m k = sm_get m' k"
  shows "m = m'"
proof -
  have "set m = set m'" using assms sm_get_iff by (metis subrelI subset_antisym surj_pair subsetI)
  then have "set (map fst m) = set (map fst m')" by simp
  with assms(1,2) have keys: "map fst m = map fst m'"
    unfolding wf_smap_def by (intro strict_sorted_equal) auto
  have "m = map (\<lambda>k. (k, the (sm_get m k))) (map fst m)"
    using assms(1) by (simp add: wf_smap_distinct cong: map_cong) (metis (no_types, lifting) map_idI prod.collapse sm_get_iff option.sel assms(1) surjective_pairing)
  also have "\<dots> = map (\<lambda>k. (k, the (sm_get m' k))) (map fst m')" using keys assms(3) by simp
  also have "\<dots> = m'"
    using assms(2) by (simp add: wf_smap_distinct cong: map_cong) (metis (no_types, lifting) map_idI prod.collapse sm_get_iff option.sel assms(2) surjective_pairing)
  finally show ?thesis .
qed

lemma sm_put_same: "wf_smap m \<Longrightarrow> sm_get m k = Some v \<Longrightarrow> sm_put k v m = m"
  by (rule smap_ext) (auto simp: fun_eq_iff)

lemma sm_del_put: "wf_smap m \<Longrightarrow> sm_put k v (sm_del k m) = sm_put k v m"
  by (rule smap_ext) auto

text \<open>Inserting the entries of one map into another.\<close>

lemma sm_get_puts: "distinct (map fst es) \<Longrightarrow> sm_get (sm_puts es m) k = (case map_of es k of Some v \<Rightarrow> Some v | None \<Rightarrow> sm_get m k)"
proof (induction es m rule: sm_puts.induct)
  case (2 k' v es m)
  then have "map_of es k' = None" by (simp add: map_of_eq_None_iff)
  with 2 show ?case by (cases "k = k'") (simp_all split: option.split)
qed simp

lemma sm_puts_Nil_right: "wf_smap m \<Longrightarrow> sm_puts m [] = m"
  by (rule smap_ext) (auto simp: sm_get_puts wf_smap_distinct split: option.splits)

end
