(* ===== verification/CatalogTypes.thy ===== *)
theory CatalogTypes
  imports Rust_Std Smap
begin

section \<open>Catalog metadata (crates/fe-catalog and crates/types)\<close>

text \<open>
  Column types with their size and name (crates/types/src/data_type.rs, field.rs), and the
  metadata records of databases, tables, materialized views and stored procedures with their
  methods (crates/fe-catalog/src/database.rs, table.rs, stats.rs, materialized_view.rs,
  procedure.rs). Unsigned integers are natural numbers.
\<close>

subsection \<open>Column types\<close>

record decimal_type =
  dec_precision :: nat
  dec_scale :: nat

datatype (plugins only: code size) data_type =
    DtNull | DtBoolean | DtInt8 | DtInt16 | DtInt32 | DtInt64 | DtInt128
  | DtUInt8 | DtUInt16 | DtUInt32 | DtUInt64 | DtFloat32 | DtFloat64
  | DtDecimal decimal_type
  | DtDate | DtDateTime | DtTime | DtDateTimeOffset
  | DtVarchar nat | DtChar nat | DtString | DtBinary | DtFixedSizeBinary nat
  | DtArray data_type | DtMap data_type data_type | DtStruct "field list"
  | DtJson | DtMoney | DtSmallMoney | DtUniqueIdentifier | DtFloat32Vector nat
and field = Field (field_name: string) (field_type: data_type) (field_nullable: bool)

definition field_new :: "string \<Rightarrow> data_type \<Rightarrow> bool \<Rightarrow> field" where
  "field_new name dt nullable = Field name dt nullable"

definition field_not_null :: "string \<Rightarrow> data_type \<Rightarrow> field" where
  "field_not_null name dt = field_new name dt False"

fun data_type_size :: "data_type \<Rightarrow> nat" where
  "data_type_size DtNull = 0"
| "data_type_size DtBoolean = 1"
| "data_type_size DtInt8 = 1"
| "data_type_size DtUInt8 = 1"
| "data_type_size DtInt16 = 2"
| "data_type_size DtUInt16 = 2"
| "data_type_size DtInt32 = 4"
| "data_type_size DtUInt32 = 4"
| "data_type_size DtInt64 = 8"
| "data_type_size DtUInt64 = 8"
| "data_type_size DtInt128 = 16"
| "data_type_size DtFloat32 = 4"
| "data_type_size DtFloat64 = 8"
| "data_type_size DtDate = 4"
| "data_type_size DtDateTime = 8"
| "data_type_size DtTime = 8"
| "data_type_size DtDateTimeOffset = 12"
| "data_type_size (DtVarchar _) = 16"
| "data_type_size (DtChar _) = 16"
| "data_type_size DtString = 16"
| "data_type_size DtBinary = 16"
| "data_type_size (DtFixedSizeBinary n) = n"
| "data_type_size (DtDecimal _) = 16"
| "data_type_size DtMoney = 16"
| "data_type_size DtSmallMoney = 8"
| "data_type_size DtUniqueIdentifier = 16"
| "data_type_size DtJson = 32"
| "data_type_size (DtFloat32Vector dim) = dim * 4 mod 2 ^ 64"
| "data_type_size (DtArray _) = 0"
| "data_type_size (DtMap _ _) = 0"
| "data_type_size (DtStruct _) = 0"

definition is_numeric :: "data_type \<Rightarrow> bool" where
  "is_numeric t \<longleftrightarrow>
     (case t of
        DtInt8 \<Rightarrow> True | DtInt16 \<Rightarrow> True | DtInt32 \<Rightarrow> True | DtInt64 \<Rightarrow> True | DtInt128 \<Rightarrow> True
      | DtUInt8 \<Rightarrow> True | DtUInt16 \<Rightarrow> True | DtUInt32 \<Rightarrow> True | DtUInt64 \<Rightarrow> True
      | DtFloat32 \<Rightarrow> True | DtFloat64 \<Rightarrow> True | DtDecimal _ \<Rightarrow> True
      | DtMoney \<Rightarrow> True | DtSmallMoney \<Rightarrow> True
      | _ \<Rightarrow> False)"

fun show_data_type :: "data_type \<Rightarrow> string"
  and show_fields :: "nat \<Rightarrow> field list \<Rightarrow> string" where
  "show_data_type DtNull = ''NULL''"
| "show_data_type DtBoolean = ''BOOLEAN''"
| "show_data_type DtInt8 = ''INT8''"
| "show_data_type DtInt16 = ''INT16''"
| "show_data_type DtInt32 = ''INT32''"
| "show_data_type DtInt64 = ''INT64''"
| "show_data_type DtInt128 = ''INT128''"
| "show_data_type DtUInt8 = ''UINT8''"
| "show_data_type DtUInt16 = ''UINT16''"
| "show_data_type DtUInt32 = ''UINT32''"
| "show_data_type DtUInt64 = ''UINT64''"
| "show_data_type DtFloat32 = ''FLOAT32''"
| "show_data_type DtFloat64 = ''FLOAT64''"
| "show_data_type (DtDecimal d) = ''DECIMAL('' @ show_nat (dec_precision d) @ '', '' @ show_nat (dec_scale d) @ '')''"
| "show_data_type DtDate = ''DATE''"
| "show_data_type DtDateTime = ''DATETIME''"
| "show_data_type DtTime = ''TIME''"
| "show_data_type DtDateTimeOffset = ''DATETIMEOFFSET''"
| "show_data_type (DtVarchar n) = ''VARCHAR('' @ show_nat n @ '')''"
| "show_data_type (DtChar n) = ''CHAR('' @ show_nat n @ '')''"
| "show_data_type DtString = ''STRING''"
| "show_data_type DtBinary = ''BINARY''"
| "show_data_type (DtFixedSizeBinary n) = ''BINARY('' @ show_nat n @ '')''"
| "show_data_type (DtArray inner) = ''ARRAY('' @ show_data_type inner @ '')''"
| "show_data_type (DtMap k v) = ''MAP('' @ show_data_type k @ '', '' @ show_data_type v @ '')''"
| "show_data_type DtJson = ''JSON''"
| "show_data_type DtMoney = ''MONEY''"
| "show_data_type DtSmallMoney = ''SMALLMONEY''"
| "show_data_type DtUniqueIdentifier = ''UNIQUEIDENTIFIER''"
| "show_data_type (DtFloat32Vector dim) = ''FLOAT32_VECTOR('' @ show_nat dim @ '')''"
| "show_data_type (DtStruct fs) = ''STRUCT('' @ show_fields 0 fs @ '')''"
| "show_fields i [] = []"
| "show_fields i (Field name dt _ # fs) =
     (if 0 < i then '', '' else []) @ name @ '': '' @ show_data_type dt @ show_fields (i + 1) fs"

subsection \<open>Statistics\<close>

record histogram_bucket =
  hb_upper_bound :: string
  hb_distinct_count :: nat
  hb_row_count :: nat

record histogram =
  hi_min_value :: string
  hi_max_value :: string
  hi_total_rows :: nat
  hi_buckets :: "histogram_bucket list"

record column_stats =
  cs_ndv :: nat
  cs_null_count :: nat
  cs_min_value :: "string option"
  cs_max_value :: "string option"
  cs_avg_width :: nat
  cs_histogram :: "histogram option"

record table_stats =
  ts_row_count :: nat
  ts_data_size :: nat
  ts_column_stats :: "column_stats smap"
  ts_updated_at :: "nat option"

definition table_stats_empty :: table_stats where
  "table_stats_empty = \<lparr>ts_row_count = 0, ts_data_size = 0, ts_column_stats = [], ts_updated_at = None\<rparr>"

definition table_stats_with_row_count :: "nat \<Rightarrow> table_stats" where
  "table_stats_with_row_count row_count =
     \<lparr>ts_row_count = row_count, ts_data_size = 0, ts_column_stats = [], ts_updated_at = None\<rparr>"

definition column_stats_unknown :: column_stats where
  "column_stats_unknown =
     \<lparr>cs_ndv = 0, cs_null_count = 0, cs_min_value = None, cs_max_value = None, cs_avg_width = 0,
      cs_histogram = None\<rparr>"

definition column_stats_with_ndv :: "nat \<Rightarrow> column_stats" where
  "column_stats_with_ndv ndv = column_stats_unknown\<lparr>cs_ndv := ndv\<rparr>"

definition is_stats_available :: "column_stats \<Rightarrow> bool" where
  "is_stats_available c \<longleftrightarrow> 0 < cs_ndv c"

definition histogram_new :: "string \<Rightarrow> string \<Rightarrow> nat \<Rightarrow> histogram" where
  "histogram_new min_value max_value total_rows =
     \<lparr>hi_min_value = min_value, hi_max_value = max_value, hi_total_rows = total_rows, hi_buckets = []\<rparr>"

subsection \<open>Tables\<close>

record table_column =
  tc_name :: string
  tc_data_type :: data_type
  tc_nullable :: bool
  tc_default_value :: "string option"
  tc_agg_type :: "string option"
  tc_comment :: string

datatype (plugins only: code size) keys_type = KtDuplicate | KtAggregate | KtUnique | KtPrimary

record unique_key_def =
  uk_name :: "string option"
  uk_columns :: "string list"

record partition_range =
  pa_id :: nat
  pa_name :: string
  pa_range_start :: "string option"
  pa_range_end :: "string option"

record partition_info =
  pi_partition_type :: string
  pi_columns :: "string list"
  pi_partitions :: "partition_range list"

record distribution_info =
  di_dist_type :: string
  di_columns :: "string list"
  di_buckets :: nat

record table =
  tb_id :: nat
  tb_tablet_id :: nat
  tb_name :: string
  tb_database :: string
  tb_columns :: "table_column list"
  tb_keys_type :: keys_type
  tb_unique_keys :: "unique_key_def list"
  tb_partition_info :: "partition_info option"
  tb_distribution_info :: "distribution_info option"
  tb_replication_num :: nat
  tb_properties :: "string smap"
  tb_row_count :: nat
  tb_data_size :: nat
  tb_stats :: "table_stats option"
  tb_view_definition :: "string option"

definition table_default :: table where
  "table_default =
     \<lparr>tb_id = 0, tb_tablet_id = 0, tb_name = [], tb_database = [], tb_columns = [],
      tb_keys_type = KtDuplicate, tb_unique_keys = [], tb_partition_info = None,
      tb_distribution_info = None, tb_replication_num = 1, tb_properties = [], tb_row_count = 0,
      tb_data_size = 0, tb_stats = None, tb_view_definition = None\<rparr>"

definition column_names :: "table \<Rightarrow> string list" where
  "column_names t = map tc_name (tb_columns t)"

definition get_column :: "table \<Rightarrow> string \<Rightarrow> table_column option" where
  "get_column t name = List.find (\<lambda>c. tc_name c = name) (tb_columns t)"

subsection \<open>Databases\<close>

record cat_database =
  cd_id :: nat
  cd_name :: string
  cd_tables :: "table smap"
  cd_properties :: "string smap"
  cd_create_sql :: "string option"

definition database_new :: "nat \<Rightarrow> string \<Rightarrow> cat_database" where
  "database_new i name =
     \<lparr>cd_id = i, cd_name = name, cd_tables = [], cd_properties = [], cd_create_sql = None\<rparr>"

definition db_get_table :: "cat_database \<Rightarrow> string \<Rightarrow> table option" where
  "db_get_table db name = sm_get (cd_tables db) name"

definition db_add_table :: "cat_database \<Rightarrow> table \<Rightarrow> cat_database" where
  "db_add_table db t = db\<lparr>cd_tables := sm_put (tb_name t) t (cd_tables db)\<rparr>"

definition db_drop_table :: "cat_database \<Rightarrow> string \<Rightarrow> table option \<times> cat_database" where
  "db_drop_table db name = (sm_get (cd_tables db) name, db\<lparr>cd_tables := sm_del name (cd_tables db)\<rparr>)"

definition db_table_names :: "cat_database \<Rightarrow> string list" where
  "db_table_names db = map fst (cd_tables db)"

text \<open>\<open>get_table_mut\<close> hands out the entry for an update in place, here the function \<open>f\<close>.\<close>

definition db_get_table_mut :: "cat_database \<Rightarrow> string \<Rightarrow> (table \<Rightarrow> table) \<Rightarrow> cat_database option" where
  "db_get_table_mut db name f =
     (case sm_get (cd_tables db) name of
        None \<Rightarrow> None
      | Some t \<Rightarrow> Some (db\<lparr>cd_tables := sm_put name (f t) (cd_tables db)\<rparr>))"

subsection \<open>Materialized views and procedures\<close>

datatype (plugins only: code size) refresh_strategy = RefreshManual | RefreshImmediate | RefreshScheduled string

record mv_column =
  mc_name :: string
  mc_data_type :: string

record materialized_view =
  mv_id :: nat
  mv_name :: string
  mv_database :: string
  mv_definition :: string
  mv_base_tables :: "(string \<times> string) list"
  mv_refresh :: refresh_strategy
  mv_schema :: "mv_column list"

definition mv_new :: "nat \<Rightarrow> string \<Rightarrow> string \<Rightarrow> string \<Rightarrow> materialized_view" where
  "mv_new i name db def =
     \<lparr>mv_id = i, mv_name = name, mv_database = db, mv_definition = def, mv_base_tables = [],
      mv_refresh = RefreshManual, mv_schema = []\<rparr>"

definition with_base_tables :: "materialized_view \<Rightarrow> (string \<times> string) list \<Rightarrow> materialized_view" where
  "with_base_tables mv ts = mv\<lparr>mv_base_tables := ts\<rparr>"

definition with_refresh :: "materialized_view \<Rightarrow> refresh_strategy \<Rightarrow> materialized_view" where
  "with_refresh mv r = mv\<lparr>mv_refresh := r\<rparr>"

definition with_schema :: "materialized_view \<Rightarrow> mv_column list \<Rightarrow> materialized_view" where
  "with_schema mv s = mv\<lparr>mv_schema := s\<rparr>"

record procedure_param_meta =
  pp_name :: string
  pp_data_type :: string
  pp_direction :: string
  pp_default_value :: "string option"

record stored_procedure =
  sp_id :: nat
  sp_name :: string
  sp_database :: string
  sp_owner :: string
  sp_create_time :: int
  sp_alter_time :: int
  sp_source_sql :: string
  sp_params :: "procedure_param_meta list"
  sp_is_recompiled :: bool
  sp_is_encrypted :: bool

end
