(* ===== verification/MetaStore.thy ===== *)
theory MetaStore
  imports Bytes Rust_Std Smap
begin

section \<open>The embedded metadata store (crates/be-kv/src/meta_store.rs)\<close>

text \<open>
  \<open>MetaStore\<close> wraps the embedded database redb. redb is a library: its transactions are the
  fields of the argument \<open>redb\<close>, and what the wrapper relies on is \<open>redb_ok\<close>, its documented
  behaviour when no I/O fault occurs: a transaction sees the committed tables, a table is an ordered
  map, a range scan returns the entries from the lower bound on in key order. A transaction that is
  not committed leaves the database as it was, so a failed operation has no effect.
\<close>

datatype rocks_store_error =
    DbError string
  | DatabaseError string
  | TransactionError string
  | StorageFault string
  | CommitError string
  | TableFault string
  | SerializeError string
  | KeyNotFound string
  | InvalidKey string

primrec show_rocks_store_error :: "rocks_store_error \<Rightarrow> string" where
  "show_rocks_store_error (DbError e) = ''KV store error: '' @ e"
| "show_rocks_store_error (DatabaseError e) = ''KV store database error: '' @ e"
| "show_rocks_store_error (TransactionError e) = ''KV store transaction error: '' @ e"
| "show_rocks_store_error (StorageFault e) = ''KV storage error: '' @ e"
| "show_rocks_store_error (CommitError e) = ''Commit error: '' @ e"
| "show_rocks_store_error (TableFault e) = ''Table error: '' @ e"
| "show_rocks_store_error (SerializeError e) = ''Serialization error: '' @ e"
| "show_rocks_store_error (KeyNotFound e) = ''Key not found: '' @ e"
| "show_rocks_store_error (InvalidKey e) = ''Invalid key format: '' @ e"

text \<open>The database \<open>'r\<close> also stands for the image a running transaction works on.\<close>

record 'r redb =
  rd_begin_write :: "'r \<Rightarrow> rocks_store_error + 'r"
  rd_begin_read :: "'r \<Rightarrow> rocks_store_error + 'r"
  rd_open_table :: "'r \<Rightarrow> string \<Rightarrow> rocks_store_error + 'r"
  rd_insert :: "'r \<Rightarrow> string \<Rightarrow> bytes \<Rightarrow> bytes \<Rightarrow> rocks_store_error + 'r"
  rd_get :: "'r \<Rightarrow> string \<Rightarrow> bytes \<Rightarrow> rocks_store_error + bytes option"
  rd_remove :: "'r \<Rightarrow> string \<Rightarrow> bytes \<Rightarrow> rocks_store_error + 'r"
  rd_range_from :: "'r \<Rightarrow> string \<Rightarrow> bytes \<Rightarrow> rocks_store_error + (bytes \<times> bytes) list"
  rd_commit :: "'r \<Rightarrow> rocks_store_error + 'r"

subsection \<open>Tables and keys\<close>

definition CF_CATALOG :: string where "CF_CATALOG = ''catalog''"
definition CF_TABLET :: string where "CF_TABLET = ''tablet''"
definition CF_EDIT_LOG :: string where "CF_EDIT_LOG = ''edit_log''"

definition KEY_DB :: string where "KEY_DB = ''db:''"
definition KEY_TABLE :: string where "KEY_TABLE = ''table:''"
definition KEY_NEXT_ID :: string where "KEY_NEXT_ID = ''next_id''"

definition table_def :: "string \<Rightarrow> rocks_store_error + string" where
  "table_def cf_name =
     (if cf_name = CF_CATALOG then Inr CF_CATALOG
      else if cf_name = CF_TABLET then Inr CF_TABLET
      else if cf_name = CF_EDIT_LOG then Inr CF_EDIT_LOG
      else Inl (InvalidKey (''CF '' @ cf_name @ '' not found'')))"

definition decode_u64 :: "bytes \<Rightarrow> nat" where
  "decode_u64 v = (if length v = 8 then be_val v else 0)"

subsection \<open>Operations\<close>

definition store_open :: "'r redb \<Rightarrow> 'r \<Rightarrow> rocks_store_error + 'r" where
  "store_open R db =
     and_then (rd_begin_write R db) (\<lambda>txn.
     and_then (rd_open_table R txn CF_CATALOG) (\<lambda>txn.
     and_then (rd_open_table R txn CF_TABLET) (\<lambda>txn.
     and_then (rd_open_table R txn CF_EDIT_LOG) (\<lambda>txn.
     rd_commit R txn))))"

definition put_cf :: "'r redb \<Rightarrow> 'r \<Rightarrow> string \<Rightarrow> bytes \<Rightarrow> bytes \<Rightarrow> rocks_store_error + 'r" where
  "put_cf R db cf_name key val =
     and_then (rd_begin_write R db) (\<lambda>txn.
     and_then (table_def cf_name) (\<lambda>def.
     and_then (rd_open_table R txn def) (\<lambda>txn.
     and_then (rd_insert R txn def key val) (\<lambda>txn.
     rd_commit R txn))))"

definition get_cf :: "'r redb \<Rightarrow> 'r \<Rightarrow> string \<Rightarrow> bytes \<Rightarrow> rocks_store_error + bytes option" where
  "get_cf R db cf_name key =
     and_then (rd_begin_read R db) (\<lambda>txn.
     and_then (table_def cf_name) (\<lambda>def.
     and_then (rd_open_table R txn def) (\<lambda>txn.
     rd_get R txn def key)))"

definition delete_cf :: "'r redb \<Rightarrow> 'r \<Rightarrow> string \<Rightarrow> bytes \<Rightarrow> rocks_store_error + 'r" where
  "delete_cf R db cf_name key =
     and_then (rd_begin_write R db) (\<lambda>txn.
     and_then (table_def cf_name) (\<lambda>def.
     and_then (rd_open_table R txn def) (\<lambda>txn.
     and_then (rd_remove R txn def key) (\<lambda>txn.
     rd_commit R txn))))"

definition increment_counter :: "'r redb \<Rightarrow> 'r \<Rightarrow> string \<Rightarrow> bytes \<Rightarrow> rocks_store_error + nat \<times> 'r" where
  "increment_counter R db cf_name key =
     and_then (rd_begin_write R db) (\<lambda>txn.
     and_then (table_def cf_name) (\<lambda>def.
     and_then (rd_open_table R txn def) (\<lambda>txn.
     and_then (rd_get R txn def key) (\<lambda>v.
     let current_val = (case v of Some b \<Rightarrow> decode_u64 b | None \<Rightarrow> 0);
         new_val = (current_val + 1) mod 2 ^ 64
     in and_then (rd_insert R txn def key (be_bytes 8 new_val)) (\<lambda>txn.
        and_then (rd_commit R txn) (\<lambda>db. Inr (new_val, db)))))))"

definition get_counter :: "'r redb \<Rightarrow> 'r \<Rightarrow> string \<Rightarrow> bytes \<Rightarrow> rocks_store_error + nat" where
  "get_counter R db cf_name key =
     and_then (get_cf R db cf_name key) (\<lambda>v. Inr (case v of Some b \<Rightarrow> decode_u64 b | None \<Rightarrow> 0))"

definition set_counter :: "'r redb \<Rightarrow> 'r \<Rightarrow> string \<Rightarrow> bytes \<Rightarrow> nat \<Rightarrow> rocks_store_error + 'r" where
  "set_counter R db cf_name key val = put_cf R db cf_name key (be_bytes 8 val)"

definition iter_prefix :: "'r redb \<Rightarrow> 'r \<Rightarrow> string \<Rightarrow> bytes \<Rightarrow> rocks_store_error + (bytes \<times> bytes) list" where
  "iter_prefix R db cf_name pre =
     and_then (rd_begin_read R db) (\<lambda>txn.
     and_then (table_def cf_name) (\<lambda>def.
     and_then (rd_open_table R txn def) (\<lambda>txn.
     and_then (rd_range_from R txn def pre) (\<lambda>range.
     Inr (takeWhile (\<lambda>e. prefix pre (fst e)) range)))))"

definition store_flush :: "'r redb \<Rightarrow> 'r \<Rightarrow> rocks_store_error + unit" where
  "store_flush R db = Inr ()"

definition store_compact :: "'r redb \<Rightarrow> 'r \<Rightarrow> rocks_store_error + unit" where
  "store_compact R db = Inr ()"

subsection \<open>What the wrapper relies on\<close>

text \<open>\<open>\<alpha> db tab\<close> is the content of a table of a database.\<close>

definition redb_ok :: "'r redb \<Rightarrow> ('r \<Rightarrow> string \<Rightarrow> bytes smap) \<Rightarrow> bool" where
  "redb_ok R \<alpha> \<longleftrightarrow>
     (\<forall>db tab. wf_smap (\<alpha> db tab)) \<and>
     (\<forall>db. \<exists>t. rd_begin_write R db = Inr t \<and> \<alpha> t = \<alpha> db) \<and>
     (\<forall>db. \<exists>t. rd_begin_read R db = Inr t \<and> \<alpha> t = \<alpha> db) \<and>
     (\<forall>db tab. \<exists>t. rd_open_table R db tab = Inr t \<and> \<alpha> t = \<alpha> db) \<and>
     (\<forall>db tab k v. \<exists>t. rd_insert R db tab k v = Inr t \<and> \<alpha> t = (\<alpha> db)(tab := sm_put k v (\<alpha> db tab))) \<and>
     (\<forall>db tab k. rd_get R db tab k = Inr (sm_get (\<alpha> db tab) k)) \<and>
     (\<forall>db tab k. \<exists>t. rd_remove R db tab k = Inr t \<and> \<alpha> t = (\<alpha> db)(tab := sm_del k (\<alpha> db tab))) \<and>
     (\<forall>db tab lo. rd_range_from R db tab lo = Inr (filter (\<lambda>e. lo \<le> fst e) (\<alpha> db tab))) \<and>
     (\<forall>db. \<exists>t. rd_commit R db = Inr t \<and> \<alpha> t = \<alpha> db)"

lemma table_def_catalog [simp]: "table_def CF_CATALOG = Inr CF_CATALOG"
  by (simp add: table_def_def)

text \<open>Keys with a prefix are contiguous: leaving the prefix in key order means leaving it for good.\<close>

lemma prefix_le: "prefix p k \<Longrightarrow> p \<le> (k :: string)"
proof (induction p arbitrary: k)
  case (Cons c p)
  then show ?case by (cases k) auto
qed simp

lemma leave_prefix:
  assumes "p \<le> (a :: string)" and "\<not> prefix p a" and "a \<le> b"
  shows "\<not> prefix p b"
  using assms
proof (induction p arbitrary: a b)
  case (Cons c p)
  then obtain d a' where a: "a = d # a'" by (cases a) auto
  with Cons.prems(3) obtain e b' where b: "b = e # b'" by (cases b) auto
  show ?case using Cons.IH [of a' b'] Cons.prems a b by auto
qed simp

lemma takeWhile_prefix:
  assumes "wf_smap m"
  shows "takeWhile (\<lambda>e. prefix p (fst e)) (filter (\<lambda>e. p \<le> fst e) m) = sm_scan p m"
  using assms
proof (induction m)
  case (Cons e m)
  obtain k v where e: "e = (k, v)" by (cases e)
  have later: "\<forall>k' \<in> fst ` set m. k < k'" and wf: "wf_smap m" using Cons.prems e by (auto simp: wf_smap_Cons)
  show ?case
  proof (cases "p \<le> k \<and> \<not> prefix p k")
    case True
    then have "\<not> prefix p k'" if "k' \<in> fst ` set m" for k'
      using leave_prefix [of p k k'] later that by (meson less_imp_le)
    then have "filter (\<lambda>e. prefix p (fst e)) m = []" by (auto simp: filter_empty_conv)
    with True show ?thesis by (simp add: e sm_scan_def)
  next
    case False
    with Cons.IH [OF wf] show ?thesis by (auto simp: e sm_scan_def dest: prefix_le)
  qed
qed (simp add: sm_scan_def)

subsection \<open>The operations on the content of the tables\<close>

lemma redb_ok_wf: "redb_ok R \<alpha> \<Longrightarrow> wf_smap (\<alpha> db tab)"
  by (simp add: redb_ok_def)

lemma put_cf_ok:
  assumes "redb_ok R \<alpha>" and "table_def cf = Inr tab"
  shows "\<exists>db'. put_cf R db cf k v = Inr db' \<and> \<alpha> db' = (\<alpha> db)(tab := sm_put k v (\<alpha> db tab))"
  using assms unfolding redb_ok_def put_cf_def by (auto simp: and_then_Inr_iff) metis

lemma delete_cf_ok:
  assumes "redb_ok R \<alpha>" and "table_def cf = Inr tab"
  shows "\<exists>db'. delete_cf R db cf k = Inr db' \<and> \<alpha> db' = (\<alpha> db)(tab := sm_del k (\<alpha> db tab))"
  using assms unfolding redb_ok_def delete_cf_def by (auto simp: and_then_Inr_iff) metis

lemma get_cf_ok:
  assumes "redb_ok R \<alpha>" and "table_def cf = Inr tab"
  shows "get_cf R db cf k = Inr (sm_get (\<alpha> db tab) k)"
  using assms unfolding redb_ok_def get_cf_def by (auto simp: and_then_Inr_iff) metis

lemma iter_prefix_ok:
  assumes "redb_ok R \<alpha>" and "table_def cf = Inr tab"
  shows "iter_prefix R db cf p = Inr (sm_scan p (\<alpha> db tab))"
proof -
  obtain t where t: "rd_begin_read R db = Inr t" "\<alpha> t = \<alpha> db"
    using assms(1) unfolding redb_ok_def by meson
  obtain u where u: "rd_open_table R t tab = Inr u" "\<alpha> u = \<alpha> t"
    using assms(1) unfolding redb_ok_def by meson
  have "rd_range_from R u tab p = Inr (filter (\<lambda>e. p \<le> fst e) (\<alpha> u tab))" using assms(1) by (simp add: redb_ok_def)
  with t u assms(2) show ?thesis
    by (simp add: iter_prefix_def takeWhile_prefix redb_ok_wf [OF assms(1)])
qed

end
