(* ===== verification/CatalogStore.thy ===== *)
theory CatalogStore
  imports MetaStore
begin

section \<open>The catalog store (crates/be-kv/src/catalog_store.rs)\<close>

text \<open>
  Databases, tables and free-form metadata as keys of the \<open>catalog\<close> table of the metadata store:
  \<open>db:<name>\<close>, \<open>db:<name>:table:<table>\<close> and \<open>next_id\<close>. A deletion of several keys is one
  transaction per key, so an operation that fails half way returns the error and the state it
  reached. The typed operations serialise with serde_json, which is a library: \<open>ser\<close> and
  \<open>de\<close> are arguments.
\<close>

definition db_key :: "string \<Rightarrow> bytes" where
  "db_key name = KEY_DB @ name"

definition table_prefix :: "string \<Rightarrow> bytes" where
  "table_prefix db_name = KEY_DB @ db_name @ '':'' @ KEY_TABLE"

definition table_key :: "string \<Rightarrow> string \<Rightarrow> bytes" where
  "table_key db_name table_name = KEY_DB @ db_name @ '':'' @ KEY_TABLE @ table_name"

definition contains_str :: "string \<Rightarrow> string \<Rightarrow> bool" where
  "contains_str s pat \<longleftrightarrow> list_ex (prefix pat) (suffixes s)"

subsection \<open>Keys by prefix\<close>

definition list_keys_with_prefix :: "'r redb \<Rightarrow> 'r \<Rightarrow> string \<Rightarrow> bytes \<Rightarrow> rocks_store_error + bytes list" where
  "list_keys_with_prefix R db cf_name pre =
     and_then (iter_prefix R db cf_name pre) (\<lambda>pairs. Inr (map fst pairs))"

fun delete_keys :: "'r redb \<Rightarrow> string \<Rightarrow> bytes list \<Rightarrow> 'r \<Rightarrow> (rocks_store_error + unit) \<times> 'r" where
  "delete_keys R cf_name [] db = (Inr (), db)"
| "delete_keys R cf_name (key # keys) db =
     (case delete_cf R db cf_name key of
        Inl e \<Rightarrow> (Inl e, db)
      | Inr db' \<Rightarrow> delete_keys R cf_name keys db')"

definition delete_keys_with_prefix :: "'r redb \<Rightarrow> 'r \<Rightarrow> string \<Rightarrow> bytes \<Rightarrow> (rocks_store_error + unit) \<times> 'r" where
  "delete_keys_with_prefix R db cf_name pre =
     (case list_keys_with_prefix R db cf_name pre of
        Inl e \<Rightarrow> (Inl e, db)
      | Inr keys \<Rightarrow> delete_keys R cf_name keys db)"

subsection \<open>Databases\<close>

definition cs_put_database :: "('d \<Rightarrow> string + bytes) \<Rightarrow> 'r redb \<Rightarrow> 'r \<Rightarrow> string \<Rightarrow> 'd \<Rightarrow> rocks_store_error + 'r" where
  "cs_put_database ser R db name x =
     and_then (map_err SerializeError (ser x)) (\<lambda>val. put_cf R db CF_CATALOG (db_key name) val)"

definition cs_put_database_raw :: "'r redb \<Rightarrow> 'r \<Rightarrow> string \<Rightarrow> bytes \<Rightarrow> rocks_store_error + 'r" where
  "cs_put_database_raw R db name data = put_cf R db CF_CATALOG (db_key name) data"

definition cs_get_database :: "(bytes \<Rightarrow> string + 'd) \<Rightarrow> 'r redb \<Rightarrow> 'r \<Rightarrow> string \<Rightarrow> rocks_store_error + 'd option" where
  "cs_get_database de R db name =
     and_then (get_cf R db CF_CATALOG (db_key name)) (\<lambda>val.
       case val of None \<Rightarrow> Inr None | Some v \<Rightarrow> map_ok Some (map_err SerializeError (de v)))"

definition cs_get_database_raw :: "'r redb \<Rightarrow> 'r \<Rightarrow> string \<Rightarrow> rocks_store_error + bytes option" where
  "cs_get_database_raw R db name = get_cf R db CF_CATALOG (db_key name)"

definition cs_delete_database :: "'r redb \<Rightarrow> 'r \<Rightarrow> string \<Rightarrow> (rocks_store_error + unit) \<times> 'r" where
  "cs_delete_database R db name =
     (case delete_cf R db CF_CATALOG (db_key name) of
        Inl e \<Rightarrow> (Inl e, db)
      | Inr db' \<Rightarrow> delete_keys_with_prefix R db' CF_CATALOG (table_prefix name))"

definition cs_list_databases :: "'r redb \<Rightarrow> 'r \<Rightarrow> rocks_store_error + string list" where
  "cs_list_databases R db =
     and_then (list_keys_with_prefix R db CF_CATALOG KEY_DB) (\<lambda>keys.
       Inr (List.map_filter (\<lambda>k. case from_utf8 (drop (length KEY_DB) k) of
              Some n \<Rightarrow> if \<not> contains_str n KEY_TABLE then Some n else None
            | None \<Rightarrow> None) keys))"

subsection \<open>Tables\<close>

definition cs_put_table :: "('t \<Rightarrow> string + bytes) \<Rightarrow> 'r redb \<Rightarrow> 'r \<Rightarrow> string \<Rightarrow> string \<Rightarrow> 't \<Rightarrow> rocks_store_error + 'r" where
  "cs_put_table ser R db db_name table_name x =
     and_then (map_err SerializeError (ser x)) (\<lambda>val. put_cf R db CF_CATALOG (table_key db_name table_name) val)"

definition cs_put_table_raw :: "'r redb \<Rightarrow> 'r \<Rightarrow> string \<Rightarrow> string \<Rightarrow> bytes \<Rightarrow> rocks_store_error + 'r" where
  "cs_put_table_raw R db db_name table_name data = put_cf R db CF_CATALOG (table_key db_name table_name) data"

definition cs_get_table :: "(bytes \<Rightarrow> string + 't) \<Rightarrow> 'r redb \<Rightarrow> 'r \<Rightarrow> string \<Rightarrow> string \<Rightarrow> rocks_store_error + 't option" where
  "cs_get_table de R db db_name table_name =
     and_then (get_cf R db CF_CATALOG (table_key db_name table_name)) (\<lambda>val.
       case val of None \<Rightarrow> Inr None | Some v \<Rightarrow> map_ok Some (map_err SerializeError (de v)))"

definition cs_get_table_raw :: "'r redb \<Rightarrow> 'r \<Rightarrow> string \<Rightarrow> string \<Rightarrow> rocks_store_error + bytes option" where
  "cs_get_table_raw R db db_name table_name = get_cf R db CF_CATALOG (table_key db_name table_name)"

definition cs_delete_table :: "'r redb \<Rightarrow> 'r \<Rightarrow> string \<Rightarrow> string \<Rightarrow> rocks_store_error + 'r" where
  "cs_delete_table R db db_name table_name = delete_cf R db CF_CATALOG (table_key db_name table_name)"

definition utf8_or_invalid_key :: "bytes \<Rightarrow> rocks_store_error + string" where
  "utf8_or_invalid_key b = (case from_utf8 b of Some s \<Rightarrow> Inr s | None \<Rightarrow> Inl (InvalidKey (utf8_error_msg b)))"

definition cs_list_tables :: "'r redb \<Rightarrow> 'r \<Rightarrow> string \<Rightarrow> rocks_store_error + string list" where
  "cs_list_tables R db db_name =
     and_then (list_keys_with_prefix R db CF_CATALOG (table_prefix db_name)) (\<lambda>keys.
       collect_ok (map (\<lambda>k. utf8_or_invalid_key (drop (length (table_prefix db_name)) k)) keys))"

subsection \<open>Other metadata\<close>

definition cs_put_raw :: "'r redb \<Rightarrow> 'r \<Rightarrow> string \<Rightarrow> bytes \<Rightarrow> rocks_store_error + 'r" where
  "cs_put_raw R db key data = put_cf R db CF_CATALOG key data"

definition cs_get_raw :: "'r redb \<Rightarrow> 'r \<Rightarrow> string \<Rightarrow> rocks_store_error + bytes option" where
  "cs_get_raw R db key = get_cf R db CF_CATALOG key"

definition cs_delete_raw :: "'r redb \<Rightarrow> 'r \<Rightarrow> string \<Rightarrow> rocks_store_error + 'r" where
  "cs_delete_raw R db key = delete_cf R db CF_CATALOG key"

definition cs_list_keys_with_prefix_str :: "'r redb \<Rightarrow> 'r \<Rightarrow> string \<Rightarrow> rocks_store_error + string list" where
  "cs_list_keys_with_prefix_str R db pre =
     and_then (list_keys_with_prefix R db CF_CATALOG pre) (\<lambda>keys. collect_ok (map utf8_or_invalid_key keys))"

definition cs_next_id :: "'r redb \<Rightarrow> 'r \<Rightarrow> rocks_store_error + nat \<times> 'r" where
  "cs_next_id R db = increment_counter R db CF_CATALOG KEY_NEXT_ID"

definition cs_get_next_id :: "'r redb \<Rightarrow> 'r \<Rightarrow> rocks_store_error + nat" where
  "cs_get_next_id R db = get_counter R db CF_CATALOG KEY_NEXT_ID"

definition cs_set_next_id :: "'r redb \<Rightarrow> 'r \<Rightarrow> nat \<Rightarrow> rocks_store_error + 'r" where
  "cs_set_next_id R db val = set_counter R db CF_CATALOG KEY_NEXT_ID val"

definition cs_flush :: "'r redb \<Rightarrow> 'r \<Rightarrow> rocks_store_error + unit" where
  "cs_flush R db = store_flush R db"

fun tables_of :: "(bytes \<Rightarrow> string + 't) \<Rightarrow> 'r redb \<Rightarrow> 'r \<Rightarrow> string \<Rightarrow> string list \<Rightarrow> rocks_store_error + (string \<times> 't) list" where
  "tables_of de R db db_name [] = Inr []"
| "tables_of de R db db_name (t # ts) =
     and_then (cs_get_table de R db db_name t) (\<lambda>tab.
     and_then (tables_of de R db db_name ts) (\<lambda>rest.
       Inr ((case tab of Some x \<Rightarrow> [(db_name @ ''.'' @ t, x)] | None \<Rightarrow> []) @ rest)))"

fun tables_of_all :: "(bytes \<Rightarrow> string + 't) \<Rightarrow> 'r redb \<Rightarrow> 'r \<Rightarrow> string list \<Rightarrow> rocks_store_error + (string \<times> 't) list" where
  "tables_of_all de R db [] = Inr []"
| "tables_of_all de R db (n # ns) =
     and_then (cs_list_tables R db n) (\<lambda>ts.
     and_then (tables_of de R db n ts) (\<lambda>xs.
     and_then (tables_of_all de R db ns) (\<lambda>rest. Inr (xs @ rest))))"

definition list_all_tables :: "(bytes \<Rightarrow> string + 't) \<Rightarrow> 'r redb \<Rightarrow> 'r \<Rightarrow> rocks_store_error + (string \<times> 't) list" where
  "list_all_tables de R db = and_then (cs_list_databases R db) (tables_of_all de R db)"

end
