(* ===== verification/Errors.thy ===== *)
theory Errors
  imports Rust_Std
begin

section \<open>The error type of the server (crates/common/src/error.rs)\<close>

text \<open>
  \<open>DharnessError\<close> with its kinds, constructors and messages. An \<open>io::Error\<close> is its message.
  Every fallible operation of the catalog and of the stores returns \<open>dharness_error + 'a\<close>.
\<close>

datatype (plugins only: code size) storage_error = TabletNotFound | TabletAlreadyExists | FlushFailed | CompactionFailed
  | SegmentNotFound | RowsetNotFound | WriteFailed | ReadFailed | InvalidSchema | MemoryLimitExceeded

datatype (plugins only: code size) query_error = QueryNotFound | QueryTimeout | Cancelled | SyntaxError | ExecutionFailed
  | ResourceExhausted | InvalidPlan

datatype (plugins only: code size) catalog_error = DatabaseNotFound | DatabaseAlreadyExists | TableNotFound | TableAlreadyExists
  | InvalidName | PermissionDenied

datatype (plugins only: code size) parse_error_kind = InvalidSyntax | UnexpectedToken | InvalidLiteral | IncompleteStatement

datatype (plugins only: code size) plan_error = InvalidExpression | TypeMismatch | AmbiguousReference | UnsupportedOperation
  | InvalidJoin | InvalidAggregation

datatype (plugins only: code size) rpc_error = ConnectionFailed | RpcTimeout | ServiceUnavailable | InvalidRequest | InternalError

datatype (plugins only: code size) procedure_error =
    VariableNotDeclared string
  | ProcedureNotFound string
  | ProcedureAlreadyExists string
  | CursorNotDeclared string
  | CursorAlreadyDeclared string
  | CursorNotOpen string
  | LabelNotFound string
  | TypeConversion (tc_from: string) (tc_to: string)
  | ParameterMismatch (pm_expected: nat) (pm_got: nat)
  | MaxNestLevelExceeded nat
  | NoTransaction
  | ProcedureSyntaxError string
  | DivisionByZero
  | Raiserror (re_severity: nat) (re_state: nat) (re_message: string)
  | BreakContinueOutsideLoop
  | ReturnOutsideProcedure
  | OutputParamNotVariable string
  | TempTableError string

datatype (plugins only: code size) dharness_error =
    Io string
  | Storage storage_error "nat option" string
  | Query query_error "string option" string
  | Catalog catalog_error "string option" "string option" string
  | Parse parse_error_kind "nat option" string
  | Plan plan_error string
  | Rpc rpc_error "string option" string
  | Internal string
  | Procedure procedure_error
  | Tds string
  | TsqlParse string

subsection \<open>Messages\<close>

primrec show_storage_error :: "storage_error \<Rightarrow> string" where
  "show_storage_error TabletNotFound = ''tablet not found''"
| "show_storage_error TabletAlreadyExists = ''tablet already exists''"
| "show_storage_error FlushFailed = ''flush failed''"
| "show_storage_error CompactionFailed = ''compaction failed''"
| "show_storage_error SegmentNotFound = ''segment not found''"
| "show_storage_error RowsetNotFound = ''rowset not found''"
| "show_storage_error WriteFailed = ''write failed''"
| "show_storage_error ReadFailed = ''read failed''"
| "show_storage_error InvalidSchema = ''invalid schema''"
| "show_storage_error MemoryLimitExceeded = ''memory limit exceeded''"

primrec show_query_error :: "query_error \<Rightarrow> string" where
  "show_query_error QueryNotFound = ''not found''"
| "show_query_error QueryTimeout = ''timeout''"
| "show_query_error Cancelled = ''cancelled''"
| "show_query_error SyntaxError = ''syntax error''"
| "show_query_error ExecutionFailed = ''execution failed''"
| "show_query_error ResourceExhausted = ''resource exhausted''"
| "show_query_error InvalidPlan = ''invalid plan''"

primrec show_catalog_error :: "catalog_error \<Rightarrow> string" where
  "show_catalog_error DatabaseNotFound = ''database not found''"
| "show_catalog_error DatabaseAlreadyExists = ''database already exists''"
| "show_catalog_error TableNotFound = ''table not found''"
| "show_catalog_error TableAlreadyExists = ''table already exists''"
| "show_catalog_error InvalidName = ''invalid name''"
| "show_catalog_error PermissionDenied = ''permission denied''"

primrec show_parse_error :: "parse_error_kind \<Rightarrow> string" where
  "show_parse_error InvalidSyntax = ''invalid syntax''"
| "show_parse_error UnexpectedToken = ''unexpected token''"
| "show_parse_error InvalidLiteral = ''invalid literal''"
| "show_parse_error IncompleteStatement = ''incomplete statement''"

primrec show_plan_error :: "plan_error \<Rightarrow> string" where
  "show_plan_error InvalidExpression = ''invalid expression''"
| "show_plan_error TypeMismatch = ''type mismatch''"
| "show_plan_error AmbiguousReference = ''ambiguous reference''"
| "show_plan_error UnsupportedOperation = ''unsupported operation''"
| "show_plan_error InvalidJoin = ''invalid join''"
| "show_plan_error InvalidAggregation = ''invalid aggregation''"

primrec show_rpc_error :: "rpc_error \<Rightarrow> string" where
  "show_rpc_error ConnectionFailed = ''connection failed''"
| "show_rpc_error RpcTimeout = ''timeout''"
| "show_rpc_error ServiceUnavailable = ''service unavailable''"
| "show_rpc_error InvalidRequest = ''invalid request''"
| "show_rpc_error InternalError = ''internal error''"

primrec show_procedure_error :: "procedure_error \<Rightarrow> string" where
  "show_procedure_error (VariableNotDeclared s) = ''variable not declared: '' @ s"
| "show_procedure_error (ProcedureNotFound s) = ''procedure not found: '' @ s"
| "show_procedure_error (ProcedureAlreadyExists s) = ''procedure already exists: '' @ s"
| "show_procedure_error (CursorNotDeclared s) = ''cursor not declared: '' @ s"
| "show_procedure_error (CursorAlreadyDeclared s) = ''cursor already declared: '' @ s"
| "show_procedure_error (CursorNotOpen s) = ''cursor is not open: '' @ s"
| "show_procedure_error (LabelNotFound s) = ''label not found: '' @ s"
| "show_procedure_error (TypeConversion a b) = ''type conversion error: cannot convert '' @ a @ '' to '' @ b"
| "show_procedure_error (ParameterMismatch e g) =
     ''parameter mismatch: expected '' @ show_nat e @ '', got '' @ show_nat g"
| "show_procedure_error (MaxNestLevelExceeded n) = ''max nesting level ('' @ show_nat n @ '') exceeded''"
| "show_procedure_error NoTransaction = ''no active transaction''"
| "show_procedure_error (ProcedureSyntaxError s) = ''syntax error in procedure: '' @ s"
| "show_procedure_error DivisionByZero = ''division by zero''"
| "show_procedure_error (Raiserror sev st m) =
     ''user-raised error: severity='' @ show_nat sev @ '', state='' @ show_nat st @ '', message='' @ m"
| "show_procedure_error BreakContinueOutsideLoop = ''break or continue outside of loop''"
| "show_procedure_error ReturnOutsideProcedure = ''return outside procedure''"
| "show_procedure_error (OutputParamNotVariable s) = ''output parameter not a variable: '' @ s"
| "show_procedure_error (TempTableError s) = ''temp table error: '' @ s"

primrec show_dharness_error :: "dharness_error \<Rightarrow> string" where
  "show_dharness_error (Io e) = ''io error: '' @ e"
| "show_dharness_error (Storage k _ m) = ''storage error: '' @ show_storage_error k @ '' - '' @ m"
| "show_dharness_error (Query k _ m) = ''query error: '' @ show_query_error k @ '' - '' @ m"
| "show_dharness_error (Catalog k _ _ m) = ''catalog error: '' @ show_catalog_error k @ '' - '' @ m"
| "show_dharness_error (Parse k _ m) = ''parse error: '' @ show_parse_error k @ '' - '' @ m"
| "show_dharness_error (Plan k m) = ''plan error: '' @ show_plan_error k @ '' - '' @ m"
| "show_dharness_error (Rpc k _ m) = ''rpc error: '' @ show_rpc_error k @ '' - '' @ m"
| "show_dharness_error (Internal m) = ''internal error: '' @ m"
| "show_dharness_error (Procedure e) = ''procedure error: '' @ show_procedure_error e"
| "show_dharness_error (Tds m) = ''tds protocol error: '' @ m"
| "show_dharness_error (TsqlParse m) = ''tsql parse error: '' @ m"

subsection \<open>Constructors\<close>

definition storage_err :: "storage_error \<Rightarrow> string \<Rightarrow> dharness_error" where
  "storage_err kind message = Storage kind None message"

definition storage_with_tablet :: "storage_error \<Rightarrow> nat \<Rightarrow> string \<Rightarrow> dharness_error" where
  "storage_with_tablet kind tablet_id message = Storage kind (Some tablet_id) message"

definition query_err :: "query_error \<Rightarrow> string \<Rightarrow> dharness_error" where
  "query_err kind message = Query kind None message"

definition query_with_id :: "query_error \<Rightarrow> string \<Rightarrow> string \<Rightarrow> dharness_error" where
  "query_with_id kind query_id message = Query kind (Some query_id) message"

definition catalog_err :: "catalog_error \<Rightarrow> string \<Rightarrow> dharness_error" where
  "catalog_err kind message = Catalog kind None None message"

definition catalog_with_db :: "catalog_error \<Rightarrow> string \<Rightarrow> string \<Rightarrow> dharness_error" where
  "catalog_with_db kind database_name message = Catalog kind (Some database_name) None message"

definition catalog_with_table :: "catalog_error \<Rightarrow> string \<Rightarrow> string \<Rightarrow> string \<Rightarrow> dharness_error" where
  "catalog_with_table kind database_name table_name message =
     Catalog kind (Some database_name) (Some table_name) message"

definition parse_err :: "parse_error_kind \<Rightarrow> string \<Rightarrow> dharness_error" where
  "parse_err kind message = Parse kind None message"

definition parse_with_position :: "parse_error_kind \<Rightarrow> nat \<Rightarrow> string \<Rightarrow> dharness_error" where
  "parse_with_position kind position message = Parse kind (Some position) message"

definition plan_err :: "plan_error \<Rightarrow> string \<Rightarrow> dharness_error" where
  "plan_err kind message = Plan kind message"

definition rpc_err :: "rpc_error \<Rightarrow> string \<Rightarrow> dharness_error" where
  "rpc_err kind message = Rpc kind None message"

definition rpc_with_endpoint :: "rpc_error \<Rightarrow> string \<Rightarrow> string \<Rightarrow> dharness_error" where
  "rpc_with_endpoint kind endpoint message = Rpc kind (Some endpoint) message"

end
