(* ===== verification/FileSystem.thy ===== *)
theory FileSystem
  imports Rust_Std Smap
begin

section \<open>The file system\<close>

text \<open>
  What the catalog and the edit log use of \<open>std::fs\<close> and \<open>tokio::fs\<close>: the files are a map from
  paths to contents, a directory is what the paths below it make it, and \<open>io_lib\<close> says which
  operations the operating system refuses and with which message: creating a directory, opening a
  file for writing, reading a path and syncing a file. A write to a file that could be opened goes
  through.
\<close>

type_synonym files = "bytes smap"

record io_lib =
  io_create_dir :: "string \<Rightarrow> string option"
  io_write :: "string \<Rightarrow> string option"
  io_read :: "string \<Rightarrow> string option"
  io_sync :: "string \<Rightarrow> string option"

definition fs_create_dir_all :: "io_lib \<Rightarrow> string \<Rightarrow> string + unit" where
  "fs_create_dir_all io path = (case io_create_dir io path of Some e \<Rightarrow> Inl e | None \<Rightarrow> Inr ())"

definition fs_write :: "io_lib \<Rightarrow> files \<Rightarrow> string \<Rightarrow> bytes \<Rightarrow> string + files" where
  "fs_write io fs path data = (case io_write io path of Some e \<Rightarrow> Inl e | None \<Rightarrow> Inr (sm_put path data fs))"

definition fs_read_to_string :: "io_lib \<Rightarrow> files \<Rightarrow> string \<Rightarrow> string + string" where
  "fs_read_to_string io fs path =
     (case io_read io path of
        Some e \<Rightarrow> Inl e
      | None \<Rightarrow>
          (case sm_get fs path of
             None \<Rightarrow> Inl ''No such file or directory (os error 2)''
           | Some b \<Rightarrow> if valid_utf8 b then Inr b else Inl ''stream did not contain valid UTF-8''))"

definition fs_read :: "io_lib \<Rightarrow> files \<Rightarrow> string \<Rightarrow> string + bytes" where
  "fs_read io fs path =
     (case io_read io path of
        Some e \<Rightarrow> Inl e
      | None \<Rightarrow>
          (case sm_get fs path of
             None \<Rightarrow> Inl ''Is a directory (os error 21)''
           | Some b \<Rightarrow> Inr b))"

text \<open>The names in a directory, sorted: the first component after the path of the directory.\<close>

definition dir_names :: "files \<Rightarrow> string \<Rightarrow> string list" where
  "dir_names fs dir =
     sort (remdups (map (\<lambda>e. takeWhile (\<lambda>c. c \<noteq> CHR ''/'') (drop (length dir + 1) (fst e))) (sm_scan (dir @ ''/'') fs)))"

text \<open>\<open>split\<close> of a byte slice at every line feed.\<close>

fun split_lf :: "bytes \<Rightarrow> bytes list" where
  "split_lf [] = [[]]"
| "split_lf (c # cs) =
     (if c = LF then [] # split_lf cs
      else case split_lf cs of l # ls \<Rightarrow> (c # l) # ls | [] \<Rightarrow> [[c]])"

lemma split_lf_line: "LF \<notin> set l \<Longrightarrow> split_lf (l @ LF # r) = l # split_lf r"
  by (induction l) auto

end
