(* ===== verification/MetaBackend.thy ===== *)
theory MetaBackend
  imports CatalogTypes CatalogStore Errors FileSystem
begin

section \<open>Metadata backends (crates/fe-catalog/src/catalog.rs)\<close>

text \<open>
  The trait \<open>MetaBackend\<close> is the record of its methods over a backend state \<open>'b\<close>, which is what
  an \<open>Arc<dyn MetaBackend>\<close> is. A method that changes the backend returns its result and the
  state it leaves, also when it fails. The three implementations are \<open>json_backend\<close>,
  \<open>kv_backend\<close> and \<open>dual_backend\<close>. serde_json is a library: its functions are the fields of
  \<open>json_lib\<close>.
\<close>

subsection \<open>Configuration and the environment\<close>

record catalog_config =
  cfg_catalog_path :: string
  cfg_use_rocks_meta :: bool
  cfg_dual_write :: bool

definition catalog_config_default :: catalog_config where
  "catalog_config_default =
     \<lparr>cfg_catalog_path = ''data/fe/doris-meta'', cfg_use_rocks_meta = False, cfg_dual_write = False\<rparr>"

record catalog_state =
  st_databases :: "cat_database smap"
  st_materialized_views :: "materialized_view smap"
  st_procedures :: "stored_procedure smap"
  st_next_id :: nat

record json_lib =
  state_to_json :: "catalog_state \<Rightarrow> string + bytes"
  state_from_json :: "bytes \<Rightarrow> string + catalog_state"
  database_to_json :: "cat_database \<Rightarrow> string + bytes"
  database_from_json :: "bytes \<Rightarrow> string + cat_database"
  table_to_json :: "table \<Rightarrow> string + bytes"
  table_from_json :: "bytes \<Rightarrow> string + table"
  view_to_json :: "materialized_view \<Rightarrow> string + bytes"
  view_from_json :: "bytes \<Rightarrow> string + materialized_view"
  procedure_to_json :: "stored_procedure \<Rightarrow> string + bytes"
  procedure_from_json :: "bytes \<Rightarrow> string + stored_procedure"

subsection \<open>The trait\<close>

type_synonym ('b, 'a) effect = "(dharness_error + 'a) \<times> 'b"

record 'b meta_backend =
  mb_put_database :: "'b \<Rightarrow> string \<Rightarrow> cat_database \<Rightarrow> ('b, unit) effect"
  mb_get_database :: "'b \<Rightarrow> string \<Rightarrow> dharness_error + cat_database option"
  mb_delete_database :: "'b \<Rightarrow> string \<Rightarrow> ('b, unit) effect"
  mb_list_databases :: "'b \<Rightarrow> dharness_error + string list"
  mb_put_table :: "'b \<Rightarrow> string \<Rightarrow> string \<Rightarrow> table \<Rightarrow> ('b, unit) effect"
  mb_get_table :: "'b \<Rightarrow> string \<Rightarrow> string \<Rightarrow> dharness_error + table option"
  mb_delete_table :: "'b \<Rightarrow> string \<Rightarrow> string \<Rightarrow> ('b, unit) effect"
  mb_list_tables :: "'b \<Rightarrow> string \<Rightarrow> dharness_error + string list"
  mb_next_id :: "'b \<Rightarrow> ('b, nat) effect"
  mb_set_next_id :: "'b \<Rightarrow> nat \<Rightarrow> ('b, unit) effect"
  mb_get_next_id :: "'b \<Rightarrow> dharness_error + nat"
  mb_put_materialized_view :: "'b \<Rightarrow> string \<Rightarrow> string \<Rightarrow> materialized_view \<Rightarrow> ('b, unit) effect"
  mb_get_materialized_view :: "'b \<Rightarrow> string \<Rightarrow> string \<Rightarrow> dharness_error + materialized_view option"
  mb_delete_materialized_view :: "'b \<Rightarrow> string \<Rightarrow> string \<Rightarrow> ('b, unit) effect"
  mb_list_materialized_views :: "'b \<Rightarrow> string \<Rightarrow> dharness_error + materialized_view list"
  mb_put_procedure :: "'b \<Rightarrow> string \<Rightarrow> string \<Rightarrow> stored_procedure \<Rightarrow> ('b, unit) effect"
  mb_get_procedure :: "'b \<Rightarrow> string \<Rightarrow> string \<Rightarrow> dharness_error + stored_procedure option"
  mb_delete_procedure :: "'b \<Rightarrow> string \<Rightarrow> string \<Rightarrow> ('b, unit) effect"
  mb_list_procedures :: "'b \<Rightarrow> string \<Rightarrow> dharness_error + stored_procedure list"
  mb_flush :: "'b \<Rightarrow> ('b, unit) effect"
  mb_load :: "files \<Rightarrow> 'b \<Rightarrow> ('b, unit) effect"

definition dotted :: "string \<Rightarrow> string \<Rightarrow> string" where
  "dotted db_name name = db_name @ ''.'' @ name"

subsection \<open>The JSON backend\<close>

record json_meta =
  jm_catalog_path :: string
  jm_databases :: "cat_database smap"
  jm_materialized_views :: "materialized_view smap"
  jm_procedures :: "stored_procedure smap"
  jm_next_id :: nat

definition json_new :: "string \<Rightarrow> json_meta" where
  "json_new path =
     \<lparr>jm_catalog_path = path, jm_databases = [], jm_materialized_views = [], jm_procedures = [], jm_next_id = 1\<rparr>"

definition catalog_file :: "json_meta \<Rightarrow> string" where
  "catalog_file b = jm_catalog_path b @ ''/catalog.json''"

definition json_put_database :: "json_meta \<Rightarrow> string \<Rightarrow> cat_database \<Rightarrow> (json_meta, unit) effect" where
  "json_put_database b name db = (Inr (), b\<lparr>jm_databases := sm_put name db (jm_databases b)\<rparr>)"

definition json_get_database :: "json_meta \<Rightarrow> string \<Rightarrow> dharness_error + cat_database option" where
  "json_get_database b name = Inr (sm_get (jm_databases b) name)"

definition json_delete_database :: "json_meta \<Rightarrow> string \<Rightarrow> (json_meta, unit) effect" where
  "json_delete_database b name = (Inr (), b\<lparr>jm_databases := sm_del name (jm_databases b)\<rparr>)"

definition json_list_databases :: "json_meta \<Rightarrow> dharness_error + string list" where
  "json_list_databases b = Inr (map fst (jm_databases b))"

definition json_put_table :: "json_meta \<Rightarrow> string \<Rightarrow> string \<Rightarrow> table \<Rightarrow> (json_meta, unit) effect" where
  "json_put_table b db_name table_name t =
     (case sm_get (jm_databases b) db_name of
        Some db \<Rightarrow> (Inr (), b\<lparr>jm_databases := sm_put db_name (db_add_table db t) (jm_databases b)\<rparr>)
      | None \<Rightarrow> (Inr (), b))"

definition json_get_table :: "json_meta \<Rightarrow> string \<Rightarrow> string \<Rightarrow> dharness_error + table option" where
  "json_get_table b db_name table_name =
     Inr (case sm_get (jm_databases b) db_name of Some db \<Rightarrow> db_get_table db table_name | None \<Rightarrow> None)"

definition json_delete_table :: "json_meta \<Rightarrow> string \<Rightarrow> string \<Rightarrow> (json_meta, unit) effect" where
  "json_delete_table b db_name table_name =
     (case sm_get (jm_databases b) db_name of
        Some db \<Rightarrow> (Inr (), b\<lparr>jm_databases := sm_put db_name (snd (db_drop_table db table_name)) (jm_databases b)\<rparr>)
      | None \<Rightarrow> (Inr (), b))"

definition json_list_tables :: "json_meta \<Rightarrow> string \<Rightarrow> dharness_error + string list" where
  "json_list_tables b db_name =
     Inr (case sm_get (jm_databases b) db_name of Some db \<Rightarrow> db_table_names db | None \<Rightarrow> [])"

definition json_next_id :: "json_meta \<Rightarrow> (json_meta, nat) effect" where
  "json_next_id b = (Inr (jm_next_id b), b\<lparr>jm_next_id := (jm_next_id b + 1) mod 2 ^ 64\<rparr>)"

definition json_set_next_id :: "json_meta \<Rightarrow> nat \<Rightarrow> (json_meta, unit) effect" where
  "json_set_next_id b val = (Inr (), b\<lparr>jm_next_id := val\<rparr>)"

definition json_get_next_id :: "json_meta \<Rightarrow> dharness_error + nat" where
  "json_get_next_id b = Inr (jm_next_id b)"

definition json_put_materialized_view :: "json_meta \<Rightarrow> string \<Rightarrow> string \<Rightarrow> materialized_view \<Rightarrow> (json_meta, unit) effect" where
  "json_put_materialized_view b db_name name mv =
     (Inr (), b\<lparr>jm_materialized_views := sm_put (dotted db_name name) mv (jm_materialized_views b)\<rparr>)"

definition json_get_materialized_view :: "json_meta \<Rightarrow> string \<Rightarrow> string \<Rightarrow> dharness_error + materialized_view option" where
  "json_get_materialized_view b db_name name = Inr (sm_get (jm_materialized_views b) (dotted db_name name))"

definition json_delete_materialized_view :: "json_meta \<Rightarrow> string \<Rightarrow> string \<Rightarrow> (json_meta, unit) effect" where
  "json_delete_materialized_view b db_name name =
     (Inr (), b\<lparr>jm_materialized_views := sm_del (dotted db_name name) (jm_materialized_views b)\<rparr>)"

definition json_list_materialized_views :: "json_meta \<Rightarrow> string \<Rightarrow> dharness_error + materialized_view list" where
  "json_list_materialized_views b db_name = Inr (map snd (sm_scan (db_name @ ''.'') (jm_materialized_views b)))"

definition json_put_procedure :: "json_meta \<Rightarrow> string \<Rightarrow> string \<Rightarrow> stored_procedure \<Rightarrow> (json_meta, unit) effect" where
  "json_put_procedure b db_name name p =
     (Inr (), b\<lparr>jm_procedures := sm_put (dotted db_name name) p (jm_procedures b)\<rparr>)"

definition json_get_procedure :: "json_meta \<Rightarrow> string \<Rightarrow> string \<Rightarrow> dharness_error + stored_procedure option" where
  "json_get_procedure b db_name name = Inr (sm_get (jm_procedures b) (dotted db_name name))"

definition json_delete_procedure :: "json_meta \<Rightarrow> string \<Rightarrow> string \<Rightarrow> (json_meta, unit) effect" where
  "json_delete_procedure b db_name name =
     (Inr (), b\<lparr>jm_procedures := sm_del (dotted db_name name) (jm_procedures b)\<rparr>)"

definition json_list_procedures :: "json_meta \<Rightarrow> string \<Rightarrow> dharness_error + stored_procedure list" where
  "json_list_procedures b db_name = Inr (map snd (sm_scan (db_name @ ''.'') (jm_procedures b)))"

definition json_flush :: "json_meta \<Rightarrow> (json_meta, unit) effect" where
  "json_flush b = (Inr (), b)"

definition json_load :: "json_lib \<Rightarrow> io_lib \<Rightarrow> files \<Rightarrow> json_meta \<Rightarrow> (json_meta, unit) effect" where
  "json_load J io fs b =
     (if sm_get fs (catalog_file b) = None then (Inr (), b)
      else case fs_read_to_string io fs (catalog_file b) of
          Inl e \<Rightarrow> (Inl (Io e), b)
        | Inr contents \<Rightarrow>
            (case state_from_json J contents of
               Inl e \<Rightarrow> (Inl (Internal e), b)
             | Inr st \<Rightarrow>
                 (Inr (), b\<lparr>jm_databases := sm_puts (st_databases st) (jm_databases b),
                            jm_materialized_views := sm_puts (st_materialized_views st) (jm_materialized_views b),
                            jm_procedures := sm_puts (st_procedures st) (jm_procedures b),
                            jm_next_id := st_next_id st\<rparr>)))"

definition json_save :: "json_lib \<Rightarrow> io_lib \<Rightarrow> files \<Rightarrow> json_meta \<Rightarrow> dharness_error + files" where
  "json_save J io fs b =
     (let st = \<lparr>st_databases = jm_databases b, st_materialized_views = jm_materialized_views b,
                st_procedures = jm_procedures b, st_next_id = jm_next_id b\<rparr>
      in and_then (map_err Internal (state_to_json J st)) (\<lambda>json.
         and_then (map_err Io (fs_create_dir_all io (jm_catalog_path b))) (\<lambda>_.
         map_err Io (fs_write io fs (catalog_file b) json))))"

definition json_backend :: "json_lib \<Rightarrow> io_lib \<Rightarrow> json_meta meta_backend" where
  "json_backend J io =
     \<lparr>mb_put_database = json_put_database, mb_get_database = json_get_database,
      mb_delete_database = json_delete_database, mb_list_databases = json_list_databases,
      mb_put_table = json_put_table, mb_get_table = json_get_table,
      mb_delete_table = json_delete_table, mb_list_tables = json_list_tables,
      mb_next_id = json_next_id, mb_set_next_id = json_set_next_id, mb_get_next_id = json_get_next_id,
      mb_put_materialized_view = json_put_materialized_view, mb_get_materialized_view = json_get_materialized_view,
      mb_delete_materialized_view = json_delete_materialized_view, mb_list_materialized_views = json_list_materialized_views,
      mb_put_procedure = json_put_procedure, mb_get_procedure = json_get_procedure,
      mb_delete_procedure = json_delete_procedure, mb_list_procedures = json_list_procedures,
      mb_flush = json_flush, mb_load = json_load J io\<rparr>"

end
