(* ===== verification/KvBackend.thy ===== *)
theory KvBackend
  imports MetaBackend
begin

section \<open>The key-value and the dual-write backend (crates/fe-catalog/src/catalog.rs)\<close>

text \<open>
  \<open>kv_backend\<close> keeps databases, tables, views and procedures as JSON values of the catalog
  store; \<open>dual_backend\<close> writes to two backends, reads from the first and ignores the failures
  of the second.
\<close>

subsection \<open>The key-value backend\<close>

definition kv_error :: "rocks_store_error \<Rightarrow> dharness_error" where
  "kv_error e = Internal (''KV store error: '' @ show_rocks_store_error e)"

text \<open>The effect of a store operation, and of one whose argument is serialised first.\<close>

definition kv_effect :: "'r \<Rightarrow> rocks_store_error + 'r \<Rightarrow> ('r, unit) effect" where
  "kv_effect b r = (case r of Inl e \<Rightarrow> (Inl (kv_error e), b) | Inr b' \<Rightarrow> (Inr (), b'))"

definition kv_serialized :: "string + bytes \<Rightarrow> 'r \<Rightarrow> (bytes \<Rightarrow> rocks_store_error + 'r) \<Rightarrow> ('r, unit) effect" where
  "kv_serialized s b put =
     (case s of
        Inl e \<Rightarrow> (Inl (Internal (''Serialization error: '' @ e)), b)
      | Inr data \<Rightarrow> kv_effect b (put data))"

definition kv_deserialized :: "(bytes \<Rightarrow> string + 'a) \<Rightarrow> rocks_store_error + bytes option \<Rightarrow> dharness_error + 'a option" where
  "kv_deserialized de r =
     and_then (map_err kv_error r) (\<lambda>data.
       case data of
         None \<Rightarrow> Inr None
       | Some d \<Rightarrow> map_ok Some (map_err (\<lambda>e. Internal (''Deserialization error: '' @ e)) (de d)))"

text \<open>The values under the keys with a prefix; a value that does not parse is skipped.\<close>

fun kv_values :: "(bytes \<Rightarrow> string + 'a) \<Rightarrow> 'r redb \<Rightarrow> 'r \<Rightarrow> string list \<Rightarrow> dharness_error + 'a list" where
  "kv_values de R b [] = Inr []"
| "kv_values de R b (key # keys) =
     and_then (map_err kv_error (cs_get_raw R b key)) (\<lambda>data.
     and_then (kv_values de R b keys) (\<lambda>rest.
       Inr (case data of
              None \<Rightarrow> rest
            | Some d \<Rightarrow> (case de d of Inr x \<Rightarrow> x # rest | Inl _ \<Rightarrow> rest))))"

definition kv_new :: "'r redb \<Rightarrow> 'r \<Rightarrow> dharness_error + 'r" where
  "kv_new R db =
     map_err (\<lambda>e. Internal (''Failed to open KV store: '' @ show_rocks_store_error e)) (store_open R db)"

definition kv_put_database :: "json_lib \<Rightarrow> 'r redb \<Rightarrow> 'r \<Rightarrow> string \<Rightarrow> cat_database \<Rightarrow> ('r, unit) effect" where
  "kv_put_database J R b name db = kv_serialized (database_to_json J db) b (cs_put_database_raw R b name)"

definition kv_get_database :: "json_lib \<Rightarrow> 'r redb \<Rightarrow> 'r \<Rightarrow> string \<Rightarrow> dharness_error + cat_database option" where
  "kv_get_database J R b name = kv_deserialized (database_from_json J) (cs_get_database_raw R b name)"

definition kv_delete_database :: "'r redb \<Rightarrow> 'r \<Rightarrow> string \<Rightarrow> ('r, unit) effect" where
  "kv_delete_database R b name = (case cs_delete_database R b name of (r, b') \<Rightarrow> (map_err kv_error r, b'))"

definition kv_list_databases :: "'r redb \<Rightarrow> 'r \<Rightarrow> dharness_error + string list" where
  "kv_list_databases R b = map_err kv_error (cs_list_databases R b)"

definition kv_put_table :: "json_lib \<Rightarrow> 'r redb \<Rightarrow> 'r \<Rightarrow> string \<Rightarrow> string \<Rightarrow> table \<Rightarrow> ('r, unit) effect" where
  "kv_put_table J R b db_name table_name t =
     kv_serialized (table_to_json J t) b (cs_put_table_raw R b db_name table_name)"

definition kv_get_table :: "json_lib \<Rightarrow> 'r redb \<Rightarrow> 'r \<Rightarrow> string \<Rightarrow> string \<Rightarrow> dharness_error + table option" where
  "kv_get_table J R b db_name table_name =
     kv_deserialized (table_from_json J) (cs_get_table_raw R b db_name table_name)"

definition kv_delete_table :: "'r redb \<Rightarrow> 'r \<Rightarrow> string \<Rightarrow> string \<Rightarrow> ('r, unit) effect" where
  "kv_delete_table R b db_name table_name = kv_effect b (cs_delete_table R b db_name table_name)"

definition kv_list_tables :: "'r redb \<Rightarrow> 'r \<Rightarrow> string \<Rightarrow> dharness_error + string list" where
  "kv_list_tables R b db_name = map_err kv_error (cs_list_tables R b db_name)"

definition kv_next_id :: "'r redb \<Rightarrow> 'r \<Rightarrow> ('r, nat) effect" where
  "kv_next_id R b = (case cs_next_id R b of Inl e \<Rightarrow> (Inl (kv_error e), b) | Inr (i, b') \<Rightarrow> (Inr i, b'))"

definition kv_set_next_id :: "'r redb \<Rightarrow> 'r \<Rightarrow> nat \<Rightarrow> ('r, unit) effect" where
  "kv_set_next_id R b val = kv_effect b (cs_set_next_id R b val)"

definition kv_get_next_id :: "'r redb \<Rightarrow> 'r \<Rightarrow> dharness_error + nat" where
  "kv_get_next_id R b = map_err kv_error (cs_get_next_id R b)"

definition kv_put_materialized_view :: "json_lib \<Rightarrow> 'r redb \<Rightarrow> 'r \<Rightarrow> string \<Rightarrow> string \<Rightarrow> materialized_view \<Rightarrow> ('r, unit) effect" where
  "kv_put_materialized_view J R b db_name name mv =
     kv_serialized (view_to_json J mv) b (cs_put_raw R b (''mv:'' @ dotted db_name name))"

definition kv_get_materialized_view :: "json_lib \<Rightarrow> 'r redb \<Rightarrow> 'r \<Rightarrow> string \<Rightarrow> string \<Rightarrow> dharness_error + materialized_view option" where
  "kv_get_materialized_view J R b db_name name =
     kv_deserialized (view_from_json J) (cs_get_raw R b (''mv:'' @ dotted db_name name))"

definition kv_delete_materialized_view :: "'r redb \<Rightarrow> 'r \<Rightarrow> string \<Rightarrow> string \<Rightarrow> ('r, unit) effect" where
  "kv_delete_materialized_view R b db_name name = kv_effect b (cs_delete_raw R b (''mv:'' @ dotted db_name name))"

definition kv_list_materialized_views :: "json_lib \<Rightarrow> 'r redb \<Rightarrow> 'r \<Rightarrow> string \<Rightarrow> dharness_error + materialized_view list" where
  "kv_list_materialized_views J R b db_name =
     and_then (map_err kv_error (cs_list_keys_with_prefix_str R b (''mv:'' @ db_name @ ''.'')))
       (kv_values (view_from_json J) R b)"

definition kv_put_procedure :: "json_lib \<Rightarrow> 'r redb \<Rightarrow> 'r \<Rightarrow> string \<Rightarrow> string \<Rightarrow> stored_procedure \<Rightarrow> ('r, unit) effect" where
  "kv_put_procedure J R b db_name name p =
     kv_serialized (procedure_to_json J p) b (cs_put_raw R b (''proc:'' @ dotted db_name name))"

definition kv_get_procedure :: "json_lib \<Rightarrow> 'r redb \<Rightarrow> 'r \<Rightarrow> string \<Rightarrow> string \<Rightarrow> dharness_error + stored_procedure option" where
  "kv_get_procedure J R b db_name name =
     kv_deserialized (procedure_from_json J) (cs_get_raw R b (''proc:'' @ dotted db_name name))"

definition kv_delete_procedure :: "'r redb \<Rightarrow> 'r \<Rightarrow> string \<Rightarrow> string \<Rightarrow> ('r, unit) effect" where
  "kv_delete_procedure R b db_name name = kv_effect b (cs_delete_raw R b (''proc:'' @ dotted db_name name))"

definition kv_list_procedures :: "json_lib \<Rightarrow> 'r redb \<Rightarrow> 'r \<Rightarrow> string \<Rightarrow> dharness_error + stored_procedure list" where
  "kv_list_procedures J R b db_name =
     and_then (map_err kv_error (cs_list_keys_with_prefix_str R b (''proc:'' @ db_name @ ''.'')))
       (kv_values (procedure_from_json J) R b)"

definition kv_flush :: "'r redb \<Rightarrow> 'r \<Rightarrow> ('r, unit) effect" where
  "kv_flush R b = (map_err kv_error (cs_flush R b), b)"

definition kv_load :: "files \<Rightarrow> 'r \<Rightarrow> ('r, unit) effect" where
  "kv_load fs b = (Inr (), b)"

definition kv_backend :: "json_lib \<Rightarrow> 'r redb \<Rightarrow> 'r meta_backend" where
  "kv_backend J R =
     \<lparr>mb_put_database = kv_put_database J R, mb_get_database = kv_get_database J R,
      mb_delete_database = kv_delete_database R, mb_list_databases = kv_list_databases R,
      mb_put_table = kv_put_table J R, mb_get_table = kv_get_table J R,
      mb_delete_table = kv_delete_table R, mb_list_tables = kv_list_tables R,
      mb_next_id = kv_next_id R, mb_set_next_id = kv_set_next_id R, mb_get_next_id = kv_get_next_id R,
      mb_put_materialized_view = kv_put_materialized_view J R, mb_get_materialized_view = kv_get_materialized_view J R,
      mb_delete_materialized_view = kv_delete_materialized_view R, mb_list_materialized_views = kv_list_materialized_views J R,
      mb_put_procedure = kv_put_procedure J R, mb_get_procedure = kv_get_procedure J R,
      mb_delete_procedure = kv_delete_procedure R, mb_list_procedures = kv_list_procedures J R,
      mb_flush = kv_flush R, mb_load = kv_load\<rparr>"

subsection \<open>The dual-write backend\<close>

text \<open>A write: the primary first, whose error is returned; then the secondary, whose error is only
  logged.\<close>

definition dual_write :: "('a, unit) effect \<Rightarrow> ('b, unit) effect \<Rightarrow> 'b \<Rightarrow> ('a \<times> 'b, unit) effect" where
  "dual_write primary secondary b =
     (case primary of
        (Inl e, p') \<Rightarrow> (Inl e, (p', b))
      | (Inr _, p') \<Rightarrow> (Inr (), (p', snd secondary)))"

definition dual_next_id :: "'a meta_backend \<Rightarrow> 'b meta_backend \<Rightarrow> 'a \<times> 'b \<Rightarrow> ('a \<times> 'b, nat) effect" where
  "dual_next_id P S b =
     (case mb_next_id P (fst b) of
        (Inl e, p') \<Rightarrow> (Inl e, (p', snd b))
      | (Inr i, p') \<Rightarrow> (Inr i, (p', snd (mb_set_next_id S (snd b) ((i + 1) mod 2 ^ 64)))))"

definition dual_backend :: "'a meta_backend \<Rightarrow> 'b meta_backend \<Rightarrow> ('a \<times> 'b) meta_backend" where
  "dual_backend P S =
     \<lparr>mb_put_database = (\<lambda>b name db. dual_write (mb_put_database P (fst b) name db) (mb_put_database S (snd b) name db) (snd b)),
      mb_get_database = (\<lambda>b. mb_get_database P (fst b)),
      mb_delete_database = (\<lambda>b name. dual_write (mb_delete_database P (fst b) name) (mb_delete_database S (snd b) name) (snd b)),
      mb_list_databases = (\<lambda>b. mb_list_databases P (fst b)),
      mb_put_table = (\<lambda>b db_name table_name t.
        dual_write (mb_put_table P (fst b) db_name table_name t) (mb_put_table S (snd b) db_name table_name t) (snd b)),
      mb_get_table = (\<lambda>b. mb_get_table P (fst b)),
      mb_delete_table = (\<lambda>b db_name table_name.
        dual_write (mb_delete_table P (fst b) db_name table_name) (mb_delete_table S (snd b) db_name table_name) (snd b)),
      mb_list_tables = (\<lambda>b. mb_list_tables P (fst b)),
      mb_next_id = dual_next_id P S,
      mb_set_next_id = (\<lambda>b val. dual_write (mb_set_next_id P (fst b) val) (mb_set_next_id S (snd b) val) (snd b)),
      mb_get_next_id = (\<lambda>b. mb_get_next_id P (fst b)),
      mb_put_materialized_view = (\<lambda>b db_name name mv.
        dual_write (mb_put_materialized_view P (fst b) db_name name mv) (mb_put_materialized_view S (snd b) db_name name mv) (snd b)),
      mb_get_materialized_view = (\<lambda>b. mb_get_materialized_view P (fst b)),
      mb_delete_materialized_view = (\<lambda>b db_name name.
        dual_write (mb_delete_materialized_view P (fst b) db_name name) (mb_delete_materialized_view S (snd b) db_name name) (snd b)),
      mb_list_materialized_views = (\<lambda>b. mb_list_materialized_views P (fst b)),
      mb_put_procedure = (\<lambda>b db_name name p.
        dual_write (mb_put_procedure P (fst b) db_name name p) (mb_put_procedure S (snd b) db_name name p) (snd b)),
      mb_get_procedure = (\<lambda>b. mb_get_procedure P (fst b)),
      mb_delete_procedure = (\<lambda>b db_name name.
        dual_write (mb_delete_procedure P (fst b) db_name name) (mb_delete_procedure S (snd b) db_name name) (snd b)),
      mb_list_procedures = (\<lambda>b. mb_list_procedures P (fst b)),
      mb_flush = (\<lambda>b. dual_write (mb_flush P (fst b)) (mb_flush S (snd b)) (snd b)),
      mb_load = (\<lambda>fs b. dual_write (mb_load P fs (fst b)) (mb_load S fs (snd b)) (snd b))\<rparr>"

end
