(* ===== verification/EditLog.thy ===== *)
theory EditLog
  imports FileSystem Errors
begin

section \<open>The edit log (crates/fe-common/src/edit_log.rs)\<close>

text \<open>
  The log of catalog operations: appended in memory, flushed to one file per flush, replayed from
  the files of the log directory at start-up. The JSON of an entry is written and read by
  serde_json: the arguments \<open>ser\<close> and \<open>de\<close>. Counters are \<open>u64\<close> and wrap.
\<close>

datatype op_type =
    OpCreateDatabase | OpDropDatabase | OpCreateTable | OpDropTable | OpAlterDatabase | OpAlterTable
  | OpCreateTablet | OpDropTablet | OpAlterTablet
  | OpAddBackend | OpRemoveBackend
  | OpUpdateStats

record edit_log_entry =
  ee_term :: nat
  ee_index :: nat
  ee_op_type :: op_type
  ee_data :: bytes

record edit_log =
  el_entries :: "edit_log_entry list"
  el_last_applied_index :: nat
  el_current_term :: nat
  el_voted_for :: "nat option"
  el_log_path :: string

definition log_new :: "string \<Rightarrow> edit_log" where
  "log_new log_dir =
     \<lparr>el_entries = [], el_last_applied_index = 0, el_current_term = 0, el_voted_for = None, el_log_path = log_dir\<rparr>"

definition log_append :: "edit_log \<Rightarrow> op_type \<Rightarrow> bytes \<Rightarrow> nat \<times> edit_log" where
  "log_append l op data =
     (let term = (el_current_term l + 1) mod 2 ^ 64;
          index = (length (el_entries l) + el_last_applied_index l + 1) mod 2 ^ 64;
          entry = \<lparr>ee_term = term, ee_index = index, ee_op_type = op, ee_data = data\<rparr>
      in (index, l\<lparr>el_entries := el_entries l @ [entry], el_current_term := term\<rparr>))"

definition log_file :: "edit_log \<Rightarrow> string" where
  "log_file l = el_log_path l @ ''/edit_log_'' @ show_nat (el_last_applied_index l) @ ''.json''"

text \<open>The lines written so far, and the error that stopped the loop, if any.\<close>

fun log_lines :: "(edit_log_entry \<Rightarrow> string + bytes) \<Rightarrow> edit_log_entry list \<Rightarrow> string option \<times> bytes" where
  "log_lines ser [] = (None, [])"
| "log_lines ser (e # es) =
     (case ser e of
        Inl err \<Rightarrow> (Some err, [])
      | Inr line \<Rightarrow> (case log_lines ser es of (r, rest) \<Rightarrow> (r, line @ [LF] @ rest)))"

definition log_flush :: "(edit_log_entry \<Rightarrow> string + bytes) \<Rightarrow> io_lib \<Rightarrow> files \<Rightarrow> edit_log \<Rightarrow>
    (dharness_error + unit) \<times> files \<times> edit_log" where
  "log_flush ser io fs l =
     (if el_entries l = [] then (Inr (), fs, l)
      else let path = log_file l
           in case io_write io path of
                Some e \<Rightarrow> (Inl (Io e), fs, l)
              | None \<Rightarrow>
                  (case log_lines ser (el_entries l) of
                     (Some e, written) \<Rightarrow> (Inl (Internal e), sm_put path written fs, l)
                   | (None, written) \<Rightarrow>
                       (let fs' = sm_put path written fs
                        in case io_sync io path of
                             Some e \<Rightarrow> (Inl (Internal (''Failed to sync edit log: '' @ e)), fs', l)
                           | None \<Rightarrow>
                               (Inr (), fs', l\<lparr>el_last_applied_index := ee_index (last (el_entries l)),
                                              el_entries := []\<rparr>))))"

definition replay_line :: "(bytes \<Rightarrow> string + edit_log_entry) \<Rightarrow> bytes \<Rightarrow> edit_log \<Rightarrow> edit_log" where
  "replay_line de line l =
     (if line = [] then l
      else case de line of
          Inl _ \<Rightarrow> l
        | Inr entry \<Rightarrow> l\<lparr>el_last_applied_index := ee_index entry, el_entries := el_entries l @ [entry]\<rparr>)"

fun replay_paths :: "(bytes \<Rightarrow> string + edit_log_entry) \<Rightarrow> io_lib \<Rightarrow> files \<Rightarrow> string list \<Rightarrow> edit_log \<Rightarrow>
    (dharness_error + unit) \<times> edit_log" where
  "replay_paths de io fs [] l = (Inr (), l)"
| "replay_paths de io fs (p # ps) l =
     (case fs_read io fs p of
        Inl e \<Rightarrow> (Inl (Io e), l)
      | Inr data \<Rightarrow> replay_paths de io fs ps (fold (replay_line de) (split_lf data) l))"

definition log_replay :: "(bytes \<Rightarrow> string + edit_log_entry) \<Rightarrow> io_lib \<Rightarrow> files \<Rightarrow> edit_log \<Rightarrow>
    (dharness_error + unit) \<times> edit_log" where
  "log_replay de io fs l =
     replay_paths de io fs (map (\<lambda>n. el_log_path l @ ''/'' @ n) (dir_names fs (el_log_path l))) l"

definition get_entry :: "edit_log \<Rightarrow> nat \<Rightarrow> edit_log_entry option" where
  "get_entry l index = List.find (\<lambda>e. ee_index e = index) (el_entries l)"

end
