(* ===== verification/CatalogManager.thy ===== *)
theory CatalogManager
  imports KvBackend EditLog
begin

section \<open>The catalog manager and its writer (crates/fe-catalog/src/catalog.rs)\<close>

text \<open>
  \<open>CatalogManager\<close> keeps the catalog in memory and hands every change to its backend, the argument
  \<open>B\<close>; \<open>CatalogWriter\<close> puts every change into the edit log first; \<open>replay_edit_log\<close> applies a
  log to a catalog. The concurrent maps of the manager are accessed one operation at a time.
\<close>

record 'b catalog_manager =
  cm_databases :: "cat_database smap"
  cm_materialized_views :: "materialized_view smap"
  cm_procedures :: "stored_procedure smap"
  cm_next_id :: nat
  cm_catalog_path :: string
  cm_backend :: 'b
  cm_backend_type :: string

subsection \<open>Construction\<close>

definition manager_on :: "string \<Rightarrow> 'b \<Rightarrow> string \<Rightarrow> 'b catalog_manager" where
  "manager_on path backend type_name =
     \<lparr>cm_databases = [(''information_schema'', database_new 0 ''information_schema'')],
      cm_materialized_views = [], cm_procedures = [], cm_next_id = 1, cm_catalog_path = path,
      cm_backend = backend, cm_backend_type = type_name\<rparr>"

text \<open>The constructor with a configuration; the failure of the key-value store is a panic, \<open>None\<close>.
  The argument \<open>disk\<close> gives the database stored under a path.\<close>

definition with_config :: "'r redb \<Rightarrow> (string \<Rightarrow> 'r) \<Rightarrow> catalog_config \<Rightarrow>
    (json_meta catalog_manager + 'r catalog_manager) option" where
  "with_config R disk cfg =
     (if cfg_use_rocks_meta cfg then
        (case kv_new R (disk (cfg_catalog_path cfg @ ''/kvstore'')) of
           Inl _ \<Rightarrow> None
         | Inr b \<Rightarrow> Some (Inr (manager_on (cfg_catalog_path cfg) b ''kvstore'')))
      else Some (Inl (manager_on (cfg_catalog_path cfg) (json_new (cfg_catalog_path cfg)) ''json'')))"

definition with_path :: "string \<Rightarrow> json_meta catalog_manager" where
  "with_path path = manager_on path (json_new path) ''json''"

definition cm_new :: "json_meta catalog_manager" where
  "cm_new = with_path (cfg_catalog_path catalog_config_default)"

definition with_dual_write :: "'r redb \<Rightarrow> (string \<Rightarrow> 'r) \<Rightarrow> string \<Rightarrow> (json_meta \<times> 'r) catalog_manager option" where
  "with_dual_write R disk path =
     (case kv_new R (disk (path @ ''/kvstore'')) of
        Inl _ \<Rightarrow> None
      | Inr b \<Rightarrow> Some (manager_on path (json_new path, b) ''dual-write''))"

subsection \<open>Databases\<close>

definition create_database :: "'b meta_backend \<Rightarrow> io_lib \<Rightarrow> 'b catalog_manager \<Rightarrow> string \<Rightarrow> ('b catalog_manager, unit) effect" where
  "create_database B io cm name =
     (if sm_get (cm_databases cm) name \<noteq> None then
        (Inl (catalog_err DatabaseAlreadyExists (''database '' @ quoted name @ '' already exists'')), cm)
      else case fs_create_dir_all io (cm_catalog_path cm) of
          Inl e \<Rightarrow> (Inl (Internal (''Failed to create catalog directory: '' @ e)), cm)
        | Inr _ \<Rightarrow>
            (let i = cm_next_id cm;
                 cm = cm\<lparr>cm_next_id := (i + 1) mod 2 ^ 64\<rparr>;
                 db = database_new i name
             in case mb_put_database B (cm_backend cm) name db of
                  (Inl e, b) \<Rightarrow> (Inl e, cm\<lparr>cm_backend := b\<rparr>)
                | (Inr _, b) \<Rightarrow> (Inr (), cm\<lparr>cm_backend := b, cm_databases := sm_put name db (cm_databases cm)\<rparr>)))"

definition drop_database :: "'b meta_backend \<Rightarrow> 'b catalog_manager \<Rightarrow> string \<Rightarrow> ('b catalog_manager, unit) effect" where
  "drop_database B cm name =
     (case sm_get (cm_databases cm) name of
        None \<Rightarrow> (Inl (catalog_err DatabaseNotFound (''database '' @ quoted name @ '' not found'')), cm)
      | Some _ \<Rightarrow>
          (let cm = cm\<lparr>cm_databases := sm_del name (cm_databases cm)\<rparr>
           in case mb_delete_database B (cm_backend cm) name of (r, b) \<Rightarrow> (r, cm\<lparr>cm_backend := b\<rparr>)))"

definition cm_list_databases :: "'b catalog_manager \<Rightarrow> string list" where
  "cm_list_databases cm = map fst (cm_databases cm)"

definition cm_get_database :: "'b catalog_manager \<Rightarrow> string \<Rightarrow> cat_database option" where
  "cm_get_database cm name = sm_get (cm_databases cm) name"

definition cm_fetch_id :: "'b catalog_manager \<Rightarrow> nat \<times> 'b catalog_manager" where
  "cm_fetch_id cm = (cm_next_id cm, cm\<lparr>cm_next_id := (cm_next_id cm + 1) mod 2 ^ 64\<rparr>)"

subsection \<open>Tables\<close>

definition database_missing :: "string \<Rightarrow> dharness_error" where
  "database_missing db_name = catalog_err DatabaseNotFound (''database '' @ quoted db_name @ '' not found'')"

definition create_table :: "'b meta_backend \<Rightarrow> 'b catalog_manager \<Rightarrow> string \<Rightarrow> table \<Rightarrow> ('b catalog_manager, unit) effect" where
  "create_table B cm db_name t =
     (case sm_get (cm_databases cm) db_name of
        None \<Rightarrow> (Inl (database_missing db_name), cm)
      | Some db \<Rightarrow>
          if db_get_table db (tb_name t) \<noteq> None then
            (Inl (catalog_err TableAlreadyExists (''table '' @ quoted (dotted db_name (tb_name t)) @ '' already exists'')), cm)
          else case mb_put_table B (cm_backend cm) db_name (tb_name t) t of
              (Inl e, b) \<Rightarrow> (Inl e, cm\<lparr>cm_backend := b\<rparr>)
            | (Inr _, b) \<Rightarrow>
                (Inr (), cm\<lparr>cm_backend := b, cm_databases := sm_put db_name (db_add_table db t) (cm_databases cm)\<rparr>))"

definition update_table :: "'b meta_backend \<Rightarrow> 'b catalog_manager \<Rightarrow> string \<Rightarrow> table \<Rightarrow> ('b catalog_manager, unit) effect" where
  "update_table B cm db_name t =
     (case sm_get (cm_databases cm) db_name of
        None \<Rightarrow> (Inl (database_missing db_name), cm)
      | Some db \<Rightarrow>
          (case mb_put_table B (cm_backend cm) db_name (tb_name t) t of
              (Inl e, b) \<Rightarrow> (Inl e, cm\<lparr>cm_backend := b\<rparr>)
            | (Inr _, b) \<Rightarrow>
                (let db = snd (db_drop_table db (tb_name t))
                 in (Inr (), cm\<lparr>cm_backend := b, cm_databases := sm_put db_name (db_add_table db t) (cm_databases cm)\<rparr>))))"

definition drop_table :: "'b meta_backend \<Rightarrow> 'b catalog_manager \<Rightarrow> string \<Rightarrow> string \<Rightarrow> ('b catalog_manager, unit) effect" where
  "drop_table B cm db_name table_name =
     (case sm_get (cm_databases cm) db_name of
        None \<Rightarrow> (Inl (database_missing db_name), cm)
      | Some db \<Rightarrow>
          (case db_drop_table db table_name of
             (None, _) \<Rightarrow> (Inl (catalog_err TableNotFound (''table '' @ quoted table_name @ '' not found'')), cm)
           | (Some _, db') \<Rightarrow>
               (let cm = cm\<lparr>cm_databases := sm_put db_name db' (cm_databases cm)\<rparr>
                in case mb_delete_table B (cm_backend cm) db_name table_name of (r, b) \<Rightarrow> (r, cm\<lparr>cm_backend := b\<rparr>))))"

definition cm_get_table :: "'b catalog_manager \<Rightarrow> string \<Rightarrow> string \<Rightarrow> table option" where
  "cm_get_table cm db_name table_name =
     (case sm_get (cm_databases cm) db_name of Some db \<Rightarrow> db_get_table db table_name | None \<Rightarrow> None)"

definition cm_list_tables :: "'b catalog_manager \<Rightarrow> string \<Rightarrow> string list option" where
  "cm_list_tables cm db_name = map_option db_table_names (sm_get (cm_databases cm) db_name)"

subsection \<open>Materialized views and procedures\<close>

definition create_materialized_view :: "'b meta_backend \<Rightarrow> 'b catalog_manager \<Rightarrow> materialized_view \<Rightarrow> ('b catalog_manager, unit) effect" where
  "create_materialized_view B cm mv =
     (case mb_put_materialized_view B (cm_backend cm) (mv_database mv) (mv_name mv) mv of
        (Inl e, b) \<Rightarrow> (Inl e, cm\<lparr>cm_backend := b\<rparr>)
      | (Inr _, b) \<Rightarrow>
          (Inr (), cm\<lparr>cm_backend := b,
             cm_materialized_views := sm_put (dotted (mv_database mv) (mv_name mv)) mv (cm_materialized_views cm)\<rparr>))"

definition drop_materialized_view :: "'b meta_backend \<Rightarrow> 'b catalog_manager \<Rightarrow> string \<Rightarrow> string \<Rightarrow> ('b catalog_manager, unit) effect" where
  "drop_materialized_view B cm db_name name =
     (case sm_get (cm_materialized_views cm) (dotted db_name name) of
        None \<Rightarrow> (Inl (catalog_err TableNotFound (''materialized view '' @ quoted name @ '' not found'')), cm)
      | Some _ \<Rightarrow>
          (let cm = cm\<lparr>cm_materialized_views := sm_del (dotted db_name name) (cm_materialized_views cm)\<rparr>
           in case mb_delete_materialized_view B (cm_backend cm) db_name name of (r, b) \<Rightarrow> (r, cm\<lparr>cm_backend := b\<rparr>)))"

definition cm_get_materialized_view :: "'b catalog_manager \<Rightarrow> string \<Rightarrow> string \<Rightarrow> materialized_view option" where
  "cm_get_materialized_view cm db_name name = sm_get (cm_materialized_views cm) (dotted db_name name)"

definition cm_list_materialized_views :: "'b catalog_manager \<Rightarrow> string \<Rightarrow> materialized_view list" where
  "cm_list_materialized_views cm db_name = map snd (sm_scan (db_name @ ''.'') (cm_materialized_views cm))"

definition all_materialized_views :: "'b catalog_manager \<Rightarrow> materialized_view list" where
  "all_materialized_views cm = map snd (cm_materialized_views cm)"

definition create_procedure :: "'b meta_backend \<Rightarrow> 'b catalog_manager \<Rightarrow> string \<Rightarrow> stored_procedure \<Rightarrow> ('b catalog_manager, unit) effect" where
  "create_procedure B cm db_name p =
     (case mb_put_procedure B (cm_backend cm) db_name (sp_name p) p of
        (Inl e, b) \<Rightarrow> (Inl e, cm\<lparr>cm_backend := b\<rparr>)
      | (Inr _, b) \<Rightarrow>
          (Inr (), cm\<lparr>cm_backend := b, cm_procedures := sm_put (dotted db_name (sp_name p)) p (cm_procedures cm)\<rparr>))"

definition drop_procedure :: "'b meta_backend \<Rightarrow> 'b catalog_manager \<Rightarrow> string \<Rightarrow> string \<Rightarrow> ('b catalog_manager, unit) effect" where
  "drop_procedure B cm db_name name =
     (let cm = cm\<lparr>cm_procedures := sm_del (dotted db_name name) (cm_procedures cm)\<rparr>
      in case mb_delete_procedure B (cm_backend cm) db_name name of (r, b) \<Rightarrow> (r, cm\<lparr>cm_backend := b\<rparr>))"

definition cm_get_procedure :: "'b meta_backend \<Rightarrow> 'b catalog_manager \<Rightarrow> string \<Rightarrow> string \<Rightarrow> dharness_error + stored_procedure option" where
  "cm_get_procedure B cm db_name name =
     (case sm_get (cm_procedures cm) (dotted db_name name) of
        Some p \<Rightarrow> Inr (Some p)
      | None \<Rightarrow> mb_get_procedure B (cm_backend cm) db_name name)"

definition cm_list_procedures :: "'b meta_backend \<Rightarrow> 'b catalog_manager \<Rightarrow> string \<Rightarrow> dharness_error + stored_procedure list" where
  "cm_list_procedures B cm db_name = mb_list_procedures B (cm_backend cm) db_name"

subsection \<open>Saving and loading\<close>

definition state_of :: "'b catalog_manager \<Rightarrow> catalog_state" where
  "state_of cm =
     \<lparr>st_databases = cm_databases cm, st_materialized_views = cm_materialized_views cm,
      st_procedures = cm_procedures cm, st_next_id = cm_next_id cm\<rparr>"

definition cm_save :: "json_lib \<Rightarrow> io_lib \<Rightarrow> 'b meta_backend \<Rightarrow> files \<Rightarrow> 'b catalog_manager \<Rightarrow>
    (dharness_error + unit) \<times> files \<times> 'b catalog_manager" where
  "cm_save J io B fs cm =
     (case state_to_json J (state_of cm) of
        Inl e \<Rightarrow> (Inl (Internal e), fs, cm)
      | Inr json \<Rightarrow>
          (case fs_create_dir_all io (cm_catalog_path cm) of
             Inl e \<Rightarrow> (Inl (Io e), fs, cm)
           | Inr _ \<Rightarrow>
               (case fs_write io fs (cm_catalog_path cm @ ''/catalog.json'') json of
                  Inl e \<Rightarrow> (Inl (Io e), fs, cm)
                | Inr fs' \<Rightarrow>
                    (case mb_flush B (cm_backend cm) of (r, b) \<Rightarrow> (r, fs', cm\<lparr>cm_backend := b\<rparr>)))))"

fun load_databases :: "'b meta_backend \<Rightarrow> 'b \<Rightarrow> string list \<Rightarrow> cat_database smap \<Rightarrow> (cat_database smap, unit) effect" where
  "load_databases B b [] dbs = (Inr (), dbs)"
| "load_databases B b (n # ns) dbs =
     (case mb_get_database B b n of
        Inl e \<Rightarrow> (Inl e, dbs)
      | Inr (Some db) \<Rightarrow> load_databases B b ns (sm_put n db dbs)
      | Inr None \<Rightarrow> load_databases B b ns dbs)"

definition load_table :: "'b meta_backend \<Rightarrow> 'b \<Rightarrow> string \<Rightarrow> string \<Rightarrow> cat_database \<Rightarrow> cat_database" where
  "load_table B b db_name table_name db =
     (case mb_get_table B b db_name table_name of Inr (Some t) \<Rightarrow> db_add_table db t | _ \<Rightarrow> db)"

definition load_tables :: "'b meta_backend \<Rightarrow> 'b \<Rightarrow> cat_database smap \<Rightarrow> cat_database smap" where
  "load_tables B b dbs =
     List.map_filter (\<lambda>(db_name, db).
       case mb_list_tables B b db_name of
         Inr ts \<Rightarrow> Some (db_name, fold (load_table B b db_name) ts db)
       | Inl _ \<Rightarrow> None) dbs"

definition load_procedures :: "'b meta_backend \<Rightarrow> 'b \<Rightarrow> string list \<Rightarrow> stored_procedure smap \<Rightarrow> stored_procedure smap" where
  "load_procedures B b names procs =
     fold (\<lambda>db_name procs.
       case mb_list_procedures B b db_name of
         Inr ps \<Rightarrow> fold (\<lambda>p. sm_put (dotted db_name (sp_name p)) p) ps procs
       | Inl _ \<Rightarrow> procs) names procs"

definition cm_load :: "'b meta_backend \<Rightarrow> files \<Rightarrow> 'b catalog_manager \<Rightarrow> ('b catalog_manager, unit) effect" where
  "cm_load B fs cm =
     (case mb_load B fs (cm_backend cm) of
        (Inl e, b) \<Rightarrow> (Inl e, cm\<lparr>cm_backend := b\<rparr>)
      | (Inr _, b) \<Rightarrow>
          (let cm = cm\<lparr>cm_backend := b\<rparr>
           in case mb_list_databases B b of
                Inl e \<Rightarrow> (Inl e, cm)
              | Inr names \<Rightarrow>
                  (case load_databases B b names (cm_databases cm) of
                     (Inl e, dbs) \<Rightarrow> (Inl e, cm\<lparr>cm_databases := dbs\<rparr>)
                   | (Inr _, dbs) \<Rightarrow>
                       (let dbs = sm_puts (load_tables B b dbs) dbs;
                            procs = load_procedures B b (map fst dbs) (cm_procedures cm);
                            next_id = (case mb_get_next_id B b of Inr i \<Rightarrow> i | Inl _ \<Rightarrow> cm_next_id cm)
                        in (Inr (), cm\<lparr>cm_databases := dbs, cm_procedures := procs, cm_next_id := next_id\<rparr>)))))"

subsection \<open>The edit log\<close>

datatype catalog_op =
    CreateDatabaseOp string
  | DropDatabaseOp string
  | CreateTableOp (op_db: string) (op_table: table)
  | DropTableOp (op_db: string) (op_table_name: string)
  | AlterDatabaseOp string
  | AlterTableOp (op_db: string) (op_table_name: string)

record op_json =
  op_to_json :: "catalog_op \<Rightarrow> string + bytes"
  op_from_json :: "bytes \<Rightarrow> string + catalog_op"

text \<open>One entry of the log; an entry whose data is not the operation its type says is skipped.\<close>

definition replay_entry :: "op_json \<Rightarrow> 'b meta_backend \<Rightarrow> io_lib \<Rightarrow> edit_log_entry \<Rightarrow> 'b catalog_manager \<Rightarrow>
    ('b catalog_manager, unit) effect" where
  "replay_entry P B io entry cm =
     (case (ee_op_type entry, op_from_json P (ee_data entry)) of
        (OpCreateDatabase, Inr (CreateDatabaseOp name)) \<Rightarrow> create_database B io cm name
      | (OpDropDatabase, Inr (DropDatabaseOp name)) \<Rightarrow> drop_database B cm name
      | (OpCreateTable, Inr (CreateTableOp db t)) \<Rightarrow> create_table B cm db t
      | (OpDropTable, Inr (DropTableOp db t)) \<Rightarrow> drop_table B cm db t
      | _ \<Rightarrow> (Inr (), cm))"

fun replay_entries :: "op_json \<Rightarrow> 'b meta_backend \<Rightarrow> io_lib \<Rightarrow> edit_log_entry list \<Rightarrow> 'b catalog_manager \<Rightarrow>
    ('b catalog_manager, unit) effect" where
  "replay_entries P B io [] cm = (Inr (), cm)"
| "replay_entries P B io (e # es) cm =
     (case replay_entry P B io e cm of
        (Inl err, cm') \<Rightarrow> (Inl err, cm')
      | (Inr _, cm') \<Rightarrow> replay_entries P B io es cm')"

definition replay_edit_log :: "op_json \<Rightarrow> 'b meta_backend \<Rightarrow> io_lib \<Rightarrow> edit_log \<Rightarrow> 'b catalog_manager \<Rightarrow>
    ('b catalog_manager, unit) effect" where
  "replay_edit_log P B io l cm = replay_entries P B io (el_entries l) cm"

record 'b catalog_writer =
  cw_catalog :: "'b catalog_manager"
  cw_edit_log :: edit_log

definition writer_new :: "'b catalog_manager \<Rightarrow> edit_log \<Rightarrow> 'b catalog_writer" where
  "writer_new cm l = \<lparr>cw_catalog = cm, cw_edit_log = l\<rparr>"

text \<open>Every operation of the writer logs first and then changes the catalog.\<close>

definition logged :: "op_json \<Rightarrow> op_type \<Rightarrow> catalog_op \<Rightarrow> ('b catalog_manager \<Rightarrow> ('b catalog_manager, unit) effect) \<Rightarrow>
    'b catalog_writer \<Rightarrow> ('b catalog_writer, unit) effect" where
  "logged P ty op act w =
     (case op_to_json P op of
        Inl e \<Rightarrow> (Inl (Internal e), w)
      | Inr data \<Rightarrow>
          (case act (cw_catalog w) of
             (r, cm) \<Rightarrow> (r, w\<lparr>cw_catalog := cm, cw_edit_log := snd (log_append (cw_edit_log w) ty data)\<rparr>)))"

definition writer_create_database :: "op_json \<Rightarrow> 'b meta_backend \<Rightarrow> io_lib \<Rightarrow> 'b catalog_writer \<Rightarrow> string \<Rightarrow> ('b catalog_writer, unit) effect" where
  "writer_create_database P B io w name =
     logged P OpCreateDatabase (CreateDatabaseOp name) (\<lambda>cm. create_database B io cm name) w"

definition writer_drop_database :: "op_json \<Rightarrow> 'b meta_backend \<Rightarrow> 'b catalog_writer \<Rightarrow> string \<Rightarrow> ('b catalog_writer, unit) effect" where
  "writer_drop_database P B w name =
     logged P OpDropDatabase (DropDatabaseOp name) (\<lambda>cm. drop_database B cm name) w"

definition writer_create_table :: "op_json \<Rightarrow> 'b meta_backend \<Rightarrow> 'b catalog_writer \<Rightarrow> string \<Rightarrow> table \<Rightarrow> ('b catalog_writer, unit) effect" where
  "writer_create_table P B w db_name t =
     logged P OpCreateTable (CreateTableOp db_name t) (\<lambda>cm. create_table B cm db_name t) w"

definition writer_drop_table :: "op_json \<Rightarrow> 'b meta_backend \<Rightarrow> 'b catalog_writer \<Rightarrow> string \<Rightarrow> string \<Rightarrow> ('b catalog_writer, unit) effect" where
  "writer_drop_table P B w db_name table_name =
     logged P OpDropTable (DropTableOp db_name db_name) (\<lambda>cm. drop_table B cm db_name table_name) w"

end
