(* ===== verification/CatalogSpec.thy ===== *)
theory CatalogSpec
  imports CatalogManager
begin

section \<open>The catalog against an abstract schema\<close>

text \<open>
  The specification is a map from databases to maps of tables. The locale \<open>meta_backend_spec\<close> is
  the contract the manager relies on from a backend; inside it every catalog command is shown to
  implement the specification, errors included, and to keep the backend in step. The three backends
  are shown to meet the contract: the JSON backend and the dual-write backend on top of it by
  interpretation, the key-value backend for databases whose name has no colon.
\<close>

type_synonym schema = "string \<Rightarrow> (string \<Rightarrow> table option) option"

datatype cat_cmd =
    CreateDb string
  | DropDb string
  | CreateTb string table
  | UpdateTb string table
  | DropTb string string

fun run_cmd :: "'b meta_backend \<Rightarrow> io_lib \<Rightarrow> 'b catalog_manager \<Rightarrow> cat_cmd \<Rightarrow> ('b catalog_manager, unit) effect" where
  "run_cmd B io cm (CreateDb n) = create_database B io cm n"
| "run_cmd B io cm (DropDb n) = drop_database B cm n"
| "run_cmd B io cm (CreateTb n t) = create_table B cm n t"
| "run_cmd B io cm (UpdateTb n t) = update_table B cm n t"
| "run_cmd B io cm (DropTb n t) = drop_table B cm n t"

fun spec_cmd :: "schema \<Rightarrow> cat_cmd \<Rightarrow> catalog_error + schema" where
  "spec_cmd s (CreateDb n) = (if s n \<noteq> None then Inl DatabaseAlreadyExists else Inr (s(n \<mapsto> Map.empty)))"
| "spec_cmd s (DropDb n) = (if s n = None then Inl DatabaseNotFound else Inr (s(n := None)))"
| "spec_cmd s (CreateTb n t) =
     (case s n of
        None \<Rightarrow> Inl DatabaseNotFound
      | Some ts \<Rightarrow> if ts (tb_name t) \<noteq> None then Inl TableAlreadyExists else Inr (s(n \<mapsto> ts(tb_name t \<mapsto> t))))"
| "spec_cmd s (UpdateTb n t) =
     (case s n of None \<Rightarrow> Inl DatabaseNotFound | Some ts \<Rightarrow> Inr (s(n \<mapsto> ts(tb_name t \<mapsto> t))))"
| "spec_cmd s (DropTb n t) =
     (case s n of
        None \<Rightarrow> Inl DatabaseNotFound
      | Some ts \<Rightarrow> if ts t = None then Inl TableNotFound else Inr (s(n \<mapsto> ts(t := None))))"

definition schema_of :: "'b catalog_manager \<Rightarrow> schema" where
  "schema_of cm n = map_option db_get_table (cm_get_database cm n)"

text \<open>A sequence of commands; a client that gets an error goes on with the next one.\<close>

fun run_cmds :: "'b meta_backend \<Rightarrow> io_lib \<Rightarrow> cat_cmd list \<Rightarrow> 'b catalog_manager \<Rightarrow> 'b catalog_manager" where
  "run_cmds B io [] cm = cm"
| "run_cmds B io (c # cs) cm = run_cmds B io cs (snd (run_cmd B io cm c))"

text \<open>The answers along the way, and those of the specification: the kind of the error, if any.\<close>

fun run_results :: "'b meta_backend \<Rightarrow> io_lib \<Rightarrow> cat_cmd list \<Rightarrow> 'b catalog_manager \<Rightarrow> (dharness_error + unit) list" where
  "run_results B io [] cm = []"
| "run_results B io (c # cs) cm = fst (run_cmd B io cm c) # run_results B io cs (snd (run_cmd B io cm c))"

fun spec_results :: "cat_cmd list \<Rightarrow> schema \<Rightarrow> catalog_error option list" where
  "spec_results [] s = []"
| "spec_results (c # cs) s =
     (case spec_cmd s c of
        Inl k \<Rightarrow> Some k # spec_results cs s
      | Inr s' \<Rightarrow> None # spec_results cs s')"

definition answers :: "dharness_error + unit \<Rightarrow> catalog_error option \<Rightarrow> bool" where
  "answers r e \<longleftrightarrow> (case e of None \<Rightarrow> r = Inr () | Some k \<Rightarrow> \<exists>m. r = Inl (catalog_err k m))"

fun cmd_db :: "cat_cmd \<Rightarrow> string" where
  "cmd_db (CreateDb n) = n"
| "cmd_db (DropDb n) = n"
| "cmd_db (CreateTb n t) = n"
| "cmd_db (UpdateTb n t) = n"
| "cmd_db (DropTb n t) = n"

fun cmd_tables :: "cat_cmd \<Rightarrow> table set" where
  "cmd_tables (CreateTb n t) = {t}"
| "cmd_tables (UpdateTb n t) = {t}"
| "cmd_tables _ = {}"

text \<open>The result of a command is the one the specification gives: the same kind of error with the
  catalog as it was, or success with the new schema.\<close>

definition implements :: "('b catalog_manager, unit) effect \<Rightarrow> 'b catalog_manager \<Rightarrow> catalog_error + schema \<Rightarrow> bool" where
  "implements r cm s \<longleftrightarrow>
     (case s of
        Inl k \<Rightarrow> (\<exists>m. r = (Inl (catalog_err k m), cm))
      | Inr s' \<Rightarrow> (\<exists>cm'. r = (Inr (), cm') \<and> schema_of cm' = s'))"

lemma db_get_table_simps [simp]:
  "db_get_table (database_new i n) = Map.empty"
  "db_get_table (db_add_table db t) = (db_get_table db)(tb_name t \<mapsto> t)"
  "db_get_table (snd (db_drop_table db x)) = (db_get_table db)(x := None)"
  "fst (db_drop_table db x) = db_get_table db x"
  by (auto simp: fun_eq_iff db_get_table_def database_new_def db_add_table_def db_drop_table_def)

lemma schema_of_simps [simp]:
  "schema_of (cm\<lparr>cm_backend := b\<rparr>) = schema_of cm"
  "schema_of (cm\<lparr>cm_next_id := i\<rparr>) = schema_of cm"
  "schema_of (cm\<lparr>cm_databases := sm_put n db (cm_databases cm)\<rparr>) = (schema_of cm)(n \<mapsto> db_get_table db)"
  "schema_of (cm\<lparr>cm_databases := sm_del n (cm_databases cm)\<rparr>) = (schema_of cm)(n := None)"
  by (auto simp: fun_eq_iff schema_of_def cm_get_database_def)

subsection \<open>The contract of a backend\<close>

text \<open>
  \<open>known\<close> are the database names a command may use, \<open>nm\<close> those among them the backend mirrors
  from the start (\<open>information_schema\<close> is created in memory only); \<open>st\<close> are the tables and \<open>sd\<close>
  the new databases it can store; \<open>present\<close> and \<open>tabs\<close> are its databases and their tables.
\<close>

locale meta_backend_spec =
  fixes B :: "'b meta_backend"
    and ok :: "'b \<Rightarrow> bool"
    and known :: "string \<Rightarrow> bool"
    and nm :: "string \<Rightarrow> bool"
    and sd :: "nat \<Rightarrow> string \<Rightarrow> bool"
    and st :: "table \<Rightarrow> bool"
    and present :: "'b \<Rightarrow> string \<Rightarrow> bool"
    and tabs :: "'b \<Rightarrow> string \<Rightarrow> string \<Rightarrow> table option"
  assumes get_table_law: "ok b \<Longrightarrow> nm n \<Longrightarrow> present b n \<Longrightarrow> mb_get_table B b n x = Inr (tabs b n x)"
    and put_database_law: "ok b \<Longrightarrow> known n \<Longrightarrow> (nm n \<longrightarrow> \<not> present b n) \<Longrightarrow> sd i n \<Longrightarrow>
      \<exists>b'. mb_put_database B b n (database_new i n) = (Inr (), b') \<and> ok b' \<and>
        (\<forall>m. nm m \<longrightarrow> present b' m = (m = n \<or> present b m) \<and>
                      tabs b' m = (if m = n then Map.empty else tabs b m))"
    and delete_database_law: "ok b \<Longrightarrow> known n \<Longrightarrow> (nm n \<longrightarrow> present b n) \<Longrightarrow>
      \<exists>b'. mb_delete_database B b n = (Inr (), b') \<and> ok b' \<and>
        (\<forall>m. nm m \<longrightarrow> present b' m = (m \<noteq> n \<and> present b m) \<and> (m \<noteq> n \<longrightarrow> tabs b' m = tabs b m))"
    and put_table_law: "ok b \<Longrightarrow> known n \<Longrightarrow> (nm n \<longrightarrow> present b n) \<Longrightarrow> st t \<Longrightarrow>
      \<exists>b'. mb_put_table B b n (tb_name t) t = (Inr (), b') \<and> ok b' \<and>
        (\<forall>m. nm m \<longrightarrow> present b' m = present b m \<and>
                      tabs b' m = (if m = n then (tabs b n)(tb_name t \<mapsto> t) else tabs b m))"
    and delete_table_law: "ok b \<Longrightarrow> known n \<Longrightarrow> (nm n \<longrightarrow> present b n) \<Longrightarrow>
      \<exists>b'. mb_delete_table B b n x = (Inr (), b') \<and> ok b' \<and>
        (\<forall>m. nm m \<longrightarrow> present b' m = present b m \<and>
                      tabs b' m = (if m = n then (tabs b n)(x := None) else tabs b m))"
begin

definition mirror :: "'b catalog_manager \<Rightarrow> bool" where
  "mirror cm \<longleftrightarrow> ok (cm_backend cm) \<and>
     (\<forall>n. nm n \<longrightarrow> (case schema_of cm n of
        None \<Rightarrow> \<not> present (cm_backend cm) n
      | Some ts \<Rightarrow> present (cm_backend cm) n \<and> tabs (cm_backend cm) n = ts))"

definition usable :: "cat_cmd \<Rightarrow> bool" where
  "usable c \<longleftrightarrow> known (cmd_db c) \<and> (\<forall>t \<in> cmd_tables c. st t) \<and> (\<forall>i n. c = CreateDb n \<longrightarrow> sd i n)"

lemma mirror_ok: "mirror cm \<Longrightarrow> ok (cm_backend cm)"
  by (simp add: mirror_def)

lemma mirror_some: "mirror cm \<Longrightarrow> nm n \<Longrightarrow> schema_of cm n = Some ts \<Longrightarrow>
    present (cm_backend cm) n \<and> tabs (cm_backend cm) n = ts"
  by (auto simp: mirror_def split: option.splits)

lemma mirror_none: "mirror cm \<Longrightarrow> nm n \<Longrightarrow> schema_of cm n = None \<Longrightarrow> \<not> present (cm_backend cm) n"
  by (auto simp: mirror_def split: option.splits)

lemma mirror_step:
  assumes "mirror cm" and "ok b" and "cm_backend cm' = b" and "schema_of cm' = (schema_of cm)(n := e)"
    and "\<And>m. nm m \<Longrightarrow> m \<noteq> n \<Longrightarrow> present b m = present (cm_backend cm) m \<and> tabs b m = tabs (cm_backend cm) m"
    and "nm n \<Longrightarrow> (case e of None \<Rightarrow> \<not> present b n | Some ts \<Rightarrow> present b n \<and> tabs b n = ts)"
  shows "mirror cm'"
  using assms(1,2,5,6) unfolding mirror_def assms(3,4) by (auto split: option.splits)

lemma create_database_refines:
  assumes m: "mirror cm" and u: "usable (CreateDb n)" and io: "io_create_dir io (cm_catalog_path cm) = None"
  shows "implements (create_database B io cm n) cm (spec_cmd (schema_of cm) (CreateDb n)) \<and>
         mirror (snd (create_database B io cm n))"
proof (cases "schema_of cm n")
  case (Some ts)
  with m show ?thesis by (auto simp: create_database_def implements_def schema_of_def cm_get_database_def)
next
  case None
  from put_database_law [OF mirror_ok [OF m], of n "cm_next_id cm"] mirror_none [OF m _ None] u
  obtain b where b: "mb_put_database B (cm_backend cm) n (database_new (cm_next_id cm) n) = (Inr (), b)" "ok b"
    and pres: "\<And>k. nm k \<Longrightarrow> present b k = (k = n \<or> present (cm_backend cm) k) \<and>
        tabs b k = (if k = n then Map.empty else tabs (cm_backend cm) k)"
    by (auto simp: usable_def)
  define cm' where "cm' = cm\<lparr>cm_next_id := (cm_next_id cm + 1) mod 2 ^ 64, cm_backend := b,
    cm_databases := sm_put n (database_new (cm_next_id cm) n) (cm_databases cm)\<rparr>"
  have run: "create_database B io cm n = (Inr (), cm')"
    using None io b by (simp add: create_database_def fs_create_dir_all_def cm'_def schema_of_def cm_get_database_def Let_def)
  have sch: "schema_of cm' = (schema_of cm)(n \<mapsto> Map.empty)"
    by (auto simp: cm'_def fun_eq_iff schema_of_def cm_get_database_def)
  have "mirror cm'" by (rule mirror_step [OF m b(2) _ sch]) (use pres in \<open>auto simp: cm'_def\<close>)
  with run sch None show ?thesis by (simp add: implements_def)
qed

lemma drop_database_refines:
  assumes m: "mirror cm" and u: "usable (DropDb n)"
  shows "implements (drop_database B cm n) cm (spec_cmd (schema_of cm) (DropDb n)) \<and>
         mirror (snd (drop_database B cm n))"
proof (cases "schema_of cm n")
  case None
  with m show ?thesis by (auto simp: drop_database_def implements_def schema_of_def cm_get_database_def split: option.splits)
next
  case (Some ts)
  from delete_database_law [OF mirror_ok [OF m], of n] mirror_some [OF m _ Some] u
  obtain b where b: "mb_delete_database B (cm_backend cm) n = (Inr (), b)" "ok b"
    and pres: "\<And>k. nm k \<Longrightarrow> present b k = (k \<noteq> n \<and> present (cm_backend cm) k) \<and>
        (k \<noteq> n \<longrightarrow> tabs b k = tabs (cm_backend cm) k)"
    by (auto simp: usable_def)
  define cm' where "cm' = cm\<lparr>cm_databases := sm_del n (cm_databases cm), cm_backend := b\<rparr>"
  have run: "drop_database B cm n = (Inr (), cm')"
    using Some b by (auto simp: drop_database_def cm'_def schema_of_def cm_get_database_def)
  have sch: "schema_of cm' = (schema_of cm)(n := None)"
    by (auto simp: cm'_def fun_eq_iff schema_of_def cm_get_database_def)
  have "mirror cm'" by (rule mirror_step [OF m b(2) _ sch]) (use pres in \<open>auto simp: cm'_def\<close>)
  with run sch Some show ?thesis by (simp add: implements_def)
qed

text \<open>The three table commands change one table of one database and tell the backend.\<close>

lemma table_change_mirror:
  assumes m: "mirror cm" and db: "sm_get (cm_databases cm) n = Some db" and "ok b"
    and pres: "\<And>k. nm k \<Longrightarrow> present b k = present (cm_backend cm) k \<and>
        tabs b k = (if k = n then (tabs (cm_backend cm) n)(x := v) else tabs (cm_backend cm) k)"
    and db': "db_get_table db' = (db_get_table db)(x := v)"
    and cm': "cm' = cm\<lparr>cm_backend := b, cm_databases := sm_put n db' (cm_databases cm)\<rparr>"
  shows "schema_of cm' = (schema_of cm)(n \<mapsto> (db_get_table db)(x := v)) \<and> mirror cm'"
proof -
  have sch: "schema_of cm' = (schema_of cm)(n \<mapsto> (db_get_table db)(x := v))"
    by (auto simp: cm' fun_eq_iff schema_of_def cm_get_database_def db')
  have s: "schema_of cm n = Some (db_get_table db)" using db by (simp add: schema_of_def cm_get_database_def)
  have "mirror cm'"
    by (rule mirror_step [OF m assms(3) _ sch]) (use pres mirror_some [OF m _ s] in \<open>auto simp: cm'\<close>)
  with sch show ?thesis ..
qed

lemma create_table_refines:
  assumes m: "mirror cm" and u: "usable (CreateTb n t)"
  shows "implements (create_table B cm n t) cm (spec_cmd (schema_of cm) (CreateTb n t)) \<and>
         mirror (snd (create_table B cm n t))"
proof (cases "sm_get (cm_databases cm) n")
  case None
  with m show ?thesis
    by (auto simp: create_table_def implements_def schema_of_def cm_get_database_def database_missing_def)
next
  case (Some db)
  then have s: "schema_of cm n = Some (db_get_table db)" by (simp add: schema_of_def cm_get_database_def)
  show ?thesis
  proof (cases "db_get_table db (tb_name t)")
    case (Some t')
    with s m \<open>sm_get (cm_databases cm) n = Some db\<close> show ?thesis by (auto simp: create_table_def implements_def)
  next
    case None
    from put_table_law [OF mirror_ok [OF m], of n t] mirror_some [OF m _ s] u
    obtain b where b: "mb_put_table B (cm_backend cm) n (tb_name t) t = (Inr (), b)" "ok b"
      and pres: "\<And>k. nm k \<Longrightarrow> present b k = present (cm_backend cm) k \<and>
        tabs b k = (if k = n then (tabs (cm_backend cm) n)(tb_name t \<mapsto> t) else tabs (cm_backend cm) k)"
      by (auto simp: usable_def)
    define cm' where "cm' = cm\<lparr>cm_backend := b, cm_databases := sm_put n (db_add_table db t) (cm_databases cm)\<rparr>"
    have "create_table B cm n t = (Inr (), cm')" using Some None b by (simp add: create_table_def cm'_def)
    moreover have "schema_of cm' = (schema_of cm)(n \<mapsto> (db_get_table db)(tb_name t \<mapsto> t)) \<and> mirror cm'"
      by (rule table_change_mirror [OF m Some b(2) pres _ cm'_def]) simp_all
    ultimately show ?thesis using s None by (simp add: implements_def)
  qed
qed

lemma update_table_refines:
  assumes m: "mirror cm" and u: "usable (UpdateTb n t)"
  shows "implements (update_table B cm n t) cm (spec_cmd (schema_of cm) (UpdateTb n t)) \<and>
         mirror (snd (update_table B cm n t))"
proof (cases "sm_get (cm_databases cm) n")
  case None
  with m show ?thesis
    by (auto simp: update_table_def implements_def schema_of_def cm_get_database_def database_missing_def)
next
  case (Some db)
  then have s: "schema_of cm n = Some (db_get_table db)" by (simp add: schema_of_def cm_get_database_def)
  from put_table_law [OF mirror_ok [OF m], of n t] mirror_some [OF m _ s] u
  obtain b where b: "mb_put_table B (cm_backend cm) n (tb_name t) t = (Inr (), b)" "ok b"
    and pres: "\<And>k. nm k \<Longrightarrow> present b k = present (cm_backend cm) k \<and>
      tabs b k = (if k = n then (tabs (cm_backend cm) n)(tb_name t \<mapsto> t) else tabs (cm_backend cm) k)"
    by (auto simp: usable_def)
  define cm' where "cm' = cm\<lparr>cm_backend := b,
    cm_databases := sm_put n (db_add_table (snd (db_drop_table db (tb_name t))) t) (cm_databases cm)\<rparr>"
  have "update_table B cm n t = (Inr (), cm')" using Some b by (simp add: update_table_def cm'_def Let_def)
  moreover have "schema_of cm' = (schema_of cm)(n \<mapsto> (db_get_table db)(tb_name t \<mapsto> t)) \<and> mirror cm'"
    by (rule table_change_mirror [OF m Some b(2) pres _ cm'_def]) simp_all
  ultimately show ?thesis using s by (simp add: implements_def)
qed

lemma drop_table_refines:
  assumes m: "mirror cm" and u: "usable (DropTb n x)"
  shows "implements (drop_table B cm n x) cm (spec_cmd (schema_of cm) (DropTb n x)) \<and>
         mirror (snd (drop_table B cm n x))"
proof (cases "sm_get (cm_databases cm) n")
  case None
  with m show ?thesis
    by (auto simp: drop_table_def implements_def schema_of_def cm_get_database_def database_missing_def)
next
  case (Some db)
  then have s: "schema_of cm n = Some (db_get_table db)" by (simp add: schema_of_def cm_get_database_def)
  obtain db' where d: "db_drop_table db x = (db_get_table db x, db')"
    by (cases "db_drop_table db x") (simp add: db_drop_table_def db_get_table_def)
  then have db': "db_get_table db' = (db_get_table db)(x := None)" using db_get_table_simps(3) [of db x] by simp
  show ?thesis
  proof (cases "db_get_table db x")
    case None
    with s m d Some show ?thesis by (auto simp: drop_table_def implements_def)
  next
    case t: (Some t)
    from delete_table_law [OF mirror_ok [OF m], of n x] mirror_some [OF m _ s] u
    obtain b where b: "mb_delete_table B (cm_backend cm) n x = (Inr (), b)" "ok b"
      and pres: "\<And>k. nm k \<Longrightarrow> present b k = present (cm_backend cm) k \<and>
        tabs b k = (if k = n then (tabs (cm_backend cm) n)(x := None) else tabs (cm_backend cm) k)"
      by (auto simp: usable_def)
    define cm' where "cm' = cm\<lparr>cm_backend := b, cm_databases := sm_put n db' (cm_databases cm)\<rparr>"
    have "drop_table B cm n x = (Inr (), cm')" using Some t d b by (simp add: drop_table_def cm'_def Let_def)
    moreover have "schema_of cm' = (schema_of cm)(n \<mapsto> (db_get_table db)(x := None)) \<and> mirror cm'"
      by (rule table_change_mirror [OF m Some b(2) pres db' cm'_def])
    ultimately show ?thesis using s t by (simp add: implements_def)
  qed
qed

lemma run_cmd_refines:
  assumes "mirror cm" and "usable c" and "\<And>p. io_create_dir io p = None"
  shows "implements (run_cmd B io cm c) cm (spec_cmd (schema_of cm) c) \<and> mirror (snd (run_cmd B io cm c))"
  using assms create_database_refines drop_database_refines create_table_refines update_table_refines
    drop_table_refines
  by (cases c) (simp_all del: spec_cmd.simps)

lemma run_cmd_schema:
  "implements r cm s \<Longrightarrow> schema_of (snd r) = (case s of Inl _ \<Rightarrow> schema_of cm | Inr s' \<Rightarrow> s')"
  by (auto simp: implements_def split: sum.splits)

lemma run_cmds_refines:
  assumes "mirror cm" and "\<And>c. c \<in> set cs \<Longrightarrow> usable c" and "\<And>p. io_create_dir io p = None"
  shows "mirror (run_cmds B io cs cm) \<and> schema_of (run_cmds B io cs cm) = apply_all spec_cmd cs (schema_of cm) \<and>
    list_all2 answers (run_results B io cs cm) (spec_results cs (schema_of cm))"
  using assms(1,2)
proof (induction cs arbitrary: cm)
  case (Cons c cs)
  from run_cmd_refines [OF Cons.prems(1) _ assms(3), of c] Cons.prems(2)
  have r: "implements (run_cmd B io cm c) cm (spec_cmd (schema_of cm) c)" and m: "mirror (snd (run_cmd B io cm c))"
    by auto
  have "answers (fst (run_cmd B io cm c)) (case spec_cmd (schema_of cm) c of Inl k \<Rightarrow> Some k | Inr _ \<Rightarrow> None)"
    using r by (auto simp: implements_def answers_def split: sum.splits)
  with Cons.IH [OF m] Cons.prems(2) run_cmd_schema [OF r] show ?case by (auto split: sum.splits)
qed simp

lemma mirror_get_table:
  assumes "mirror cm" and "nm n" and "cm_get_database cm n \<noteq> None"
  shows "mb_get_table B (cm_backend cm) n x = Inr (cm_get_table cm n x)"
proof -
  obtain db where db: "sm_get (cm_databases cm) n = Some db" using assms(3) by (auto simp: cm_get_database_def)
  then have "schema_of cm n = Some (db_get_table db)" by (simp add: schema_of_def cm_get_database_def)
  from mirror_some [OF assms(1,2) this] get_table_law [OF mirror_ok [OF assms(1)] assms(2)] db
  show ?thesis by (simp add: cm_get_table_def)
qed

end

end
