(* ===== verification/Catalog_Correct.thy ===== *)
theory Catalog_Correct
  imports CatalogSpec
begin

section \<open>The backends meet their contract, and what follows for the catalog\<close>

text \<open>
  The interpretations of the contract on the JSON backend and on the dual-write backend, the proof
  that the key-value backend meets it, and the properties of the catalog: refinement of the abstract
  schema, saving and loading, and the behaviour of identifiers and materialized views at a restart.
\<close>

subsection \<open>The JSON backend\<close>

abbreviation info_schema :: string where
  "info_schema \<equiv> ''information_schema''"

definition json_present :: "json_meta \<Rightarrow> string \<Rightarrow> bool" where
  "json_present b n \<longleftrightarrow> sm_get (jm_databases b) n \<noteq> None"

definition json_tabs :: "json_meta \<Rightarrow> string \<Rightarrow> string \<Rightarrow> table option" where
  "json_tabs b n = (case sm_get (jm_databases b) n of Some db \<Rightarrow> db_get_table db | None \<Rightarrow> Map.empty)"

lemmas json_backend_defs = json_backend_def json_put_database_def json_delete_database_def json_put_table_def
  json_get_table_def json_delete_table_def json_present_def json_tabs_def

interpretation json: meta_backend_spec "json_backend J io" "\<lambda>b. True" "\<lambda>n. True" "\<lambda>n. n \<noteq> info_schema"
  "\<lambda>i n. True" "\<lambda>t. True" json_present json_tabs for J io
  by unfold_locales (auto simp: json_backend_defs split: option.splits)

subsection \<open>The dual-write backend\<close>

lemma dual_spec:
  assumes spec: "meta_backend_spec P ok known nm sd st present tabs"
  shows "meta_backend_spec (dual_backend P S) (\<lambda>b. ok (fst b)) known nm sd st (\<lambda>b. present (fst b)) (\<lambda>b. tabs (fst b))"
proof
  fix b :: "'a \<times> 'b" and n x i t
  assume ok: "ok (fst b)"
  show "mb_get_table (dual_backend P S) b n x = Inr (tabs (fst b) n x)" if "nm n" "present (fst b) n"
    using meta_backend_spec.get_table_law [OF spec ok that] by (simp add: dual_backend_def)
  show "\<exists>b'. mb_put_database (dual_backend P S) b n (database_new i n) = (Inr (), b') \<and> ok (fst b') \<and>
      (\<forall>m. nm m \<longrightarrow> present (fst b') m = (m = n \<or> present (fst b) m) \<and>
        tabs (fst b') m = (if m = n then Map.empty else tabs (fst b) m))"
    if "known n" "nm n \<longrightarrow> \<not> present (fst b) n" "sd i n"
    using meta_backend_spec.put_database_law [OF spec ok that] by (auto simp: dual_backend_def dual_write_def)
  show "\<exists>b'. mb_delete_database (dual_backend P S) b n = (Inr (), b') \<and> ok (fst b') \<and>
      (\<forall>m. nm m \<longrightarrow> present (fst b') m = (m \<noteq> n \<and> present (fst b) m) \<and> (m \<noteq> n \<longrightarrow> tabs (fst b') m = tabs (fst b) m))"
    if "known n" "nm n \<longrightarrow> present (fst b) n"
    using meta_backend_spec.delete_database_law [OF spec ok that] by (auto simp: dual_backend_def dual_write_def)
  show "\<exists>b'. mb_put_table (dual_backend P S) b n (tb_name t) t = (Inr (), b') \<and> ok (fst b') \<and>
      (\<forall>m. nm m \<longrightarrow> present (fst b') m = present (fst b) m \<and>
        tabs (fst b') m = (if m = n then (tabs (fst b) n)(tb_name t \<mapsto> t) else tabs (fst b) m))"
    if "known n" "nm n \<longrightarrow> present (fst b) n" "st t"
    using meta_backend_spec.put_table_law [OF spec ok that] by (auto simp: dual_backend_def dual_write_def)
  show "\<exists>b'. mb_delete_table (dual_backend P S) b n x = (Inr (), b') \<and> ok (fst b') \<and>
      (\<forall>m. nm m \<longrightarrow> present (fst b') m = present (fst b) m \<and>
        tabs (fst b') m = (if m = n then (tabs (fst b) n)(x := None) else tabs (fst b) m))"
    if "known n" "nm n \<longrightarrow> present (fst b) n"
    using meta_backend_spec.delete_table_law [OF spec ok that, of x] by (auto simp: dual_backend_def dual_write_def)
qed

interpretation dual: meta_backend_spec "dual_backend (json_backend J io) S" "\<lambda>b. True" "\<lambda>n. True"
  "\<lambda>n. n \<noteq> info_schema" "\<lambda>i n. True" "\<lambda>t. True" "\<lambda>b. json_present (fst b)" "\<lambda>b. json_tabs (fst b)" for J io S
  by (rule dual_spec [where ok = "\<lambda>b. True"]) (rule json.meta_backend_spec_axioms)

subsection \<open>The key-value backend\<close>

definition colon_free :: "string \<Rightarrow> bool" where
  "colon_free n \<longleftrightarrow> CHR '':'' \<notin> set n"

lemma split_at_colon:
  "colon_free n \<Longrightarrow> colon_free m \<Longrightarrow> n @ CHR '':'' # x = m @ CHR '':'' # y \<longleftrightarrow> n = m \<and> x = y"
proof (induction n arbitrary: m)
  case Nil
  then show ?case by (cases m) (auto simp: colon_free_def)
next
  case (Cons c n)
  then show ?case by (cases m) (auto simp: colon_free_def)
qed

lemma colon_free_no_suffix: "colon_free m \<Longrightarrow> m \<noteq> n @ CHR '':'' # x"
  by (auto simp: colon_free_def)

lemma table_key_eq: "colon_free n \<Longrightarrow> colon_free m \<Longrightarrow> table_key n x = table_key m y \<longleftrightarrow> n = m \<and> x = y"
  using split_at_colon [of n m "KEY_TABLE @ x" "KEY_TABLE @ y"] by (simp add: table_key_def)

lemma db_key_table_key [simp]: "colon_free m \<Longrightarrow> db_key m \<noteq> table_key n x" "colon_free m \<Longrightarrow> table_key n x \<noteq> db_key m"
  using colon_free_no_suffix [of m n "KEY_TABLE @ x"] by (auto simp: db_key_def table_key_def)

lemma db_key_eq [simp]: "db_key n = db_key m \<longleftrightarrow> n = m"
  by (simp add: db_key_def)

lemma table_prefix_key:
  assumes "colon_free n" and "colon_free m"
  shows "prefix (table_prefix n) (table_key m x) \<longleftrightarrow> n = m"
proof
  assume "prefix (table_prefix n) (table_key m x)"
  then obtain y where "table_key m x = table_key n y" by (auto simp: prefix_def table_prefix_def table_key_def)
  with assms show "n = m" by (simp add: table_key_eq)
qed (simp add: table_prefix_def table_key_def prefix_def)

lemma table_prefix_db_key: "colon_free m \<Longrightarrow> \<not> prefix (table_prefix n) (db_key m)"
  using db_key_table_key(1) [of m n] by (auto simp: prefix_def table_prefix_def table_key_def)

lemma delete_keys_ok:
  assumes "redb_ok R \<alpha>"
  shows "\<exists>b'. delete_keys R CF_CATALOG keys b = (Inr (), b') \<and>
    \<alpha> b' = (\<alpha> b)(CF_CATALOG := filter (\<lambda>e. fst e \<notin> set keys) (\<alpha> b CF_CATALOG))"
proof (induction keys arbitrary: b)
  case (Cons k keys)
  from delete_cf_ok [OF assms table_def_catalog, of b k] obtain b1
    where b1: "delete_cf R b CF_CATALOG k = Inr b1" "\<alpha> b1 = (\<alpha> b)(CF_CATALOG := sm_del k (\<alpha> b CF_CATALOG))"
    by blast
  from Cons.IH [of b1] obtain b2 where "delete_keys R CF_CATALOG keys b1 = (Inr (), b2)"
    "\<alpha> b2 = (\<alpha> b1)(CF_CATALOG := filter (\<lambda>e. fst e \<notin> set keys) (\<alpha> b1 CF_CATALOG))" by blast
  with b1 show ?case by (auto simp: sm_del_def intro!: filter_cong)
qed simp

lemma delete_database_ok:
  assumes "redb_ok R \<alpha>"
  shows "\<exists>b'. kv_delete_database R b n = (Inr (), b') \<and>
    (\<forall>k. sm_get (\<alpha> b' CF_CATALOG) k =
       (if k = db_key n \<or> prefix (table_prefix n) k then None else sm_get (\<alpha> b CF_CATALOG) k))"
proof -
  from delete_cf_ok [OF assms table_def_catalog, of b "db_key n"] obtain b1
    where b1: "delete_cf R b CF_CATALOG (db_key n) = Inr b1"
      "\<alpha> b1 = (\<alpha> b)(CF_CATALOG := sm_del (db_key n) (\<alpha> b CF_CATALOG))" by blast
  define keys where "keys = map fst (sm_scan (table_prefix n) (\<alpha> b1 CF_CATALOG))"
  from delete_keys_ok [OF assms, of keys b1] obtain b2 where b2: "delete_keys R CF_CATALOG keys b1 = (Inr (), b2)"
    "\<alpha> b2 = (\<alpha> b1)(CF_CATALOG := filter (\<lambda>e. fst e \<notin> set keys) (\<alpha> b1 CF_CATALOG))" by blast
  have "kv_delete_database R b n = (Inr (), b2)"
    by (simp add: kv_delete_database_def cs_delete_database_def b1(1) delete_keys_with_prefix_def
        list_keys_with_prefix_def iter_prefix_ok [OF assms table_def_catalog] keys_def [symmetric] b2(1))
  moreover have "sm_get (\<alpha> b2 CF_CATALOG) k =
       (if k = db_key n \<or> prefix (table_prefix n) k then None else sm_get (\<alpha> b CF_CATALOG) k)" for k
  proof -
    have "k \<in> set keys \<longleftrightarrow> prefix (table_prefix n) k \<and> sm_get (\<alpha> b1 CF_CATALOG) k \<noteq> None"
      by (force simp: keys_def sm_scan_def sm_get_None_iff)
    then show ?thesis using map_of_filter_key [of "\<lambda>k. k \<notin> set keys" "\<alpha> b1 CF_CATALOG" k] b1(2) b2(2) by auto
  qed
  ultimately show ?thesis by blast
qed

definition kv_present :: "('r \<Rightarrow> string \<Rightarrow> bytes smap) \<Rightarrow> 'r \<Rightarrow> string \<Rightarrow> bool" where
  "kv_present \<alpha> b n \<longleftrightarrow> sm_get (\<alpha> b CF_CATALOG) (db_key n) \<noteq> None"

definition kv_tabs :: "json_lib \<Rightarrow> ('r \<Rightarrow> string \<Rightarrow> bytes smap) \<Rightarrow> 'r \<Rightarrow> string \<Rightarrow> string \<Rightarrow> table option" where
  "kv_tabs J \<alpha> b n x =
     (case sm_get (\<alpha> b CF_CATALOG) (table_key n x) of
        None \<Rightarrow> None
      | Some d \<Rightarrow> (case table_from_json J d of Inr t \<Rightarrow> Some t | Inl _ \<Rightarrow> None))"

definition kv_name :: "string \<Rightarrow> bool" where
  "kv_name n \<longleftrightarrow> colon_free n \<and> n \<noteq> info_schema"

definition kv_ok :: "json_lib \<Rightarrow> ('r \<Rightarrow> string \<Rightarrow> bytes smap) \<Rightarrow> 'r \<Rightarrow> bool" where
  "kv_ok J \<alpha> b \<longleftrightarrow>
     (\<forall>n x. kv_name n \<longrightarrow>
        (case sm_get (\<alpha> b CF_CATALOG) (table_key n x) of
           None \<Rightarrow> True
         | Some d \<Rightarrow> kv_present \<alpha> b n \<and> (\<exists>t. table_from_json J d = Inr t)))"

definition db_storable :: "json_lib \<Rightarrow> nat \<Rightarrow> string \<Rightarrow> bool" where
  "db_storable J i n \<longleftrightarrow> (\<exists>d. database_to_json J (database_new i n) = Inr d)"

definition table_storable :: "json_lib \<Rightarrow> table \<Rightarrow> bool" where
  "table_storable J t \<longleftrightarrow> (\<exists>d. table_to_json J t = Inr d \<and> table_from_json J d = Inr t)"

lemma kv_put_ok:
  assumes "redb_ok R \<alpha>"
  shows "\<exists>b'. kv_effect b (put_cf R b CF_CATALOG k d) = (Inr (), b') \<and>
    sm_get (\<alpha> b' CF_CATALOG) = (sm_get (\<alpha> b CF_CATALOG))(k \<mapsto> d)"
  using put_cf_ok [OF assms table_def_catalog, of b k d] by (auto simp: kv_effect_def)

lemma kv_del_ok:
  assumes "redb_ok R \<alpha>"
  shows "\<exists>b'. kv_effect b (delete_cf R b CF_CATALOG k) = (Inr (), b') \<and>
    sm_get (\<alpha> b' CF_CATALOG) = (sm_get (\<alpha> b CF_CATALOG))(k := None)"
  using delete_cf_ok [OF assms table_def_catalog, of b k] by (auto simp: kv_effect_def)

lemma kv_backend_sel [simp]:
  "mb_put_database (kv_backend J R) = kv_put_database J R"
  "mb_delete_database (kv_backend J R) = kv_delete_database R"
  "mb_put_table (kv_backend J R) = kv_put_table J R"
  "mb_get_table (kv_backend J R) = kv_get_table J R"
  "mb_delete_table (kv_backend J R) = kv_delete_table R"
  "mb_get_next_id (kv_backend J R) = kv_get_next_id R"
  by (simp_all add: kv_backend_def)

lemma kv_ok_cases:
  assumes "kv_ok J \<alpha> b" and "kv_name n"
  shows "sm_get (\<alpha> b CF_CATALOG) (table_key n x) = None \<or>
    (\<exists>d t. sm_get (\<alpha> b CF_CATALOG) (table_key n x) = Some d \<and> table_from_json J d = Inr t \<and> kv_present \<alpha> b n)"
proof (cases "sm_get (\<alpha> b CF_CATALOG) (table_key n x)")
  case (Some d)
  from assms have "case sm_get (\<alpha> b CF_CATALOG) (table_key n x) of None \<Rightarrow> True
      | Some d \<Rightarrow> kv_present \<alpha> b n \<and> (\<exists>t. table_from_json J d = Inr t)"
    unfolding kv_ok_def by blast
  with Some show ?thesis by auto
qed simp

lemma kv_spec:
  assumes R: "redb_ok R \<alpha>"
  shows "meta_backend_spec (kv_backend J R) (kv_ok J \<alpha>) colon_free kv_name (db_storable J) (table_storable J)
    (kv_present \<alpha>) (kv_tabs J \<alpha>)"
proof
  fix b :: 'a and n x i t
  assume ok: "kv_ok J \<alpha> b"
  show "mb_get_table (kv_backend J R) b n x = Inr (kv_tabs J \<alpha> b n x)" if "kv_name n"
    using kv_ok_cases [OF ok that, of x]
    by (auto simp: kv_get_table_def cs_get_table_raw_def get_cf_ok [OF R table_def_catalog] kv_deserialized_def kv_tabs_def)
  show "\<exists>b'. mb_put_database (kv_backend J R) b n (database_new i n) = (Inr (), b') \<and> kv_ok J \<alpha> b' \<and>
      (\<forall>m. kv_name m \<longrightarrow> kv_present \<alpha> b' m = (m = n \<or> kv_present \<alpha> b m) \<and>
        kv_tabs J \<alpha> b' m = (if m = n then Map.empty else kv_tabs J \<alpha> b m))"
    if cf: "colon_free n" and absent: "kv_name n \<longrightarrow> \<not> kv_present \<alpha> b n" and "db_storable J i n"
  proof -
    from that(3) obtain d where d: "database_to_json J (database_new i n) = Inr d" by (auto simp: db_storable_def)
    from kv_put_ok [OF R, of b "db_key n" d] obtain b' where b': "kv_effect b (put_cf R b CF_CATALOG (db_key n) d) = (Inr (), b')"
      and g: "sm_get (\<alpha> b' CF_CATALOG) = (sm_get (\<alpha> b CF_CATALOG))(db_key n \<mapsto> d)" by blast
    have "kv_ok J \<alpha> b'" using ok cf unfolding kv_ok_def kv_present_def g by (auto simp: kv_name_def split: option.splits)
    moreover have "kv_tabs J \<alpha> b' m = (if m = n then Map.empty else kv_tabs J \<alpha> b m)" if "kv_name m" for m
      using that cf absent kv_ok_cases [OF ok] by (force simp: kv_tabs_def g fun_eq_iff kv_name_def)
    ultimately show ?thesis using b' d
      by (auto simp: kv_put_database_def kv_serialized_def cs_put_database_raw_def kv_present_def g)
  qed
  show "\<exists>b'. mb_delete_database (kv_backend J R) b n = (Inr (), b') \<and> kv_ok J \<alpha> b' \<and>
      (\<forall>m. kv_name m \<longrightarrow> kv_present \<alpha> b' m = (m \<noteq> n \<and> kv_present \<alpha> b m) \<and>
        (m \<noteq> n \<longrightarrow> kv_tabs J \<alpha> b' m = kv_tabs J \<alpha> b m))"
    if cf: "colon_free n"
  proof -
    from delete_database_ok [OF R, of b n] obtain b' where b': "kv_delete_database R b n = (Inr (), b')"
      and g: "\<And>k. sm_get (\<alpha> b' CF_CATALOG) k =
        (if k = db_key n \<or> prefix (table_prefix n) k then None else sm_get (\<alpha> b CF_CATALOG) k)" by blast
    have "kv_ok J \<alpha> b'" using ok cf
      unfolding kv_ok_def kv_present_def g by (auto simp: kv_name_def table_prefix_key table_prefix_db_key split: option.splits)
    moreover have "kv_tabs J \<alpha> b' m = kv_tabs J \<alpha> b m" if "kv_name m" "m \<noteq> n" for m
      using that cf by (auto simp: kv_tabs_def g fun_eq_iff kv_name_def table_prefix_key)
    ultimately show ?thesis using b' cf
      by (auto simp: kv_present_def g kv_name_def table_prefix_db_key)
  qed
  show "\<exists>b'. mb_put_table (kv_backend J R) b n (tb_name t) t = (Inr (), b') \<and> kv_ok J \<alpha> b' \<and>
      (\<forall>m. kv_name m \<longrightarrow> kv_present \<alpha> b' m = kv_present \<alpha> b m \<and>
        kv_tabs J \<alpha> b' m = (if m = n then (kv_tabs J \<alpha> b n)(tb_name t \<mapsto> t) else kv_tabs J \<alpha> b m))"
    if cf: "colon_free n" and pres: "kv_name n \<longrightarrow> kv_present \<alpha> b n" and "table_storable J t"
  proof -
    from that(3) obtain d where d: "table_to_json J t = Inr d" "table_from_json J d = Inr t" by (auto simp: table_storable_def)
    from kv_put_ok [OF R, of b "table_key n (tb_name t)" d] obtain b'
      where b': "kv_effect b (put_cf R b CF_CATALOG (table_key n (tb_name t)) d) = (Inr (), b')"
      and g: "sm_get (\<alpha> b' CF_CATALOG) = (sm_get (\<alpha> b CF_CATALOG))(table_key n (tb_name t) \<mapsto> d)" by blast
    have "kv_ok J \<alpha> b'" using ok cf pres d(2)
      unfolding kv_ok_def kv_present_def g by (auto simp: kv_name_def table_key_eq split: option.splits)
    moreover have "kv_tabs J \<alpha> b' m = (if m = n then (kv_tabs J \<alpha> b n)(tb_name t \<mapsto> t) else kv_tabs J \<alpha> b m)"
      if "kv_name m" for m
      using that cf d(2) by (auto simp: kv_tabs_def g fun_eq_iff kv_name_def table_key_eq)
    ultimately show ?thesis using b' d
      by (auto simp: kv_put_table_def kv_serialized_def cs_put_table_raw_def kv_present_def g kv_name_def)
  qed
  show "\<exists>b'. mb_delete_table (kv_backend J R) b n x = (Inr (), b') \<and> kv_ok J \<alpha> b' \<and>
      (\<forall>m. kv_name m \<longrightarrow> kv_present \<alpha> b' m = kv_present \<alpha> b m \<and>
        kv_tabs J \<alpha> b' m = (if m = n then (kv_tabs J \<alpha> b n)(x := None) else kv_tabs J \<alpha> b m))"
    if cf: "colon_free n"
  proof -
    from kv_del_ok [OF R, of b "table_key n x"] obtain b'
      where b': "kv_effect b (delete_cf R b CF_CATALOG (table_key n x)) = (Inr (), b')"
      and g: "sm_get (\<alpha> b' CF_CATALOG) = (sm_get (\<alpha> b CF_CATALOG))(table_key n x := None)" by blast
    have "kv_ok J \<alpha> b'" using ok cf
      unfolding kv_ok_def kv_present_def g by (auto simp: kv_name_def table_key_eq split: option.splits)
    moreover have "kv_tabs J \<alpha> b' m = (if m = n then (kv_tabs J \<alpha> b n)(x := None) else kv_tabs J \<alpha> b m)"
      if "kv_name m" for m
      using that cf by (auto simp: kv_tabs_def g fun_eq_iff kv_name_def table_key_eq)
    ultimately show ?thesis using b'
      by (auto simp: kv_delete_table_def cs_delete_table_def kv_present_def g kv_name_def)
  qed
qed

subsection \<open>The catalog implements the abstract schema\<close>

definition initial_schema :: schema where
  "initial_schema = [info_schema \<mapsto> Map.empty]"

lemma schema_manager_on [simp]: "schema_of (manager_on path b ty) = initial_schema"
  by (auto simp: fun_eq_iff schema_of_def cm_get_database_def manager_on_def initial_schema_def)

lemma manager_on_backend [simp]: "cm_backend (manager_on path b ty) = b"
  by (simp add: manager_on_def)

text \<open>
  C18. Over the JSON backend the catalog implements the abstract schema when creating directories
  does not fail. For any sequence of CREATE/DROP DATABASE and CREATE/ALTER/DROP TABLE commands, on
  any databases, every command answers what the specification answers, success or the same kind of
  error; afterwards the databases and tables in memory are those of the specification, and for
  every database but \<open>information_schema\<close>, which exists in memory only, the backend returns the
  same tables as the catalog in memory.
\<close>

theorem catalog_json_refines:
  assumes "\<forall>p. io_create_dir io p = None" and "cm = run_cmds (json_backend J io) io cs (with_path path)"
  shows "list_all2 answers (run_results (json_backend J io) io cs (with_path path)) (spec_results cs initial_schema) \<and>
    schema_of cm = apply_all spec_cmd cs initial_schema \<and>
    (\<forall>n x. n \<noteq> info_schema \<longrightarrow> json_get_table (cm_backend cm) n x = Inr (cm_get_table cm n x))"
proof -
  have "json.mirror (with_path path)"
    by (auto simp: json.mirror_def with_path_def initial_schema_def json_present_def json_new_def split: option.splits)
  from json.run_cmds_refines [OF this, of cs io J] assms(1)
  have m: "json.mirror cm" and s: "schema_of cm = apply_all spec_cmd cs initial_schema"
    and a: "list_all2 answers (run_results (json_backend J io) io cs (with_path path)) (spec_results cs initial_schema)"
    by (auto simp: json.usable_def assms(2) with_path_def)
  have "json_get_table (cm_backend cm) n x = Inr (cm_get_table cm n x)" if "n \<noteq> info_schema" for n x
  proof (cases "cm_get_database cm n")
    case None
    then have "schema_of cm n = None" by (simp add: schema_of_def)
    from json.mirror_none [OF m _ this] that None show ?thesis
      by (simp add: json_present_def json_get_table_def cm_get_table_def cm_get_database_def)
  next
    case (Some db)
    with json.mirror_get_table [OF m, of n J io x] that show ?thesis by (simp add: json_backend_def)
  qed
  with s a show ?thesis by simp
qed

definition quiet_io :: io_lib where
  "quiet_io = \<lparr>io_create_dir = (\<lambda>_. None), io_write = (\<lambda>_. None), io_read = (\<lambda>_. None), io_sync = (\<lambda>_. None)\<rparr>"

definition sample_table :: table where
  "sample_table = table_default\<lparr>tb_id := 7, tb_name := ''users''\<rparr>"

definition sample_cmds :: "cat_cmd list" where
  "sample_cmds = [CreateDb ''shop'', CreateTb ''shop'' sample_table, CreateDb ''shop'', CreateDb ''tmp'', DropDb ''tmp'']"

text \<open>A JSON library that knows the sample values.\<close>

definition sample_json :: json_lib where
  "sample_json =
     \<lparr>state_to_json = (\<lambda>_. Inl ''no state''), state_from_json = (\<lambda>_. Inl ''no state''),
      database_to_json = (\<lambda>_. Inr ''D''), database_from_json = (\<lambda>_. Inr (database_new 1 ''shop'')),
      table_to_json = (\<lambda>t. if t = sample_table then Inr ''T'' else Inl ''no table''),
      table_from_json = (\<lambda>b. if b = ''T'' then Inr sample_table else Inl ''no table''),
      view_to_json = (\<lambda>_. Inl ''no view''), view_from_json = (\<lambda>_. Inl ''no view''),
      procedure_to_json = (\<lambda>_. Inl ''no procedure''), procedure_from_json = (\<lambda>_. Inl ''no procedure'')\<rparr>"

theorem catalog_json_refines_witness:
  "list_all2 answers (run_results (json_backend sample_json quiet_io) quiet_io sample_cmds (with_path ''m''))
     [None, None, Some DatabaseAlreadyExists, None, None] \<and>
   schema_of (run_cmds (json_backend sample_json quiet_io) quiet_io sample_cmds (with_path ''m'')) =
     initial_schema(''shop'' \<mapsto> [''users'' \<mapsto> sample_table])"
  using catalog_json_refines [of quiet_io _ sample_json sample_cmds "''m''", OF _ refl]
  by (simp add: quiet_io_def sample_cmds_def initial_schema_def fun_upd_twist fun_upd_triv)
     (auto simp: sample_table_def fun_eq_iff)

text \<open>
  C19. The same holds over the key-value backend on an empty store, whenever the embedded store
  works and creating directories does not fail, for commands on databases whose name has no colon
  and with databases and tables that survive their JSON form: every command answers what the
  specification answers, the catalog in memory is that of the specification, and for every such
  database but \<open>information_schema\<close> the store returns the tables the catalog has in memory.
\<close>

theorem catalog_kv_refines:
  assumes "redb_ok R \<alpha>" and "\<alpha> b CF_CATALOG = []" and "\<forall>p. io_create_dir io p = None"
    and "\<forall>c \<in> set cs. colon_free (cmd_db c) \<and> (\<forall>t \<in> cmd_tables c. table_storable J t) \<and>
           (\<forall>i n. c = CreateDb n \<longrightarrow> db_storable J i n)"
    and "cm = run_cmds (kv_backend J R) io cs (manager_on path b ty)"
  shows "list_all2 answers (run_results (kv_backend J R) io cs (manager_on path b ty)) (spec_results cs initial_schema) \<and>
    schema_of cm = apply_all spec_cmd cs initial_schema \<and>
    (\<forall>n x. colon_free n \<and> n \<noteq> info_schema \<and> cm_get_database cm n \<noteq> None \<longrightarrow>
       kv_get_table J R (cm_backend cm) n x = Inr (cm_get_table cm n x))"
proof -
  note spec = kv_spec [OF assms(1), of J]
  have "meta_backend_spec.mirror (kv_ok J \<alpha>) kv_name (kv_present \<alpha>) (kv_tabs J \<alpha>) (manager_on path b ty)"
    using assms(2) unfolding meta_backend_spec.mirror_def [OF spec]
    by (auto simp: kv_ok_def kv_present_def kv_name_def initial_schema_def split: option.splits)
  from meta_backend_spec.run_cmds_refines [OF spec this, of cs io] assms(3,4,5)
    meta_backend_spec.mirror_get_table [OF spec, of cm]
  show ?thesis by (simp add: meta_backend_spec.usable_def [OF spec] kv_name_def)
qed

text \<open>A store in memory with the behaviour of redb: every table an ordered map.\<close>

definition mem_tables :: "(string \<Rightarrow> bytes smap) \<Rightarrow> string \<Rightarrow> bytes smap" where
  "mem_tables db tab = sm_puts (db tab) []"

definition mem_redb :: "(string \<Rightarrow> bytes smap) redb" where
  "mem_redb =
     \<lparr>rd_begin_write = Inr, rd_begin_read = Inr, rd_open_table = (\<lambda>db _. Inr db),
      rd_insert = (\<lambda>db tab k v. Inr (db(tab := sm_put k v (mem_tables db tab)))),
      rd_get = (\<lambda>db tab k. Inr (sm_get (mem_tables db tab) k)),
      rd_remove = (\<lambda>db tab k. Inr (db(tab := sm_del k (mem_tables db tab)))),
      rd_range_from = (\<lambda>db tab lo. Inr (filter (\<lambda>e. lo \<le> fst e) (mem_tables db tab))),
      rd_commit = Inr\<rparr>"

lemma wf_mem_tables [simp]: "wf_smap (mem_tables db tab)"
  by (simp add: mem_tables_def)

lemma mem_tables_upd: "wf_smap m \<Longrightarrow> mem_tables (db(tab := m)) = (mem_tables db)(tab := m)"
  by (auto simp: mem_tables_def fun_eq_iff sm_puts_Nil_right)

lemma mem_redb_ok: "redb_ok mem_redb mem_tables"
  by (simp add: redb_ok_def mem_redb_def mem_tables_upd)

lemma sample_cmds_kv:
  "\<forall>c \<in> set sample_cmds. colon_free (cmd_db c) \<and> (\<forall>t \<in> cmd_tables c. table_storable sample_json t) \<and>
     (\<forall>i n. c = CreateDb n \<longrightarrow> db_storable sample_json i n)"
  by (simp add: sample_cmds_def colon_free_def table_storable_def db_storable_def sample_json_def)

theorem catalog_kv_refines_witness:
  "list_all2 answers (run_results (kv_backend sample_json mem_redb) quiet_io sample_cmds (manager_on ''m'' (\<lambda>_. []) ''kvstore''))
     [None, None, Some DatabaseAlreadyExists, None, None] \<and>
   schema_of (run_cmds (kv_backend sample_json mem_redb) quiet_io sample_cmds (manager_on ''m'' (\<lambda>_. []) ''kvstore'')) =
     initial_schema(''shop'' \<mapsto> [''users'' \<mapsto> sample_table])"
  using catalog_kv_refines [OF mem_redb_ok _ _ sample_cmds_kv refl, of "\<lambda>_. []" quiet_io "''m''" "''kvstore''"]
  by (simp add: mem_tables_def quiet_io_def sample_cmds_def initial_schema_def fun_upd_twist fun_upd_triv)
     (auto simp: sample_table_def fun_eq_iff)

text \<open>
  A colon in a database name breaks the key scheme of the store: creating the database
  \<open>a:table:b\<close> overwrites the entry of table \<open>b\<close> of database \<open>a\<close>, because both have the key
  \<open>db:a:table:b\<close>. The table is then read back as whatever the database parses to.
\<close>

theorem kv_colon_collision:
  assumes "redb_ok R \<alpha>" and "database_to_json J (database_new i ''a:table:b'') = Inr d"
  shows "\<exists>b'. kv_put_database J R b ''a:table:b'' (database_new i ''a:table:b'') = (Inr (), b') \<and>
    kv_get_table J R b' ''a'' ''b'' =
      map_ok Some (map_err (\<lambda>e. Internal (''Deserialization error: '' @ e)) (table_from_json J d))"
proof -
  have key: "db_key ''a:table:b'' = table_key ''a'' ''b''"
    by (simp add: db_key_def table_key_def KEY_DB_def KEY_TABLE_def)
  from kv_put_ok [OF assms(1), of b "db_key ''a:table:b''" d] obtain b'
    where "kv_effect b (put_cf R b CF_CATALOG (db_key ''a:table:b'') d) = (Inr (), b')"
      "sm_get (\<alpha> b' CF_CATALOG) = (sm_get (\<alpha> b CF_CATALOG))(db_key ''a:table:b'' \<mapsto> d)" by blast
  then show ?thesis
    by (auto simp: kv_put_database_def kv_serialized_def assms(2) cs_put_database_raw_def kv_get_table_def
        cs_get_table_raw_def get_cf_ok [OF assms(1) table_def_catalog] kv_deserialized_def key)
qed

theorem kv_colon_collision_witness:
  "\<exists>b'. kv_put_database sample_json mem_redb (\<lambda>_. []) ''a:table:b'' (database_new 1 ''a:table:b'') = (Inr (), b') \<and>
    kv_get_table sample_json mem_redb b' ''a'' ''b'' = Inl (Internal ''Deserialization error: no table'')"
  using kv_colon_collision [OF mem_redb_ok, of sample_json 1 "''D''" "\<lambda>_. []"] by (simp add: sample_json_def)


text \<open>
  The database \<open>information_schema\<close> is created in memory and never told to the backend: a table
  created in it is answered with success and visible in memory, but the backend drops it silently.
\<close>

lemma information_schema_not_mirrored:
  "\<exists>cm. create_table (json_backend J io) (with_path path) info_schema t = (Inr (), cm) \<and>
     cm_get_table cm info_schema (tb_name t) = Some t \<and>
     json_get_table (cm_backend cm) info_schema (tb_name t) = Inr None"
  by (simp add: create_table_def with_path_def manager_on_def json_backend_def json_put_table_def json_new_def
      cm_get_table_def json_get_table_def)

end
