(* ===== verification/Catalog_Restart.thy ===== *)
theory Catalog_Restart
  imports Catalog_Correct
begin

section \<open>Restarting the catalog\<close>

text \<open>
  The well-formedness invariant of the catalog, saving it to \<open>catalog.json\<close> and loading it into a
  new manager, the identifiers after a restart over the key-value backend, and the edit log: what a
  replay reproduces and where it does not.
\<close>

subsection \<open>Well-formedness\<close>

definition db_wf :: "cat_database \<Rightarrow> bool" where
  "db_wf db \<longleftrightarrow> wf_smap (cd_tables db) \<and> (\<forall>(x, t) \<in> set (cd_tables db). tb_name t = x)"

definition cat_wf :: "'b catalog_manager \<Rightarrow> bool" where
  "cat_wf cm \<longleftrightarrow> wf_smap (cm_databases cm) \<and> (\<forall>(n, db) \<in> set (cm_databases cm). db_wf db \<and> cd_name db = n)"

lemma set_sm_put: "set (sm_put k v m) \<subseteq> insert (k, v) (set m)"
  by (induction k v m rule: sm_put.induct) auto

lemma db_wf_new [simp, intro]: "db_wf (database_new i n)"
  by (simp add: db_wf_def database_new_def)

lemma db_wf_add [simp, intro]: "db_wf db \<Longrightarrow> db_wf (db_add_table db t)"
  using set_sm_put [of "tb_name t" t "cd_tables db"] by (auto simp: db_wf_def db_add_table_def)

lemma db_wf_drop [simp, intro]: "db_wf db \<Longrightarrow> db_wf (snd (db_drop_table db x))"
  by (auto simp: db_wf_def db_drop_table_def)

lemma cd_name_simps [simp]:
  "cd_name (database_new i n) = n" "cd_name (db_add_table db t) = cd_name db"
  "cd_name (snd (db_drop_table db x)) = cd_name db"
  by (simp_all add: database_new_def db_add_table_def db_drop_table_def)

lemma cat_wf_put:
  assumes "cat_wf cm" and "db_wf db" and "cd_name db = n" and "cm_databases cm' = sm_put n db (cm_databases cm)"
  shows "cat_wf cm'"
  using assms set_sm_put [of n db "cm_databases cm"] by (auto simp: cat_wf_def)

lemma cat_wf_same: "cat_wf cm \<Longrightarrow> cm_databases cm' = cm_databases cm \<Longrightarrow> cat_wf cm'"
  by (simp add: cat_wf_def)

lemma cat_wf_get: "cat_wf cm \<Longrightarrow> sm_get (cm_databases cm) n = Some db \<Longrightarrow> db_wf db \<and> cd_name db = n"
  by (auto simp: cat_wf_def dest: map_of_SomeD)

lemma cat_wf_simps [simp]:
  "cat_wf (cm\<lparr>cm_backend := b\<rparr>) = cat_wf cm" "cat_wf (cm\<lparr>cm_next_id := i\<rparr>) = cat_wf cm"
  by (simp_all add: cat_wf_def)

lemma cat_wf_stored:
  "cat_wf cm \<Longrightarrow> sm_get (cm_databases cm) n = Some db \<Longrightarrow> db_wf db' \<Longrightarrow> cd_name db' = cd_name db \<Longrightarrow>
     cm_databases cm' = sm_put n db' (cm_databases cm) \<Longrightarrow> cat_wf cm'"
  using cat_wf_put [of cm db' n cm'] cat_wf_get [of cm n db] by simp

lemma cat_wf_create_database: "cat_wf cm \<Longrightarrow> cat_wf (snd (create_database B io cm n))"
  by (auto simp: create_database_def Let_def split: sum.splits prod.splits
      intro: cat_wf_put [where n = n and db = "database_new (cm_next_id cm) n"])

lemma cat_wf_drop_database: "cat_wf cm \<Longrightarrow> cat_wf (snd (drop_database B cm n))"
  by (auto simp: drop_database_def Let_def cat_wf_def split: option.splits prod.splits)

lemma cat_wf_create_table:
  assumes "cat_wf cm"
  shows "cat_wf (snd (create_table B cm n t))"
proof (cases "sm_get (cm_databases cm) n")
  case (Some db)
  have "cat_wf (cm\<lparr>cm_backend := b, cm_databases := sm_put n (db_add_table db t) (cm_databases cm)\<rparr>)" for b
    by (rule cat_wf_stored [OF assms Some]) (use cat_wf_get [OF assms Some] in simp_all)
  with Some assms show ?thesis by (simp add: create_table_def split: sum.split prod.split)
qed (simp add: create_table_def assms)

lemma cat_wf_update_table:
  assumes "cat_wf cm"
  shows "cat_wf (snd (update_table B cm n t))"
proof (cases "sm_get (cm_databases cm) n")
  case (Some db)
  have "cat_wf (cm\<lparr>cm_backend := b,
      cm_databases := sm_put n (db_add_table (snd (db_drop_table db (tb_name t))) t) (cm_databases cm)\<rparr>)" for b
    by (rule cat_wf_stored [OF assms Some]) (use cat_wf_get [OF assms Some] in simp_all)
  with Some assms show ?thesis by (simp add: update_table_def Let_def split: sum.split prod.split)
qed (simp add: update_table_def assms)

lemma cat_wf_drop_table:
  assumes "cat_wf cm"
  shows "cat_wf (snd (drop_table B cm n x))"
proof (cases "sm_get (cm_databases cm) n")
  case (Some db)
  define db' where "db' = snd (db_drop_table db x)"
  have d: "db_drop_table db x = (db_get_table db x, db')"
    by (simp add: db_drop_table_def db_get_table_def db'_def)
  have "cat_wf (cm\<lparr>cm_databases := sm_put n db' (cm_databases cm), cm_backend := b\<rparr>)" for b
    by (rule cat_wf_stored [OF assms Some]) (use cat_wf_get [OF assms Some] in \<open>simp_all add: db'_def\<close>)
  with Some assms d show ?thesis by (simp add: drop_table_def Let_def split: option.split prod.split)
qed (simp add: drop_table_def assms)

lemma cat_wf_run_cmd: "cat_wf cm \<Longrightarrow> cat_wf (snd (run_cmd B io cm c))"
  by (cases c) (simp_all add: cat_wf_create_database cat_wf_drop_database cat_wf_create_table
      cat_wf_update_table cat_wf_drop_table)

lemma cat_wf_manager_on: "cat_wf (manager_on path b ty)"
  by (simp add: cat_wf_def manager_on_def wf_smap_def)

text \<open>
  C20. Whatever the backend does, failing or not, every sequence of catalog commands leaves the
  catalog well formed: each database is filed under its own name and each table under its own name,
  with no name twice.
\<close>

theorem catalog_well_formed: "cat_wf (run_cmds B io cs (manager_on path b ty))"
proof -
  have "cat_wf cm \<Longrightarrow> cat_wf (run_cmds B io cs cm)" for cm
    by (induction cs arbitrary: cm) (simp_all add: cat_wf_run_cmd)
  then show ?thesis by (simp add: cat_wf_manager_on)
qed

subsection \<open>Saving and loading over the JSON backend\<close>

lemma fold_load_table_id:
  assumes "db_wf db" and "\<And>x. mb_get_table B b n x = Inr (db_get_table db x)"
  shows "fold (load_table B b n) xs db = db"
proof (induction xs)
  case (Cons x xs)
  have "load_table B b n x db = db"
  proof (cases "db_get_table db x")
    case (Some t)
    then have "(x, t) \<in> set (cd_tables db)" by (simp add: db_get_table_def map_of_SomeD)
    then have "tb_name t = x" using assms(1) by (auto simp: db_wf_def)
    then have "db_add_table db t = db"
      using sm_put_same [of "cd_tables db" x t] assms(1) Some
      by (simp add: db_add_table_def db_wf_def db_get_table_def)
    with Some assms(2) show ?thesis by (simp add: load_table_def)
  qed (simp add: load_table_def assms(2))
  with Cons show ?case by simp
qed simp

lemma load_databases_all:
  assumes "\<And>n. n \<in> set ns \<Longrightarrow> mb_get_database B b n = Inr (sm_get src n)"
    and "set ns \<subseteq> fst ` set src" and "distinct ns"
  shows "\<exists>dbs'. load_databases B b ns dbs = (Inr (), dbs') \<and>
    (\<forall>k. sm_get dbs' k = (if k \<in> set ns then sm_get src k else sm_get dbs k)) \<and> (wf_smap dbs \<longrightarrow> wf_smap dbs')"
  using assms
proof (induction ns arbitrary: dbs)
  case (Cons n ns)
  then obtain db where db: "sm_get src n = Some db" by (cases "sm_get src n") (auto simp: map_of_eq_None_iff)
  with Cons.prems(1) have "mb_get_database B b n = Inr (Some db)" by simp
  moreover have "\<exists>dbs'. load_databases B b ns (sm_put n db dbs) = (Inr (), dbs') \<and>
    (\<forall>k. sm_get dbs' k = (if k \<in> set ns then sm_get src k else sm_get (sm_put n db dbs) k)) \<and>
    (wf_smap (sm_put n db dbs) \<longrightarrow> wf_smap dbs')"
    by (rule Cons.IH) (use Cons.prems in auto)
  ultimately show ?case using db by auto
qed simp

lemma load_tables_id:
  assumes "\<And>n db. (n, db) \<in> set dbs \<Longrightarrow> db_wf db"
    and "\<And>n db x. (n, db) \<in> set dbs \<Longrightarrow> mb_get_table B b n x = Inr (db_get_table db x)"
    and "\<And>n. \<exists>xs. mb_list_tables B b n = Inr xs"
  shows "load_tables B b dbs = dbs"
  using assms(1,2)
proof (induction dbs)
  case (Cons e dbs)
  obtain n db where e: "e = (n, db)" by (cases e)
  obtain xs where "mb_list_tables B b n = Inr xs" using assms(3) by blast
  with Cons e show ?case
    using fold_load_table_id [of db B b n xs] by (auto simp: load_tables_def map_filter_simps)
qed (simp add: load_tables_def map_filter_simps)

definition save_then_load :: "json_lib \<Rightarrow> io_lib \<Rightarrow> files \<Rightarrow> json_meta catalog_manager \<Rightarrow> (json_meta catalog_manager, unit) effect" where
  "save_then_load J io fs cm =
     (case cm_save J io (json_backend J io) fs cm of
        (Inl e, fs', cm') \<Rightarrow> (Inl e, cm')
      | (Inr _, fs', _) \<Rightarrow> cm_load (json_backend J io) fs' (with_path (cm_catalog_path cm)))"

lemma json_load_saved:
  assumes "state_to_json J st = Inr d" and "state_from_json J d = Inr st" and "valid_utf8 d"
    and "\<forall>p. io_read io p = None" and "wf_smap (st_databases st)"
  shows "\<exists>b. json_load J io (sm_put (path @ ''/catalog.json'') d fs) (json_new path) = (Inr (), b) \<and>
    jm_databases b = st_databases st \<and> jm_next_id b = st_next_id st"
  using assms by (auto simp: json_load_def json_new_def catalog_file_def fs_read_to_string_def sm_puts_Nil_right)

text \<open>
  C21. Saving and loading is a round trip for databases, tables and the identifier counter: a new
  manager over the JSON backend that loads the file a well-formed catalog was saved to has the same
  databases with the same tables and hands out the same next identifier.
\<close>

theorem catalog_save_load:
  assumes "cat_wf cm" and "sm_get (cm_databases cm) info_schema \<noteq> None"
    and "state_to_json J (state_of cm) = Inr d" and "state_from_json J d = Inr (state_of cm)" and "valid_utf8 d"
    and "\<forall>p. io_create_dir io p = None \<and> io_write io p = None \<and> io_read io p = None"
  shows "\<exists>cm'. save_then_load J io fs cm = (Inr (), cm') \<and>
    cm_databases cm' = cm_databases cm \<and> cm_next_id cm' = cm_next_id cm"
proof -
  let ?fs = "sm_put (cm_catalog_path cm @ ''/catalog.json'') d fs" and ?B = "json_backend J io"
  have wf: "wf_smap (cm_databases cm)" using assms(1) by (simp add: cat_wf_def)
  have save: "cm_save J io ?B fs cm = (Inr (), ?fs, cm)"
    using assms(3,6) by (simp add: cm_save_def fs_create_dir_all_def fs_write_def json_backend_def json_flush_def)
  from json_load_saved [OF assms(3,4,5), of io "cm_catalog_path cm" fs] assms(6) wf obtain b
    where load: "json_load J io ?fs (json_new (cm_catalog_path cm)) = (Inr (), b)"
      and b: "jm_databases b = cm_databases cm" "jm_next_id b = cm_next_id cm"
    by (auto simp: state_of_def)
  have B: "mb_get_database ?B b n = Inr (sm_get (cm_databases cm) n)"
    "mb_list_databases ?B b = Inr (map fst (cm_databases cm))" "mb_get_next_id ?B b = Inr (cm_next_id cm)" for n
    by (simp_all add: json_backend_def json_get_database_def json_list_databases_def json_get_next_id_def b)
  define start where "start = [(info_schema, database_new 0 info_schema)]"
  from load_databases_all [of "map fst (cm_databases cm)" ?B b "cm_databases cm" start] B(1) wf obtain dbs
    where dbs: "load_databases ?B b (map fst (cm_databases cm)) start = (Inr (), dbs)"
      and get: "\<forall>k. sm_get dbs k = (if k \<in> set (map fst (cm_databases cm)) then sm_get (cm_databases cm) k else sm_get start k)"
      and "wf_smap start \<longrightarrow> wf_smap dbs"
    by (auto simp: wf_smap_distinct)
  then have wf': "wf_smap dbs" by (simp add: start_def wf_smap_def)
  have same: "dbs = cm_databases cm"
  proof (rule smap_ext [OF wf' wf])
    fix k
    show "sm_get dbs k = sm_get (cm_databases cm) k"
    proof (cases "sm_get (cm_databases cm) k")
      case None
      with assms(2) have "k \<noteq> info_schema" "k \<notin> set (map fst (cm_databases cm))"
        by (auto simp: map_of_eq_None_iff)
      with get None show ?thesis by (simp add: start_def)
    next
      case (Some db)
      then have "k \<in> set (map fst (cm_databases cm))" by (force dest: map_of_SomeD)
      with get show ?thesis by simp
    qed
  qed
  have tables: "load_tables ?B b (cm_databases cm) = cm_databases cm"
  proof (rule load_tables_id)
    fix n db x assume n: "(n, db) \<in> set (cm_databases cm)"
    then show "db_wf db" using assms(1) by (auto simp: cat_wf_def)
    from n wf have "sm_get (cm_databases cm) n = Some db" by (simp add: sm_get_iff)
    then show "mb_get_table ?B b n x = Inr (db_get_table db x)" by (simp add: json_backend_def json_get_table_def b)
  qed (simp add: json_backend_def json_list_tables_def)
  have puts: "sm_puts (cm_databases cm) (cm_databases cm) = cm_databases cm"
    by (rule smap_ext) (use wf in \<open>auto simp: sm_get_puts wf_smap_distinct split: option.splits\<close>)
  show ?thesis
    using save load dbs tables puts B(2,3)
    by (simp add: save_then_load_def cm_load_def with_path_def manager_on_def same Let_def json_backend_def start_def)
qed

definition sample_catalog :: "json_meta catalog_manager" where
  "sample_catalog = run_cmds (json_backend sample_json quiet_io) quiet_io sample_cmds (with_path ''m'')"

definition state_json :: "catalog_state \<Rightarrow> json_lib" where
  "state_json st = sample_json\<lparr>state_to_json := (\<lambda>_. Inr ''S''), state_from_json := (\<lambda>_. Inr st)\<rparr>"

lemma sample_catalog_wf: "cat_wf sample_catalog"
  unfolding sample_catalog_def with_path_def by (rule catalog_well_formed)

lemma sample_catalog_info: "sm_get (cm_databases sample_catalog) info_schema \<noteq> None"
proof -
  have "map_option cd_id (sm_get (cm_databases sample_catalog) info_schema) = Some 0" by code_simp
  then show ?thesis by auto
qed

theorem catalog_save_load_witness:
  "\<exists>cm'. save_then_load (state_json (state_of sample_catalog)) quiet_io [] sample_catalog = (Inr (), cm') \<and>
     cm_databases cm' = cm_databases sample_catalog \<and> cm_next_id cm' = cm_next_id sample_catalog"
  using catalog_save_load [OF sample_catalog_wf sample_catalog_info, of "state_json (state_of sample_catalog)" "''S''" quiet_io "[]"]
  by (simp add: state_json_def quiet_io_def valid_utf8_ascii is_ascii_def)

text \<open>
  Materialized views do not survive a restart: whatever the files and the backend hold, a new
  manager has no materialized view after \<open>load\<close>, although \<open>save\<close> writes them and both backends
  store them.
\<close>

theorem load_forgets_views:
  "all_materialized_views (snd (cm_load B fs (manager_on path b ty))) = [] \<and>
   cm_get_materialized_view (snd (cm_load B fs (manager_on path b ty))) db_name name = None"
  by (auto simp: cm_load_def manager_on_def all_materialized_views_def cm_get_materialized_view_def Let_def
      split: sum.split prod.split)

text \<open>
  Over the key-value backend a restart starts the identifiers again at 0: the manager counts
  them in memory and never stores the counter, so after \<open>load\<close> the next database gets identifier 0,
  which \<open>information_schema\<close> and every first database of an earlier run may have.
\<close>

theorem kv_restart_reuses_ids:
  assumes "redb_ok R \<alpha>" and "sm_get (\<alpha> b CF_CATALOG) KEY_NEXT_ID = None"
    and "cm_load (kv_backend J R) fs (manager_on path b ty) = (Inr (), cm)"
    and "create_database (kv_backend J R) io cm n = (Inr (), cm')"
  shows "map_option cd_id (cm_get_database cm' n) = Some 0"
proof -
  have "cm_next_id cm = 0"
    using assms(2,3)
    by (auto simp: cm_load_def kv_backend_def kv_load_def manager_on_def Let_def kv_get_next_id_def cs_get_next_id_def
        get_counter_def get_cf_ok [OF assms(1) table_def_catalog] split: sum.splits prod.splits)
  then show ?thesis using assms(4)
    by (auto simp: create_database_def cm_get_database_def database_new_def Let_def split: if_splits sum.splits prod.splits)
qed

theorem kv_restart_reuses_ids_witness:
  "map_option cd_id (cm_get_database (snd (create_database (kv_backend sample_json mem_redb) quiet_io
      (snd (cm_load (kv_backend sample_json mem_redb) [] (manager_on ''m'' (\<lambda>_. []) ''kvstore''))) ''shop'')) ''shop'') = Some 0"
proof -
  define cm where "cm = snd (cm_load (kv_backend sample_json mem_redb) [] (manager_on ''m'' (\<lambda>_. []) ''kvstore''))"
  have load: "cm_load (kv_backend sample_json mem_redb) [] (manager_on ''m'' (\<lambda>_. []) ''kvstore'') = (Inr (), cm)"
  proof (rule prod_eqI)
    show "fst (cm_load (kv_backend sample_json mem_redb) [] (manager_on ''m'' (\<lambda>_. []) ''kvstore'')) = fst (Inr (), cm)"
      by code_simp
  qed (simp add: cm_def)
  have "fst (create_database (kv_backend sample_json mem_redb) quiet_io cm ''shop'') = Inr ()"
    unfolding cm_def by code_simp
  then have "create_database (kv_backend sample_json mem_redb) quiet_io cm ''shop'' =
      (Inr (), snd (create_database (kv_backend sample_json mem_redb) quiet_io cm ''shop''))"
    by (metis surjective_pairing)
  from kv_restart_reuses_ids [OF mem_redb_ok _ load this] show ?thesis by (simp add: mem_tables_def cm_def)
qed

end
