(* ===== verification/EditLog_Correct.thy ===== *)
theory EditLog_Correct
  imports Catalog_Restart
begin

section \<open>The edit log: replay, numbering and order\<close>

text \<open>
  Replaying the log of a catalog writer against the run that wrote it, the indices of appended
  entries, and what a flush followed by a replay restores.
\<close>

subsection \<open>Replaying the log of a writer\<close>

datatype log_cmd =
    LogCreateDb string
  | LogDropDb string
  | LogCreateTb string table
  | LogDropTb string string

fun writer_cmd :: "op_json \<Rightarrow> 'b meta_backend \<Rightarrow> io_lib \<Rightarrow> log_cmd \<Rightarrow> 'b catalog_writer \<Rightarrow> ('b catalog_writer, unit) effect" where
  "writer_cmd P B io (LogCreateDb n) w = writer_create_database P B io w n"
| "writer_cmd P B io (LogDropDb n) w = writer_drop_database P B w n"
| "writer_cmd P B io (LogCreateTb n t) w = writer_create_table P B w n t"
| "writer_cmd P B io (LogDropTb n x) w = writer_drop_table P B w n x"

text \<open>The commands up to and including the first that fails.\<close>

fun run_writer :: "op_json \<Rightarrow> 'b meta_backend \<Rightarrow> io_lib \<Rightarrow> log_cmd list \<Rightarrow> 'b catalog_writer \<Rightarrow> ('b catalog_writer, unit) effect" where
  "run_writer P B io [] w = (Inr (), w)"
| "run_writer P B io (c # cs) w =
     (case writer_cmd P B io c w of
        (Inl e, w') \<Rightarrow> (Inl e, w')
      | (Inr _, w') \<Rightarrow> run_writer P B io cs w')"

fun log_op :: "log_cmd \<Rightarrow> catalog_op" where
  "log_op (LogCreateDb n) = CreateDatabaseOp n"
| "log_op (LogDropDb n) = DropDatabaseOp n"
| "log_op (LogCreateTb n t) = CreateTableOp n t"
| "log_op (LogDropTb n x) = DropTableOp n x"

definition op_survives :: "op_json \<Rightarrow> catalog_op \<Rightarrow> bool" where
  "op_survives P op \<longleftrightarrow> (\<exists>d. op_to_json P op = Inr d \<and> op_from_json P d = Inr op)"

definition replayable :: "op_json \<Rightarrow> log_cmd \<Rightarrow> bool" where
  "replayable P c \<longleftrightarrow> op_survives P (log_op c) \<and> (case c of LogDropTb _ _ \<Rightarrow> False | _ \<Rightarrow> True)"

lemma log_append_entries:
  "\<exists>e. el_entries (snd (log_append l ty d)) = el_entries l @ [e] \<and> ee_op_type e = ty \<and> ee_data e = d"
  by (simp add: log_append_def Let_def)

lemma logged_entry:
  assumes "op_to_json P op = Inr d"
  shows "\<exists>e. el_entries (cw_edit_log (snd (logged P ty op act w))) = el_entries (cw_edit_log w) @ [e] \<and>
    ee_op_type e = ty \<and> ee_data e = d \<and>
    act (cw_catalog w) = (fst (logged P ty op act w), cw_catalog (snd (logged P ty op act w)))"
  using assms log_append_entries [of "cw_edit_log w" ty d] by (auto simp: logged_def split: prod.split)

lemma writer_cmd_replay:
  assumes "replayable P c" and "writer_cmd P B io c w = (r, w')"
  shows "\<exists>e. el_entries (cw_edit_log w') = el_entries (cw_edit_log w) @ [e] \<and>
    replay_entry P B io e (cw_catalog w) = (r, cw_catalog w')"
proof -
  from assms(1) obtain d where d: "op_to_json P (log_op c) = Inr d" "op_from_json P d = Inr (log_op c)"
    by (auto simp: replayable_def op_survives_def)
  show ?thesis
  proof (cases c)
    case (LogCreateDb n)
    with logged_entry [of P "CreateDatabaseOp n" d OpCreateDatabase "\<lambda>cm. create_database B io cm n" w] d assms(2)
    show ?thesis by (auto simp: writer_create_database_def replay_entry_def)
  next
    case (LogDropDb n)
    with logged_entry [of P "DropDatabaseOp n" d OpDropDatabase "\<lambda>cm. drop_database B cm n" w] d assms(2)
    show ?thesis by (auto simp: writer_drop_database_def replay_entry_def)
  next
    case (LogCreateTb n t)
    with logged_entry [of P "CreateTableOp n t" d OpCreateTable "\<lambda>cm. create_table B cm n t" w] d assms(2)
    show ?thesis by (auto simp: writer_create_table_def replay_entry_def)
  qed (use assms(1) in \<open>simp add: replayable_def\<close>)
qed

lemma run_writer_replay:
  assumes "run_writer P B io cs w = (r, w')" and "\<And>c. c \<in> set cs \<Longrightarrow> replayable P c"
  shows "\<exists>es. el_entries (cw_edit_log w') = el_entries (cw_edit_log w) @ es \<and>
    replay_entries P B io es (cw_catalog w) = (r, cw_catalog w')"
  using assms
proof (induction cs arbitrary: w)
  case Nil
  then show ?case by (intro exI [of _ "[]"]) auto
next
  case (Cons c cs)
  obtain r1 w1 where step: "writer_cmd P B io c w = (r1, w1)" by (cases "writer_cmd P B io c w")
  from writer_cmd_replay [OF _ step] Cons.prems(2) obtain e
    where e: "el_entries (cw_edit_log w1) = el_entries (cw_edit_log w) @ [e]"
      "replay_entry P B io e (cw_catalog w) = (r1, cw_catalog w1)" by auto
  show ?case
  proof (cases r1)
    case (Inl err)
    with step e Cons.prems(1) show ?thesis by (intro exI [of _ "[e]"]) auto
  next
    case (Inr u)
    with step Cons.prems(1) have "run_writer P B io cs w1 = (r, w')" by simp
    from Cons.IH [OF this] Cons.prems(2) obtain es where
      "el_entries (cw_edit_log w') = el_entries (cw_edit_log w1) @ es"
      "replay_entries P B io es (cw_catalog w1) = (r, cw_catalog w')" by auto
    with e Inr show ?thesis by (intro exI [of _ "e # es"]) auto
  qed
qed

text \<open>
  C22. Replaying the edit log of a writer on the catalog it started from gives exactly the result
  and the catalog of the original run, for CREATE and DROP DATABASE and CREATE TABLE whose operations survive their JSON form. DROP TABLE is
  excluded: the writer logs the database name in place of the table name. The log is
  written before the operation is tried, so a run that ended in an error replays into that error:
  a rejected statement stays in the log and stops the replay at start-up.
\<close>

theorem edit_log_replay:
  assumes "run_writer P B io cs (writer_new cm (log_new dir)) = (r, w)" and "\<forall>c \<in> set cs. replayable P c"
  shows "replay_edit_log P B io (cw_edit_log w) cm = (r, cw_catalog w)"
  using run_writer_replay [OF assms(1)] assms(2) by (auto simp: replay_edit_log_def writer_new_def log_new_def)

text \<open>The witness: the same database is created twice; the second, rejected statement is replayed
  into the same error.\<close>

definition sample_op_json :: op_json where
  "sample_op_json =
     \<lparr>op_to_json = (\<lambda>op. case op of CreateDatabaseOp n \<Rightarrow> Inr n | DropTableOp d x \<Rightarrow> Inr ''drop'' | _ \<Rightarrow> Inl ''no op''),
      op_from_json = (\<lambda>d. if d = ''drop'' then Inr (DropTableOp ''shop'' ''shop'') else Inr (CreateDatabaseOp d))\<rparr>"

definition twice :: "(json_meta catalog_writer, unit) effect" where
  "twice = run_writer sample_op_json (json_backend sample_json quiet_io) quiet_io
     [LogCreateDb ''shop'', LogCreateDb ''shop''] (writer_new (with_path ''m'') (log_new ''m''))"

theorem edit_log_replay_witness:
  "replay_edit_log sample_op_json (json_backend sample_json quiet_io) quiet_io (cw_edit_log (snd twice)) (with_path ''m'')
     = (fst twice, cw_catalog (snd twice)) \<and>
   fst twice = Inl (catalog_err DatabaseAlreadyExists (''database '' @ quoted ''shop'' @ '' already exists''))"
proof
  show "replay_edit_log sample_op_json (json_backend sample_json quiet_io) quiet_io (cw_edit_log (snd twice)) (with_path ''m'')
     = (fst twice, cw_catalog (snd twice))"
  proof (rule edit_log_replay)
    show "run_writer sample_op_json (json_backend sample_json quiet_io) quiet_io
        [LogCreateDb ''shop'', LogCreateDb ''shop''] (writer_new (with_path ''m'') (log_new ''m'')) = (fst twice, snd twice)"
      by (simp only: twice_def prod.collapse)
    show "\<forall>c \<in> set [LogCreateDb ''shop'', LogCreateDb ''shop'']. replayable sample_op_json c"
      by (simp add: replayable_def op_survives_def sample_op_json_def)
  qed
  show "fst twice = Inl (catalog_err DatabaseAlreadyExists (''database '' @ quoted ''shop'' @ '' already exists''))"
    by code_simp
qed

text \<open>
  DROP TABLE is logged wrongly: the entry names the database in place of the table. When the
  statement succeeds and no table has the name of the database, replaying its entry on the catalog
  as it was fails with table not found and drops nothing.
\<close>

theorem drop_table_logged_wrongly:
  assumes "writer_drop_table P B w d x = (Inr (), w')" and "op_survives P (DropTableOp d d)"
    and "cm_get_table (cw_catalog w) d d = None"
  shows "replay_entry P B io (last (el_entries (cw_edit_log w'))) (cw_catalog w) =
    (Inl (catalog_err TableNotFound (''table '' @ quoted d @ '' not found'')), cw_catalog w)"
proof -
  from assms(2) obtain j where j: "op_to_json P (DropTableOp d d) = Inr j" "op_from_json P j = Inr (DropTableOp d d)"
    by (auto simp: op_survives_def)
  from logged_entry [OF j(1), of OpDropTable "\<lambda>cm. drop_table B cm d x" w] assms(1) obtain e
    where e: "last (el_entries (cw_edit_log w')) = e" "ee_op_type e = OpDropTable" "ee_data e = j"
      and run: "drop_table B (cw_catalog w) d x = (Inr (), cw_catalog w')"
    by (auto simp: writer_drop_table_def)
  from run obtain db where db: "sm_get (cm_databases (cw_catalog w)) d = Some db"
    by (cases "sm_get (cm_databases (cw_catalog w)) d") (auto simp: drop_table_def)
  with assms(3) have "fst (db_drop_table db d) = None" by (simp add: cm_get_table_def)
  with e j db show ?thesis
    by (cases "db_drop_table db d") (simp add: replay_entry_def drop_table_def)
qed

definition sample_writer :: "json_meta catalog_writer" where
  "sample_writer = writer_new sample_catalog (log_new ''m'')"

theorem drop_table_logged_wrongly_witness:
  "replay_entry sample_op_json (json_backend sample_json quiet_io) quiet_io
     (last (el_entries (cw_edit_log (snd (writer_drop_table sample_op_json (json_backend sample_json quiet_io) sample_writer ''shop'' ''users'')))))
     sample_catalog = (Inl (catalog_err TableNotFound (''table '' @ quoted ''shop'' @ '' not found'')), sample_catalog)"
proof -
  let ?r = "writer_drop_table sample_op_json (json_backend sample_json quiet_io) sample_writer ''shop'' ''users''"
  have "fst ?r = Inr ()" by code_simp
  then have run: "?r = (Inr (), snd ?r)" by (metis surjective_pairing)
  have "map_option tb_id (cm_get_table sample_catalog ''shop'' ''shop'') = None" by code_simp
  then have "cm_get_table (cw_catalog sample_writer) ''shop'' ''shop'' = None"
    by (simp add: sample_writer_def writer_new_def)
  from drop_table_logged_wrongly [OF run _ this, of quiet_io] show ?thesis
    by (simp add: op_survives_def sample_op_json_def sample_writer_def writer_new_def)
qed

subsection \<open>Indices\<close>

text \<open>The pending entries are numbered on from the last flushed index.\<close>

definition log_inv :: "edit_log \<Rightarrow> bool" where
  "log_inv l \<longleftrightarrow>
     map ee_index (el_entries l) = [el_last_applied_index l + 1 ..< el_last_applied_index l + 1 + length (el_entries l)]"

lemma log_append_inv:
  assumes "log_inv l" and "el_last_applied_index l + length (el_entries l) + 1 < 2 ^ 64"
  shows "log_inv (snd (log_append l ty d)) \<and>
    fst (log_append l ty d) = el_last_applied_index l + length (el_entries l) + 1"
  using assms by (simp add: log_inv_def log_append_def Let_def add.commute add.left_commute)

lemma log_flush_inv:
  assumes "log_inv l" and "log_flush ser io fs l = (r, fs', l')"
  shows "log_inv l'"
  using assms by (auto simp: log_flush_def log_inv_def Let_def split: if_splits option.splits prod.splits)

lemma log_flush_last:
  assumes "log_inv l" and "log_flush ser io fs l = (Inr (), fs', l')"
  shows "el_last_applied_index l' + length (el_entries l') = el_last_applied_index l + length (el_entries l)"
proof (cases "el_entries l = []")
  case False
  then have "ee_index (last (el_entries l)) = last (map ee_index (el_entries l))" by (simp add: last_map)
  also have "\<dots> = el_last_applied_index l + length (el_entries l)"
    using assms(1) False by (simp add: log_inv_def Suc_le_eq)
  finally show ?thesis using assms(2) False
    by (auto simp: log_flush_def Let_def split: if_splits option.splits prod.splits)
qed (use assms(2) in \<open>simp add: log_flush_def\<close>)

text \<open>
  Within a run the log numbers its entries without gaps: an append gets the index after the
  last one, whether earlier entries are still pending or already flushed, as long as the counter
  does not reach \<open>2^64\<close>.
\<close>

theorem log_indices_consecutive:
  assumes "log_inv l" and "log_flush ser io fs l = (Inr (), fs', l')"
    and "el_last_applied_index l + length (el_entries l) + 1 < 2 ^ 64"
  shows "fst (log_append l ty d) = el_last_applied_index l + length (el_entries l) + 1 \<and>
    fst (log_append l' ty d) = fst (log_append l ty d) \<and>
    log_inv (snd (log_append l ty d)) \<and> log_inv (snd (log_append l' ty d))"
  using log_append_inv [OF assms(1,3), of ty d] log_flush_last [OF assms(1,2)]
    log_append_inv [OF log_flush_inv [OF assms(1,2)], of ty d] assms(3) by simp

definition sample_entry_json :: "edit_log_entry \<Rightarrow> string + bytes" where
  "sample_entry_json e = Inr (''e'' @ ee_data e)"

definition sample_entry_parse :: "nat \<Rightarrow> bytes \<Rightarrow> string + edit_log_entry" where
  "sample_entry_parse i b = Inr \<lparr>ee_term = 1, ee_index = i, ee_op_type = OpCreateDatabase, ee_data = drop 1 b\<rparr>"

definition sample_log :: edit_log where
  "sample_log = snd (log_append (log_new ''m'') OpCreateDatabase ''db'')"

theorem log_indices_consecutive_witness:
  "fst (log_append (snd (snd (log_flush sample_entry_json quiet_io [] sample_log))) OpDropDatabase ''x'') = 2"
proof -
  have inv: "log_inv sample_log" by (simp add: sample_log_def log_inv_def log_append_def log_new_def)
  have flush: "log_flush sample_entry_json quiet_io [] sample_log =
      (Inr (), fst (snd (log_flush sample_entry_json quiet_io [] sample_log)), snd (snd (log_flush sample_entry_json quiet_io [] sample_log)))"
    by (simp add: sample_log_def log_append_def log_new_def log_flush_def quiet_io_def sample_entry_json_def Let_def)
  from log_indices_consecutive [OF inv flush, of OpDropDatabase "''x''"] show ?thesis
    by (simp add: sample_log_def log_append_def log_new_def)
qed

subsection \<open>Flush and replay\<close>

lemma quiet_io_sel: "io_write quiet_io p = None" "io_sync quiet_io p = None" "io_read quiet_io p = None"
  by (simp_all add: quiet_io_def)

lemma log_lines_split:
  assumes "\<And>e. e \<in> set es \<Longrightarrow> \<exists>b. ser e = Inr b \<and> LF \<notin> set b \<and> b \<noteq> [] \<and> de b = Inr e"
  shows "\<exists>w. log_lines ser es = (None, w) \<and>
    fold (replay_line de) (split_lf w) l =
      (if es = [] then l else l\<lparr>el_last_applied_index := ee_index (last es), el_entries := el_entries l @ es\<rparr>)"
  using assms
proof (induction es arbitrary: l)
  case Nil
  then show ?case by (simp add: replay_line_def)
next
  case (Cons e es)
  then obtain b where b: "ser e = Inr b" "LF \<notin> set b" "b \<noteq> []" "de b = Inr e" by auto
  define l1 where "l1 = l\<lparr>el_last_applied_index := ee_index e, el_entries := el_entries l @ [e]\<rparr>"
  from Cons.IH [of l1] Cons.prems obtain w where w: "log_lines ser es = (None, w)"
    "fold (replay_line de) (split_lf w) l1 =
      (if es = [] then l1 else l1\<lparr>el_last_applied_index := ee_index (last es), el_entries := el_entries l1 @ es\<rparr>)"
    by auto
  have "fold (replay_line de) (split_lf (b @ LF # w)) l = fold (replay_line de) (split_lf w) l1"
    using b by (simp add: split_lf_line replay_line_def l1_def)
  with w b(1) show ?case by (auto simp: l1_def)
qed

lemma show_nat_no_slash: "CHR ''/'' \<notin> set (show_nat n)"
  using set_show_nat [of n] by (auto simp: digits_def)

lemma dir_names_log_file:
  "dir_names [(dir @ ''/edit_log_'' @ show_nat n @ ''.json'', c)] dir = [''edit_log_'' @ show_nat n @ ''.json'']"
proof -
  have "prefix (dir @ ''/'') (dir @ ''/edit_log_'' @ show_nat n @ ''.json'')" by (simp add: prefix_def)
  moreover have "takeWhile (\<lambda>c. c \<noteq> CHR ''/'') (''edit_log_'' @ show_nat n @ ''.json'') = ''edit_log_'' @ show_nat n @ ''.json''"
    using show_nat_no_slash [of n] by (subst takeWhile_eq_all_conv) auto
  ultimately show ?thesis by (simp add: dir_names_def sm_scan_def)
qed

text \<open>
  A flush into an empty directory followed by the replay at the next start restores the
  entries, but not the numbering: the replayed entries count as pending while the last applied
  index is already that of the last of them, so the next entry skips as many indices as were
  replayed, and the next flush writes them out a second time.
\<close>

theorem flush_replay_restart:
  assumes "el_entries l \<noteq> []" and "io_write io (log_file l) = None" and "io_sync io (log_file l) = None"
    and "io_read io (log_file l) = None"
    and "\<forall>e \<in> set (el_entries l). \<exists>b. ser e = Inr b \<and> LF \<notin> set b \<and> b \<noteq> [] \<and> de b = Inr e"
    and "length (el_entries l) + ee_index (last (el_entries l)) + 1 < 2 ^ 64"
  shows "\<exists>fs l' l2. log_flush ser io [] l = (Inr (), fs, l') \<and>
    log_replay de io fs (log_new (el_log_path l)) = (Inr (), l2) \<and>
    el_entries l2 = el_entries l \<and> el_last_applied_index l2 = ee_index (last (el_entries l)) \<and>
    fst (log_append l2 ty d) = ee_index (last (el_entries l)) + length (el_entries l) + 1"
proof -
  from log_lines_split [of "el_entries l" ser de "log_new (el_log_path l)"] assms(1,5) obtain c
    where c: "log_lines ser (el_entries l) = (None, c)"
      "fold (replay_line de) (split_lf c) (log_new (el_log_path l)) =
        (log_new (el_log_path l))\<lparr>el_last_applied_index := ee_index (last (el_entries l)), el_entries := el_entries l\<rparr>"
    by (auto simp: log_new_def)
  define l2 where "l2 = (log_new (el_log_path l))\<lparr>el_last_applied_index := ee_index (last (el_entries l)), el_entries := el_entries l\<rparr>"
  have path: "el_log_path (log_new (el_log_path l)) = el_log_path l" by (simp add: log_new_def)
  have "log_flush ser io [] l = (Inr (), [(log_file l, c)],
      l\<lparr>el_last_applied_index := ee_index (last (el_entries l)), el_entries := []\<rparr>)"
    using assms(1,2,3) c(1) by (simp add: log_flush_def Let_def)
  moreover have "log_replay de io [(log_file l, c)] (log_new (el_log_path l)) = (Inr (), l2)"
    using assms(4) c(2) dir_names_log_file [of "el_log_path l" "el_last_applied_index l" c]
    by (simp add: log_replay_def path log_file_def fs_read_def l2_def)
  moreover have "fst (log_append l2 ty d) = ee_index (last (el_entries l)) + length (el_entries l) + 1"
    using assms(6) by (simp add: log_append_def l2_def Let_def)
  ultimately show ?thesis by (auto simp: l2_def)
qed

theorem flush_replay_restart_witness:
  "\<exists>fs l' l2. log_flush sample_entry_json quiet_io [] sample_log = (Inr (), fs, l') \<and>
    log_replay (sample_entry_parse 1) quiet_io fs (log_new ''m'') = (Inr (), l2) \<and>
    el_entries l2 = el_entries sample_log \<and> el_last_applied_index l2 = 1 \<and>
    fst (log_append l2 OpDropDatabase ''db'') = 3"
proof -
  have l: "el_entries sample_log = [\<lparr>ee_term = 1, ee_index = 1, ee_op_type = OpCreateDatabase, ee_data = ''db''\<rparr>]"
    "el_log_path sample_log = ''m''"
    by (simp_all add: sample_log_def log_append_def log_new_def)
  show ?thesis
    using flush_replay_restart [of sample_log quiet_io sample_entry_json "sample_entry_parse 1" OpDropDatabase "''db''"]
    by (simp add: l quiet_io_sel sample_entry_json_def sample_entry_parse_def numeral_3_eq_3)
qed

text \<open>
  Log files are replayed in the order of their names, which is not the order in which they were
  written: the file of index 10 comes before the file of index 9, so its entries are applied first.
\<close>

theorem replay_order_by_name:
  "log_replay de quiet_io [(''m/edit_log_10.json'', a), (''m/edit_log_9.json'', b)] (log_new ''m'') =
     (Inr (), fold (replay_line de) (split_lf b) (fold (replay_line de) (split_lf a) (log_new ''m'')))"
  by (simp add: log_replay_def log_new_def dir_names_def sm_scan_def fs_read_def quiet_io_def)

end
