(* ===== verification/TsqlLexer.thy ===== *)
theory TsqlLexer
  imports Rust_Std
begin

section \<open>The T-SQL lexer (crates/tsql-parser/src/lexer.rs)\<close>

text \<open>
  The lexer works on Unicode characters: here on code points, with positions counted in characters.
  The character classes and the upper-case mapping outside ASCII and the parser of floating point
  numbers are library code, the fields of \<open>char_lib\<close>; on ASCII they are written out. The
  constructors of \<open>TsqlToken\<close> without an argument are \<open>Tok\<close> with the name of the constructor,
  listed in \<open>plain_tokens\<close>.
\<close>

type_synonym uchar = nat

abbreviation ch :: "char \<Rightarrow> uchar" where
  "ch c \<equiv> of_char c"

abbreviation chs :: "string \<Rightarrow> uchar list" where
  "chs s \<equiv> map of_char s"

record 'f char_lib =
  uni_whitespace :: "uchar \<Rightarrow> bool"
  uni_alphabetic :: "uchar \<Rightarrow> bool"
  uni_numeric :: "uchar \<Rightarrow> bool"
  uni_upper :: "uchar list \<Rightarrow> uchar list"
  parse_f64 :: "string \<Rightarrow> 'f option"

definition is_whitespace :: "'f char_lib \<Rightarrow> uchar \<Rightarrow> bool" where
  "is_whitespace C c \<longleftrightarrow> (if c < 128 then 9 \<le> c \<and> c \<le> 13 \<or> c = 32 else uni_whitespace C c)"

definition is_ascii_digit :: "uchar \<Rightarrow> bool" where
  "is_ascii_digit c \<longleftrightarrow> 48 \<le> c \<and> c \<le> 57"

definition is_ascii_hexdigit :: "uchar \<Rightarrow> bool" where
  "is_ascii_hexdigit c \<longleftrightarrow> 48 \<le> c \<and> c \<le> 57 \<or> 65 \<le> c \<and> c \<le> 70 \<or> 97 \<le> c \<and> c \<le> 102"

definition is_alphabetic :: "'f char_lib \<Rightarrow> uchar \<Rightarrow> bool" where
  "is_alphabetic C c \<longleftrightarrow> (if c < 128 then 65 \<le> c \<and> c \<le> 90 \<or> 97 \<le> c \<and> c \<le> 122 else uni_alphabetic C c)"

definition is_numeric_char :: "'f char_lib \<Rightarrow> uchar \<Rightarrow> bool" where
  "is_numeric_char C c \<longleftrightarrow> (if c < 128 then 48 \<le> c \<and> c \<le> 57 else uni_numeric C c)"

definition is_alphanumeric :: "'f char_lib \<Rightarrow> uchar \<Rightarrow> bool" where
  "is_alphanumeric C c \<longleftrightarrow> is_alphabetic C c \<or> is_numeric_char C c"

definition upper_char :: "uchar \<Rightarrow> uchar" where
  "upper_char c = (if 97 \<le> c \<and> c \<le> 122 then c - 32 else c)"

definition upper_chars :: "'f char_lib \<Rightarrow> uchar list \<Rightarrow> uchar list" where
  "upper_chars C s = (if \<forall>c \<in> set s. c < 128 then map upper_char s else uni_upper C s)"

subsection \<open>Tokens and errors\<close>

datatype (plugins only: code size) 'f tsql_token =
    Tok string
  | IntLiteral int
  | BigIntLiteral int
  | FloatLiteral 'f
  | StringLiteral "uchar list"
  | NStringLiteral "uchar list"
  | BinaryLiteral "nat list"
  | MoneyLiteral "uchar list"
  | DateTimeLiteral "uchar list"
  | Identifier "uchar list"
  | QuotedIdentifier "uchar list"
  | AtVariable "uchar list"
  | AtAtVariable "uchar list"
  | PoundTemp "uchar list"
  | DoublePoundTemp "uchar list"

definition plain_tokens :: "string list" where
  "plain_tokens =
     [
      ''Select'', ''From'', ''Where'', ''Insert'', ''Into'', ''Update'', ''Delete'', ''Create'',
      ''Alter'', ''Drop'', ''Table'', ''Database'', ''View'', ''Index'', ''Procedure'', ''Proc'',
      ''Function'', ''Trigger'', ''Begin'', ''End'', ''If'', ''Else'', ''While'', ''Return'',
      ''Returns'', ''Goto'', ''WaitFor'', ''Declare'', ''Set'', ''Print'', ''Execute'', ''Exec'',
      ''Try'', ''Catch'', ''Throw'', ''Raiserror'', ''Cursor'', ''Open'', ''Fetch'', ''Close'',
      ''Deallocate'', ''Commit'', ''Rollback'', ''Save'', ''Transaction'', ''Tran'', ''Go'',
      ''Use'', ''Schema'', ''And'', ''Or'', ''Not'', ''In'', ''Between'', ''Like'', ''Is'',
      ''Null'', ''Exists'', ''Case'', ''When'', ''Then'', ''As'', ''On'', ''Join'', ''Left'',
      ''Right'', ''Inner'', ''Outer'', ''Full'', ''Cross'', ''Union'', ''All'', ''Any'', ''Some'',
      ''Having'', ''Group'', ''Order'', ''By'', ''Asc'', ''Desc'', ''Top'', ''Percent'', ''With'',
      ''Ties'', ''Distinct'', ''Compute'', ''Browse'', ''For'', ''Option'', ''Output'',
      ''Default'', ''Values'', ''Nulls'', ''First'', ''Last'', ''Prior'', ''Next'', ''Absolute'',
      ''Relative'', ''ForwardOnly'', ''Scroll'', ''Keyset'', ''Dynamic'', ''Static'',
      ''Insensitive'', ''Sensitive'', ''ReadOnly'', ''Merge'', ''Matched'', ''Using'',
      ''Constraint'', ''Primary'', ''Key'', ''Foreign'', ''References'', ''Unique'', ''Check'',
      ''Clustered'', ''NonClustered'', ''Identity'', ''Seed'', ''Increment'', ''Replication'',
      ''Truncate'', ''Add'', ''Column'', ''Enable'', ''Disable'', ''NoCheck'', ''Cascade'',
      ''NoCascade'', ''Replicate'', ''NotForReplication'', ''Delimited'', ''Varying'',
      ''Datapages'', ''Lock'', ''TextImageOn'', ''Log'', ''Delay'', ''Time'', ''Break'',
      ''Continue'', ''Over'', ''Partition'', ''Row'', ''Rows'', ''Range'', ''Preceding'',
      ''Following'', ''Unbounded'', ''Current'', ''Of'', ''Offset'', ''RowCount'', ''NoCount'',
      ''AnsiNulls'', ''AnsiPadding'', ''QuotedIdentifierKw'', ''ConcatNullYieldsNull'',
      ''ImplicitTransactions'', ''XactAbort'', ''ArithAbort'', ''Nocount'', ''ShowplanAll'',
      ''ShowplanText'', ''Language'', ''Encrypted'', ''Recompile'', ''Deny'', ''Grant'',
      ''Revoke'', ''TempDb'', ''Equals'', ''NotEquals'', ''Lt'', ''Gt'', ''LtEq'', ''GtEq'',
      ''Plus'', ''Minus'', ''Star'', ''Slash'', ''PercentOp'', ''PlusEquals'', ''MinusEquals'',
      ''StarEquals'', ''SlashEquals'', ''Ampersand'', ''Pipe'', ''Caret'', ''Tilde'', ''Assign'',
      ''PlusAssign'', ''MinusAssign'', ''MultiplyAssign'', ''DivideAssign'', ''ModuloAssign'',
      ''AndAssign'', ''OrAssign'', ''XorAssign'', ''Dot'', ''Comma'', ''Semicolon'', ''Colon'',
      ''LeftParen'', ''RightParen'', ''LeftBracket'', ''RightBracket'', ''LeftBrace'',
      ''RightBrace'', ''DoubleColon'', ''LeftOuterJoin'', ''RightOuterJoin'', ''StringConcat'',
      ''Eof'', ''Newline'', ''Whitespace'']"

definition is_keyword :: "'f tsql_token \<Rightarrow> bool" where
  "is_keyword t \<longleftrightarrow> (case t of Tok k \<Rightarrow> k \<in> set [
      ''Select'', ''From'', ''Where'', ''Insert'', ''Into'', ''Update'', ''Delete'', ''Create'',
      ''Alter'', ''Drop'', ''Table'', ''Database'', ''View'', ''Index'', ''Procedure'', ''Proc'',
      ''Function'', ''Begin'', ''End'', ''If'', ''Else'', ''While'', ''Return'', ''Declare'',
      ''Set'', ''Execute'', ''Exec'', ''Go'', ''Use'', ''And'', ''Or'', ''Not'', ''In'',
      ''Between'', ''Like'', ''Is'', ''Null'', ''Exists'', ''Case'', ''When'', ''Then'', ''As'',
      ''On'', ''Join'', ''Left'', ''Right'', ''Inner'', ''Outer'', ''Union'', ''All'', ''Having'',
      ''Group'', ''Order'', ''By'', ''Top'', ''With'', ''Distinct'', ''Values'', ''Default'',
      ''Try'', ''Catch'', ''Throw'', ''Raiserror'', ''Open'', ''Fetch'', ''Close'', ''Deallocate'',
      ''Commit'', ''Rollback'', ''Save'', ''Transaction'', ''Tran'', ''Cursor'', ''Print'',
      ''Break'', ''Continue'', ''Goto'', ''WaitFor''] | _ \<Rightarrow> False)"

record tsql_parse_error =
  pe_message :: "uchar list"
  pe_position :: nat
  pe_line :: nat
  pe_column :: nat

definition parse_error_new :: "uchar list \<Rightarrow> nat \<Rightarrow> nat \<Rightarrow> nat \<Rightarrow> tsql_parse_error" where
  "parse_error_new message position line column =
     \<lparr>pe_message = message, pe_position = position, pe_line = line, pe_column = column\<rparr>"

definition parse_error_unexpected_token :: "string \<Rightarrow> string \<Rightarrow> nat \<Rightarrow> nat \<Rightarrow> nat \<Rightarrow> tsql_parse_error" where
  "parse_error_unexpected_token expected found position line column =
     parse_error_new (chs (''expected '' @ expected @ '', found '' @ quoted found)) position line column"

definition parse_error_unexpected_eof :: "string \<Rightarrow> tsql_parse_error" where
  "parse_error_unexpected_eof expected =
     parse_error_new (chs (''unexpected end of input, expected '' @ expected)) 0 0 0"

definition show_parse_error_at :: "tsql_parse_error \<Rightarrow> uchar list" where
  "show_parse_error_at e =
     chs (''T-SQL parse error at line '' @ show_nat (pe_line e) @ '':'' @ show_nat (pe_column e) @ '': '') @ pe_message e"

subsection \<open>The cursor\<close>

record tsql_lexer =
  lx_input :: "uchar list"
  lx_pos :: nat
  lx_line :: nat
  lx_col :: nat

definition lexer_new :: "uchar list \<Rightarrow> tsql_lexer" where
  "lexer_new input = \<lparr>lx_input = input, lx_pos = 0, lx_line = 1, lx_col = 1\<rparr>"

definition peek_ahead :: "tsql_lexer \<Rightarrow> nat \<Rightarrow> uchar option" where
  "peek_ahead lx offset =
     (if lx_pos lx + offset < length (lx_input lx) then Some (lx_input lx ! (lx_pos lx + offset)) else None)"

definition peek :: "tsql_lexer \<Rightarrow> uchar option" where
  "peek lx = (if lx_pos lx < length (lx_input lx) then Some (lx_input lx ! lx_pos lx) else None)"

text \<open>The cursor after one character; at the end of the input it stays.\<close>

definition advance :: "tsql_lexer \<Rightarrow> tsql_lexer" where
  "advance lx =
     (case peek lx of
        None \<Rightarrow> lx
      | Some c \<Rightarrow>
          if c = 10 then lx\<lparr>lx_pos := lx_pos lx + 1, lx_line := lx_line lx + 1, lx_col := 1\<rparr>
          else lx\<lparr>lx_pos := lx_pos lx + 1, lx_col := lx_col lx + 1\<rparr>)"

definition lex_err :: "tsql_lexer \<Rightarrow> uchar list \<Rightarrow> tsql_parse_error" where
  "lex_err lx msg = parse_error_new msg (lx_pos lx) (lx_line lx) (lx_col lx)"

definition left_over :: "tsql_lexer \<Rightarrow> nat" where
  "left_over lx = length (lx_input lx) - lx_pos lx"

lemma advance_left_over [simp]: "peek lx = Some c \<Longrightarrow> left_over (advance lx) < left_over lx"
  by (auto simp: peek_def advance_def left_over_def split: if_splits)

lemma advance_le: "left_over (advance lx) \<le> left_over lx"
  by (auto simp: peek_def advance_def left_over_def split: if_splits)

lemma advance_twice_left_over [simp]: "peek lx = Some c \<Longrightarrow> left_over (advance (advance lx)) < left_over lx"
  using advance_le [of "advance lx"] advance_left_over [of lx c] by linarith

subsection \<open>Loops\<close>

text \<open>\<open>while let Some(c) = self.peek()\<close> with a test on the character: what was read, and the
  cursor after it.\<close>

function take_chars :: "(uchar \<Rightarrow> bool) \<Rightarrow> tsql_lexer \<Rightarrow> uchar list \<times> tsql_lexer" where
  "take_chars P lx =
     (case peek lx of
        None \<Rightarrow> ([], lx)
      | Some c \<Rightarrow>
          if P c then (case take_chars P (advance lx) of (s, lx') \<Rightarrow> (c # s, lx')) else ([], lx))"
  by pat_completeness auto
termination
  by (relation "measure (\<lambda>(P, lx). left_over lx)") auto

declare take_chars.simps [simp del]

text \<open>The text up to the closing quote \<open>q\<close>, a doubled quote standing for one; \<open>None\<close> if the
  input ends first.\<close>

function quoted_chars :: "uchar \<Rightarrow> tsql_lexer \<Rightarrow> uchar list option \<times> tsql_lexer" where
  "quoted_chars q lx =
     (case peek lx of
        None \<Rightarrow> (None, lx)
      | Some c \<Rightarrow>
          if c = q then
            if peek (advance lx) = Some q
            then (case quoted_chars q (advance (advance lx)) of (s, lx') \<Rightarrow> (map_option (Cons q) s, lx'))
            else (Some [], advance lx)
          else (case quoted_chars q (advance lx) of (s, lx') \<Rightarrow> (map_option (Cons c) s, lx')))"
  by pat_completeness auto
termination
  by (relation "measure (\<lambda>(q, lx). left_over lx)") auto

declare quoted_chars.simps [simp del]

function bracket_chars :: "tsql_lexer \<Rightarrow> uchar list option \<times> tsql_lexer" where
  "bracket_chars lx =
     (case peek lx of
        None \<Rightarrow> (None, lx)
      | Some c \<Rightarrow>
          if c = ch CHR '']'' then (Some [], advance lx)
          else (case bracket_chars (advance lx) of (s, lx') \<Rightarrow> (map_option (Cons c) s, lx')))"
  by pat_completeness auto
termination
  by (relation "measure left_over") auto

declare bracket_chars.simps [simp del]

text \<open>The rest of a block comment at the given depth, and whether it ends.\<close>

function skip_block :: "nat \<Rightarrow> tsql_lexer \<Rightarrow> bool \<times> tsql_lexer" where
  "skip_block depth lx =
     (if depth = 0 then (True, lx)
      else case peek lx of
          None \<Rightarrow> (False, lx)
        | Some c \<Rightarrow>
            if c = ch CHR ''*'' \<and> peek (advance lx) = Some (ch CHR ''/'') then skip_block (depth - 1) (advance (advance lx))
            else if c = ch CHR ''/'' \<and> peek (advance lx) = Some (ch CHR ''*'') then skip_block (depth + 1) (advance (advance lx))
            else skip_block depth (advance lx))"
  by pat_completeness auto
termination
  by (relation "measure (\<lambda>(d, lx). left_over lx)") auto

declare skip_block.simps [simp del]

subsection \<open>Token readers\<close>

definition read_string_literal :: "tsql_lexer \<Rightarrow> bool \<Rightarrow> tsql_parse_error + 'f tsql_token \<times> tsql_lexer" where
  "read_string_literal lx is_national =
     (case quoted_chars 39 (advance lx) of
        (None, lx') \<Rightarrow> Inl (lex_err lx' (chs ''unterminated string literal''))
      | (Some s, lx') \<Rightarrow> Inr (if is_national then NStringLiteral s else StringLiteral s, lx'))"

definition hex_val :: "uchar \<Rightarrow> nat" where
  "hex_val c = (if c \<le> 57 then c - 48 else if c \<le> 70 then c - 55 else c - 87)"

fun hex_bytes :: "uchar list \<Rightarrow> nat list" where
  "hex_bytes [] = []"
| "hex_bytes [a] = [hex_val a]"
| "hex_bytes (a # b # s) = (16 * hex_val a + hex_val b) # hex_bytes s"

definition read_binary_literal :: "tsql_lexer \<Rightarrow> tsql_parse_error + 'f tsql_token \<times> tsql_lexer" where
  "read_binary_literal lx =
     (case take_chars is_ascii_hexdigit (advance (advance lx)) of (hex, lx') \<Rightarrow> Inr (BinaryLiteral (hex_bytes hex), lx'))"

definition read_money_literal :: "tsql_lexer \<Rightarrow> tsql_parse_error + 'f tsql_token \<times> tsql_lexer" where
  "read_money_literal lx =
     (case take_chars (\<lambda>c. is_ascii_digit c \<or> c = ch CHR ''.'' \<or> c = ch CHR ''-'') (advance lx) of
        (s, lx') \<Rightarrow> Inr (MoneyLiteral s, lx'))"

definition name_char :: "'f char_lib \<Rightarrow> uchar \<Rightarrow> bool" where
  "name_char C c \<longleftrightarrow> is_alphanumeric C c \<or> c = ch CHR ''_''"

definition read_variable :: "'f char_lib \<Rightarrow> tsql_lexer \<Rightarrow> tsql_parse_error + 'f tsql_token \<times> tsql_lexer" where
  "read_variable C lx =
     (let lx = advance lx
      in if peek lx = Some (ch CHR ''@'') then
           (case take_chars (name_char C) (advance lx) of (name, lx') \<Rightarrow> Inr (AtAtVariable name, lx'))
         else (case take_chars (name_char C) lx of (name, lx') \<Rightarrow> Inr (AtVariable name, lx')))"

definition read_temp_table :: "'f char_lib \<Rightarrow> tsql_lexer \<Rightarrow> tsql_parse_error + 'f tsql_token \<times> tsql_lexer" where
  "read_temp_table C lx =
     (let lx = advance lx
      in if peek lx = Some (ch CHR ''#'') then
           (case take_chars (name_char C) (advance lx) of (name, lx') \<Rightarrow> Inr (DoublePoundTemp name, lx'))
         else (case take_chars (name_char C) lx of (name, lx') \<Rightarrow> Inr (PoundTemp name, lx')))"

text \<open>The loop of \<open>read_number\<close>: the text \<open>s\<close> so far and whether it is a float.\<close>

function number_chars :: "uchar list \<Rightarrow> bool \<Rightarrow> tsql_lexer \<Rightarrow> uchar list \<times> bool \<times> tsql_lexer" where
  "number_chars s is_float lx =
     (case peek lx of
        None \<Rightarrow> (s, is_float, lx)
      | Some c \<Rightarrow>
          if is_ascii_digit c then number_chars (s @ [c]) is_float (advance lx)
          else if c = ch CHR ''.'' \<and> \<not> is_float then number_chars (s @ [c]) True (advance lx)
          else if (c = ch CHR ''e'' \<or> c = ch CHR ''E'') \<and> s \<noteq> [] then
            (case peek (advance lx) of
               Some sign \<Rightarrow>
                 if sign = ch CHR ''+'' \<or> sign = ch CHR ''-''
                 then number_chars (s @ [c, sign]) True (advance (advance lx))
                 else number_chars (s @ [c]) True (advance lx)
             | None \<Rightarrow> number_chars (s @ [c]) True (advance lx))
          else (s, is_float, lx))"
  by pat_completeness auto
termination
  by (relation "measure (\<lambda>(s, f, lx). left_over lx)") auto

declare number_chars.simps [simp del]

definition read_number :: "'f char_lib \<Rightarrow> tsql_lexer \<Rightarrow> tsql_parse_error + 'f tsql_token \<times> tsql_lexer" where
  "read_number C lx =
     (case number_chars [] False lx of
        (s, is_float, lx') \<Rightarrow>
          if is_float then
            (case parse_f64 C (map char_of s) of
               Some val \<Rightarrow> Inr (FloatLiteral val, lx')
             | None \<Rightarrow> Inl (lex_err lx' (chs ''invalid float: '' @ s)))
          else
            (case parse_i64 (map char_of s) of
               Some val \<Rightarrow> Inr (IntLiteral val, lx')
             | None \<Rightarrow> Inl (lex_err lx' (chs ''invalid integer: '' @ s))))"

definition read_bracket_identifier :: "tsql_lexer \<Rightarrow> tsql_parse_error + 'f tsql_token \<times> tsql_lexer" where
  "read_bracket_identifier lx =
     (case bracket_chars (advance lx) of
        (None, lx') \<Rightarrow> Inl (lex_err lx' (chs ''unterminated bracket identifier''))
      | (Some name, lx') \<Rightarrow> Inr (QuotedIdentifier name, lx'))"

definition read_quoted_identifier :: "tsql_lexer \<Rightarrow> tsql_parse_error + 'f tsql_token \<times> tsql_lexer" where
  "read_quoted_identifier lx =
     (case quoted_chars 34 (advance lx) of
        (None, lx') \<Rightarrow> Inl (lex_err lx' (chs ''unterminated quoted identifier''))
      | (Some name, lx') \<Rightarrow> Inr (QuotedIdentifier name, lx'))"

text \<open>The keyword table: the word in upper case and the constructor.\<close>

definition keyword_table :: "(string \<times> string) list" where
  "keyword_table =
     [
      (''SELECT'', ''Select''), (''FROM'', ''From''), (''WHERE'', ''Where''),
      (''INSERT'', ''Insert''), (''INTO'', ''Into''), (''UPDATE'', ''Update''),
      (''DELETE'', ''Delete''), (''CREATE'', ''Create''), (''ALTER'', ''Alter''),
      (''DROP'', ''Drop''), (''TABLE'', ''Table''), (''DATABASE'', ''Database''),
      (''VIEW'', ''View''), (''INDEX'', ''Index''), (''PROCEDURE'', ''Procedure''), (''PROC'', ''Proc''), (''FUNCTION'', ''Function''),
      (''TRIGGER'', ''Trigger''), (''BEGIN'', ''Begin''), (''END'', ''End''), (''IF'', ''If''),
      (''ELSE'', ''Else''), (''WHILE'', ''While''), (''RETURN'', ''Return''),
      (''RETURNS'', ''Returns''), (''GOTO'', ''Goto''), (''WAITFOR'', ''WaitFor''),
      (''DECLARE'', ''Declare''), (''SET'', ''Set''), (''PRINT'', ''Print''), (''EXECUTE'', ''Execute''), (''EXEC'', ''Exec''), (''TRY'', ''Try''),
      (''CATCH'', ''Catch''), (''THROW'', ''Throw''), (''RAISERROR'', ''Raiserror''),
      (''CURSOR'', ''Cursor''), (''OPEN'', ''Open''), (''FETCH'', ''Fetch''),
      (''CLOSE'', ''Close''), (''DEALLOCATE'', ''Deallocate''), (''COMMIT'', ''Commit''),
      (''ROLLBACK'', ''Rollback''), (''SAVE'', ''Save''), (''TRANSACTION'', ''Transaction''),
      (''TRAN'', ''Tran''), (''GO'', ''Go''), (''USE'', ''Use''), (''SCHEMA'', ''Schema''),
      (''AND'', ''And''), (''OR'', ''Or''), (''NOT'', ''Not''), (''IN'', ''In''),
      (''BETWEEN'', ''Between''), (''LIKE'', ''Like''), (''IS'', ''Is''), (''NULL'', ''Null''),
      (''EXISTS'', ''Exists''), (''CASE'', ''Case''), (''WHEN'', ''When''), (''THEN'', ''Then''),
      (''AS'', ''As''), (''ON'', ''On''), (''JOIN'', ''Join''), (''LEFT'', ''Left''),
      (''RIGHT'', ''Right''), (''INNER'', ''Inner''), (''OUTER'', ''Outer''), (''FULL'', ''Full''),
      (''CROSS'', ''Cross''), (''UNION'', ''Union''), (''ALL'', ''All''), (''ANY'', ''Any''),
      (''SOME'', ''Some''), (''HAVING'', ''Having''), (''GROUP'', ''Group''),
      (''ORDER'', ''Order''), (''BY'', ''By''), (''ASC'', ''Asc''), (''DESC'', ''Desc''),
      (''TOP'', ''Top''), (''PERCENT'', ''Percent''), (''WITH'', ''With''), (''TIES'', ''Ties''),
      (''DISTINCT'', ''Distinct''), (''COMPUTE'', ''Compute''), (''BROWSE'', ''Browse''),
      (''FOR'', ''For''), (''OPTION'', ''Option''), (''OUTPUT'', ''Output''),
      (''DEFAULT'', ''Default''), (''VALUES'', ''Values''), (''NULLS'', ''Nulls''),
      (''FIRST'', ''First''), (''LAST'', ''Last''), (''PRIOR'', ''Prior''), (''NEXT'', ''Next''),
      (''ABSOLUTE'', ''Absolute''), (''RELATIVE'', ''Relative''),
      (''FORWARD_ONLY'', ''ForwardOnly''), (''SCROLL'', ''Scroll''), (''KEYSET'', ''Keyset''),
      (''DYNAMIC'', ''Dynamic''), (''STATIC'', ''Static''), (''INSENSITIVE'', ''Insensitive''),
      (''SENSITIVE'', ''Sensitive''), (''READONLY'', ''ReadOnly''), (''READ_ONLY'', ''ReadOnly''),
      (''MERGE'', ''Merge''), (''MATCHED'', ''Matched''), (''USING'', ''Using''),
      (''CONSTRAINT'', ''Constraint''), (''PRIMARY'', ''Primary''), (''KEY'', ''Key''),
      (''FOREIGN'', ''Foreign''), (''REFERENCES'', ''References''), (''UNIQUE'', ''Unique''),
      (''CHECK'', ''Check''), (''CLUSTERED'', ''Clustered''), (''IDENTITY'', ''Identity''),
      (''TRUNCATE'', ''Truncate''), (''ADD'', ''Add''), (''COLUMN'', ''Column''),
      (''ENABLE'', ''Enable''), (''DISABLE'', ''Disable''), (''DELAY'', ''Delay''),
      (''TIME'', ''Time''), (''BREAK'', ''Break''), (''CONTINUE'', ''Continue''),
      (''OVER'', ''Over''), (''PARTITION'', ''Partition''), (''ROW'', ''Row''),
      (''ROWS'', ''Rows''), (''RANGE'', ''Range''), (''PRECEDING'', ''Preceding''),
      (''FOLLOWING'', ''Following''), (''UNBOUNDED'', ''Unbounded''), (''CURRENT'', ''Current''),
      (''OF'', ''Of''), (''OFFSET'', ''Offset''), (''ROWCOUNT'', ''RowCount''),
      (''NOCOUNT'', ''NoCount''), (''LANGUAGE'', ''Language''), (''ENCRYPTION'', ''Encrypted''),
      (''ENCRYPTED'', ''Encrypted''), (''RECOMPILE'', ''Recompile'')]"

definition keyword_or_identifier :: "'f char_lib \<Rightarrow> uchar list \<Rightarrow> 'f tsql_token" where
  "keyword_or_identifier C name =
     (case map_of (map (\<lambda>(w, k). (chs w, k)) keyword_table) (upper_chars C name) of
        Some k \<Rightarrow> Tok k
      | None \<Rightarrow> Identifier name)"

definition read_identifier_or_keyword :: "'f char_lib \<Rightarrow> tsql_lexer \<Rightarrow> tsql_parse_error + 'f tsql_token \<times> tsql_lexer" where
  "read_identifier_or_keyword C lx =
     (case take_chars (\<lambda>c. is_alphanumeric C c \<or> c = ch CHR ''_'' \<or> c = ch CHR ''@'' \<or> c = ch CHR ''#'') lx of
        (name, lx') \<Rightarrow> Inr (keyword_or_identifier C name, lx'))"

text \<open>An operator of one character, or of two when the second one follows.\<close>

definition two_chars :: "tsql_lexer \<Rightarrow> (char \<times> string) list \<Rightarrow> string \<Rightarrow> 'f tsql_token \<times> tsql_lexer" where
  "two_chars lx table single =
     (case peek lx of
        None \<Rightarrow> (Tok single, lx)
      | Some c \<Rightarrow>
          (case map_of (map (\<lambda>(d, k). (ch d, k)) table) c of
             Some k \<Rightarrow> (Tok k, advance lx)
           | None \<Rightarrow> (Tok single, lx)))"

definition single_operators :: "(char \<times> string) list" where
  "single_operators =
     [(CHR ''('', ''LeftParen''), (CHR '')'', ''RightParen''), (CHR ''{'', ''LeftBrace''), (CHR ''}'', ''RightBrace''),
      (CHR '','', ''Comma''), (CHR '';'', ''Semicolon''), (CHR ''~'', ''Tilde''), (CHR ''.'', ''Dot''),
      (CHR ''%'', ''PercentOp'')]"

definition pair_operators :: "(char \<times> (char \<times> string) list \<times> string) list" where
  "pair_operators =
     [(CHR ''+'', [(CHR ''='', ''PlusAssign'')], ''Plus''),
      (CHR ''-'', [(CHR ''='', ''MinusAssign'')], ''Minus''),
      (CHR ''*'', [(CHR ''='', ''StarEquals'')], ''Star''),
      (CHR ''/'', [(CHR ''='', ''SlashEquals'')], ''Slash''),
      (CHR ''='', [(CHR ''*'', ''RightOuterJoin'')], ''Equals''),
      (CHR ''<'', [(CHR ''='', ''LtEq''), (CHR ''>'', ''NotEquals'')], ''Lt''),
      (CHR ''>'', [(CHR ''='', ''GtEq'')], ''Gt''),
      (CHR ''&'', [(CHR ''='', ''AndAssign'')], ''Ampersand''),
      (CHR ''|'', [(CHR ''='', ''OrAssign'')], ''Pipe''),
      (CHR ''^'', [(CHR ''='', ''XorAssign'')], ''Caret''),
      (CHR '':'', [(CHR '':'', ''DoubleColon'')], ''Colon'')]"

definition read_operator :: "'f char_lib \<Rightarrow> tsql_lexer \<Rightarrow> uchar \<Rightarrow> tsql_parse_error + 'f tsql_token \<times> tsql_lexer" where
  "read_operator C lx0 c =
     (let lx = advance lx0
      in case map_of (map (\<lambda>(d, k). (ch d, k)) single_operators) c of
           Some k \<Rightarrow> Inr (Tok k, lx)
         | None \<Rightarrow>
             (case map_of (map (\<lambda>(d, e). (ch d, e)) pair_operators) c of
                Some (table, single) \<Rightarrow> Inr (two_chars lx table single)
              | None \<Rightarrow>
                  if c = ch CHR ''!'' then
                    (if peek lx \<in> {Some (ch CHR ''=''), Some (ch CHR ''<''), Some (ch CHR ''>'')}
                     then Inr (Tok ''NotEquals'', advance lx)
                     else Inl (lex_err lx (chs ''unexpected character: !'')))
                  else if c = ch CHR ''#'' then read_temp_table C lx
                  else Inl (lex_err lx (chs ''unexpected character: '' @ [c]))))"

subsection \<open>The token loop\<close>

definition next_token :: "'f char_lib \<Rightarrow> tsql_lexer \<Rightarrow> tsql_parse_error + 'f tsql_token \<times> tsql_lexer" where
  "next_token C lx =
     (case peek lx of
        None \<Rightarrow> Inr (Tok ''Eof'', lx)
      | Some c \<Rightarrow>
          if is_whitespace C c then Inr (if c = 10 then Tok ''Newline'' else Tok ''Whitespace'', advance lx)
          else if c = ch CHR ''-'' \<and> peek_ahead lx 1 = Some (ch CHR ''-'') then
            Inr (Tok ''Whitespace'', snd (take_chars (\<lambda>c. c \<noteq> 10) (advance (advance lx))))
          else if c = ch CHR ''/'' \<and> peek_ahead lx 1 = Some (ch CHR ''*'') then
            (case skip_block 1 (advance (advance lx)) of
               (True, lx') \<Rightarrow> Inr (Tok ''Whitespace'', lx')
             | (False, lx') \<Rightarrow> Inl (lex_err lx' (chs ''unterminated block comment'')))
          else if c = 39 then read_string_literal lx False
          else if (c = ch CHR ''N'' \<or> c = ch CHR ''n'') \<and> peek_ahead lx 1 = Some 39 then
            read_string_literal (advance lx) True
          else if c = ch CHR ''0'' \<and> peek_ahead lx 1 \<in> {Some (ch CHR ''x''), Some (ch CHR ''X'')} then
            read_binary_literal lx
          else if c = ch CHR ''$'' then read_money_literal lx
          else if c = ch CHR ''@'' then read_variable C lx
          else if c = ch CHR ''#'' then read_temp_table C lx
          else if is_ascii_digit c then read_number C lx
          else if c = ch CHR ''['' then read_bracket_identifier lx
          else if c = 34 then read_quoted_identifier lx
          else if is_alphabetic C c \<or> c = ch CHR ''_'' \<or> c = ch CHR ''#'' then read_identifier_or_keyword C lx
          else read_operator C lx c)"

text \<open>
  Every reader leaves the cursor some characters further on: \<open>reach lx lx'\<close>. A token other than
  the end of input takes at least one character, so the loop of \<open>tokenize\<close> ends.
\<close>

definition reach :: "tsql_lexer \<Rightarrow> tsql_lexer \<Rightarrow> bool" where
  "reach lx lx' \<longleftrightarrow> (\<exists>n. lx' = (advance ^^ n) lx)"

lemma reach_refl [simp, intro]: "reach lx lx"
  unfolding reach_def by (rule exI [of _ 0]) simp

lemma reach_step [simp, intro]: "reach l lx \<Longrightarrow> reach l (advance lx)"
  unfolding reach_def by (metis comp_apply funpow.simps(2))

lemma reach_trans: "reach l lx \<Longrightarrow> reach lx lx' \<Longrightarrow> reach l lx'"
  unfolding reach_def by (metis comp_apply funpow_add)

lemma reach_advance: "reach (advance lx) lx' \<Longrightarrow> reach lx lx'"
  by (rule reach_trans [of _ "advance lx"]) simp_all

lemma reach_left_over: "reach lx lx' \<Longrightarrow> left_over lx' \<le> left_over lx"
  unfolding reach_def
proof (elim exE)
  fix n assume "lx' = (advance ^^ n) lx"
  then show ?thesis
    by (induction n arbitrary: lx') (auto intro: order_trans [OF advance_le])
qed

lemma snd_case_pair: "snd (case p of (s, l) \<Rightarrow> (f s, l)) = snd p"
  by (cases p) simp

lemma reach_take_chars: "reach l lx \<Longrightarrow> reach l (snd (take_chars P lx))"
proof (induction P lx rule: take_chars.induct)
  case (1 P lx)
  then show ?case by (subst take_chars.simps) (simp add: snd_case_pair split: option.split)
qed

lemma reach_quoted_chars: "reach l lx \<Longrightarrow> reach l (snd (quoted_chars q lx))"
proof (induction q lx rule: quoted_chars.induct)
  case (1 q lx)
  then show ?case by (subst quoted_chars.simps) (simp add: snd_case_pair split: option.split)
qed

lemma reach_bracket_chars: "reach l lx \<Longrightarrow> reach l (snd (bracket_chars lx))"
proof (induction lx rule: bracket_chars.induct)
  case (1 lx)
  then show ?case by (subst bracket_chars.simps) (simp add: snd_case_pair split: option.split)
qed

lemma reach_skip_block: "reach l lx \<Longrightarrow> reach l (snd (skip_block d lx))"
proof (induction d lx rule: skip_block.induct)
  case (1 d lx)
  then show ?case by (subst skip_block.simps) (simp split: option.split)
qed

lemma reach_number_chars: "reach l lx \<Longrightarrow> reach l (snd (snd (number_chars s f lx)))"
proof (induction s f lx rule: number_chars.induct)
  case (1 s f lx)
  show ?case
  proof (cases "peek lx")
    case (Some c)
    then show ?thesis using 1 by (subst number_chars.simps) (simp split: option.split)
  next
    case None
    then show ?thesis using "1.prems" by (subst number_chars.simps) simp
  qed
qed

lemma reach_two_chars: "reach l lx \<Longrightarrow> reach l (snd (two_chars lx tab k))"
  by (simp add: two_chars_def split: option.split)

lemma take_chars_first: "peek lx = Some c \<Longrightarrow> P c \<Longrightarrow> reach (advance lx) (snd (take_chars P lx))"
  by (subst take_chars.simps) (simp add: snd_case_pair reach_take_chars)

lemma number_chars_first: "peek lx = Some c \<Longrightarrow> is_ascii_digit c \<Longrightarrow> reach (advance lx) (snd (snd (number_chars [] False lx)))"
  by (subst number_chars.simps) (simp add: reach_number_chars)

text \<open>What a token reader may do: return a token with the cursor past the first character, or fail
  with an error at a position it reached.\<close>

definition reads :: "tsql_lexer \<Rightarrow> tsql_parse_error + 'f tsql_token \<times> tsql_lexer \<Rightarrow> bool" where
  "reads lx r \<longleftrightarrow>
     (case r of
        Inl e \<Rightarrow> (\<exists>lx' msg. reach lx lx' \<and> e = lex_err lx' msg)
      | Inr (t, lx') \<Rightarrow> reach (advance lx) lx' \<and> t \<noteq> Tok ''Eof'')"

lemma reads_err [intro]: "reach lx lx' \<Longrightarrow> reads lx (Inl (lex_err lx' msg))"
  by (auto simp: reads_def)

lemma reads_ok [intro]: "reach (advance lx) lx' \<Longrightarrow> t \<noteq> Tok ''Eof'' \<Longrightarrow> reads lx (Inr (t, lx'))"
  by (simp add: reads_def)

lemma reads_pair:
  assumes "reach (advance lx) (snd p)" and "\<And>s. f s \<noteq> Tok ''Eof''"
  shows "reads lx (case p of (s, lx') \<Rightarrow> Inr (f s, lx'))"
  using assms by (cases p) auto

lemma reads_option:
  assumes "reach (advance lx) (snd p)" and "\<And>s. f s \<noteq> Tok ''Eof''"
  shows "reads lx (case p of (None, lx') \<Rightarrow> Inl (lex_err lx' msg) | (Some s, lx') \<Rightarrow> Inr (f s, lx'))"
  using assms by (cases p) (auto intro: reach_advance split: option.split)

lemma keyword_table_no_eof: "list_all (\<lambda>(w, k). k \<noteq> ''Eof'') keyword_table"
  by code_simp

lemma keyword_or_identifier_not_eof: "keyword_or_identifier C name \<noteq> Tok ''Eof''"
  using keyword_table_no_eof
  by (auto simp: keyword_or_identifier_def list_all_iff split: option.splits dest!: map_of_SomeD)

lemma two_chars_not_eof:
  "single \<noteq> ''Eof'' \<Longrightarrow> list_all (\<lambda>(d, k). k \<noteq> ''Eof'') tab \<Longrightarrow> fst (two_chars lx tab single) \<noteq> Tok ''Eof''"
  by (auto simp: two_chars_def list_all_iff split: option.splits dest!: map_of_SomeD)

lemma single_operators_no_eof: "list_all (\<lambda>(d, k). k \<noteq> ''Eof'') single_operators"
  by code_simp

lemma pair_operators_no_eof:
  "list_all (\<lambda>(d, tab, single). single \<noteq> ''Eof'' \<and> list_all (\<lambda>(e, k). k \<noteq> ''Eof'') tab) pair_operators"
  by code_simp

lemma reads_literals:
  "reads lx (read_string_literal lx n)" "reads lx (read_binary_literal lx)" "reads lx (read_money_literal lx)"
  "reads lx (read_bracket_identifier lx)" "reads lx (read_quoted_identifier lx)"
  unfolding read_string_literal_def read_binary_literal_def read_money_literal_def
    read_bracket_identifier_def read_quoted_identifier_def
  by (rule reads_option reads_pair; simp add: reach_quoted_chars reach_bracket_chars reach_take_chars)+

lemma reads_names:
  "reads lx (read_variable C lx)" "reads lx (read_temp_table C lx)"
  unfolding read_variable_def read_temp_table_def Let_def
  by (simp_all add: reads_pair reach_take_chars)

lemma reads_number:
  assumes "peek lx = Some c" and "is_ascii_digit c"
  shows "reads lx (read_number C lx)"
proof -
  obtain s f lx' where n: "number_chars [] False lx = (s, f, lx')" by (cases "number_chars [] False lx")
  have "reach (advance lx) lx'" using number_chars_first [OF assms] n by simp
  then show ?thesis by (auto simp: read_number_def n simp del: list.map intro: reach_advance split: option.split)
qed

lemma reads_identifier:
  assumes "peek lx = Some c" and "is_alphabetic C c \<or> c = ch CHR ''_'' \<or> c = ch CHR ''#''"
  shows "reads lx (read_identifier_or_keyword C lx)"
  unfolding read_identifier_or_keyword_def
  by (rule reads_pair) (use assms in \<open>auto intro!: take_chars_first simp: is_alphanumeric_def keyword_or_identifier_not_eof\<close>)

lemma reads_operator: "reads lx (read_operator C lx c)"
proof (cases "map_of (map (\<lambda>(d, k). (ch d, k)) single_operators) c")
  case (Some k)
  then have "k \<noteq> ''Eof''" using single_operators_no_eof by (auto simp: list_all_iff dest!: map_of_SomeD)
  with Some show ?thesis by (auto simp: read_operator_def)
next
  case single: None
  show ?thesis
  proof (cases "map_of (map (\<lambda>(d, e). (ch d, e)) pair_operators) c")
    case (Some e)
    obtain tab k where e: "e = (tab, k)" by (cases e)
    from Some e have "k \<noteq> ''Eof'' \<and> list_all (\<lambda>(e, k). k \<noteq> ''Eof'') tab"
      using pair_operators_no_eof by (fastforce simp: list_all_iff dest!: map_of_SomeD)
    then have "fst (two_chars (advance lx) tab k) \<noteq> (Tok ''Eof'' :: 'a tsql_token)" by (simp add: two_chars_not_eof)
    moreover obtain t lx' where t: "two_chars (advance lx) tab k = (t :: 'a tsql_token, lx')"
      by (cases "two_chars (advance lx) tab k :: 'a tsql_token \<times> tsql_lexer")
    moreover have "reach (advance lx) lx'"
      using reach_two_chars [of "advance lx" "advance lx" tab k, where 'a = 'a] t by simp
    ultimately show ?thesis using Some e single by (auto simp: read_operator_def)
  next
    case None
    have "reads lx (read_temp_table C (advance lx))"
      unfolding read_temp_table_def Let_def by (simp add: reads_pair reach_take_chars)
    with single None show ?thesis by (auto simp: read_operator_def Let_def simp del: list.map)
  qed
qed

lemma reads_if: "(P \<Longrightarrow> reads lx a) \<Longrightarrow> (\<not> P \<Longrightarrow> reads lx b) \<Longrightarrow> reads lx (if P then a else b)"
  by simp

lemma reads_next_token:
  assumes "peek lx = Some c"
  shows "reads lx (next_token C lx)"
proof -
  have comment: "reads lx (case skip_block 1 (advance (advance lx)) of
      (True, lx') \<Rightarrow> Inr (Tok ''Whitespace'', lx') | (False, lx') \<Rightarrow> Inl (lex_err lx' msg))" for msg
    using reach_skip_block [of "advance lx" "advance (advance lx)" 1]
    by (cases "skip_block 1 (advance (advance lx))") (auto intro: reach_advance split: bool.split)
  have national: "reads lx (read_string_literal (advance lx) True)"
    unfolding read_string_literal_def by (rule reads_option; simp add: reach_quoted_chars)
  show ?thesis
    unfolding next_token_def assms option.case
    by (intro reads_if comment national reads_literals reads_names reads_operator reads_number [OF assms]
        reads_identifier [OF assms] reads_ok)
       (simp_all add: reach_take_chars del: list.map)
qed

lemma next_token_progress:
  assumes "next_token C lx = Inr (t, lx')" and "t \<noteq> Tok ''Eof''"
  shows "left_over lx' < left_over lx"
proof (cases "peek lx")
  case None
  with assms show ?thesis by (simp add: next_token_def)
next
  case (Some c)
  from reads_next_token [OF this, of C] assms(1) have "reach (advance lx) lx'" by (simp add: reads_def)
  from reach_left_over [OF this] advance_left_over [OF Some] show ?thesis by linarith
qed

function tokenize :: "'f char_lib \<Rightarrow> tsql_lexer \<Rightarrow> tsql_parse_error + 'f tsql_token list" where
  "tokenize C lx =
     (case next_token C lx of
        Inl e \<Rightarrow> Inl e
      | Inr (tok, lx') \<Rightarrow>
          (let rest = (if tok = Tok ''Eof'' then Inr [] else tokenize C lx')
           in if tok = Tok ''Whitespace'' \<or> tok = Tok ''Newline'' then rest else map_ok (Cons tok) rest))"
  by pat_completeness auto
termination
  by (relation "measure (\<lambda>(C, lx). left_over lx)") (auto intro: next_token_progress)

declare tokenize.simps [simp del]

end
