(* ===== verification/TsqlAst.thy ===== *)
theory TsqlAst
  imports TsqlLexer
begin

section \<open>The T-SQL syntax tree (crates/tsql-parser/src/ast.rs)\<close>

text \<open>
  The data the parser builds. Structures that hold no statement, query or expression of their own
  kind are records; the ones that do are constructors with selectors. The type of floating point
  numbers is the parameter \<open>'f\<close>, as in the lexer.
\<close>

type_synonym ustring = "uchar list"

subsection \<open>Literals, operators and data types\<close>

datatype (plugins only: code size) 'f tsql_literal =
    LitNull
  | LitInt int
  | LitFloat 'f
  | LitString ustring
  | LitBinary "nat list"
  | LitMoney ustring
  | LitDateTime ustring
  | LitBit bool

datatype (plugins only: code size) tsql_binary_op =
    Add | Subtract | Multiply | Divide | Modulo
  | BitwiseAnd | BitwiseOr | BitwiseXor
  | EqOp | NotEqOp | LtOp | GtOp | LtEqOp | GtEqOp
  | AndOp | OrOp | StringConcat | AssignOp

datatype (plugins only: code size) tsql_unary_op = NotOp | Negate | BitwiseNot | Positive

datatype (plugins only: code size) old_style_join_type = OldLeftOuter | OldRightOuter

datatype (plugins only: code size) tsql_data_type =
    TInt | TSmallInt | TTinyInt | TBigInt | TBit
  | TDecimal "nat option" "nat option"
  | TNumeric "nat option" "nat option"
  | TMoney | TSmallMoney
  | TFloat "nat option"
  | TReal
  | TChar "nat option" | TVarchar "nat option" | TNChar "nat option" | TNVarchar "nat option"
  | TNText | TText
  | TBinary "nat option" | TVarBinary "nat option"
  | TImage | TDate
  | TTime "nat option"
  | TDateTime | TSmallDateTime
  | TDateTime2 "nat option" | TDateTimeOffset "nat option"
  | TUniqueIdentifier | TXml | TSqlVariant | TTable | TCursorType
  | TUserDefined ustring

definition show_sized :: "string \<Rightarrow> nat option \<Rightarrow> ustring" where
  "show_sized name n = (case n of Some n \<Rightarrow> chs (name @ ''('' @ show_nat n @ '')'') | None \<Rightarrow> chs name)"

definition show_precision :: "string \<Rightarrow> nat option \<Rightarrow> nat option \<Rightarrow> ustring" where
  "show_precision name p s =
     (case (p, s) of
        (Some p, Some s) \<Rightarrow> chs (name @ ''('' @ show_nat p @ '', '' @ show_nat s @ '')'')
      | (Some p, None) \<Rightarrow> chs (name @ ''('' @ show_nat p @ '')'')
      | _ \<Rightarrow> chs name)"

primrec show_tsql_data_type :: "tsql_data_type \<Rightarrow> ustring" where
  "show_tsql_data_type TInt = chs ''INT''"
| "show_tsql_data_type TSmallInt = chs ''SMALLINT''"
| "show_tsql_data_type TTinyInt = chs ''TINYINT''"
| "show_tsql_data_type TBigInt = chs ''BIGINT''"
| "show_tsql_data_type TBit = chs ''BIT''"
| "show_tsql_data_type (TDecimal p s) = show_precision ''DECIMAL'' p s"
| "show_tsql_data_type (TNumeric p s) = show_precision ''NUMERIC'' p s"
| "show_tsql_data_type TMoney = chs ''MONEY''"
| "show_tsql_data_type TSmallMoney = chs ''SMALLMONEY''"
| "show_tsql_data_type (TFloat p) = show_sized ''FLOAT'' p"
| "show_tsql_data_type TReal = chs ''REAL''"
| "show_tsql_data_type (TChar n) = show_sized ''CHAR'' n"
| "show_tsql_data_type (TVarchar n) = show_sized ''VARCHAR'' n"
| "show_tsql_data_type (TNChar n) = show_sized ''NCHAR'' n"
| "show_tsql_data_type (TNVarchar n) = show_sized ''NVARCHAR'' n"
| "show_tsql_data_type TNText = chs ''NTEXT''"
| "show_tsql_data_type TText = chs ''TEXT''"
| "show_tsql_data_type (TBinary n) = show_sized ''BINARY'' n"
| "show_tsql_data_type (TVarBinary n) = show_sized ''VARBINARY'' n"
| "show_tsql_data_type TImage = chs ''IMAGE''"
| "show_tsql_data_type TDate = chs ''DATE''"
| "show_tsql_data_type (TTime p) = show_sized ''TIME'' p"
| "show_tsql_data_type TDateTime = chs ''DATETIME''"
| "show_tsql_data_type TSmallDateTime = chs ''SMALLDATETIME''"
| "show_tsql_data_type (TDateTime2 p) = show_sized ''DATETIME2'' p"
| "show_tsql_data_type (TDateTimeOffset p) = show_sized ''DATETIMEOFFSET'' p"
| "show_tsql_data_type TUniqueIdentifier = chs ''UNIQUEIDENTIFIER''"
| "show_tsql_data_type TXml = chs ''XML''"
| "show_tsql_data_type TSqlVariant = chs ''SQL_VARIANT''"
| "show_tsql_data_type TTable = chs ''TABLE''"
| "show_tsql_data_type TCursorType = chs ''CURSOR''"
| "show_tsql_data_type (TUserDefined name) = name"

subsection \<open>Expressions and queries\<close>

datatype (plugins only: code size) tsql_join_type = InnerJoin | LeftOuterJoin | RightOuterJoin | FullOuterJoin | CrossJoin

datatype (plugins only: code size) 'e top_clause = TopClause (tc_count: 'e) (tc_percent: bool) (tc_with_ties: bool)

datatype (plugins only: code size) 'e compute_clause = ComputeClause (cc_aggregates: "'e list") (cc_by: "'e list")

datatype (plugins only: code size) 'e tsql_select_item = SelectItem (si_expr: 'e) (si_alias: "ustring option")

datatype (plugins only: code size) 'e tsql_order_by = OrderBy (ob_expr: 'e) (ob_ascending: bool)

datatype (plugins only: code size) 'f tsql_expr =
    Literal "'f tsql_literal"
  | ColumnRef "ustring option" "ustring option" "ustring option" ustring
  | Variable ustring
  | SystemVariable ustring
  | BinaryOp "'f tsql_expr" tsql_binary_op "'f tsql_expr"
  | UnaryOp tsql_unary_op "'f tsql_expr"
  | FunctionCall ustring "'f tsql_expr list"
  | Cast "'f tsql_expr" tsql_data_type
  | Convert tsql_data_type "'f tsql_expr" "'f tsql_expr option"
  | CaseWhen "'f tsql_expr option" "('f tsql_expr \<times> 'f tsql_expr) list" "'f tsql_expr option"
  | IsNull "'f tsql_expr" "'f tsql_expr"
  | Coalesce "'f tsql_expr list"
  | NullIf "'f tsql_expr" "'f tsql_expr"
  | Subquery "'f tsql_select"
  | InList "'f tsql_expr" "'f tsql_expr list" bool
  | InSubquery "'f tsql_expr" "'f tsql_select" bool
  | Between "'f tsql_expr" "'f tsql_expr" "'f tsql_expr" bool
  | Like "'f tsql_expr" "'f tsql_expr" bool "'f tsql_expr option"
  | Exists "'f tsql_select"
  | TopExpr "'f tsql_expr" bool
  | OldStyleJoin "'f tsql_expr" "'f tsql_expr" old_style_join_type
  | Wildcard
  | TableWildcard ustring
  | GlobalVariable ustring
  | CompoundAssign ustring tsql_binary_op "'f tsql_expr"
and 'f tsql_select =
  SelectQuery (sel_distinct: bool) (sel_top: "'f tsql_expr top_clause option")
    (sel_list: "'f tsql_expr tsql_select_item list") (sel_into: "ustring option")
    (sel_from: "'f tsql_table_ref option") (sel_where: "'f tsql_expr option")
    (sel_group_by: "'f tsql_expr list") (sel_having: "'f tsql_expr option")
    (sel_order_by: "'f tsql_expr tsql_order_by list") (sel_compute: "'f tsql_expr compute_clause option")
    (sel_for_browse: bool) (sel_option_hints: "ustring list")
    (sel_union: "'f tsql_select option") (sel_union_all: bool)
and 'f tsql_table_ref =
    TableName "ustring option" "ustring option" ustring "ustring option"
      "ustring list"
  | JoinRef "'f tsql_table_ref" "'f tsql_table_ref" tsql_join_type "'f tsql_expr option"
  | SubqueryRef "'f tsql_select" ustring
  | DerivedTable "'f tsql_select" ustring "ustring list"
  | TempTable ustring "ustring option"

subsection \<open>Table definitions\<close>

record identity_def =
  id_seed :: int
  id_increment :: int
  id_not_for_replication :: bool

datatype (plugins only: code size) 'f tsql_column_constraint =
    ColPrimaryKey "bool option"
  | ColUnique "bool option"
  | ColReferences ustring ustring
  | ColCheck "'f tsql_expr"
  | ColDefault "'f tsql_expr"

record 'f tsql_column_def =
  cd_name :: ustring
  cd_data_type :: tsql_data_type
  cd_nullable :: "bool option"
  cd_default :: "'f tsql_expr option"
  cd_identity :: "identity_def option"
  cd_not_for_replication :: bool
  cd_constraint :: "'f tsql_column_constraint option"

datatype (plugins only: code size) 'f tsql_table_constraint =
    PrimaryKeyC "ustring option" "ustring list" "bool option"
  | UniqueC "ustring option" "ustring list" "bool option"
  | ForeignKeyC "ustring option" "ustring list" ustring "ustring list"
  | CheckC "ustring option" "'f tsql_expr"

record 'f tsql_create_table =
  ctb_name :: ustring
  ctb_database :: "ustring option"
  ctb_columns :: "'f tsql_column_def list"
  ctb_constraints :: "'f tsql_table_constraint list"
  ctb_on_clause :: "ustring option"
  ctb_with_clause :: "(ustring \<times> ustring) list option"
  ctb_text_image_on :: "ustring option"
  ctb_lock_datapages :: "bool option"
  ctb_is_temp :: bool

datatype (plugins only: code size) 'f alter_table_action =
    AlterAdd "'f tsql_column_def"
  | AlterDropColumn ustring
  | AlterColumn "'f tsql_column_def"
  | AlterAddConstraint "'f tsql_table_constraint"
  | AlterDropConstraint ustring
  | AlterEnableTrigger ustring
  | AlterDisableTrigger ustring

record tsql_create_database =
  cdb_name :: ustring
  cdb_on_clause :: "ustring option"
  cdb_log_on :: "ustring option"
  cdb_with_clause :: "(ustring \<times> ustring) list option"

record tsql_create_index =
  ci_name :: ustring
  ci_table :: ustring
  ci_columns :: "(ustring \<times> bool) list"
  ci_unique :: bool
  ci_clustered :: "bool option"
  ci_with_clause :: "(ustring \<times> ustring) list option"

record 'f tsql_create_view =
  cv_name :: ustring
  cv_columns :: "ustring list"
  cv_query :: "'f tsql_select"
  cv_with_check :: bool
  cv_with_encryption :: bool

subsection \<open>Data manipulation\<close>

datatype (plugins only: code size) 'f execute_param =
    Positional "'f tsql_expr"
  | Named ustring "'f tsql_expr" bool

record 'f execute_stmt =
  ex_procedure :: ustring
  ex_params :: "'f execute_param list"
  ex_return_status :: "ustring option"

datatype (plugins only: code size) 'f insert_source =
    InsertValues "'f tsql_expr list list"
  | InsertSelect "'f tsql_select"
  | InsertExecute "'f execute_stmt"
  | InsertDefaultValues

record 'f tsql_insert =
  in_table :: ustring
  in_columns :: "ustring list"
  in_source :: "'f insert_source"
  in_output_clause :: "'f tsql_expr list option"

record 'f tsql_update =
  up_table :: ustring
  up_alias :: "ustring option"
  up_assignments :: "(ustring \<times> 'f tsql_expr) list"
  up_from :: "'f tsql_table_ref option"
  up_where :: "'f tsql_expr option"
  up_output_clause :: "'f tsql_expr list option"

record 'f tsql_delete =
  de_table :: ustring
  de_alias :: "ustring option"
  de_from :: "'f tsql_table_ref option"
  de_where :: "'f tsql_expr option"
  de_output_clause :: "'f tsql_expr list option"

datatype (plugins only: code size) 'f merge_action =
    MergeInsert "ustring list" "'f tsql_expr list"
  | MergeUpdate "(ustring \<times> 'f tsql_expr) list"
  | MergeDelete

record 'f tsql_merge =
  me_target :: "'f tsql_table_ref"
  me_target_alias :: "ustring option"
  me_source :: "'f tsql_table_ref"
  me_source_alias :: "ustring option"
  me_on_condition :: "'f tsql_expr"
  me_when_matched :: "'f merge_action option"
  me_when_not_matched :: "'f merge_action option"
  me_when_not_matched_by_source :: "'f merge_action option"

subsection \<open>Procedures, variables, cursors and errors\<close>

datatype (plugins only: code size) param_direction = ParamInput | ParamOutput | ParamInOut

record 'f procedure_param =
  prm_name :: ustring
  prm_data_type :: tsql_data_type
  prm_direction :: param_direction
  prm_default :: "'f tsql_expr option"
  prm_output :: bool

record 'f variable_decl =
  vd_name :: ustring
  vd_data_type :: tsql_data_type
  vd_default :: "'f tsql_expr option"

record 'f select_into_vars =
  sv_assignments :: "(ustring \<times> 'f tsql_expr) list"
  sv_from :: "'f tsql_table_ref option"
  sv_where :: "'f tsql_expr option"
  sv_group_by :: "'f tsql_expr list"
  sv_having :: "'f tsql_expr option"
  sv_order_by :: "'f tsql_expr tsql_order_by list"

datatype (plugins only: code size) cursor_scroll_type = CursorForwardOnly | CursorScroll | CursorKeyset | CursorDynamic | CursorStatic

datatype (plugins only: code size) cursor_sensitivity = CursorUnspecified | CursorInsensitive | CursorSensitive

record 'f declare_cursor =
  dc_name :: ustring
  dc_scroll_type :: cursor_scroll_type
  dc_sensitivity :: cursor_sensitivity
  dc_query :: "'f tsql_select"
  dc_for_read_only :: bool

datatype (plugins only: code size) fetch_orientation = FetchNext | FetchPrior | FetchFirst | FetchLast | FetchAbsolute int | FetchRelative int

record fetch_cursor =
  fc_cursor_name :: ustring
  fc_orientation :: fetch_orientation
  fc_into_variables :: "ustring list"

record 'f raiserror_stmt =
  rr_message_or_id :: "'f tsql_expr"
  rr_severity :: "'f tsql_expr"
  rr_state :: "'f tsql_expr"
  rr_with_log :: bool

datatype (plugins only: code size) wait_for_type = WaitDelay ustring | WaitTime ustring

datatype (plugins only: code size) 'f system_proc =
    SpHelp "ustring option" | SpWho "ustring option" | SpHelpDb "ustring option"
  | SpTables "ustring option" "ustring option" "ustring option"
  | SpColumns ustring "ustring option" "ustring option"
  | SpHelpIndex ustring | SpDatabases | SpServerInfo | SpVersion | SpLock
  | SpDepends ustring | SpRename ustring ustring | SpChangeDbOwner ustring ustring
  | SpConfigure "ustring option" "ustring option" | SpSpaceUsed "ustring option"
  | SpHelpConstraint ustring | SpHelpKey ustring | SpHelpType | SpHelpUser
  | SpPasswd ustring "ustring option" "ustring option"
  | SpCustom ustring "'f tsql_expr list"

subsection \<open>Statements\<close>

text \<open>The constructors of \<open>TsqlStatement\<close>. The ones that hold no statement are grouped the way the
  source groups them by comments, each group a type of its own.\<close>

datatype (plugins only: code size) 'f ddl_statement =
    CreateTable "'f tsql_create_table"
  | AlterTable ustring "'f alter_table_action"
  | DropTable ustring bool
  | TruncateTable ustring
  | CreateDatabase tsql_create_database
  | DropDatabase ustring bool
  | CreateIndex tsql_create_index
  | DropIndex ustring "ustring option" bool
  | CreateView "'f tsql_create_view"
  | DropView ustring bool
  | CreateTempTable "'f tsql_create_table"

datatype (plugins only: code size) 'f dml_statement =
    SelectStmt "'f tsql_select"
  | InsertStmt "'f tsql_insert"
  | UpdateStmt "'f tsql_update"
  | DeleteStmt "'f tsql_delete"
  | MergeStmt "'f tsql_merge"

datatype (plugins only: code size) 'f cursor_statement =
    DeclareCursor "'f declare_cursor"
  | OpenCursor ustring
  | FetchCursor fetch_cursor
  | CloseCursor ustring
  | DeallocateCursor ustring

datatype (plugins only: code size) transaction_statement =
    BeginTransaction "ustring option"
  | CommitTransaction "ustring option"
  | RollbackTransaction "ustring option"
  | SaveTransaction ustring

datatype (plugins only: code size) 'f text_statement =
    ReadText ustring ustring "'f tsql_expr" "'f tsql_expr"
  | WriteText ustring ustring "'f tsql_expr option" "'f tsql_expr"
  | UpdateText ustring ustring "'f tsql_expr" "'f tsql_expr" "'f tsql_expr"

datatype (plugins only: code size) 'f tsql_statement =
    Ddl "'f ddl_statement"
  | Dml "'f dml_statement"
  | CreateProcedure "ustring option" ustring "'f procedure_param list" "'f tsql_statement list" bool bool
  | AlterProcedure "ustring option" ustring "'f procedure_param list" "'f tsql_statement list" bool bool
  | DropProcedure ustring bool
  | Execute "'f execute_stmt"
  | BeginEnd "'f tsql_statement list"
  | IfElse "'f tsql_expr" "'f tsql_statement list" "'f tsql_statement list option"
  | While "'f tsql_expr" "'f tsql_statement list"
  | Return "'f tsql_expr option"
  | Goto ustring
  | Label ustring
  | WaitFor wait_for_type
  | Break
  | Continue
  | Declare "'f variable_decl list"
  | SetVariable "(ustring \<times> 'f tsql_expr) list"
  | SelectIntoVars "'f select_into_vars"
  | Print "'f tsql_expr"
  | CursorStmt "'f cursor_statement"
  | TryCatch "'f tsql_statement list" "'f tsql_statement list"
  | Raiserror "'f raiserror_stmt"
  | Throw "int option" "'f tsql_expr" "int option"
  | Tran transaction_statement
  | SystemProcedure "'f system_proc"
  | TextStmt "'f text_statement"
  | UseDatabase ustring
  | SetOption ustring "'f tsql_expr"
  | Compute "'f tsql_expr list" "'f tsql_expr list"
  | Batch "'f tsql_statement list"
  | Passthrough ustring
  | NoOp

end
