(* ===== verification/TsqlMonad.thy ===== *)
theory TsqlMonad
  imports TsqlAst
begin

section \<open>The token cursor of the T-SQL parser (crates/tsql-parser/src/parser.rs)\<close>

text \<open>
  The parser keeps the tokens of a batch and a position. A parsing function is a function on that
  state with three outcomes: a value and the state after it, an error, or \<open>None\<close> when the fuel of a
  recursion or a loop runs out. The last one never happens in the functions of the program
  (\<open>TsqlParser\<close>, \<open>TsqlStatements\<close>), which \<open>TsqlParser_Total\<close> proves.
  The Debug text of strings and floating point numbers is library code, in \<open>parser_lib\<close>.
\<close>

record 'f parser_lib =
  pl_chars :: "'f char_lib"
  pl_debug_str :: "ustring \<Rightarrow> ustring"
  pl_debug_f64 :: "'f \<Rightarrow> ustring"

record 'f tsql_parser =
  ps_tokens :: "'f tsql_token list"
  ps_pos :: nat

type_synonym ('f, 'a) parser = "'f tsql_parser \<Rightarrow> (tsql_parse_error + 'a \<times> 'f tsql_parser) option"

definition parser_new :: "'f tsql_parser" where
  "parser_new = \<lparr>ps_tokens = [], ps_pos = 0\<rparr>"

subsection \<open>Sequencing\<close>

definition ret :: "'a \<Rightarrow> ('f, 'a) parser" where
  "ret x s = Some (Inr (x, s))"

definition andthen :: "('f, 'a) parser \<Rightarrow> ('a \<Rightarrow> ('f, 'b) parser) \<Rightarrow> ('f, 'b) parser" where
  "andthen p f s =
     (case p s of
        None \<Rightarrow> None
      | Some (Inl e) \<Rightarrow> Some (Inl e)
      | Some (Inr (x, s')) \<Rightarrow> f x s')"

definition err_at :: "ustring \<Rightarrow> ('f, 'a) parser" where
  "err_at msg s = Some (Inl (parse_error_new msg (ps_pos s) 0 0))"

definition branch :: "('f tsql_parser \<Rightarrow> bool) \<Rightarrow> ('f, 'a) parser \<Rightarrow> ('f, 'a) parser \<Rightarrow> ('f, 'a) parser" where
  "branch b p q s = (if b s then p s else q s)"

text \<open>A loop: the body answers \<open>Inl\<close> to go on and \<open>Inr\<close> to leave. The fuel is one more than the
  number of tokens left.\<close>

definition remaining :: "'f tsql_parser \<Rightarrow> nat" where
  "remaining s = length (ps_tokens s) - ps_pos s"

fun loop_n :: "nat \<Rightarrow> ('a \<Rightarrow> ('f, 'a + 'b) parser) \<Rightarrow> 'a \<Rightarrow> ('f, 'b) parser" where
  "loop_n 0 body a s = None"
| "loop_n (Suc n) body a s =
     (case body a s of
        None \<Rightarrow> None
      | Some (Inl e) \<Rightarrow> Some (Inl e)
      | Some (Inr (Inl a', s')) \<Rightarrow> loop_n n body a' s'
      | Some (Inr (Inr b, s')) \<Rightarrow> Some (Inr (b, s')))"

definition ploop :: "('a \<Rightarrow> ('f, 'a + 'b) parser) \<Rightarrow> 'a \<Rightarrow> ('f, 'b) parser" where
  "ploop body a s = loop_n (Suc (remaining s)) body a s"

subsection \<open>Token helpers\<close>

definition p_peek :: "'f tsql_parser \<Rightarrow> 'f tsql_token" where
  "p_peek s = (if ps_pos s < length (ps_tokens s) then ps_tokens s ! ps_pos s else Tok ''Eof'')"

definition p_peek_ahead :: "nat \<Rightarrow> 'f tsql_parser \<Rightarrow> 'f tsql_token" where
  "p_peek_ahead offset s =
     (if ps_pos s + offset < length (ps_tokens s) then ps_tokens s ! (ps_pos s + offset) else Tok ''Eof'')"

definition is_at_end :: "'f tsql_parser \<Rightarrow> bool" where
  "is_at_end s \<longleftrightarrow> length (ps_tokens s) \<le> ps_pos s \<or> ps_tokens s ! ps_pos s = Tok ''Eof''"

definition p_advance :: "('f, 'f tsql_token) parser" where
  "p_advance s =
     (if ps_pos s < length (ps_tokens s) then Some (Inr (ps_tokens s ! ps_pos s, s\<lparr>ps_pos := ps_pos s + 1\<rparr>))
      else Some (Inr (Tok ''Eof'', s)))"

definition looking :: "('f tsql_token \<Rightarrow> ('f, 'a) parser) \<Rightarrow> ('f, 'a) parser" where
  "looking f s = f (p_peek s) s"

definition check :: "string \<Rightarrow> 'f tsql_parser \<Rightarrow> bool" where
  "check k s \<longleftrightarrow> p_peek s = Tok k"

text \<open>The Debug text of a token, as it stands in the error messages.\<close>

definition debug_bytes :: "nat list \<Rightarrow> ustring" where
  "debug_bytes bs = chs (''['' @ concat (map (\<lambda>(i, b). (if 0 < i then '', '' else []) @ show_nat b) (enumerate 0 bs)) @ '']'')"

fun debug_token :: "'f parser_lib \<Rightarrow> 'f tsql_token \<Rightarrow> ustring" where
  "debug_token L (Tok k) = chs k"
| "debug_token L (IntLiteral n) = chs (''IntLiteral('' @ show_int n @ '')'')"
| "debug_token L (BigIntLiteral n) = chs (''BigIntLiteral('' @ show_int n @ '')'')"
| "debug_token L (FloatLiteral f) = chs ''FloatLiteral('' @ pl_debug_f64 L f @ chs '')''"
| "debug_token L (StringLiteral s) = chs ''StringLiteral('' @ pl_debug_str L s @ chs '')''"
| "debug_token L (NStringLiteral s) = chs ''NStringLiteral('' @ pl_debug_str L s @ chs '')''"
| "debug_token L (BinaryLiteral bs) = chs ''BinaryLiteral('' @ debug_bytes bs @ chs '')''"
| "debug_token L (MoneyLiteral s) = chs ''MoneyLiteral('' @ pl_debug_str L s @ chs '')''"
| "debug_token L (DateTimeLiteral s) = chs ''DateTimeLiteral('' @ pl_debug_str L s @ chs '')''"
| "debug_token L (Identifier s) = chs ''Identifier('' @ pl_debug_str L s @ chs '')''"
| "debug_token L (QuotedIdentifier s) = chs ''QuotedIdentifier('' @ pl_debug_str L s @ chs '')''"
| "debug_token L (AtVariable s) = chs ''AtVariable('' @ pl_debug_str L s @ chs '')''"
| "debug_token L (AtAtVariable s) = chs ''AtAtVariable('' @ pl_debug_str L s @ chs '')''"
| "debug_token L (PoundTemp s) = chs ''PoundTemp('' @ pl_debug_str L s @ chs '')''"
| "debug_token L (DoublePoundTemp s) = chs ''DoublePoundTemp('' @ pl_debug_str L s @ chs '')''"

text \<open>The keywords with a text of their own; every other token is shown in its Debug form.\<close>

definition token_texts :: "(string \<times> string) list" where
  "token_texts =
     [(''Select'', ''SELECT''), (''From'', ''FROM''), (''Where'', ''WHERE''), (''Table'', ''TABLE''),
      (''Index'', ''INDEX''), (''View'', ''VIEW''), (''Procedure'', ''PROCEDURE''), (''Proc'', ''PROC''),
      (''Function'', ''FUNCTION''), (''Trigger'', ''TRIGGER''), (''Begin'', ''BEGIN''), (''End'', ''END''),
      (''If'', ''IF''), (''Else'', ''ELSE''), (''While'', ''WHILE''), (''Return'', ''RETURN''),
      (''Declare'', ''DECLARE''), (''Set'', ''SET''), (''Print'', ''PRINT''), (''Execute'', ''EXECUTE''),
      (''Exec'', ''EXEC''), (''Cursor'', ''CURSOR''), (''Open'', ''OPEN''), (''Fetch'', ''FETCH''),
      (''Close'', ''CLOSE''), (''Deallocate'', ''DEALLOCATE''), (''Commit'', ''COMMIT''),
      (''Rollback'', ''ROLLBACK''), (''Save'', ''SAVE''), (''Transaction'', ''TRANSACTION''),
      (''Tran'', ''TRAN''), (''Go'', ''GO''), (''Use'', ''USE''), (''Database'', ''DATABASE''),
      (''Try'', ''TRY''), (''Catch'', ''CATCH''), (''Throw'', ''THROW''), (''Raiserror'', ''RAISERROR''),
      (''Break'', ''BREAK''), (''Continue'', ''CONTINUE''), (''Goto'', ''GOTO''), (''WaitFor'', ''WAITFOR''),
      (''Create'', ''CREATE''), (''Alter'', ''ALTER''), (''Drop'', ''DROP''), (''Insert'', ''INSERT''),
      (''Update'', ''UPDATE''), (''Delete'', ''DELETE''), (''Merge'', ''MERGE''), (''Truncate'', ''TRUNCATE'')]"

definition token_to_string :: "'f parser_lib \<Rightarrow> 'f tsql_token \<Rightarrow> ustring" where
  "token_to_string L t =
     (case t of
        Identifier s \<Rightarrow> s
      | QuotedIdentifier s \<Rightarrow> s
      | Tok k \<Rightarrow> (case map_of token_texts k of Some w \<Rightarrow> chs w | None \<Rightarrow> debug_token L t)
      | _ \<Rightarrow> debug_token L t)"

definition expect :: "'f parser_lib \<Rightarrow> string \<Rightarrow> ('f, 'f tsql_token) parser" where
  "expect L k =
     branch (check k) p_advance
       (looking (\<lambda>t. err_at (chs ''expected '' @ chs k @ chs '', found '' @ debug_token L t)))"

definition expect_identifier :: "'f parser_lib \<Rightarrow> ('f, ustring) parser" where
  "expect_identifier L =
     andthen p_advance (\<lambda>t.
       case t of
         Identifier name \<Rightarrow> ret name
       | QuotedIdentifier name \<Rightarrow> ret name
       | _ \<Rightarrow> if is_keyword t then ret (token_to_string L t)
              else err_at (chs ''expected identifier, found '' @ debug_token L t))"

text \<open>\<open>if self.match_token(k) p else q\<close>\<close>

definition if_token :: "string \<Rightarrow> ('f, 'a) parser \<Rightarrow> ('f, 'a) parser \<Rightarrow> ('f, 'a) parser" where
  "if_token k p q = branch (check k) (andthen p_advance (\<lambda>_. p)) q"

definition match_token :: "string \<Rightarrow> ('f, bool) parser" where
  "match_token k = if_token k (ret True) (ret False)"

definition opt_clause :: "string \<Rightarrow> ('f, 'a) parser \<Rightarrow> ('f, 'a option) parser" where
  "opt_clause k p = if_token k (andthen p (\<lambda>x. ret (Some x))) (ret None)"

definition comma_list :: "('f, 'a) parser \<Rightarrow> ('f, 'a list) parser" where
  "comma_list p =
     ploop (\<lambda>xs. andthen p (\<lambda>x. if_token ''Comma'' (ret (Inl (xs @ [x]))) (ret (Inr (xs @ [x]))))) []"

definition skip_semicolons :: "('f, unit) parser" where
  "skip_semicolons = ploop (\<lambda>_. if_token ''Semicolon'' (ret (Inl ())) (ret (Inr ()))) ()"

definition same_ci :: "ustring \<Rightarrow> string \<Rightarrow> bool" where
  "same_ci s name \<longleftrightarrow> map upper_char s = map upper_char (chs name)"

definition peek_identifier_value :: "'f tsql_parser \<Rightarrow> ustring option" where
  "peek_identifier_value s = (case p_peek s of Identifier v \<Rightarrow> Some v | QuotedIdentifier v \<Rightarrow> Some v | _ \<Rightarrow> None)"

definition peek_ident_ci :: "string \<Rightarrow> 'f tsql_parser \<Rightarrow> bool" where
  "peek_ident_ci name s \<longleftrightarrow>
     (case p_peek s of Identifier v \<Rightarrow> same_ci v name | QuotedIdentifier v \<Rightarrow> same_ci v name | _ \<Rightarrow> False)"

definition peek_is_ident :: "'f tsql_parser \<Rightarrow> bool" where
  "peek_is_ident s \<longleftrightarrow> (case p_peek s of Identifier v \<Rightarrow> True | QuotedIdentifier v \<Rightarrow> True | _ \<Rightarrow> False)"

definition peek_is_at_variable :: "'f tsql_parser \<Rightarrow> bool" where
  "peek_is_at_variable s \<longleftrightarrow> (case p_peek s of AtVariable v \<Rightarrow> True | _ \<Rightarrow> False)"

definition consume_token_string :: "'f parser_lib \<Rightarrow> ('f, ustring) parser" where
  "consume_token_string L = andthen p_advance (\<lambda>t. ret (token_to_string L t))"

end
