(* ===== verification/TsqlParser.thy ===== *)
theory TsqlParser
  imports TsqlMonad
begin

section \<open>Expressions and queries of the T-SQL parser (crates/tsql-parser/src/parser.rs)\<close>

text \<open>
  The functions for expressions, queries and table references call each other. Each is defined here
  over the record \<open>R\<close> of the three functions it may call after it has read a token, and \<open>parsers_n\<close>
  ties the knot with fuel. \<open>parse_expr\<close>, \<open>parse_select\<close> and \<open>parse_table_ref\<close> give it one more than
  the number of tokens left; \<open>TsqlParser_Total\<close> shows that this is always enough and that the
  functions then satisfy the equations of the program.
\<close>

record 'f parsers =
  r_expr :: "('f, 'f tsql_expr) parser"
  r_select :: "('f, 'f tsql_select) parser"
  r_table :: "('f, 'f tsql_table_ref) parser"

subsection \<open>Data types\<close>

definition to_u8 :: "int \<Rightarrow> nat" where
  "to_u8 n = nat (n mod 256)"

definition to_usize :: "int \<Rightarrow> nat" where
  "to_usize n = nat (n mod 2 ^ 64)"

definition parse_optional_size_param :: "'f parser_lib \<Rightarrow> ('f, nat option) parser" where
  "parse_optional_size_param L =
     if_token ''LeftParen''
       (andthen p_advance (\<lambda>t. andthen (expect L ''RightParen'') (\<lambda>_.
          ret (case t of
                 Identifier s \<Rightarrow> if upper_chars (pl_chars L) s = chs ''MAX'' then Some 8000 else None
               | IntLiteral n \<Rightarrow> Some (to_usize n)
               | _ \<Rightarrow> None))))
       (ret None)"

definition u8_param :: "'f tsql_token \<Rightarrow> nat option" where
  "u8_param t = (case t of IntLiteral n \<Rightarrow> Some (to_u8 n) | _ \<Rightarrow> None)"

definition parse_precision_scale_params :: "'f parser_lib \<Rightarrow> ('f, nat option \<times> nat option) parser" where
  "parse_precision_scale_params L =
     if_token ''LeftParen''
       (andthen p_advance (\<lambda>tp.
        andthen (if_token ''Comma'' (andthen p_advance (\<lambda>ts. ret (u8_param ts))) (ret None)) (\<lambda>sc.
        andthen (expect L ''RightParen'') (\<lambda>_.
        ret (u8_param tp, sc)))))
       (ret (None, None))"

definition plain_types :: "(string \<times> tsql_data_type) list" where
  "plain_types =
     [(''INT'', TInt), (''INTEGER'', TInt), (''SMALLINT'', TSmallInt), (''TINYINT'', TTinyInt), (''BIGINT'', TBigInt),
      (''BIT'', TBit), (''MONEY'', TMoney), (''SMALLMONEY'', TSmallMoney), (''REAL'', TReal), (''DATE'', TDate),
      (''DATETIME'', TDateTime), (''SMALLDATETIME'', TSmallDateTime), (''UNIQUEIDENTIFIER'', TUniqueIdentifier),
      (''XML'', TXml), (''TEXT'', TText), (''NTEXT'', TNText), (''IMAGE'', TImage), (''TABLE'', TTable),
      (''CURSOR'', TCursorType), (''SQL_VARIANT'', TSqlVariant)]"

definition sized_types :: "(string \<times> (nat option \<Rightarrow> tsql_data_type)) list" where
  "sized_types =
     [(''VARCHAR'', TVarchar), (''CHAR'', TChar), (''NVARCHAR'', TNVarchar), (''NCHAR'', TNChar),
      (''VARBINARY'', TVarBinary), (''BINARY'', TBinary),
      (''FLOAT'', \<lambda>n. TFloat (map_option (\<lambda>n. n mod 256) n)),
      (''DATETIME2'', \<lambda>n. TDateTime2 (map_option (\<lambda>n. n mod 256) n)),
      (''DATETIMEOFFSET'', \<lambda>n. TDateTimeOffset (map_option (\<lambda>n. n mod 256) n)),
      (''TIME'', \<lambda>n. TTime (map_option (\<lambda>n. n mod 256) n))]"

definition precision_types :: "(string \<times> (nat option \<Rightarrow> nat option \<Rightarrow> tsql_data_type)) list" where
  "precision_types = [(''DECIMAL'', TDecimal), (''NUMERIC'', TNumeric)]"

definition by_name :: "(string \<times> 'a) list \<Rightarrow> ustring \<Rightarrow> 'a option" where
  "by_name table name = map_of (map (\<lambda>(w, x). (chs w, x)) table) name"

definition parse_tsql_data_type :: "'f parser_lib \<Rightarrow> ('f, tsql_data_type) parser" where
  "parse_tsql_data_type L =
     andthen (expect_identifier L) (\<lambda>name.
       let upper = upper_chars (pl_chars L) name
       in case by_name plain_types upper of
            Some t \<Rightarrow> ret t
          | None \<Rightarrow>
              (case by_name sized_types upper of
                 Some f \<Rightarrow> andthen (parse_optional_size_param L) (\<lambda>n. ret (f n))
               | None \<Rightarrow>
                   (case by_name precision_types upper of
                      Some f \<Rightarrow> andthen (parse_precision_scale_params L) (\<lambda>(p, s). ret (f p s))
                    | None \<Rightarrow> ret (TUserDefined name))))"

subsection \<open>Primary expressions\<close>

definition parse_expr_list_r :: "'f parsers \<Rightarrow> ('f, 'f tsql_expr list) parser" where
  "parse_expr_list_r R = comma_list (r_expr R)"

definition parse_case_expr :: "'f parser_lib \<Rightarrow> 'f parsers \<Rightarrow> ('f, 'f tsql_expr) parser" where
  "parse_case_expr L R =
     andthen (expect L ''Case'') (\<lambda>_.
     andthen (branch (\<lambda>s. \<not> check ''When'' s) (andthen (r_expr R) (\<lambda>e. ret (Some e))) (ret None)) (\<lambda>operand.
     andthen (ploop (\<lambda>ws. if_token ''When''
         (andthen (r_expr R) (\<lambda>w. andthen (expect L ''Then'') (\<lambda>_. andthen (r_expr R) (\<lambda>t. ret (Inl (ws @ [(w, t)]))))))
         (ret (Inr ws))) []) (\<lambda>when_clauses.
     andthen (opt_clause ''Else'' (r_expr R)) (\<lambda>else_expr.
     andthen (expect L ''End'') (\<lambda>_.
     ret (CaseWhen operand when_clauses else_expr))))))"

definition parse_function_call :: "'f parser_lib \<Rightarrow> 'f parsers \<Rightarrow> ustring \<Rightarrow> ustring \<Rightarrow> ('f, 'f tsql_expr) parser" where
  "parse_function_call L R name upper_name =
     andthen (expect L ''LeftParen'') (\<lambda>_.
       if upper_name = chs ''CAST'' then
         andthen (r_expr R) (\<lambda>e. andthen (expect L ''As'') (\<lambda>_. andthen (parse_tsql_data_type L) (\<lambda>dt.
         andthen (expect L ''RightParen'') (\<lambda>_. ret (Cast e dt)))))
       else if upper_name = chs ''CONVERT'' then
         andthen (parse_tsql_data_type L) (\<lambda>dt. andthen (expect L ''Comma'') (\<lambda>_. andthen (r_expr R) (\<lambda>e.
         andthen (opt_clause ''Comma'' (r_expr R)) (\<lambda>style.
         andthen (expect L ''RightParen'') (\<lambda>_. ret (Convert dt e style))))))
       else if upper_name = chs ''ISNULL'' then
         andthen (r_expr R) (\<lambda>e. andthen (expect L ''Comma'') (\<lambda>_. andthen (r_expr R) (\<lambda>replacement.
         andthen (expect L ''RightParen'') (\<lambda>_. ret (IsNull e replacement)))))
       else if upper_name = chs ''COALESCE'' then
         andthen (parse_expr_list_r R) (\<lambda>args. andthen (expect L ''RightParen'') (\<lambda>_. ret (Coalesce args)))
       else if upper_name = chs ''NULLIF'' then
         andthen (r_expr R) (\<lambda>e. andthen (expect L ''Comma'') (\<lambda>_. andthen (r_expr R) (\<lambda>other.
         andthen (expect L ''RightParen'') (\<lambda>_. ret (NullIf e other)))))
       else if upper_name = chs ''TOP'' then
         andthen (r_expr R) (\<lambda>e. andthen (expect L ''RightParen'') (\<lambda>_. ret (TopExpr e False)))
       else
         andthen (branch (check ''RightParen'') (ret []) (parse_expr_list_r R)) (\<lambda>args.
         andthen (expect L ''RightParen'') (\<lambda>_. ret (FunctionCall name args))))"

definition parse_column_ref_or_function :: "'f parser_lib \<Rightarrow> 'f parsers \<Rightarrow> ('f, 'f tsql_expr) parser" where
  "parse_column_ref_or_function L R =
     andthen (expect_identifier L) (\<lambda>name.
       if_token ''Dot''
         (andthen (expect_identifier L) (\<lambda>second.
            if_token ''Dot''
              (andthen (expect_identifier L) (\<lambda>third.
                 if_token ''Dot''
                   (andthen (expect_identifier L) (\<lambda>fourth. ret (ColumnRef (Some name) (Some second) (Some third) fourth)))
                   (ret (ColumnRef None None (Some second) third))))
              (if_token ''Star'' (ret (TableWildcard name))
                 (ret (ColumnRef None None (Some name) second)))))
         (branch (check ''LeftParen'')
            (parse_function_call L R name (upper_chars (pl_chars L) name))
            (ret (ColumnRef None None None name))))"

definition parse_primary :: "'f parser_lib \<Rightarrow> 'f parsers \<Rightarrow> ('f, 'f tsql_expr) parser" where
  "parse_primary L R =
     looking (\<lambda>t.
       case t of
         IntLiteral n \<Rightarrow> andthen p_advance (\<lambda>_. ret (Literal (LitInt n)))
       | BigIntLiteral n \<Rightarrow> andthen p_advance (\<lambda>_. ret (Literal (LitInt n)))
       | FloatLiteral f \<Rightarrow> andthen p_advance (\<lambda>_. ret (Literal (LitFloat f)))
       | StringLiteral s \<Rightarrow> andthen p_advance (\<lambda>_. ret (Literal (LitString s)))
       | NStringLiteral s \<Rightarrow> andthen p_advance (\<lambda>_. ret (Literal (LitString s)))
       | BinaryLiteral b \<Rightarrow> andthen p_advance (\<lambda>_. ret (Literal (LitBinary b)))
       | MoneyLiteral s \<Rightarrow> andthen p_advance (\<lambda>_. ret (Literal (LitMoney s)))
       | AtVariable name \<Rightarrow> andthen p_advance (\<lambda>_. ret (Variable name))
       | AtAtVariable name \<Rightarrow> andthen p_advance (\<lambda>_. ret (SystemVariable name))
       | Identifier _ \<Rightarrow> parse_column_ref_or_function L R
       | QuotedIdentifier _ \<Rightarrow> parse_column_ref_or_function L R
       | PoundTemp name \<Rightarrow>
           andthen p_advance (\<lambda>_.
             if_token ''Dot''
               (andthen (expect_identifier L) (\<lambda>column. ret (ColumnRef None None (Some (chs ''#'' @ name)) column)))
               (ret (ColumnRef None None None (chs ''#'' @ name))))
       | Tok k \<Rightarrow>
           if k = ''Null'' then andthen p_advance (\<lambda>_. ret (Literal LitNull))
           else if k = ''Star'' then andthen p_advance (\<lambda>_. ret Wildcard)
           else if k = ''LeftParen'' then
             andthen p_advance (\<lambda>_.
               branch (check ''Select'')
                 (andthen (r_select R) (\<lambda>query. andthen (expect L ''RightParen'') (\<lambda>_. ret (Subquery query))))
                 (andthen (r_expr R) (\<lambda>e. andthen (expect L ''RightParen'') (\<lambda>_. ret e))))
           else if k = ''Case'' then parse_case_expr L R
           else if k = ''Exists'' then
             andthen p_advance (\<lambda>_. andthen (expect L ''LeftParen'') (\<lambda>_. andthen (r_select R) (\<lambda>query.
             andthen (expect L ''RightParen'') (\<lambda>_. ret (Exists query)))))
           else err_at (chs ''unexpected token in expression: '' @ debug_token L t)
       | _ \<Rightarrow> err_at (chs ''unexpected token in expression: '' @ debug_token L t))"

subsection \<open>Operators\<close>

definition parse_unary :: "'f parser_lib \<Rightarrow> 'f parsers \<Rightarrow> ('f, 'f tsql_expr) parser" where
  "parse_unary L R =
     if_token ''Minus'' (andthen (parse_primary L R) (\<lambda>e. ret (UnaryOp Negate e)))
       (if_token ''Plus'' (parse_primary L R)
          (if_token ''Tilde'' (andthen (parse_primary L R) (\<lambda>e. ret (UnaryOp BitwiseNot e)))
             (parse_primary L R)))"

text \<open>A chain of operators of one level, grouped to the left.\<close>

definition op_of :: "(string \<times> tsql_binary_op) list \<Rightarrow> 'f tsql_token \<Rightarrow> tsql_binary_op option" where
  "op_of ops t = (case t of Tok k \<Rightarrow> map_of ops k | _ \<Rightarrow> None)"

definition chain :: "(string \<times> tsql_binary_op) list \<Rightarrow> ('f, 'f tsql_expr) parser \<Rightarrow> ('f, 'f tsql_expr) parser" where
  "chain ops operand =
     andthen operand (\<lambda>left.
       ploop (\<lambda>left. looking (\<lambda>t.
         case op_of ops t of
           Some op \<Rightarrow> andthen p_advance (\<lambda>_. andthen operand (\<lambda>right. ret (Inl (BinaryOp left op right))))
         | None \<Rightarrow> ret (Inr left))) left)"

definition multiplication_ops :: "(string \<times> tsql_binary_op) list" where
  "multiplication_ops = [(''Star'', Multiply), (''Slash'', Divide), (''PercentOp'', Modulo)]"

definition addition_ops :: "(string \<times> tsql_binary_op) list" where
  "addition_ops = [(''Plus'', Add), (''Minus'', Subtract), (''Ampersand'', BitwiseAnd), (''Pipe'', BitwiseOr), (''Caret'', BitwiseXor)]"

definition comparison_ops :: "(string \<times> tsql_binary_op) list" where
  "comparison_ops =
     [(''Equals'', EqOp), (''NotEquals'', NotEqOp), (''Lt'', LtOp), (''Gt'', GtOp), (''LtEq'', LtEqOp),
      (''GtEq'', GtEqOp), (''RightOuterJoin'', AssignOp)]"

definition parse_multiplication :: "'f parser_lib \<Rightarrow> 'f parsers \<Rightarrow> ('f, 'f tsql_expr) parser" where
  "parse_multiplication L R = chain multiplication_ops (parse_unary L R)"

definition parse_addition :: "'f parser_lib \<Rightarrow> 'f parsers \<Rightarrow> ('f, 'f tsql_expr) parser" where
  "parse_addition L R = chain addition_ops (parse_multiplication L R)"

definition parse_is_null :: "'f parser_lib \<Rightarrow> 'f tsql_expr \<Rightarrow> ('f, 'f tsql_expr) parser" where
  "parse_is_null L left =
     andthen (match_token ''Not'') (\<lambda>not. andthen (expect L ''Null'') (\<lambda>_.
       let is_null = BinaryOp left EqOp (Literal LitNull)
       in ret (if not then UnaryOp NotOp is_null else is_null)))"

definition parse_in :: "'f parser_lib \<Rightarrow> 'f parsers \<Rightarrow> 'f tsql_expr \<Rightarrow> bool \<Rightarrow> ('f, 'f tsql_expr) parser" where
  "parse_in L R left negated =
     andthen (expect L ''LeftParen'') (\<lambda>_.
       branch (check ''Select'')
         (andthen (r_select R) (\<lambda>query. andthen (expect L ''RightParen'') (\<lambda>_. ret (InSubquery left query negated))))
         (andthen (parse_expr_list_r R) (\<lambda>list. andthen (expect L ''RightParen'') (\<lambda>_. ret (InList left list negated)))))"

definition parse_between :: "'f parser_lib \<Rightarrow> 'f parsers \<Rightarrow> 'f tsql_expr \<Rightarrow> bool \<Rightarrow> ('f, 'f tsql_expr) parser" where
  "parse_between L R left negated =
     andthen (parse_addition L R) (\<lambda>low. andthen (expect L ''And'') (\<lambda>_. andthen (parse_addition L R) (\<lambda>high.
       ret (Between left low high negated))))"

definition parse_like :: "'f parser_lib \<Rightarrow> 'f parsers \<Rightarrow> 'f tsql_expr \<Rightarrow> bool \<Rightarrow> ('f, 'f tsql_expr) parser" where
  "parse_like L R left negated =
     andthen (parse_addition L R) (\<lambda>pattern.
     andthen (branch (peek_ident_ci ''ESCAPE'')
         (andthen p_advance (\<lambda>_. andthen (parse_addition L R) (\<lambda>e. ret (Some e)))) (ret None)) (\<lambda>escape.
     ret (Like left pattern negated escape)))"

definition parse_comparison_op :: "'f parser_lib \<Rightarrow> 'f parsers \<Rightarrow> 'f tsql_expr \<Rightarrow> bool \<Rightarrow> ('f, 'f tsql_expr) parser" where
  "parse_comparison_op L R left negated =
     looking (\<lambda>t.
       case op_of comparison_ops t of
         Some op \<Rightarrow>
           andthen p_advance (\<lambda>_. andthen (parse_addition L R) (\<lambda>right.
             if op = EqOp then if_token ''Star'' (ret (OldStyleJoin left right OldLeftOuter)) (ret (BinaryOp left op right))
             else ret (BinaryOp left op right)))
       | None \<Rightarrow>
           if negated then err_at (chs ''NOT must be followed by IN, BETWEEN, LIKE, or EXISTS'')
           else ret left)"

definition parse_comparison :: "'f parser_lib \<Rightarrow> 'f parsers \<Rightarrow> ('f, 'f tsql_expr) parser" where
  "parse_comparison L R =
     andthen (parse_addition L R) (\<lambda>left.
       if_token ''Is'' (parse_is_null L left)
         (andthen (match_token ''Not'') (\<lambda>negated.
            if_token ''In'' (parse_in L R left negated)
              (if_token ''Between'' (parse_between L R left negated)
                 (if_token ''Like'' (parse_like L R left negated)
                    (parse_comparison_op L R left negated))))))"

definition parse_not_expr :: "'f parser_lib \<Rightarrow> 'f parsers \<Rightarrow> ('f, 'f tsql_expr) parser" where
  "parse_not_expr L R =
     if_token ''Not'' (andthen (parse_comparison L R) (\<lambda>e. ret (UnaryOp NotOp e)))
       (parse_comparison L R)"

definition parse_and_expr :: "'f parser_lib \<Rightarrow> 'f parsers \<Rightarrow> ('f, 'f tsql_expr) parser" where
  "parse_and_expr L R = chain [(''And'', AndOp)] (parse_not_expr L R)"

definition parse_or_expr :: "'f parser_lib \<Rightarrow> 'f parsers \<Rightarrow> ('f, 'f tsql_expr) parser" where
  "parse_or_expr L R = chain [(''Or'', OrOp)] (parse_and_expr L R)"

subsection \<open>Table references\<close>

definition statement_keywords :: "string list" where
  "statement_keywords =
     [''Select'', ''Insert'', ''Update'', ''Delete'', ''Create'', ''Alter'', ''Drop'', ''Begin'', ''If'', ''While'',
      ''Return'', ''Declare'', ''Set'', ''Print'', ''Execute'', ''Exec'', ''Open'', ''Fetch'', ''Close'', ''Deallocate'',
      ''Commit'', ''Rollback'', ''Where'', ''Group'', ''Having'', ''Order'', ''Union'', ''Compute'', ''From'', ''End'',
      ''Go'', ''On'', ''And'', ''Or'']"

definition is_statement_keyword :: "'f tsql_token \<Rightarrow> bool" where
  "is_statement_keyword t \<longleftrightarrow> (case t of Tok k \<Rightarrow> k \<in> set statement_keywords | _ \<Rightarrow> False)"

definition parse_optional_alias :: "'f parser_lib \<Rightarrow> ('f, ustring option) parser" where
  "parse_optional_alias L =
     if_token ''As'' (andthen (expect_identifier L) (\<lambda>a. ret (Some a)))
       (branch peek_is_ident
          (branch (\<lambda>s. \<not> is_statement_keyword (p_peek s)) (andthen (expect_identifier L) (\<lambda>a. ret (Some a))) (ret None))
          (ret None))"

text \<open>The arguments of a hint: identifiers up to the closing parenthesis, with a comma before all but
  the first.\<close>

definition hint_args :: "'f parser_lib \<Rightarrow> ustring \<Rightarrow> ('f, ustring) parser" where
  "hint_args L h =
     ploop (\<lambda>(h, first). branch (\<lambda>s. \<not> check ''RightParen'' s)
         (andthen (expect_identifier L) (\<lambda>a. ret (Inl (h @ (if first then [] else chs '','') @ a, False))))
         (ret (Inr h))) (h, True)"

definition parse_table_hint :: "'f parser_lib \<Rightarrow> ('f, ustring) parser" where
  "parse_table_hint L =
     andthen (expect_identifier L) (\<lambda>hint.
       if_token ''LeftParen''
         (andthen (hint_args L (hint @ chs ''('')) (\<lambda>h. andthen (expect L ''RightParen'') (\<lambda>_. ret (h @ chs '')''))))
         (ret hint))"

definition parse_table_hints :: "'f parser_lib \<Rightarrow> ('f, ustring list) parser" where
  "parse_table_hints L =
     if_token ''With''
       (andthen (expect L ''LeftParen'') (\<lambda>_. andthen (comma_list (parse_table_hint L)) (\<lambda>hints.
        andthen (expect L ''RightParen'') (\<lambda>_. ret hints))))
       (ret [])"

definition parse_table_name :: "'f parser_lib \<Rightarrow> ('f, 'f tsql_table_ref) parser" where
  "parse_table_name L =
     andthen (expect_identifier L) (\<lambda>name.
     andthen (if_token ''Dot''
         (andthen (expect_identifier L) (\<lambda>second.
            if_token ''Dot''
              (andthen (expect_identifier L) (\<lambda>third. ret (Some name, Some second, third)))
              (ret (None, Some name, second))))
         (ret (None, None, name))) (\<lambda>(database, schema, table_name).
     andthen (parse_optional_alias L) (\<lambda>alias.
     andthen (parse_table_hints L) (\<lambda>hints.
     ret (TableName database schema table_name alias hints)))))"

definition parse_primary_table_ref :: "'f parser_lib \<Rightarrow> 'f parsers \<Rightarrow> ('f, 'f tsql_table_ref) parser" where
  "parse_primary_table_ref L R =
     looking (\<lambda>t.
       case t of
         PoundTemp name \<Rightarrow>
           andthen p_advance (\<lambda>_. andthen (parse_optional_alias L) (\<lambda>alias. ret (TempTable name alias)))
       | DoublePoundTemp name \<Rightarrow>
           andthen p_advance (\<lambda>_. andthen (parse_optional_alias L) (\<lambda>alias. ret (TempTable (chs ''##'' @ name) alias)))
       | _ \<Rightarrow>
           if_token ''LeftParen''
             (branch (check ''Select'')
                (andthen (r_select R) (\<lambda>query. andthen (expect L ''RightParen'') (\<lambda>_.
                 andthen (if_token ''As'' (expect_identifier L) (expect_identifier L)) (\<lambda>alias. ret (SubqueryRef query alias)))))
                (andthen (r_table R) (\<lambda>inner. andthen (expect L ''RightParen'') (\<lambda>_. ret inner))))
             (parse_table_name L))"

definition parse_join_type :: "'f parser_lib \<Rightarrow> ('f, tsql_join_type option) parser" where
  "parse_join_type L =
     if_token ''Inner'' (andthen (expect L ''Join'') (\<lambda>_. ret (Some InnerJoin)))
    (if_token ''Left'' (andthen (match_token ''Outer'') (\<lambda>_. andthen (expect L ''Join'') (\<lambda>_. ret (Some LeftOuterJoin))))
    (if_token ''Right'' (andthen (match_token ''Outer'') (\<lambda>_. andthen (expect L ''Join'') (\<lambda>_. ret (Some RightOuterJoin))))
    (if_token ''Full'' (andthen (match_token ''Outer'') (\<lambda>_. andthen (expect L ''Join'') (\<lambda>_. ret (Some FullOuterJoin))))
    (if_token ''Cross'' (andthen (expect L ''Join'') (\<lambda>_. ret (Some CrossJoin)))
    (if_token ''Join'' (ret (Some InnerJoin))
    (ret None))))))"

definition parse_joins :: "'f parser_lib \<Rightarrow> 'f parsers \<Rightarrow> 'f tsql_table_ref \<Rightarrow> ('f, 'f tsql_table_ref) parser" where
  "parse_joins L R =
     ploop (\<lambda>result. andthen (parse_join_type L) (\<lambda>join_type.
       case join_type of
         Some jt \<Rightarrow>
           andthen (parse_primary_table_ref L R) (\<lambda>right.
           andthen (if jt \<noteq> CrossJoin then opt_clause ''On'' (r_expr R) else ret None) (\<lambda>condition.
           ret (Inl (JoinRef result right jt condition))))
       | None \<Rightarrow> ret (Inr result)))"

definition parse_table_ref_r :: "'f parser_lib \<Rightarrow> 'f parsers \<Rightarrow> ('f, 'f tsql_table_ref) parser" where
  "parse_table_ref_r L R = andthen (parse_primary_table_ref L R) (parse_joins L R)"

subsection \<open>Queries\<close>

definition parse_top_clause :: "'f parser_lib \<Rightarrow> 'f parsers \<Rightarrow> ('f, 'f tsql_expr top_clause) parser" where
  "parse_top_clause L R =
     andthen (if_token ''LeftParen''
         (andthen (r_expr R) (\<lambda>e. andthen (expect L ''RightParen'') (\<lambda>_. ret e)))
         (andthen p_advance (\<lambda>t.
            case t of
              IntLiteral n \<Rightarrow> ret (Literal (LitInt n))
            | AtVariable name \<Rightarrow> ret (Variable name)
            | _ \<Rightarrow> err_at (chs ''expected TOP count'')))) (\<lambda>count.
     andthen (match_token ''Percent'') (\<lambda>percent.
     andthen (if_token ''With'' (andthen (expect L ''Ties'') (\<lambda>_. ret True)) (ret False)) (\<lambda>with_ties.
     ret (TopClause count percent with_ties))))"

definition parse_select_list :: "'f parser_lib \<Rightarrow> 'f parsers \<Rightarrow> ('f, 'f tsql_expr tsql_select_item list) parser" where
  "parse_select_list L R =
     comma_list (andthen (r_expr R) (\<lambda>e. andthen (parse_optional_alias L) (\<lambda>alias. ret (SelectItem e alias))))"

definition parse_order_by_list :: "'f parsers \<Rightarrow> ('f, 'f tsql_expr tsql_order_by list) parser" where
  "parse_order_by_list R =
     comma_list (andthen (r_expr R) (\<lambda>e.
       andthen (if_token ''Desc'' (ret False) (andthen (match_token ''Asc'') (\<lambda>_. ret True))) (\<lambda>ascending.
       ret (OrderBy e ascending))))"

definition parse_compute_clause :: "'f parsers \<Rightarrow> ('f, 'f tsql_expr compute_clause) parser" where
  "parse_compute_clause R =
     andthen (parse_expr_list_r R) (\<lambda>aggregates.
     andthen (if_token ''By'' (parse_expr_list_r R) (ret [])) (\<lambda>by.
     ret (ComputeClause aggregates by)))"

text \<open>\<open>FROM\<close>, \<open>WHERE\<close>, \<open>GROUP BY\<close>, \<open>HAVING\<close> and \<open>ORDER BY\<close>, each optional.\<close>

definition parse_query_tail :: "'f parser_lib \<Rightarrow> 'f parsers \<Rightarrow>
    ('f, 'f tsql_table_ref option \<times> 'f tsql_expr option \<times> 'f tsql_expr list \<times> 'f tsql_expr option \<times>
      'f tsql_expr tsql_order_by list) parser" where
  "parse_query_tail L R =
     andthen (opt_clause ''From'' (r_table R)) (\<lambda>from.
     andthen (opt_clause ''Where'' (r_expr R)) (\<lambda>where_clause.
     andthen (if_token ''Group'' (andthen (expect L ''By'') (\<lambda>_. parse_expr_list_r R)) (ret [])) (\<lambda>group_by.
     andthen (opt_clause ''Having'' (r_expr R)) (\<lambda>having.
     andthen (if_token ''Order'' (andthen (expect L ''By'') (\<lambda>_. parse_order_by_list R)) (ret [])) (\<lambda>order_by.
     ret (from, where_clause, group_by, having, order_by))))))"

definition parse_select_r :: "'f parser_lib \<Rightarrow> 'f parsers \<Rightarrow> ('f, 'f tsql_select) parser" where
  "parse_select_r L R =
     andthen (expect L ''Select'') (\<lambda>_.
     andthen (match_token ''Distinct'') (\<lambda>distinct.
     andthen (opt_clause ''Top'' (parse_top_clause L R)) (\<lambda>top.
     andthen (parse_select_list L R) (\<lambda>select_list.
     andthen (opt_clause ''Into'' (expect_identifier L)) (\<lambda>into_table.
     andthen (parse_query_tail L R) (\<lambda>(from, where_clause, group_by, having, order_by).
     andthen (opt_clause ''Compute'' (parse_compute_clause R)) (\<lambda>compute.
     andthen (if_token ''For'' (match_token ''Browse'') (ret False)) (\<lambda>for_browse.
     andthen (if_token ''Union''
         (andthen (match_token ''All'') (\<lambda>all. andthen (r_select R) (\<lambda>q. ret (Some q, all))))
         (ret (None, False))) (\<lambda>(union, union_all).
     ret (SelectQuery distinct top select_list into_table from where_clause group_by having order_by compute
       for_browse [] union union_all))))))))))"

subsection \<open>The knot\<close>

fun parsers_n :: "'f parser_lib \<Rightarrow> nat \<Rightarrow> 'f parsers" where
  "parsers_n L 0 = \<lparr>r_expr = \<lambda>_. None, r_select = \<lambda>_. None, r_table = \<lambda>_. None\<rparr>"
| "parsers_n L (Suc n) =
     \<lparr>r_expr = parse_or_expr L (parsers_n L n), r_select = parse_select_r L (parsers_n L n),
      r_table = parse_table_ref_r L (parsers_n L n)\<rparr>"

definition parse_expr :: "'f parser_lib \<Rightarrow> ('f, 'f tsql_expr) parser" where
  "parse_expr L s = r_expr (parsers_n L (Suc (remaining s))) s"

definition parse_select :: "'f parser_lib \<Rightarrow> ('f, 'f tsql_select) parser" where
  "parse_select L s = r_select (parsers_n L (Suc (remaining s))) s"

definition parse_table_ref :: "'f parser_lib \<Rightarrow> ('f, 'f tsql_table_ref) parser" where
  "parse_table_ref L s = r_table (parsers_n L (Suc (remaining s))) s"

definition recursive_parsers :: "'f parser_lib \<Rightarrow> 'f parsers" where
  "recursive_parsers L = \<lparr>r_expr = parse_expr L, r_select = parse_select L, r_table = parse_table_ref L\<rparr>"

end
