(* ===== verification/TsqlStatements.thy ===== *)
theory TsqlStatements
  imports TsqlParser
begin

section \<open>Statements of the T-SQL parser (crates/tsql-parser/src/parser.rs)\<close>

text \<open>
  One definition per function of the program. Blocks, conditionals, loops and procedure bodies hold
  statements: they take the statement parser \<open>S\<close> as an argument, and \<open>statements\<close> ties the knot
  with fuel, as \<open>parsers_n\<close> does for expressions.
\<close>

abbreviation parse_expr_list :: "'f parser_lib \<Rightarrow> ('f, 'f tsql_expr list) parser" where
  "parse_expr_list L \<equiv> parse_expr_list_r (recursive_parsers L)"

definition at_name :: "ustring \<Rightarrow> ustring" where
  "at_name n = chs ''@'' @ n"

definition at_variable :: "string \<Rightarrow> ('f, ustring) parser" where
  "at_variable msg = andthen p_advance (\<lambda>t. case t of AtVariable n \<Rightarrow> ret (at_name n) | _ \<Rightarrow> err_at (chs msg))"

definition int_literal :: "string \<Rightarrow> ('f, int) parser" where
  "int_literal msg = andthen p_advance (\<lambda>t. case t of IntLiteral n \<Rightarrow> ret n | _ \<Rightarrow> err_at (chs msg))"

definition string_literal :: "string \<Rightarrow> ('f, ustring) parser" where
  "string_literal msg = andthen p_advance (\<lambda>t. case t of StringLiteral v \<Rightarrow> ret v | _ \<Rightarrow> err_at (chs msg))"

definition parse_identifier_list :: "'f parser_lib \<Rightarrow> ('f, ustring list) parser" where
  "parse_identifier_list L = comma_list (expect_identifier L)"

subsection \<open>Passthrough\<close>

definition trim_chars :: "'f char_lib \<Rightarrow> ustring \<Rightarrow> ustring" where
  "trim_chars C s = rev (dropWhile (is_whitespace C) (rev (dropWhile (is_whitespace C) s)))"

definition token_texts_until_end :: "'f parser_lib \<Rightarrow> ustring \<Rightarrow> ('f, ustring) parser" where
  "token_texts_until_end L start =
     ploop (\<lambda>sql. branch (\<lambda>s. \<not> is_at_end s \<and> \<not> check ''Go'' s \<and> \<not> check ''Semicolon'' s)
       (andthen (consume_token_string L) (\<lambda>t. ret (Inl (sql @ t @ chs '' ''))))
       (ret (Inr sql))) start"

definition parse_passthrough_from :: "'f parser_lib \<Rightarrow> string \<Rightarrow> ('f, 'f tsql_statement) parser" where
  "parse_passthrough_from L keyword =
     andthen (token_texts_until_end L (chs keyword @ chs '' '')) (\<lambda>sql. ret (Passthrough (trim_chars (pl_chars L) sql)))"

definition passthrough_step :: "'f parser_lib \<Rightarrow> ustring \<Rightarrow> int \<Rightarrow> ('f, (ustring \<times> int) + ustring) parser" where
  "passthrough_step L sql depth =
     branch is_at_end (ret (Inr sql))
       (branch (\<lambda>s. (check ''Go'' s \<or> check ''Semicolon'' s) \<and> depth = 0)
          (andthen p_advance (\<lambda>_. ret (Inr sql)))
          (branch (check ''LeftParen'')
             (andthen (consume_token_string L) (\<lambda>t. ret (Inl (sql @ t @ chs ''('', depth + 1))))
             (branch (check ''RightParen'')
                (andthen (consume_token_string L) (\<lambda>t. ret (Inl (sql @ t @ chs '')'', depth - 1))))
                (andthen (consume_token_string L) (\<lambda>t. ret (Inl (sql @ t @ chs '' '', depth)))))))"

definition parse_passthrough :: "'f parser_lib \<Rightarrow> ('f, 'f tsql_statement) parser" where
  "parse_passthrough L =
     andthen (ploop (\<lambda>(sql, depth). passthrough_step L sql depth) ([], 0)) (\<lambda>sql.
     ret (Passthrough (trim_chars (pl_chars L) sql)))"

subsection \<open>SELECT\<close>

text \<open>The test for \<open>SELECT @var = ...\<close>. It looks at the tokens from index 1 of the whole batch, as the
  program does, whatever the position is.\<close>

definition is_int_literal :: "'f tsql_token \<Rightarrow> bool" where
  "is_int_literal t \<longleftrightarrow> (case t of IntLiteral n \<Rightarrow> True | _ \<Rightarrow> False)"

definition assignment_index :: "'f tsql_token list \<Rightarrow> nat" where
  "assignment_index ts =
     (let p = (if 1 < length ts \<and> ts ! 1 = Tok ''Distinct'' then 2 else 1)
      in if p < length ts \<and> ts ! p = Tok ''Top'' then
           p + 1 + length (takeWhile (\<lambda>t. t \<noteq> Tok ''From'' \<and> t \<noteq> AtVariable [] \<and> \<not> is_int_literal t) (drop (p + 1) ts))
         else p)"

definition selects_into_vars :: "'f tsql_parser \<Rightarrow> bool" where
  "selects_into_vars s \<longleftrightarrow>
     (let ts = ps_tokens s; p = assignment_index ts
      in p < length ts \<and> (case ts ! p of AtVariable n \<Rightarrow> True | _ \<Rightarrow> False) \<and>
         p + 1 < length ts \<and> ts ! (p + 1) = Tok ''Equals'')"

definition var_assignments :: "'f parser_lib \<Rightarrow> ('f, (ustring \<times> 'f tsql_expr) list) parser" where
  "var_assignments L =
     ploop (\<lambda>xs.
       andthen (at_variable ''expected @variable'') (\<lambda>name.
       andthen (expect L ''Equals'') (\<lambda>_.
       andthen (parse_expr L) (\<lambda>e.
       let xs = xs @ [(name, e)]
       in if_token ''Comma''
            (branch (\<lambda>s. peek_is_at_variable s \<and> p_peek_ahead 1 s = Tok ''Equals'') (ret (Inl xs)) (ret (Inr xs)))
            (ret (Inr xs)))))) []"

definition parse_select_into_vars :: "'f parser_lib \<Rightarrow> ('f, 'f tsql_statement) parser" where
  "parse_select_into_vars L =
     andthen (var_assignments L) (\<lambda>assignments.
     andthen (parse_query_tail L (recursive_parsers L)) (\<lambda>(from, where_clause, group_by, having, order_by).
     ret (SelectIntoVars \<lparr>sv_assignments = assignments, sv_from = from, sv_where = where_clause,
       sv_group_by = group_by, sv_having = having, sv_order_by = order_by\<rparr>)))"

definition parse_select_into_vars_statement :: "'f parser_lib \<Rightarrow> ('f, 'f tsql_statement) parser" where
  "parse_select_into_vars_statement L = andthen (expect L ''Select'') (\<lambda>_. parse_select_into_vars L)"

definition parse_select_statement :: "'f parser_lib \<Rightarrow> ('f, 'f tsql_statement) parser" where
  "parse_select_statement L =
     branch selects_into_vars (parse_select_into_vars_statement L)
       (andthen (parse_select L) (\<lambda>sel. ret (Dml (SelectStmt sel))))"

subsection \<open>INSERT, UPDATE, DELETE, MERGE\<close>

definition parse_execute_param :: "'f parser_lib \<Rightarrow> ('f, 'f execute_param) parser" where
  "parse_execute_param L =
     branch (\<lambda>s. peek_is_at_variable s \<and> p_peek_ahead 1 s = Tok ''Equals'')
       (andthen (at_variable ''unreachable'') (\<lambda>name. andthen p_advance (\<lambda>_.
        andthen (parse_expr L) (\<lambda>val. andthen (match_token ''Output'') (\<lambda>out. ret (Named name val out))))))
       (andthen (parse_expr L) (\<lambda>val. andthen (match_token ''Output'') (\<lambda>_. ret (Positional val))))"

definition args_follow :: "'f tsql_parser \<Rightarrow> bool" where
  "args_follow s \<longleftrightarrow> \<not> is_at_end s \<and> \<not> check ''Semicolon'' s \<and> \<not> check ''Go'' s"

text \<open>\<open>while <more arguments> { push; if !Comma break }\<close>\<close>

definition arguments :: "('f tsql_parser \<Rightarrow> bool) \<Rightarrow> ('f, 'a) parser \<Rightarrow> ('f, 'a list) parser" where
  "arguments go_on p =
     ploop (\<lambda>xs. branch go_on
       (andthen p (\<lambda>x. if_token ''Comma'' (ret (Inl (xs @ [x]))) (ret (Inr (xs @ [x])))))
       (ret (Inr xs))) []"

definition parse_execute_body :: "'f parser_lib \<Rightarrow> ('f, 'f execute_stmt) parser" where
  "parse_execute_body L =
     andthen (branch (\<lambda>s. peek_is_at_variable s \<and> p_peek_ahead 1 s = Tok ''Equals'')
         (andthen (at_variable ''unreachable'') (\<lambda>name. andthen p_advance (\<lambda>_. ret (Some name)))) (ret None)) (\<lambda>return_status.
     andthen (expect_identifier L) (\<lambda>procedure.
     andthen (arguments (\<lambda>s. args_follow s \<and> \<not> check ''End'' s) (parse_execute_param L)) (\<lambda>params.
     ret \<lparr>ex_procedure = procedure, ex_params = params, ex_return_status = return_status\<rparr>)))"

definition parse_execute :: "'f parser_lib \<Rightarrow> ('f, 'f tsql_statement) parser" where
  "parse_execute L = andthen p_advance (\<lambda>_. andthen (parse_execute_body L) (\<lambda>e. ret (Execute e)))"

definition parse_insert_source :: "'f parser_lib \<Rightarrow> ('f, 'f insert_source) parser" where
  "parse_insert_source L =
     (let execute = andthen (parse_execute_body L) (\<lambda>e. ret (InsertExecute e))
      in if_token ''LeftParen''
           (andthen (parse_select L) (\<lambda>q. andthen (expect L ''RightParen'') (\<lambda>_. ret (InsertSelect q))))
        (branch (check ''Select'') (andthen (parse_select L) (\<lambda>q. ret (InsertSelect q)))
        (if_token ''Execute'' execute
        (if_token ''Exec'' execute
        (if_token ''Default'' (andthen (expect L ''Values'') (\<lambda>_. ret InsertDefaultValues))
        (andthen (expect L ''Values'') (\<lambda>_.
         andthen (comma_list (andthen (expect L ''LeftParen'') (\<lambda>_. andthen (parse_expr_list L) (\<lambda>vs.
           andthen (expect L ''RightParen'') (\<lambda>_. ret vs))))) (\<lambda>rows.
         ret (InsertValues rows)))))))))"

definition parse_insert :: "'f parser_lib \<Rightarrow> ('f, 'f tsql_statement) parser" where
  "parse_insert L =
     andthen (expect L ''Insert'') (\<lambda>_.
     andthen (match_token ''Into'') (\<lambda>_.
     andthen (expect_identifier L) (\<lambda>table.
     andthen (if_token ''LeftParen''
         (andthen (comma_list (expect_identifier L)) (\<lambda>cols. andthen (expect L ''RightParen'') (\<lambda>_. ret cols)))
         (ret [])) (\<lambda>columns.
     andthen (parse_insert_source L) (\<lambda>source.
     ret (Dml (InsertStmt \<lparr>in_table = table, in_columns = columns, in_source = source, in_output_clause = None\<rparr>)))))))"

definition parse_update :: "'f parser_lib \<Rightarrow> ('f, 'f tsql_statement) parser" where
  "parse_update L =
     andthen (expect L ''Update'') (\<lambda>_.
     andthen (expect_identifier L) (\<lambda>table.
     andthen (parse_optional_alias L) (\<lambda>alias.
     andthen (expect L ''Set'') (\<lambda>_.
     andthen (comma_list (andthen (expect_identifier L) (\<lambda>col. andthen (expect L ''Equals'') (\<lambda>_.
       andthen (parse_expr L) (\<lambda>val. ret (col, val)))))) (\<lambda>assignments.
     andthen (opt_clause ''From'' (parse_table_ref L)) (\<lambda>from.
     andthen (opt_clause ''Where'' (parse_expr L)) (\<lambda>where_clause.
     ret (Dml (UpdateStmt \<lparr>up_table = table, up_alias = alias, up_assignments = assignments, up_from = from,
       up_where = where_clause, up_output_clause = None\<rparr>)))))))))"

definition parse_delete :: "'f parser_lib \<Rightarrow> ('f, 'f tsql_statement) parser" where
  "parse_delete L =
     andthen (expect L ''Delete'') (\<lambda>_.
     andthen (match_token ''From'') (\<lambda>_.
     andthen (expect_identifier L) (\<lambda>table.
     andthen (parse_optional_alias L) (\<lambda>alias.
     andthen (opt_clause ''From'' (parse_table_ref L)) (\<lambda>from.
     andthen (opt_clause ''Where'' (parse_expr L)) (\<lambda>where_clause.
     ret (Dml (DeleteStmt \<lparr>de_table = table, de_alias = alias, de_from = from, de_where = where_clause,
       de_output_clause = None\<rparr>))))))))"

definition parse_merge :: "'f parser_lib \<Rightarrow> ('f, 'f tsql_statement) parser" where
  "parse_merge L =
     andthen (expect L ''Merge'') (\<lambda>_.
     andthen (expect L ''Into'') (\<lambda>_.
     andthen (parse_table_ref L) (\<lambda>target.
     andthen (parse_optional_alias L) (\<lambda>target_alias.
     andthen (expect L ''Using'') (\<lambda>_.
     andthen (parse_table_ref L) (\<lambda>source.
     andthen (parse_optional_alias L) (\<lambda>source_alias.
     andthen (expect L ''On'') (\<lambda>_.
     andthen (parse_expr L) (\<lambda>on_condition.
     ret (Dml (MergeStmt \<lparr>me_target = target, me_target_alias = target_alias, me_source = source,
       me_source_alias = source_alias, me_on_condition = on_condition, me_when_matched = None,
       me_when_not_matched = None, me_when_not_matched_by_source = None\<rparr>)))))))))))"

subsection \<open>CREATE\<close>

definition parse_identity :: "'f parser_lib \<Rightarrow> ('f, identity_def) parser" where
  "parse_identity L =
     if_token ''LeftParen''
       (andthen (int_literal ''expected identity seed'') (\<lambda>seed.
        andthen (expect L ''Comma'') (\<lambda>_.
        andthen (int_literal ''expected identity increment'') (\<lambda>increment.
        andthen (expect L ''RightParen'') (\<lambda>_.
        ret \<lparr>id_seed = seed, id_increment = increment, id_not_for_replication = False\<rparr>)))))
       (ret \<lparr>id_seed = 1, id_increment = 1, id_not_for_replication = False\<rparr>)"

definition parse_column_def :: "'f parser_lib \<Rightarrow> ('f, 'f tsql_column_def) parser" where
  "parse_column_def L =
     andthen (expect_identifier L) (\<lambda>name.
     andthen (parse_tsql_data_type L) (\<lambda>data_type.
     andthen (if_token ''Not'' (andthen (expect L ''Null'') (\<lambda>_. ret (Some False)))
         (if_token ''Null'' (ret (Some True)) (ret None))) (\<lambda>nullable.
     andthen (opt_clause ''Identity'' (parse_identity L)) (\<lambda>ident.
     andthen (opt_clause ''Default'' (parse_primary L (recursive_parsers L))) (\<lambda>default.
     ret \<lparr>cd_name = name, cd_data_type = data_type, cd_nullable = nullable, cd_default = default,
       cd_identity = ident, cd_not_for_replication = False, cd_constraint = None\<rparr>)))))"

definition parse_clustered :: "('f, bool option) parser" where
  "parse_clustered =
     if_token ''Clustered'' (ret (Some True))
       (branch (peek_ident_ci ''NONCLUSTERED'') (andthen p_advance (\<lambda>_. ret (Some False))) (ret None))"

definition constraint_columns :: "'f parser_lib \<Rightarrow> ('f, ustring list) parser" where
  "constraint_columns L =
     andthen (expect L ''LeftParen'') (\<lambda>_. andthen (parse_identifier_list L) (\<lambda>cols.
     andthen (expect L ''RightParen'') (\<lambda>_. ret cols)))"

definition parse_table_constraint :: "'f parser_lib \<Rightarrow> ('f, 'f tsql_table_constraint) parser" where
  "parse_table_constraint L =
     andthen (opt_clause ''Constraint'' (expect_identifier L)) (\<lambda>name.
       if_token ''Primary''
         (andthen (expect L ''Key'') (\<lambda>_. andthen parse_clustered (\<lambda>clustered. andthen (constraint_columns L) (\<lambda>columns.
          ret (PrimaryKeyC name columns clustered)))))
      (if_token ''Unique''
         (andthen (expect L ''Key'') (\<lambda>_. andthen (constraint_columns L) (\<lambda>columns. ret (UniqueC name columns None))))
      (if_token ''Foreign''
         (andthen (expect L ''Key'') (\<lambda>_. andthen (constraint_columns L) (\<lambda>columns.
          andthen (expect L ''References'') (\<lambda>_. andthen (expect_identifier L) (\<lambda>ref_table.
          andthen (constraint_columns L) (\<lambda>ref_columns. ret (ForeignKeyC name columns ref_table ref_columns)))))))
      (if_token ''Check''
         (andthen (expect L ''LeftParen'') (\<lambda>_. andthen (parse_expr L) (\<lambda>e. andthen (expect L ''RightParen'') (\<lambda>_.
          ret (CheckC name e)))))
      (err_at (chs ''expected constraint keyword''))))))"

definition constraint_follows :: "'f tsql_parser \<Rightarrow> bool" where
  "constraint_follows s \<longleftrightarrow> check ''Primary'' s \<or> check ''Unique'' s \<or> check ''Foreign'' s \<or> check ''Check'' s \<or>
     check ''Constraint'' s"

definition table_elements :: "'f parser_lib \<Rightarrow> ('f, 'f tsql_column_def list \<times> 'f tsql_table_constraint list) parser" where
  "table_elements L =
     ploop (\<lambda>(cs, ks).
       andthen (branch constraint_follows
           (andthen (parse_table_constraint L) (\<lambda>k. ret (cs, ks @ [k])))
           (andthen (parse_column_def L) (\<lambda>c. ret (cs @ [c], ks)))) (\<lambda>acc.
       if_token ''Comma'' (ret (Inl acc)) (ret (Inr acc)))) ([], [])"

definition table_definition :: "ustring \<Rightarrow> 'f tsql_column_def list \<Rightarrow> 'f tsql_table_constraint list \<Rightarrow> bool \<Rightarrow> 'f tsql_create_table" where
  "table_definition name columns constraints is_temp =
     \<lparr>ctb_name = name, ctb_database = None, ctb_columns = columns, ctb_constraints = constraints,
      ctb_on_clause = None, ctb_with_clause = None, ctb_text_image_on = None, ctb_lock_datapages = None,
      ctb_is_temp = is_temp\<rparr>"

definition parse_create_table :: "'f parser_lib \<Rightarrow> ('f, 'f tsql_statement) parser" where
  "parse_create_table L =
     andthen (expect L ''Table'') (\<lambda>_.
     andthen (expect_identifier L) (\<lambda>name.
     andthen (expect L ''LeftParen'') (\<lambda>_.
     andthen (table_elements L) (\<lambda>(columns, constraints).
     andthen (expect L ''RightParen'') (\<lambda>_.
       let is_temp = (take 1 name = chs ''#'');
           stmt = table_definition name columns constraints is_temp
       in ret (Ddl (if is_temp then CreateTempTable stmt else CreateTable stmt)))))))"

definition parse_create_temp_table :: "'f parser_lib \<Rightarrow> ('f, 'f tsql_statement) parser" where
  "parse_create_temp_table L =
     andthen (andthen p_advance (\<lambda>t. case t of
         PoundTemp n \<Rightarrow> ret (chs ''#'' @ n)
       | DoublePoundTemp n \<Rightarrow> ret (chs ''##'' @ n)
       | _ \<Rightarrow> err_at (chs ''unreachable''))) (\<lambda>name.
     andthen (expect L ''LeftParen'') (\<lambda>_.
     andthen (comma_list (parse_column_def L)) (\<lambda>columns.
     andthen (expect L ''RightParen'') (\<lambda>_.
     ret (Ddl (CreateTempTable (table_definition name columns [] True)))))))"

definition parse_create_database :: "'f parser_lib \<Rightarrow> ('f, 'f tsql_statement) parser" where
  "parse_create_database L =
     andthen (expect L ''Database'') (\<lambda>_. andthen (expect_identifier L) (\<lambda>name.
     ret (Ddl (CreateDatabase \<lparr>cdb_name = name, cdb_on_clause = None, cdb_log_on = None, cdb_with_clause = None\<rparr>))))"

definition parse_create_view :: "'f parser_lib \<Rightarrow> ('f, 'f tsql_statement) parser" where
  "parse_create_view L =
     andthen (expect L ''View'') (\<lambda>_.
     andthen (expect_identifier L) (\<lambda>name.
     andthen (if_token ''LeftParen''
         (andthen (parse_identifier_list L) (\<lambda>cols. andthen (expect L ''RightParen'') (\<lambda>_. ret cols)))
         (ret [])) (\<lambda>columns.
     andthen (expect L ''As'') (\<lambda>_.
     andthen (parse_select L) (\<lambda>query.
     ret (Ddl (CreateView \<lparr>cv_name = name, cv_columns = columns, cv_query = query, cv_with_check = False,
       cv_with_encryption = False\<rparr>)))))))"

definition index_column :: "'f parser_lib \<Rightarrow> ('f, ustring \<times> bool) parser" where
  "index_column L =
     andthen (expect_identifier L) (\<lambda>col.
     andthen (if_token ''Desc'' (ret False) (andthen (match_token ''Asc'') (\<lambda>_. ret True))) (\<lambda>ascending.
     ret (col, ascending)))"

definition parse_create_index :: "'f parser_lib \<Rightarrow> ('f, 'f tsql_statement) parser" where
  "parse_create_index L =
     andthen (match_token ''Unique'') (\<lambda>uniq.
     andthen parse_clustered (\<lambda>clustered.
     andthen (expect L ''Index'') (\<lambda>_.
     andthen (expect_identifier L) (\<lambda>name.
     andthen (expect L ''On'') (\<lambda>_.
     andthen (expect_identifier L) (\<lambda>table.
     andthen (expect L ''LeftParen'') (\<lambda>_.
     andthen (comma_list (index_column L)) (\<lambda>columns.
     andthen (expect L ''RightParen'') (\<lambda>_.
     ret (Ddl (CreateIndex \<lparr>ci_name = name, ci_table = table, ci_columns = columns, ci_unique = uniq,
       ci_clustered = clustered, ci_with_clause = None\<rparr>)))))))))))"

definition parse_procedure_param :: "'f parser_lib \<Rightarrow> ('f, 'f procedure_param) parser" where
  "parse_procedure_param L =
     andthen (at_variable ''unreachable'') (\<lambda>name.
     andthen (parse_tsql_data_type L) (\<lambda>data_type.
     andthen (match_token ''Output'') (\<lambda>out.
     andthen (opt_clause ''Equals'' (parse_expr L)) (\<lambda>default.
     ret \<lparr>prm_name = name, prm_data_type = data_type, prm_direction = (if out then ParamOutput else ParamInput),
       prm_default = default, prm_output = out\<rparr>))))"

definition parse_procedure_params :: "'f parser_lib \<Rightarrow> ('f, 'f procedure_param list) parser" where
  "parse_procedure_params L = arguments peek_is_at_variable (parse_procedure_param L)"

definition with_options :: "'f parser_lib \<Rightarrow> ('f, bool \<times> bool) parser" where
  "with_options L =
     if_token ''With''
       (ploop (\<lambda>(recompile, encryption).
          andthen (if_token ''Recompile'' (ret (True, encryption))
              (if_token ''Encrypted'' (ret (recompile, True))
                 (andthen (expect_identifier L) (\<lambda>_. ret (recompile, encryption))))) (\<lambda>acc.
          if_token ''Comma'' (ret (Inl acc)) (ret (Inr acc)))) (False, False))
       (ret (False, False))"

text \<open>The body of a procedure. The counter of open blocks the program keeps here is never read.\<close>

definition parse_procedure_body :: "('f, 'f tsql_statement) parser \<Rightarrow> ('f, 'f tsql_statement list) parser" where
  "parse_procedure_body S =
     ploop (\<lambda>stmts.
       branch is_at_end (ret (Inr stmts))
         (if_token ''Go'' (ret (Inr stmts))
            (andthen skip_semicolons (\<lambda>_.
               branch (\<lambda>s. is_at_end s \<or> check ''Go'' s) (ret (Inr stmts))
                 (andthen S (\<lambda>x. ret (Inl (stmts @ [x])))))))) []"

definition parse_create_procedure :: "'f parser_lib \<Rightarrow> ('f, 'f tsql_statement) parser \<Rightarrow> ('f, 'f tsql_statement) parser" where
  "parse_create_procedure L S =
     andthen p_advance (\<lambda>_.
     andthen (expect_identifier L) (\<lambda>name.
     andthen (if_token ''Dot'' (andthen (expect_identifier L) (\<lambda>second. ret (Some name, second))) (ret (None, name)))
       (\<lambda>(database, proc_name).
     andthen (parse_procedure_params L) (\<lambda>params.
     andthen (with_options L) (\<lambda>(with_recompile, with_encryption).
     andthen (expect L ''As'') (\<lambda>_.
     andthen (parse_procedure_body S) (\<lambda>body.
     ret (CreateProcedure database proc_name params body with_recompile with_encryption))))))))"

definition parse_create :: "'f parser_lib \<Rightarrow> ('f, 'f tsql_statement) parser \<Rightarrow> ('f, 'f tsql_statement) parser" where
  "parse_create L S =
     andthen (expect L ''Create'') (\<lambda>_.
       branch (check ''Table'') (parse_create_table L)
      (branch (check ''Database'') (parse_create_database L)
      (branch (check ''View'') (parse_create_view L)
      (branch (\<lambda>s. check ''Index'' s \<or> check ''Unique'' s \<or> check ''Clustered'' s \<or> peek_ident_ci ''NONCLUSTERED'' s)
         (parse_create_index L)
      (branch (\<lambda>s. check ''Procedure'' s \<or> check ''Proc'' s) (parse_create_procedure L S)
      (andthen (token_texts_until_end L (chs ''CREATE '')) (\<lambda>sql. ret (Passthrough sql))))))))"

subsection \<open>ALTER, DROP, TRUNCATE\<close>

definition parse_alter_table_action :: "'f parser_lib \<Rightarrow> ('f, 'f alter_table_action) parser" where
  "parse_alter_table_action L =
     if_token ''Add''
       (branch constraint_follows
          (andthen (parse_table_constraint L) (\<lambda>k. ret (AlterAddConstraint k)))
          (andthen (parse_column_def L) (\<lambda>c. ret (AlterAdd c))))
    (if_token ''Drop''
       (if_token ''Constraint''
          (andthen (expect_identifier L) (\<lambda>name. ret (AlterDropConstraint name)))
          (andthen (match_token ''Column'') (\<lambda>_. andthen (expect_identifier L) (\<lambda>name. ret (AlterDropColumn name)))))
    (if_token ''Column'' (andthen (parse_column_def L) (\<lambda>c. ret (AlterColumn c)))
    (branch (\<lambda>s. peek_is_ident s \<and> is_keyword (p_peek s))
       (andthen (parse_column_def L) (\<lambda>c. ret (AlterColumn c)))
       (err_at (chs ''expected ALTER TABLE action'')))))"

definition parse_alter :: "'f parser_lib \<Rightarrow> ('f, 'f tsql_statement) parser \<Rightarrow> ('f, 'f tsql_statement) parser" where
  "parse_alter L S =
     andthen (expect L ''Alter'') (\<lambda>_.
       if_token ''Table''
         (andthen (expect_identifier L) (\<lambda>name. andthen (parse_alter_table_action L) (\<lambda>action. ret (Ddl (AlterTable name action)))))
      (branch (\<lambda>s. check ''Procedure'' s \<or> check ''Proc'' s)
         (andthen p_advance (\<lambda>_.
          andthen (expect_identifier L) (\<lambda>name.
          andthen (parse_procedure_params L) (\<lambda>params.
          andthen (with_options L) (\<lambda>(with_recompile, with_encryption).
          andthen (expect L ''As'') (\<lambda>_.
          andthen (parse_procedure_body S) (\<lambda>body.
          ret (AlterProcedure None name params body with_recompile with_encryption))))))))
      (parse_passthrough_from L ''ALTER'')))"

definition parse_if_exists :: "'f tsql_parser \<Rightarrow> bool" where
  "parse_if_exists s = (if check ''If'' s then (if p_peek_ahead 1 s = Tok ''Not'' then False else False) else False)"

definition drop_named :: "'f parser_lib \<Rightarrow> (ustring \<Rightarrow> bool \<Rightarrow> ('f, 'f tsql_statement) parser) \<Rightarrow> ('f, 'f tsql_statement) parser" where
  "drop_named L k =
     andthen (\<lambda>s. Some (Inr (parse_if_exists s, s))) (\<lambda>if_exists. andthen (expect_identifier L) (\<lambda>name. k name if_exists))"

definition parse_drop :: "'f parser_lib \<Rightarrow> ('f, 'f tsql_statement) parser" where
  "parse_drop L =
     andthen (expect L ''Drop'') (\<lambda>_.
       if_token ''Table'' (drop_named L (\<lambda>name e. ret (Ddl (DropTable name e))))
      (if_token ''Database'' (drop_named L (\<lambda>name e. ret (Ddl (DropDatabase name e))))
      (if_token ''View'' (drop_named L (\<lambda>name e. ret (Ddl (DropView name e))))
      (if_token ''Index''
         (drop_named L (\<lambda>name e. andthen (opt_clause ''On'' (expect_identifier L)) (\<lambda>table. ret (Ddl (DropIndex name table e)))))
      (if_token ''Procedure'' (drop_named L (\<lambda>name e. ret (DropProcedure name e)))
      (if_token ''Proc'' (drop_named L (\<lambda>name e. ret (DropProcedure name e)))
      (parse_passthrough_from L ''DROP'')))))))"

definition parse_truncate :: "'f parser_lib \<Rightarrow> ('f, 'f tsql_statement) parser" where
  "parse_truncate L =
     andthen (expect L ''Truncate'') (\<lambda>_. andthen (match_token ''Table'') (\<lambda>_. andthen (expect_identifier L) (\<lambda>name.
     ret (Ddl (TruncateTable name)))))"

subsection \<open>Control flow\<close>

definition parse_block :: "('f, 'f tsql_statement) parser \<Rightarrow> ('f, 'f tsql_statement list) parser" where
  "parse_block S =
     ploop (\<lambda>stmts.
       branch (\<lambda>s. \<not> check ''End'' s \<and> \<not> is_at_end s)
         (andthen skip_semicolons (\<lambda>_.
            branch (check ''End'') (ret (Inr stmts))
              (andthen S (\<lambda>x. andthen skip_semicolons (\<lambda>_. ret (Inl (stmts @ [x])))))))
         (ret (Inr stmts))) []"

definition parse_try_catch :: "'f parser_lib \<Rightarrow> ('f, 'f tsql_statement) parser \<Rightarrow> ('f, 'f tsql_statement) parser" where
  "parse_try_catch L S =
     andthen (parse_block S) (\<lambda>try_body.
     andthen (expect L ''End'') (\<lambda>_.
     andthen (expect L ''Try'') (\<lambda>_.
     andthen (expect L ''Begin'') (\<lambda>_.
     andthen (expect L ''Catch'') (\<lambda>_.
     andthen (parse_block S) (\<lambda>catch_body.
     andthen (expect L ''End'') (\<lambda>_.
     andthen (expect L ''Catch'') (\<lambda>_.
     ret (TryCatch try_body catch_body)))))))))"

text \<open>The optional name of a transaction.\<close>

definition transaction_name :: "('f, ustring option) parser" where
  "transaction_name =
     looking (\<lambda>t. case t of
         Identifier n \<Rightarrow> andthen p_advance (\<lambda>_. ret (Some n))
       | AtVariable n \<Rightarrow> andthen p_advance (\<lambda>_. ret (Some (at_name n)))
       | _ \<Rightarrow> ret None)"

definition parse_begin :: "'f parser_lib \<Rightarrow> ('f, 'f tsql_statement) parser \<Rightarrow> ('f, 'f tsql_statement) parser" where
  "parse_begin L S =
     andthen (expect L ''Begin'') (\<lambda>_.
       if_token ''Try'' (parse_try_catch L S)
      (if_token ''Catch'' (err_at (chs ''unexpected BEGIN CATCH without BEGIN TRY''))
      (branch (\<lambda>s. check ''Transaction'' s \<or> check ''Tran'' s)
         (andthen p_advance (\<lambda>_. andthen transaction_name (\<lambda>name. ret (Tran (BeginTransaction name)))))
         (andthen (parse_block S) (\<lambda>stmts. andthen (expect L ''End'') (\<lambda>_. ret (BeginEnd stmts)))))))"

text \<open>The body of \<open>IF\<close>, \<open>ELSE\<close> or \<open>WHILE\<close>: the statements of a block, or one statement.\<close>

definition parse_body :: "'f parser_lib \<Rightarrow> ('f, 'f tsql_statement) parser \<Rightarrow> ('f, 'f tsql_statement list) parser" where
  "parse_body L S =
     branch (check ''Begin'')
       (andthen (parse_begin L S) (\<lambda>x. ret (case x of BeginEnd stmts \<Rightarrow> stmts | other \<Rightarrow> [other])))
       (andthen S (\<lambda>x. ret [x]))"

definition parse_if :: "'f parser_lib \<Rightarrow> ('f, 'f tsql_statement) parser \<Rightarrow> ('f, 'f tsql_statement) parser" where
  "parse_if L S =
     andthen (expect L ''If'') (\<lambda>_.
     andthen (parse_expr L) (\<lambda>condition.
     andthen (parse_body L S) (\<lambda>then_body.
     andthen (opt_clause ''Else'' (parse_body L S)) (\<lambda>else_body.
     ret (IfElse condition then_body else_body)))))"

definition parse_while :: "'f parser_lib \<Rightarrow> ('f, 'f tsql_statement) parser \<Rightarrow> ('f, 'f tsql_statement) parser" where
  "parse_while L S =
     andthen (expect L ''While'') (\<lambda>_.
     andthen (parse_expr L) (\<lambda>condition.
     andthen (parse_body L S) (\<lambda>body. ret (While condition body))))"

definition parse_return :: "'f parser_lib \<Rightarrow> ('f, 'f tsql_statement) parser" where
  "parse_return L =
     andthen (expect L ''Return'') (\<lambda>_.
     andthen (branch (\<lambda>s. args_follow s \<and> \<not> check ''End'' s) (andthen (parse_expr L) (\<lambda>e. ret (Some e))) (ret None)) (\<lambda>e.
     ret (Return e)))"

definition parse_goto :: "'f parser_lib \<Rightarrow> ('f, 'f tsql_statement) parser" where
  "parse_goto L = andthen (expect L ''Goto'') (\<lambda>_. andthen (expect_identifier L) (\<lambda>label. ret (Goto label)))"

definition parse_waitfor :: "'f parser_lib \<Rightarrow> ('f, 'f tsql_statement) parser" where
  "parse_waitfor L =
     andthen (expect L ''WaitFor'') (\<lambda>_.
       if_token ''Delay'' (andthen (string_literal ''expected time string after WAITFOR DELAY'') (\<lambda>t. ret (WaitFor (WaitDelay t))))
      (if_token ''Time'' (andthen (string_literal ''expected time string after WAITFOR TIME'') (\<lambda>t. ret (WaitFor (WaitTime t))))
      (err_at (chs ''expected DELAY or TIME after WAITFOR''))))"

subsection \<open>Variables and options\<close>

definition cursor_option :: "cursor_scroll_type \<times> cursor_sensitivity \<Rightarrow>
    ('f, (cursor_scroll_type \<times> cursor_sensitivity) + (cursor_scroll_type \<times> cursor_sensitivity)) parser" where
  "cursor_option = (\<lambda>(sc, se).
     if_token ''ForwardOnly'' (ret (Inl (CursorForwardOnly, se)))
    (if_token ''Scroll'' (ret (Inl (CursorScroll, se)))
    (if_token ''Keyset'' (ret (Inl (CursorKeyset, se)))
    (if_token ''Dynamic'' (ret (Inl (CursorDynamic, se)))
    (if_token ''Static'' (ret (Inl (CursorStatic, se)))
    (if_token ''Insensitive'' (ret (Inl (sc, CursorInsensitive)))
    (if_token ''Sensitive'' (ret (Inl (sc, CursorSensitive)))
    (ret (Inr (sc, se))))))))))"

definition parse_declare_cursor :: "'f parser_lib \<Rightarrow> ('f, 'f tsql_statement) parser" where
  "parse_declare_cursor L =
     andthen (expect_identifier L) (\<lambda>name.
     andthen (expect L ''Cursor'') (\<lambda>_.
     andthen (ploop cursor_option (CursorForwardOnly, CursorUnspecified)) (\<lambda>(scroll_type, sensitivity).
     andthen (expect L ''For'') (\<lambda>_.
     andthen (parse_select L) (\<lambda>query.
     andthen (if_token ''For'' (andthen (match_token ''ReadOnly'') (\<lambda>_. ret True)) (ret False)) (\<lambda>for_read_only.
     ret (CursorStmt (DeclareCursor \<lparr>dc_name = name, dc_scroll_type = scroll_type, dc_sensitivity = sensitivity,
       dc_query = query, dc_for_read_only = for_read_only\<rparr>))))))))"

definition parse_variable_decl :: "'f parser_lib \<Rightarrow> ('f, 'f variable_decl) parser" where
  "parse_variable_decl L =
     andthen (at_variable ''expected @variable in DECLARE'') (\<lambda>name.
     andthen (parse_tsql_data_type L) (\<lambda>data_type.
     andthen (opt_clause ''Equals'' (parse_expr L)) (\<lambda>default.
     ret \<lparr>vd_name = name, vd_data_type = data_type, vd_default = default\<rparr>)))"

definition parse_declare :: "'f parser_lib \<Rightarrow> ('f, 'f tsql_statement) parser" where
  "parse_declare L =
     andthen (expect L ''Declare'') (\<lambda>_.
       branch (\<lambda>s. (case p_peek s of Identifier n \<Rightarrow> True | _ \<Rightarrow> False) \<and> p_peek_ahead 1 s = Tok ''Cursor'')
         (parse_declare_cursor L)
         (andthen (comma_list (parse_variable_decl L)) (\<lambda>vars. ret (Declare vars))))"

definition assign_ops :: "(string \<times> tsql_binary_op) list" where
  "assign_ops = [(''PlusAssign'', Add), (''MinusAssign'', Subtract), (''StarEquals'', Multiply), (''SlashEquals'', Divide)]"

definition set_assignment :: "'f parser_lib \<Rightarrow> ('f, ustring \<times> 'f tsql_expr) parser" where
  "set_assignment L =
     andthen (at_variable ''expected @variable'') (\<lambda>name.
       looking (\<lambda>t. case op_of assign_ops t of
           Some op \<Rightarrow> andthen p_advance (\<lambda>_. andthen (parse_expr L) (\<lambda>val. ret (name, CompoundAssign name op val)))
         | None \<Rightarrow> andthen (expect L ''Equals'') (\<lambda>_. andthen (parse_expr L) (\<lambda>val. ret (name, val)))))"

definition parse_set_variable :: "'f parser_lib \<Rightarrow> ('f, 'f tsql_statement) parser" where
  "parse_set_variable L = andthen (comma_list (set_assignment L)) (\<lambda>assignments. ret (SetVariable assignments))"

definition tsql_set_options :: "string list" where
  "tsql_set_options =
     [''NOCOUNT'', ''ANSI_NULLS'', ''ANSI_PADDING'', ''QUOTED_IDENTIFIER'', ''CONCAT_NULL_YIELDS_NULL'',
      ''IMPLICIT_TRANSACTIONS'', ''XACT_ABORT'', ''ARITHABORT'', ''SHOWPLAN_ALL'', ''SHOWPLAN_TEXT'']"

definition parse_set :: "'f parser_lib \<Rightarrow> ('f, 'f tsql_statement) parser" where
  "parse_set L =
     andthen (expect L ''Set'') (\<lambda>_.
       branch peek_is_at_variable (parse_set_variable L)
         (andthen (expect_identifier L) (\<lambda>option.
            let upper = upper_chars (pl_chars L) option
            in if upper \<in> set (map chs tsql_set_options) then
                 andthen (branch (\<lambda>s. peek_ident_ci ''ON'' s \<or> peek_ident_ci ''OFF'' s)
                     (andthen (consume_token_string L) (\<lambda>v. ret (Literal (LitString (upper_chars (pl_chars L) v)))))
                     (parse_expr L)) (\<lambda>val.
                 ret (SetOption upper val))
               else andthen (parse_expr L) (\<lambda>val. ret (SetVariable [(at_name option, val)])))))"

definition parse_print :: "'f parser_lib \<Rightarrow> ('f, 'f tsql_statement) parser" where
  "parse_print L = andthen (expect L ''Print'') (\<lambda>_. andthen (parse_expr L) (\<lambda>e. ret (Print e)))"

subsection \<open>Cursors, transactions and errors\<close>

definition named_statement :: "'f parser_lib \<Rightarrow> string \<Rightarrow> (ustring \<Rightarrow> 'f tsql_statement) \<Rightarrow> ('f, 'f tsql_statement) parser" where
  "named_statement L k f = andthen (expect L k) (\<lambda>_. andthen (expect_identifier L) (\<lambda>name. ret (f name)))"

definition parse_open_cursor :: "'f parser_lib \<Rightarrow> ('f, 'f tsql_statement) parser" where
  "parse_open_cursor L = named_statement L ''Open'' (\<lambda>name. CursorStmt (OpenCursor name))"

definition parse_fetch_orientation :: "('f, fetch_orientation) parser" where
  "parse_fetch_orientation =
     if_token ''Next'' (ret FetchNext)
    (if_token ''Prior'' (ret FetchPrior)
    (if_token ''First'' (ret FetchFirst)
    (if_token ''Last'' (ret FetchLast)
    (if_token ''Absolute''
       (andthen p_advance (\<lambda>t. case t of
           IntLiteral n \<Rightarrow> ret (FetchAbsolute n)
         | AtVariable _ \<Rightarrow> ret (FetchAbsolute 0)
         | _ \<Rightarrow> err_at (chs ''expected number after ABSOLUTE'')))
    (if_token ''Relative'' (andthen (int_literal ''expected number after RELATIVE'') (\<lambda>n. ret (FetchRelative n)))
    (ret FetchNext))))))"

definition parse_fetch_cursor :: "'f parser_lib \<Rightarrow> ('f, 'f tsql_statement) parser" where
  "parse_fetch_cursor L =
     andthen (expect L ''Fetch'') (\<lambda>_.
     andthen parse_fetch_orientation (\<lambda>orientation.
     andthen (expect L ''From'') (\<lambda>_.
     andthen (expect_identifier L) (\<lambda>cursor_name.
     andthen (if_token ''Into'' (comma_list (at_variable ''expected @variable in FETCH INTO'')) (ret [])) (\<lambda>into_variables.
     ret (CursorStmt (FetchCursor \<lparr>fc_cursor_name = cursor_name, fc_orientation = orientation, fc_into_variables = into_variables\<rparr>)))))))"

definition parse_close_cursor :: "'f parser_lib \<Rightarrow> ('f, 'f tsql_statement) parser" where
  "parse_close_cursor L = named_statement L ''Close'' (\<lambda>name. CursorStmt (CloseCursor name))"

definition parse_deallocate_cursor :: "'f parser_lib \<Rightarrow> ('f, 'f tsql_statement) parser" where
  "parse_deallocate_cursor L = named_statement L ''Deallocate'' (\<lambda>name. CursorStmt (DeallocateCursor name))"

definition transaction_end :: "(ustring option \<Rightarrow> 'f tsql_statement) \<Rightarrow> ('f, 'f tsql_statement) parser" where
  "transaction_end f =
     if_token ''Transaction'' (andthen transaction_name (\<lambda>name. ret (f name)))
       (if_token ''Tran'' (andthen transaction_name (\<lambda>name. ret (f name))) (ret (f None)))"

definition parse_commit :: "'f parser_lib \<Rightarrow> ('f, 'f tsql_statement) parser" where
  "parse_commit L = andthen (expect L ''Commit'') (\<lambda>_. transaction_end (\<lambda>name. Tran (CommitTransaction name)))"

definition parse_rollback :: "'f parser_lib \<Rightarrow> ('f, 'f tsql_statement) parser" where
  "parse_rollback L = andthen (expect L ''Rollback'') (\<lambda>_. transaction_end (\<lambda>name. Tran (RollbackTransaction name)))"

definition parse_save_transaction :: "'f parser_lib \<Rightarrow> ('f, 'f tsql_statement) parser" where
  "parse_save_transaction L =
     andthen (expect L ''Save'') (\<lambda>_.
     andthen (if_token ''Transaction'' (ret True) (match_token ''Tran'')) (\<lambda>_.
     andthen (expect_identifier L) (\<lambda>name. ret (Tran (SaveTransaction name)))))"

definition to_i32 :: "int \<Rightarrow> int" where
  "to_i32 n = (n + 2 ^ 31) mod 2 ^ 32 - 2 ^ 31"

definition parse_throw :: "'f parser_lib \<Rightarrow> ('f, 'f tsql_statement) parser" where
  "parse_throw L =
     andthen (expect L ''Throw'') (\<lambda>_.
       branch (\<lambda>s. check ''Semicolon'' s \<or> is_at_end s) (ret (Throw None (Literal LitNull) None))
         (andthen (andthen p_advance (\<lambda>t. case t of
               IntLiteral n \<Rightarrow> ret (Some (to_i32 n))
             | AtVariable _ \<Rightarrow> ret None
             | _ \<Rightarrow> err_at (chs ''expected error number''))) (\<lambda>error_number.
          andthen (expect L ''Comma'') (\<lambda>_.
          andthen (parse_expr L) (\<lambda>message.
          andthen (expect L ''Comma'') (\<lambda>_.
          andthen (int_literal ''expected state number'') (\<lambda>state.
          ret (Throw error_number message (Some (to_i32 state))))))))))"

definition parse_raiserror :: "'f parser_lib \<Rightarrow> ('f, 'f tsql_statement) parser" where
  "parse_raiserror L =
     andthen (expect L ''Raiserror'') (\<lambda>_.
     andthen (expect L ''LeftParen'') (\<lambda>_.
     andthen (parse_expr L) (\<lambda>message_or_id.
     andthen (expect L ''Comma'') (\<lambda>_.
     andthen (parse_expr L) (\<lambda>severity.
     andthen (expect L ''Comma'') (\<lambda>_.
     andthen (parse_expr L) (\<lambda>state.
     andthen (expect L ''RightParen'') (\<lambda>_.
     andthen (if_token ''With''
         (branch (peek_ident_ci ''LOG'') (andthen p_advance (\<lambda>_. ret True)) (ret True)) (ret False)) (\<lambda>with_log.
     ret (Raiserror \<lparr>rr_message_or_id = message_or_id, rr_severity = severity, rr_state = state,
       rr_with_log = with_log\<rparr>))))))))))"

definition parse_use :: "'f parser_lib \<Rightarrow> ('f, 'f tsql_statement) parser" where
  "parse_use L = named_statement L ''Use'' UseDatabase"

subsection \<open>Procedure calls without EXEC\<close>

definition optional_name :: "'f parser_lib \<Rightarrow> ('f, ustring option) parser" where
  "optional_name L = branch args_follow (andthen (expect_identifier L) (\<lambda>n. ret (Some n))) (ret None)"

definition parse_system_procedure_call :: "'f parser_lib \<Rightarrow> ustring \<Rightarrow> ('f, 'f tsql_statement) parser" where
  "parse_system_procedure_call L name =
     (let upper = upper_chars (pl_chars L) name
      in andthen
          (if upper = chs ''SP_HELP'' then andthen (optional_name L) (\<lambda>object. ret (SpHelp object))
           else if upper = chs ''SP_WHO'' then
             andthen (branch args_follow
                 (andthen p_advance (\<lambda>t. case t of
                     StringLiteral v \<Rightarrow> ret (Some v)
                   | Identifier v \<Rightarrow> ret (Some v)
                   | _ \<Rightarrow> err_at (chs ''expected login name''))) (ret None)) (\<lambda>login_name. ret (SpWho login_name))
           else if upper = chs ''SP_HELPDB'' then andthen (optional_name L) (\<lambda>database. ret (SpHelpDb database))
           else if upper = chs ''SP_TABLES'' then ret (SpTables None None None)
           else if upper = chs ''SP_COLUMNS'' then andthen (expect_identifier L) (\<lambda>table. ret (SpColumns table None None))
           else if upper = chs ''SP_DATABASES'' then ret SpDatabases
           else if upper = chs ''SP_SPACEUSED'' then andthen (optional_name L) (\<lambda>table. ret (SpSpaceUsed table))
           else andthen (arguments args_follow (parse_expr L)) (\<lambda>params. ret (SpCustom name params)))
          (\<lambda>sp. ret (SystemProcedure sp)))"

definition parse_identifier_statement :: "'f parser_lib \<Rightarrow> ('f, 'f tsql_statement) parser" where
  "parse_identifier_statement L =
     andthen (expect_identifier L) (\<lambda>name.
       if take 2 (upper_chars (pl_chars L) name) = chs ''SP'' then parse_system_procedure_call L name
       else
         andthen (arguments (\<lambda>s. args_follow s \<and> \<not> check ''End'' s) (andthen (parse_expr L) (\<lambda>e. ret (Positional e)))) (\<lambda>params.
         ret (if params = [] then Passthrough name
              else Execute \<lparr>ex_procedure = name, ex_params = params, ex_return_status = None\<rparr>)))"

subsection \<open>The dispatch\<close>

definition keyword_statement :: "'f parser_lib \<Rightarrow> ('f, 'f tsql_statement) parser \<Rightarrow> string \<Rightarrow> ('f, 'f tsql_statement) parser" where
  "keyword_statement L S k =
     (if k = ''Select'' then parse_select_statement L
      else if k = ''Insert'' then parse_insert L
      else if k = ''Update'' then parse_update L
      else if k = ''Delete'' then parse_delete L
      else if k = ''Merge'' then parse_merge L
      else if k = ''Create'' then parse_create L S
      else if k = ''Alter'' then parse_alter L S
      else if k = ''Drop'' then parse_drop L
      else if k = ''Truncate'' then parse_truncate L
      else if k = ''Begin'' then parse_begin L S
      else if k = ''If'' then parse_if L S
      else if k = ''While'' then parse_while L S
      else if k = ''Return'' then parse_return L
      else if k = ''Goto'' then parse_goto L
      else if k = ''WaitFor'' then parse_waitfor L
      else if k = ''Break'' then andthen p_advance (\<lambda>_. ret Break)
      else if k = ''Continue'' then andthen p_advance (\<lambda>_. ret Continue)
      else if k = ''Declare'' then parse_declare L
      else if k = ''Set'' then parse_set L
      else if k = ''Print'' then parse_print L
      else if k = ''Execute'' \<or> k = ''Exec'' then parse_execute L
      else if k = ''Open'' then parse_open_cursor L
      else if k = ''Fetch'' then parse_fetch_cursor L
      else if k = ''Close'' then parse_close_cursor L
      else if k = ''Deallocate'' then parse_deallocate_cursor L
      else if k = ''Commit'' then parse_commit L
      else if k = ''Rollback'' then parse_rollback L
      else if k = ''Save'' then parse_save_transaction L
      else if k = ''Throw'' then parse_throw L
      else if k = ''Raiserror'' then parse_raiserror L
      else if k = ''Use'' then parse_use L
      else if k = ''LeftParen'' then parse_select_statement L
      else if k = ''Semicolon'' then andthen p_advance (\<lambda>_. ret NoOp)
      else parse_passthrough L)"

definition parse_statement_r :: "'f parser_lib \<Rightarrow> ('f, 'f tsql_statement) parser \<Rightarrow> ('f, 'f tsql_statement) parser" where
  "parse_statement_r L S =
     looking (\<lambda>t. case t of
         Tok k \<Rightarrow> keyword_statement L S k
       | AtVariable name \<Rightarrow>
           branch (\<lambda>s. p_peek_ahead 1 s = Tok ''Colon'')
             (andthen p_advance (\<lambda>_. andthen p_advance (\<lambda>_. ret (Label name))))
             (parse_select_into_vars L)
       | PoundTemp _ \<Rightarrow> parse_create_temp_table L
       | DoublePoundTemp _ \<Rightarrow> parse_create_temp_table L
       | Identifier _ \<Rightarrow>
           branch (\<lambda>s. p_peek_ahead 1 s = Tok ''Colon'')
             (andthen (expect_identifier L) (\<lambda>name. andthen p_advance (\<lambda>_. ret (Label name))))
             (parse_identifier_statement L)
       | _ \<Rightarrow> parse_passthrough L)"

fun statements :: "'f parser_lib \<Rightarrow> nat \<Rightarrow> ('f, 'f tsql_statement) parser" where
  "statements L 0 = (\<lambda>_. None)"
| "statements L (Suc n) = parse_statement_r L (statements L n)"

definition parse_statement :: "'f parser_lib \<Rightarrow> ('f, 'f tsql_statement) parser" where
  "parse_statement L s = statements L (Suc (remaining s)) s"

definition parse_statements :: "'f parser_lib \<Rightarrow> ('f, 'f tsql_statement list) parser" where
  "parse_statements L =
     ploop (\<lambda>stmts. branch is_at_end (ret (Inr stmts))
       (andthen skip_semicolons (\<lambda>_.
          branch is_at_end (ret (Inr stmts))
            (andthen (parse_statement L) (\<lambda>x. andthen skip_semicolons (\<lambda>_. ret (Inl (stmts @ [x])))))))) []"

definition parse_tsql :: "'f parser_lib \<Rightarrow> ustring \<Rightarrow> (tsql_parse_error + 'f tsql_statement list) option" where
  "parse_tsql L input =
     (case tokenize (pl_chars L) (lexer_new input) of
        Inl e \<Rightarrow> Some (Inl e)
      | Inr tokens \<Rightarrow>
          (case parse_statements L \<lparr>ps_tokens = tokens, ps_pos = 0\<rparr> of
             None \<Rightarrow> None
           | Some (Inl e) \<Rightarrow> Some (Inl e)
           | Some (Inr (stmts, _)) \<Rightarrow> Some (Inr stmts)))"

end
