(* ===== verification/TsqlParser_Total.thy ===== *)
theory TsqlParser_Total
  imports TsqlStatements
begin

section \<open>The T-SQL parser returns on every input\<close>

text \<open>
  Two parsers are similar up to \<open>n\<close> tokens, \<open>sim e B n p q\<close>, if on every state with fewer than \<open>n\<close>
  tokens left they return the same, do return, and stay on the same tokens without going back; when
  the value they return satisfies \<open>B\<close> they also have consumed a token. With \<open>e\<close> only states that are
  not at the end count. The rules follow the combinators: what comes after a consumed token only has
  to be similar up to one token less. A parser similar to itself returns; similarity of the knots
  for different fuel makes the fuel irrelevant.
\<close>

definition moved :: "bool \<Rightarrow> 'f tsql_parser \<Rightarrow> 'f tsql_parser \<Rightarrow> bool" where
  "moved b s s' \<longleftrightarrow> ps_tokens s' = ps_tokens s \<and> ps_pos s \<le> ps_pos s' \<and>
     ps_pos s' \<le> max (length (ps_tokens s)) (ps_pos s) \<and> remaining s' + of_bool b \<le> remaining s"

fun good :: "('a \<Rightarrow> bool) \<Rightarrow> 'f tsql_parser \<Rightarrow> (tsql_parse_error + 'a \<times> 'f tsql_parser) option \<Rightarrow> bool" where
  "good B s None = False"
| "good B s (Some (Inl e)) = (pe_position e \<le> max (length (ps_tokens s)) (ps_pos s))"
| "good B s (Some (Inr (x, s'))) = moved (B x) s s'"

definition sim :: "bool \<Rightarrow> ('a \<Rightarrow> bool) \<Rightarrow> nat \<Rightarrow> ('f, 'a) parser \<Rightarrow> ('f, 'a) parser \<Rightarrow> bool" where
  "sim e B n p q \<longleftrightarrow>
     (\<forall>s. remaining s < n \<longrightarrow> (e \<longrightarrow> \<not> is_at_end s) \<longrightarrow> p s = q s \<and> good B s (p s))"

abbreviation calm :: "'a \<Rightarrow> bool" where
  "calm \<equiv> \<lambda>_. False"

abbreviation eats :: "'a \<Rightarrow> bool" where
  "eats \<equiv> \<lambda>_. True"

lemma simD: "sim e B n p q \<Longrightarrow> remaining s < n \<Longrightarrow> (e \<Longrightarrow> \<not> is_at_end s) \<Longrightarrow> p s = q s \<and> good B s (p s)"
  by (auto simp: sim_def)

lemma moved_refl [simp]: "moved False s s"
  by (simp add: moved_def)

lemma moved_trans: "moved a s s' \<Longrightarrow> moved b s' s'' \<Longrightarrow> moved (a \<or> b) s s''"
  by (cases a; cases b) (auto simp: moved_def)

lemma moved_weaken: "moved a s s' \<Longrightarrow> (b \<Longrightarrow> a) \<Longrightarrow> moved b s s'"
  by (cases a; cases b) (auto simp: moved_def)

lemma good_weaken: "good A s r \<Longrightarrow> (\<And>x. B x \<Longrightarrow> A x) \<Longrightarrow> good B s r"
  by (induction A s r rule: good.induct) (auto intro: moved_weaken)

lemma sim_weaken: "sim e A n p q \<Longrightarrow> (\<And>x. B x \<Longrightarrow> A x) \<Longrightarrow> sim e B n p q"
  unfolding sim_def using good_weaken by blast

lemma sim_at_end: "sim False B n p q \<Longrightarrow> sim e B n p q"
  unfolding sim_def by blast

lemma sim_mono: "sim e B n p q \<Longrightarrow> m \<le> n \<Longrightarrow> sim e B m p q"
  unfolding sim_def using less_le_trans by blast

lemma good_after:
  assumes "moved a s s'" and "good B s' r"
  shows "good (\<lambda>y. a \<or> B y) s r"
proof (cases r)
  case (Some v)
  show ?thesis
  proof (cases v)
    case (Inl e)
    with Some assms show ?thesis by (auto simp: moved_def)
  next
    case (Inr w)
    with Some assms moved_trans [OF assms(1)] show ?thesis by (cases w) simp
  qed
qed (use assms in simp)

lemma good_andthen:
  assumes "p s = q s" and "good A s (p s)"
    and "\<And>x s'. p s = Some (Inr (x, s')) \<Longrightarrow> moved (A x) s s' \<Longrightarrow> f x s' = g x s' \<and> good (B x) s' (f x s')"
    and "\<And>x y. C y \<Longrightarrow> A x \<or> B x y"
  shows "andthen p f s = andthen q g s \<and> good C s (andthen p f s)"
proof (cases "p s")
  case (Some r)
  show ?thesis
  proof (cases r)
    case (Inl e)
    then show ?thesis using Some assms(1,2) by (auto simp: andthen_def)
  next
    case (Inr v)
    obtain x s' where v: "v = (x, s')" by force
    have "moved (A x) s s'" using assms(2) unfolding Some Inr v by simp
    with assms(3) Some Inr v have "f x s' = g x s'" "good (\<lambda>y. A x \<or> B x y) s (f x s')"
      using good_after by blast+
    moreover have "andthen p f s = f x s'" "andthen q g s = g x s'"
      using Some Inr v assms(1) [symmetric] by (simp_all add: andthen_def)
    ultimately show ?thesis using good_weaken assms(4) by metis
  qed
qed (use assms in simp)

lemma sim_andthen:
  fixes f :: "'a \<Rightarrow> ('f, 'b) parser"
  assumes "sim e calm n p q" and "\<And>x. sim False B n (f x) (g x)"
  shows "sim e B n (andthen p f) (andthen q g)"
  unfolding sim_def
proof (intro allI impI)
  fix s :: "'f tsql_parser"
  assume s: "remaining s < n" "e \<longrightarrow> \<not> is_at_end s"
  have "f x s' = g x s' \<and> good B s' (f x s')" if "moved False s s'" for x s'
    using that s by (intro simD [OF assms(2)]) (auto simp: moved_def)
  then show "andthen p f s = andthen q g s \<and> good B s (andthen p f s)"
    using simD [OF assms(1) s(1)] s(2) by (intro good_andthen [where A = calm and B = "\<lambda>_. B"]) blast+
qed

lemma sim_andthen_upto:
  fixes f :: "'a \<Rightarrow> ('f, 'b) parser"
  assumes "sim e eats n p q" and "\<And>x. sim False calm m (f x) (g x)" and "n \<le> Suc m"
  shows "sim e B n (andthen p f) (andthen q g)"
  unfolding sim_def
proof (intro allI impI)
  fix s :: "'f tsql_parser"
  assume s: "remaining s < n" "e \<longrightarrow> \<not> is_at_end s"
  have "f x s' = g x s' \<and> good calm s' (f x s')" if "moved True s s'" for x s'
    using that s assms(3) by (intro simD [OF assms(2)]) (auto simp: moved_def)
  then show "andthen p f s = andthen q g s \<and> good B s (andthen p f s)"
    using simD [OF assms(1) s(1)] s(2) by (intro good_andthen [where A = eats and B = "\<lambda>_. calm"]) blast+
qed


lemma sim_andthen_cond:
  fixes f :: "'a \<Rightarrow> ('f, 'b) parser"
  assumes "sim e A (Suc n) p q" and "\<And>x. A x \<Longrightarrow> sim False calm n (f x) (g x)"
    and "\<And>x. \<not> A x \<Longrightarrow> sim False B (Suc n) (f x) (g x)"
  shows "sim e B (Suc n) (andthen p f) (andthen q g)"
  unfolding sim_def
proof (intro allI impI)
  fix s :: "'f tsql_parser"
  assume s: "remaining s < Suc n" "e \<longrightarrow> \<not> is_at_end s"
  have "f x s' = g x s' \<and> good (if A x then calm else B) s' (f x s')" if "moved (A x) s s'" for x s'
  proof (cases "A x")
    case True
    with that s have "remaining s' < n" by (simp add: moved_def)
    from simD [OF assms(2) [OF True] this] show ?thesis unfolding if_P [of "A x", OF True] by blast
  next
    case False
    with that s have "remaining s' < Suc n" by (simp add: moved_def)
    from simD [OF assms(3) [OF False] this] show ?thesis unfolding if_not_P [of "A x", OF False] by blast
  qed
  then show "andthen p f s = andthen q g s \<and> good B s (andthen p f s)"
    using simD [OF assms(1) s(1)] s(2)
    by (intro good_andthen [where A = A and B = "\<lambda>x. if A x then calm else B"]) (blast | simp)+
qed

lemmas sim_andthen_eats = sim_andthen_upto [OF _ _ order_refl]

lemmas sim_andthen_ate = sim_andthen_upto [OF _ _ le_SucI [OF order_refl]]

subsection \<open>Leaves\<close>

lemma sim_ret: "\<not> B x \<Longrightarrow> sim e B n (ret x) (ret x)"
  by (simp add: sim_def ret_def)

lemma sim_err_at: "sim e B n (err_at m) (err_at m)"
  by (simp add: sim_def err_at_def parse_error_new_def)

lemma sim_advance: "sim e calm n p_advance p_advance"
  by (auto simp: sim_def p_advance_def moved_def remaining_def)

lemma sim_advance_eats: "sim True eats n p_advance p_advance"
  by (auto simp: sim_def p_advance_def moved_def remaining_def is_at_end_def)

text \<open>A parser that takes a token and fails on the end token consumes it whenever it succeeds.\<close>

lemma sim_advance_case:
  fixes f :: "'f tsql_token \<Rightarrow> ('f, 'b) parser"
  assumes "\<And>t. sim False calm n (f t) (g t)" and "f (Tok ''Eof'') = err_at m" "g (Tok ''Eof'') = err_at m"
  shows "sim e B n (andthen p_advance f) (andthen p_advance g)"
  unfolding sim_def
proof (intro allI impI)
  fix s :: "'f tsql_parser"
  assume s: "remaining s < n" "e \<longrightarrow> \<not> is_at_end s"
  show "andthen p_advance f s = andthen p_advance g s \<and> good B s (andthen p_advance f s)"
  proof (cases "ps_pos s < length (ps_tokens s)")
    case True
    define s' where "s' = s\<lparr>ps_pos := ps_pos s + 1\<rparr>"
    define t where "t = ps_tokens s ! ps_pos s"
    have mv: "moved True s s'" using True by (auto simp: s'_def moved_def remaining_def)
    then have "remaining s' < n" using s by (auto simp: moved_def)
    then have "f t s' = g t s'" "good calm s' (f t s')" using simD [OF assms(1)] by blast+
    moreover from this have "good B s (f t s')"
      using good_after [OF mv] good_weaken by (metis (mono_tags, lifting))
    ultimately show ?thesis using True by (simp add: andthen_def p_advance_def s'_def t_def)
  next
    case False
    then show ?thesis by (simp add: andthen_def p_advance_def assms(2,3) err_at_def parse_error_new_def)
  qed
qed

lemma is_at_end_peek: "is_at_end s \<longleftrightarrow> p_peek s = Tok ''Eof''"
  by (auto simp: is_at_end_def p_peek_def)

lemma check_not_at_end: "check k s \<Longrightarrow> k \<noteq> ''Eof'' \<Longrightarrow> \<not> is_at_end s"
  by (simp add: check_def is_at_end_peek)

subsection \<open>Branches\<close>

lemma sim_branch: "sim e B n p p' \<Longrightarrow> sim e B n q q' \<Longrightarrow> sim e B n (branch b p q) (branch b p' q')"
  unfolding sim_def branch_def by metis

lemma sim_branch_inside:
  "(\<And>s. b s \<Longrightarrow> \<not> is_at_end s) \<Longrightarrow> sim True B n p p' \<Longrightarrow> sim e B n q q' \<Longrightarrow> sim e B n (branch b p q) (branch b p' q')"
  unfolding sim_def branch_def by metis

lemma sim_branch_end: "sim False B n p p' \<Longrightarrow> sim True B n q q' \<Longrightarrow> sim e B n (branch is_at_end p q) (branch is_at_end p' q')"
  unfolding sim_def branch_def by metis

lemma sim_branch_check:
  "k \<noteq> ''Eof'' \<Longrightarrow> sim True B n p p' \<Longrightarrow> sim e B n q q' \<Longrightarrow> sim e B n (branch (check k) p q) (branch (check k) p' q')"
  using check_not_at_end by (intro sim_branch_inside) auto

lemma sim_if: "(b \<Longrightarrow> sim e B n p p') \<Longrightarrow> (\<not> b \<Longrightarrow> sim e B n q q') \<Longrightarrow> sim e B n (if b then p else q) (if b then p' else q')"
  by simp

lemma sim_looking:
  assumes "\<And>t. t \<noteq> Tok ''Eof'' \<Longrightarrow> sim True B n (f t) (g t)" and "sim e B n (f (Tok ''Eof'')) (g (Tok ''Eof''))"
  shows "sim e B n (looking f) (looking g)"
  using assms unfolding sim_def looking_def by (metis is_at_end_peek)

lemma sim_if_token:
  assumes "k \<noteq> ''Eof''" and "sim False calm n p p'" and "sim e B (Suc n) q q'"
  shows "sim e B (Suc n) (if_token k p q) (if_token k p' q')"
  unfolding if_token_def
  by (intro sim_branch_check assms sim_andthen_eats sim_advance_eats)

lemma sim_if_token_in:
  assumes "k \<noteq> ''Eof''" and "sim False calm n p p'" and "sim e B n q q'"
  shows "sim e B n (if_token k p q) (if_token k p' q')"
  unfolding if_token_def
  by (intro sim_branch_check assms sim_andthen_ate sim_advance_eats)

lemma sim_match_token: "k \<noteq> ''Eof'' \<Longrightarrow> sim e calm n (match_token k) (match_token k)"
  unfolding match_token_def by (intro sim_if_token_in sim_ret) auto

lemma sim_expect: "k \<noteq> ''Eof'' \<Longrightarrow> sim e B n (expect L k) (expect L k)"
  unfolding expect_def
  by (intro sim_branch_check sim_weaken [OF sim_advance_eats] sim_looking sim_err_at) auto

lemma sim_expect_identifier: "sim e B n (expect_identifier L) (expect_identifier L)"
  unfolding expect_identifier_def
  by (rule sim_advance_case)
    (auto simp: is_keyword_def split: tsql_token.splits intro: sim_ret sim_err_at)

lemma sim_opt_clause: "k \<noteq> ''Eof'' \<Longrightarrow> sim False calm n p p' \<Longrightarrow> sim e calm (Suc n) (opt_clause k p) (opt_clause k p')"
  unfolding opt_clause_def by (intro sim_if_token sim_andthen sim_ret) auto

lemma sim_opt_clause_in: "k \<noteq> ''Eof'' \<Longrightarrow> sim False calm n p p' \<Longrightarrow> sim e calm n (opt_clause k p) (opt_clause k p')"
  unfolding opt_clause_def by (intro sim_if_token_in sim_andthen sim_ret) auto

subsection \<open>Loops\<close>

lemma loop_n_similar:
  assumes "\<And>a. sim False isl n (body a) (body' a)"
  shows "remaining s < n \<Longrightarrow> remaining s < m \<Longrightarrow>
    loop_n m body a s = loop_n m body' a s \<and> good calm s (loop_n m body a s)"
proof (induction m arbitrary: a s)
  case (Suc m)
  have step: "body a s = body' a s" "good isl s (body a s)"
    using simD [OF assms, of s a] Suc.prems by auto
  show ?case
  proof (cases "body a s")
    case (Some r)
    show ?thesis
    proof (cases r)
      case (Inr v)
      obtain x s' where v: "v = (x, s')" by force
      have mv: "moved (isl x) s s'" using step(2) unfolding Some Inr v by simp
      show ?thesis
      proof (cases x)
        case (Inl a')
        with mv have "remaining s' < n" "remaining s' < m" using Suc.prems by (auto simp: moved_def)
        with Suc.IH [of s' a'] have "loop_n m body a' s' = loop_n m body' a' s'" "good calm s' (loop_n m body a' s')" by auto
        moreover have "body a s = Some (Inr (Inl a', s'))" "body' a s = Some (Inr (Inl a', s'))"
          using step Some Inr v Inl by auto
        ultimately show ?thesis
          using good_weaken [OF good_after [OF mv], of calm _ calm] by simp
      next
        case (Inr b)
        then have "body a s = Some (Inr (Inr b, s'))" "body' a s = Some (Inr (Inr b, s'))" "moved False s s'"
          using step Some \<open>r = Inr v\<close> v mv by auto
        then show ?thesis by simp
      qed
    next
      case (Inl e)
      then have "body a s = Some (Inl e)" "body' a s = Some (Inl e)" using step Some by auto
      then show ?thesis using step(2) by simp
    qed
  next
    case None
    then show ?thesis using step(2) by simp
  qed
qed simp

lemma sim_ploop:
  assumes "\<And>a. sim False isl n (body a) (body' a)"
  shows "sim e calm n (ploop body a) (ploop body' a)"
  unfolding sim_def ploop_def using loop_n_similar [of n body body', OF assms] by blast

lemma loop_n_enough:
  assumes "\<And>a. sim False isl n (body a) (body a)"
  shows "remaining s < n \<Longrightarrow> remaining s < m \<Longrightarrow> remaining s < m' \<Longrightarrow> loop_n m body a s = loop_n m' body a s"
proof (induction m arbitrary: a s m')
  case (Suc m)
  then obtain k where m': "m' = Suc k" by (cases m') auto
  have "good isl s (body a s)" using simD [OF assms] Suc.prems(1) by blast
  moreover have "loop_n m body a' s' = loop_n k body a' s'" if "moved True s s'" for a' s'
    using that Suc.prems m' by (intro Suc.IH) (auto simp: moved_def)
  ultimately show ?case unfolding m' by (auto split: option.splits sum.splits)
qed simp

text \<open>Without fuel: a loop runs its body and goes on as long as it is told to.\<close>

lemma ploop_unfold:
  assumes "\<And>n a. sim False isl n (body a) (body a)"
  shows "ploop body a = andthen (body a) (\<lambda>x. case x of Inl a' \<Rightarrow> ploop body a' | Inr b \<Rightarrow> ret b)"
proof
  fix s
  have "good isl s (body a s)" using simD [OF assms lessI] by blast
  moreover have "loop_n (remaining s) body a' s' = loop_n (Suc (remaining s')) body a' s'" if "moved True s s'" for a' s'
    using that by (intro loop_n_enough [OF assms]) (auto simp: moved_def)
  ultimately show "ploop body a s = andthen (body a) (\<lambda>x. case x of Inl a' \<Rightarrow> ploop body a' | Inr b \<Rightarrow> ret b) s"
    by (auto simp: ploop_def andthen_def ret_def simp del: loop_n.simps(2) split: option.splits sum.splits)
      (auto split: option.splits sum.splits)
qed

lemma sim_comma_list: "sim False calm n p p' \<Longrightarrow> sim e calm n (comma_list p) (comma_list p')"
  unfolding comma_list_def
  by (intro sim_ploop sim_andthen sim_if_token_in sim_ret)
    (auto intro: sim_ret sim_weaken simp: sim_def ret_def)

subsection \<open>Case distinctions\<close>

lemma sim_case_prod: "(\<And>a b. sim e B n (f a b) (g a b)) \<Longrightarrow> sim e B n (case_prod f x) (case_prod g x)"
  by (cases x) simp

lemma sim_case_option:
  "(x = None \<Longrightarrow> sim e B n p q) \<Longrightarrow> (\<And>y. x = Some y \<Longrightarrow> sim e B n (f y) (g y)) \<Longrightarrow>
   sim e B n (case_option p f x) (case_option q g x)"
  by (cases x) auto

lemma sim_Let: "sim e B n (f x) (g x) \<Longrightarrow> sim e B n (Let x f) (Let x g)"
  by simp

lemmas sim_eat = sim_andthen_eats [OF sim_expect] sim_andthen_eats [OF sim_expect_identifier] sim_andthen_eats [OF sim_advance_eats]
  sim_if_token sim_opt_clause

lemmas sim_eat_in = sim_andthen_ate [OF sim_expect] sim_andthen_ate [OF sim_expect_identifier] sim_andthen_ate [OF sim_advance_eats]
  sim_if_token_in sim_opt_clause_in

lemmas sim_rest = sim_andthen sim_branch_check sim_branch_end sim_branch sim_case_prod sim_case_option sim_Let sim_if
  sim_expect sim_expect_identifier sim_match_token sim_err_at sim_ret sim_advance

subsection \<open>Expressions and queries\<close>

definition similar :: "nat \<Rightarrow> 'f parsers \<Rightarrow> 'f parsers \<Rightarrow> bool" where
  "similar n R R' \<longleftrightarrow> sim False calm n (r_expr R) (r_expr R') \<and> sim False calm n (r_select R) (r_select R') \<and>
     sim False calm n (r_table R) (r_table R')"

lemma similarD:
  assumes "similar n R R'"
  shows "sim e calm n (r_expr R) (r_expr R')" and "sim e calm n (r_select R) (r_select R')"
    and "sim e calm n (r_table R) (r_table R')"
  using assms by (auto simp: similar_def intro: sim_at_end)

lemma sim_optional_size: "sim e calm n (parse_optional_size_param L) (parse_optional_size_param L)"
  unfolding parse_optional_size_param_def
  by ((rule sim_eat_in | rule sim_rest | simp)+)

lemma sim_precision_scale: "sim e calm n (parse_precision_scale_params L) (parse_precision_scale_params L)"
  unfolding parse_precision_scale_params_def
  by ((rule sim_eat_in | rule sim_rest | simp)+)

lemma sim_data_type: "sim e calm n (parse_tsql_data_type L) (parse_tsql_data_type L)"
  unfolding parse_tsql_data_type_def
  by ((rule sim_optional_size | rule sim_precision_scale | rule sim_eat_in | rule sim_rest | simp)+)

lemma sim_expr_list: "similar n R R' \<Longrightarrow> sim e calm n (parse_expr_list_r R) (parse_expr_list_r R')"
  unfolding parse_expr_list_r_def by (intro sim_comma_list similarD)

lemma sim_case_expr: "similar n R R' \<Longrightarrow> sim e B (Suc n) (parse_case_expr L R) (parse_case_expr L R')"
  unfolding parse_case_expr_def
  by ((rule similarD, assumption | rule sim_ploop | rule sim_eat | rule sim_eat_in | rule sim_rest | simp)+)

lemma sim_function_call:
  "similar n R R' \<Longrightarrow> sim e calm n (parse_function_call L R name upper) (parse_function_call L R' name upper)"
  unfolding parse_function_call_def
  by ((rule similarD, assumption | rule sim_expr_list, assumption | rule sim_data_type | rule sim_eat_in | rule sim_rest | simp)+)

lemma sim_column_ref:
  "similar n R R' \<Longrightarrow> sim e B (Suc n) (parse_column_ref_or_function L R) (parse_column_ref_or_function L R')"
  unfolding parse_column_ref_or_function_def
  by ((rule sim_function_call, assumption | rule sim_eat | rule sim_eat_in | rule sim_rest | simp)+)

lemma sim_primary:
  assumes "similar n R R'"
  shows "sim e B (Suc n) (parse_primary L R) (parse_primary L R')"
  unfolding parse_primary_def
proof (rule sim_looking, goal_cases)
  case (1 t)
  then show ?case
    by (cases t)
      (simp_all only: tsql_token.case,
       ((rule similarD [OF assms] | rule sim_case_expr [OF assms] | rule sim_column_ref [OF assms] | rule sim_eat |
         rule sim_eat_in | rule sim_rest | simp)+))
next
  case 2
  then show ?case by (simp add: sim_err_at)
qed

lemma sim_unary: "similar n R R' \<Longrightarrow> sim e B (Suc n) (parse_unary L R) (parse_unary L R')"
  unfolding parse_unary_def
  by ((rule sim_mono [OF sim_primary, OF _ le_SucI [OF order_refl]], assumption | rule sim_primary, assumption |
       rule sim_eat | rule sim_eat_in | rule sim_rest | simp)+)

lemma sim_chain:
  assumes "\<And>e. sim e eats n p p'" and "map_of ops ''Eof'' = None"
  shows "sim e eats n (chain ops p) (chain ops p')"
proof -
  have calm: "sim e calm n p p'" for e using assms(1) by (rule sim_weaken) simp
  have "sim False isl n
      (looking (\<lambda>t. case op_of ops t of None \<Rightarrow> ret (Inr left)
        | Some op \<Rightarrow> andthen p_advance (\<lambda>_. andthen p (\<lambda>right. ret (Inl (BinaryOp left op right))))))
      (looking (\<lambda>t. case op_of ops t of None \<Rightarrow> ret (Inr left)
        | Some op \<Rightarrow> andthen p_advance (\<lambda>_. andthen p' (\<lambda>right. ret (Inl (BinaryOp left op right))))))" for left
  proof (rule sim_looking, goal_cases)
    case 1
    show ?case by ((rule calm | rule sim_eat_in | rule sim_rest | simp)+)
  qed (simp add: op_of_def assms(2) sim_ret)
  then show ?thesis
    unfolding chain_def by (intro sim_andthen_ate [OF assms(1)] sim_ploop)
qed

lemma sim_multiplication: "similar n R R' \<Longrightarrow> sim e eats (Suc n) (parse_multiplication L R) (parse_multiplication L R')"
  unfolding parse_multiplication_def
  by (intro sim_chain sim_unary) (simp_all add: op_of_def multiplication_ops_def)

lemma sim_addition: "similar n R R' \<Longrightarrow> sim e eats (Suc n) (parse_addition L R) (parse_addition L R')"
  unfolding parse_addition_def
  by (intro sim_chain sim_multiplication) (simp_all add: op_of_def addition_ops_def)

lemma sim_addition_in: "similar n R R' \<Longrightarrow> sim e calm n (parse_addition L R) (parse_addition L R')"
  by (rule sim_weaken [OF sim_mono [OF sim_addition]]) auto

lemma sim_comparison_op:
  assumes "similar n R R'"
  shows "sim e calm n (parse_comparison_op L R left neg) (parse_comparison_op L R' left neg)"
  unfolding parse_comparison_op_def
  by (rule sim_looking)
    ((rule sim_addition_in [OF assms] | rule sim_eat_in | rule sim_rest |
      simp add: op_of_def comparison_ops_def)+)

lemma sim_comparison:
  assumes "similar n R R'"
  shows "sim e eats (Suc n) (parse_comparison L R) (parse_comparison L R')"
  unfolding parse_comparison_def parse_is_null_def parse_in_def parse_between_def parse_like_def
  by (rule sim_andthen_eats [OF sim_addition [OF assms]])
    ((rule sim_comparison_op [OF assms] | rule sim_addition_in [OF assms] | rule sim_expr_list [OF assms] | rule similarD [OF assms] |
      rule sim_eat_in | rule sim_rest | simp)+)

lemma sim_not_expr: "similar n R R' \<Longrightarrow> sim e eats (Suc n) (parse_not_expr L R) (parse_not_expr L R')"
  unfolding parse_not_expr_def
  by ((rule sim_weaken [OF sim_mono [OF sim_comparison]], assumption | rule sim_comparison, assumption |
       rule sim_eat | rule sim_rest | simp)+)

lemma sim_or_expr: "similar n R R' \<Longrightarrow> sim e eats (Suc n) (parse_or_expr L R) (parse_or_expr L R')"
  unfolding parse_or_expr_def parse_and_expr_def
  by (intro sim_chain sim_not_expr) (simp_all add: op_of_def)

lemma sim_optional_alias: "sim e calm n (parse_optional_alias L) (parse_optional_alias L)"
  unfolding parse_optional_alias_def
  by ((rule sim_eat_in | rule sim_rest | simp)+)

lemma sim_hint_args: "sim e calm n (hint_args L h) (hint_args L h)"
  unfolding hint_args_def
  by ((rule sim_ploop | rule sim_eat_in | rule sim_rest | simp)+)

lemma sim_table_hints: "sim e calm n (parse_table_hints L) (parse_table_hints L)"
  unfolding parse_table_hints_def parse_table_hint_def
  by ((rule sim_hint_args | rule sim_comma_list | rule sim_eat_in | rule sim_rest | simp)+)

lemma sim_table_name: "sim e B n (parse_table_name L) (parse_table_name L)"
  unfolding parse_table_name_def
  by ((rule sim_optional_alias | rule sim_table_hints | rule sim_eat_in | rule sim_rest | simp)+)

lemma sim_primary_table_ref:
  assumes "similar n R R'"
  shows "sim e B (Suc n) (parse_primary_table_ref L R) (parse_primary_table_ref L R')"
proof -
  have paren: "sim e B (Suc n)
      (if_token ''LeftParen''
         (branch (check ''Select'')
            (andthen (r_select R) (\<lambda>query. andthen (expect L ''RightParen'') (\<lambda>_.
             andthen (if_token ''As'' (expect_identifier L) (expect_identifier L)) (\<lambda>alias. ret (SubqueryRef query alias)))))
            (andthen (r_table R) (\<lambda>inner. andthen (expect L ''RightParen'') (\<lambda>_. ret inner))))
         (parse_table_name L))
      (if_token ''LeftParen''
         (branch (check ''Select'')
            (andthen (r_select R') (\<lambda>query. andthen (expect L ''RightParen'') (\<lambda>_.
             andthen (if_token ''As'' (expect_identifier L) (expect_identifier L)) (\<lambda>alias. ret (SubqueryRef query alias)))))
            (andthen (r_table R') (\<lambda>inner. andthen (expect L ''RightParen'') (\<lambda>_. ret inner))))
         (parse_table_name L))" for e
    by ((rule similarD [OF assms] | rule sim_table_name | rule sim_eat | rule sim_eat_in | rule sim_rest | simp)+)
  show ?thesis
    unfolding parse_primary_table_ref_def
  proof (rule sim_looking, goal_cases)
    case (1 t)
    then show ?case
      by (cases t)
        (simp_all only: tsql_token.case, ((rule paren | rule sim_optional_alias | rule sim_eat | rule sim_rest | simp)+))
  next
    case 2
    then show ?case by (simp only: tsql_token.case paren)
  qed
qed

lemma sim_join_type: "sim e (\<lambda>j. j \<noteq> None) n (parse_join_type L) (parse_join_type L)"
  unfolding parse_join_type_def
  by ((rule sim_eat_in | rule sim_rest | simp)+)

lemma sim_joins:
  assumes "similar n R R'"
  shows "sim e calm (Suc n) (parse_joins L R left) (parse_joins L R' left)"
proof -
  have next_ref: "sim e calm n (parse_primary_table_ref L R) (parse_primary_table_ref L R')" for e
    by (rule sim_mono [OF sim_primary_table_ref [OF assms]]) simp
  show ?thesis
    unfolding parse_joins_def
    by (rule sim_ploop, rule sim_andthen_cond [OF sim_join_type])
      ((rule next_ref | rule similarD [OF assms] | rule sim_eat_in | rule sim_rest | simp)+)
qed

lemma sim_table_ref: "similar n R R' \<Longrightarrow> sim e eats (Suc n) (parse_table_ref_r L R) (parse_table_ref_r L R')"
  unfolding parse_table_ref_r_def
  by (intro sim_andthen_eats [OF sim_primary_table_ref] sim_mono [OF sim_joins]) auto

lemma sim_top_clause: "similar n R R' \<Longrightarrow> sim e calm n (parse_top_clause L R) (parse_top_clause L R')"
  unfolding parse_top_clause_def
  by ((rule similarD, assumption | rule sim_advance_case | rule sim_eat_in | rule sim_rest |
       simp add: sim_ret sim_err_at split: tsql_token.split)+)

lemma sim_select_list: "similar n R R' \<Longrightarrow> sim e calm n (parse_select_list L R) (parse_select_list L R')"
  unfolding parse_select_list_def
  by ((rule similarD, assumption | rule sim_comma_list | rule sim_optional_alias | rule sim_rest | simp)+)

lemma sim_order_by_list: "similar n R R' \<Longrightarrow> sim e calm n (parse_order_by_list R) (parse_order_by_list R')"
  unfolding parse_order_by_list_def
  by ((rule similarD, assumption | rule sim_comma_list | rule sim_eat_in | rule sim_rest | simp)+)

lemma sim_query_tail: "similar n R R' \<Longrightarrow> sim e calm n (parse_query_tail L R) (parse_query_tail L R')"
  unfolding parse_query_tail_def
  by ((rule similarD, assumption | rule sim_expr_list, assumption | rule sim_order_by_list, assumption |
       rule sim_eat_in | rule sim_rest | simp)+)

lemma sim_select: "similar n R R' \<Longrightarrow> sim e B (Suc n) (parse_select_r L R) (parse_select_r L R')"
  unfolding parse_select_r_def parse_compute_clause_def
  by ((rule similarD, assumption | rule sim_expr_list, assumption | rule sim_select_list, assumption |
       rule sim_query_tail, assumption | rule sim_top_clause, assumption | rule sim_eat | rule sim_eat_in | rule sim_rest | simp)+)

subsection \<open>The knot\<close>

lemma similar_step: "similar n R R' \<Longrightarrow> similar (Suc n)
    \<lparr>r_expr = parse_or_expr L R, r_select = parse_select_r L R, r_table = parse_table_ref_r L R\<rparr>
    \<lparr>r_expr = parse_or_expr L R', r_select = parse_select_r L R', r_table = parse_table_ref_r L R'\<rparr>"
  unfolding similar_def [of "Suc n"]
  by (auto intro: sim_weaken [OF sim_or_expr] sim_select sim_weaken [OF sim_table_ref])

lemma parsers_n_similar: "similar n (parsers_n L (n + i)) (parsers_n L (n + j))"
proof (induction n)
  case 0
  then show ?case by (simp add: similar_def sim_def)
next
  case (Suc n)
  then show ?case by (simp add: similar_step)
qed

lemma knot_similar: "similar n (parsers_n L (n + i)) (recursive_parsers L)"
proof -
  have enough: "similar (Suc (remaining s)) (parsers_n L (n + i)) (parsers_n L (Suc (remaining s)))"
    if "remaining s < n" for s :: "'a tsql_parser"
  proof -
    have "n + i = Suc (remaining s) + (n + i - Suc (remaining s))" using that by simp
    then show ?thesis using parsers_n_similar [of "Suc (remaining s)" L "n + i - Suc (remaining s)" 0]
      by (metis add_0_right)
  qed
  then show ?thesis
    unfolding similar_def recursive_parsers_def sim_def parsers.simps parse_expr_def parse_select_def parse_table_ref_def
    using lessI by blast
qed

lemma recursive_similar: "similar n (recursive_parsers L) (recursive_parsers L)"
  using knot_similar [of n L 0] unfolding similar_def sim_def by metis

text \<open>Without fuel: the functions satisfy the equations of the program.\<close>

lemma parse_expr_unfold: "parse_expr L = parse_or_expr L (recursive_parsers L)"
proof
  fix s :: "'a tsql_parser"
  show "parse_expr L s = parse_or_expr L (recursive_parsers L) s"
    using simD [OF sim_or_expr [OF knot_similar [of "remaining s" L 0]], of s False L] by (simp add: parse_expr_def)
qed

lemma parse_select_unfold: "parse_select L = parse_select_r L (recursive_parsers L)"
proof
  fix s :: "'a tsql_parser"
  show "parse_select L s = parse_select_r L (recursive_parsers L) s"
    using simD [OF sim_select [OF knot_similar [of "remaining s" L 0]], of s False L calm] by (simp add: parse_select_def)
qed

lemma parse_table_ref_unfold: "parse_table_ref L = parse_table_ref_r L (recursive_parsers L)"
proof
  fix s :: "'a tsql_parser"
  show "parse_table_ref L s = parse_table_ref_r L (recursive_parsers L) s"
    using simD [OF sim_table_ref [OF knot_similar [of "remaining s" L 0]], of s False L] by (simp add: parse_table_ref_def)
qed

lemma sim_parse_expr: "sim e B n (parse_expr L) (parse_expr L)"
  unfolding parse_expr_unfold by (rule sim_weaken [OF sim_mono [OF sim_or_expr [OF recursive_similar [of n]] le_SucI [OF order_refl]]]) simp

lemma sim_parse_select: "sim e B n (parse_select L) (parse_select L)"
  unfolding parse_select_unfold by (rule sim_mono [OF sim_select [OF recursive_similar [of n]] le_SucI [OF order_refl]])

lemma sim_parse_table_ref: "sim e B n (parse_table_ref L) (parse_table_ref L)"
  unfolding parse_table_ref_unfold by (rule sim_weaken [OF sim_mono [OF sim_table_ref [OF recursive_similar [of n]] le_SucI [OF order_refl]]]) simp

subsection \<open>Statements\<close>

lemma sim_ploop_eats:
  fixes body body' :: "'a \<Rightarrow> ('f, 'a + 'b) parser"
  assumes body: "\<And>a. sim False isl n (body a) (body' a)" and first: "sim e eats n (body a) (body' a)"
  shows "sim e B n (ploop body a) (ploop body' a)"
proof -
  have "ploop body a s = ploop body' a s \<and> good eats s (ploop body a s)"
    if s: "remaining s < n" "e \<longrightarrow> \<not> is_at_end s" for s
  proof -
    define cont :: "('a \<Rightarrow> ('f, 'a + 'b) parser) \<Rightarrow> 'a + 'b \<Rightarrow> ('f, 'b) parser"
      where "cont b x = (case x of Inl a' \<Rightarrow> (\<lambda>s'. loop_n (remaining s) b a' s') | Inr y \<Rightarrow> ret y)" for b x
    have unroll: "ploop b a s = andthen (b a) (cont b) s" for b
      by (auto simp: ploop_def andthen_def cont_def ret_def split: option.splits sum.splits)
    have later: "cont body x s' = cont body' x s' \<and> good calm s' (cont body x s')" if "moved True s s'" for x s'
    proof (cases x)
      case (Inl a')
      have "remaining s' < n" "remaining s' < remaining s" using that s by (auto simp: moved_def)
      from loop_n_similar [of n body body', OF body this] show ?thesis unfolding Inl cont_def sum.case by blast
    qed (simp add: cont_def ret_def)
    have "body a s = body' a s" "good eats s (body a s)" using simD [OF first s(1)] s(2) by blast+
    then show ?thesis
      unfolding unroll using later by (intro good_andthen [where A = eats and B = "\<lambda>_. calm"]) blast+
  qed
  then have "sim e eats n (ploop body a) (ploop body' a)" by (simp only: sim_def) blast
  then show ?thesis by (rule sim_weaken) simp
qed

lemma sim_at_variable: "sim e B n (at_variable m) (at_variable m)"
  unfolding at_variable_def
  by (rule sim_advance_case) (auto simp: sim_ret sim_err_at split: tsql_token.split)

lemma sim_int_literal: "sim e B n (int_literal m) (int_literal m)"
  unfolding int_literal_def
  by (rule sim_advance_case) (auto simp: sim_ret sim_err_at split: tsql_token.split)

lemma sim_string_literal: "sim e B n (string_literal m) (string_literal m)"
  unfolding string_literal_def
  by (rule sim_advance_case) (auto simp: sim_ret sim_err_at split: tsql_token.split)

lemma sim_arguments:
  assumes "sim False calm n p p'"
  shows "sim e calm n (arguments go_on p) (arguments go_on p')"
  unfolding arguments_def
  by ((rule assms | rule sim_ploop | rule sim_eat_in | rule sim_at_end [OF assms] | rule sim_rest | simp)+)

lemma sim_consume: "sim e calm n (consume_token_string L) (consume_token_string L)"
  unfolding consume_token_string_def by ((rule sim_rest | simp)+)

lemma sim_consume_eats: "sim True B n (consume_token_string L) (consume_token_string L)"
  unfolding consume_token_string_def by ((rule sim_eat_in | rule sim_rest | simp)+)

lemma sim_texts_until_end: "sim e calm n (token_texts_until_end L start) (token_texts_until_end L start)"
  unfolding token_texts_until_end_def
  by ((rule sim_ploop | rule sim_branch_inside | rule sim_andthen_ate [OF sim_consume_eats] | rule sim_rest | simp)+)

lemma sim_passthrough_step: "sim e isl n (passthrough_step L sql d) (passthrough_step L sql d)"
  unfolding passthrough_step_def
  by ((rule sim_andthen_ate [OF sim_consume_eats] | rule sim_eat_in | rule sim_rest | simp)+)

lemma sim_branch_not_end: "sim True B n q q' \<Longrightarrow> sim True B n (branch is_at_end p q) (branch is_at_end p' q')"
  unfolding sim_def branch_def by metis

lemma sim_passthrough_step_eats: "sim True eats n (passthrough_step L sql d) (passthrough_step L sql d)"
  unfolding passthrough_step_def
  by ((rule sim_branch_not_end | rule sim_andthen_ate [OF sim_consume_eats] | rule sim_eat_in | rule sim_rest | simp)+)

lemma sim_passthrough: "sim False calm n (parse_passthrough L) (parse_passthrough L)"
  unfolding parse_passthrough_def
  by ((rule sim_passthrough_step | rule sim_ploop | rule sim_rest | simp)+)

lemma sim_passthrough_eats: "sim True B n (parse_passthrough L) (parse_passthrough L)"
  unfolding parse_passthrough_def
  by (rule sim_andthen_ate [OF sim_ploop_eats])
    ((rule sim_passthrough_step_eats | rule sim_passthrough_step | rule sim_rest | simp)+)

lemmas sim_recursive = similarD [OF recursive_similar] sim_expr_list [OF recursive_similar]
  sim_query_tail [OF recursive_similar] sim_parse_expr sim_parse_select sim_parse_table_ref

lemmas sim_lists = sim_comma_list sim_arguments sim_ploop

lemma sim_var_assignments: "sim e B n (var_assignments L) (var_assignments L)"
  unfolding var_assignments_def
  by (rule sim_ploop_eats;
      (rule sim_andthen_ate [OF sim_at_variable] | rule sim_recursive | rule sim_eat_in | rule sim_rest | simp)+)

lemma sim_select_into_vars: "sim e B n (parse_select_into_vars L) (parse_select_into_vars L)"
  unfolding parse_select_into_vars_def
  by (rule sim_andthen_ate [OF sim_var_assignments]) ((rule sim_recursive | rule sim_rest | simp)+)

lemma sim_select_statement: "sim e B n (parse_select_statement L) (parse_select_statement L)"
  unfolding parse_select_statement_def parse_select_into_vars_statement_def
  by ((rule sim_select_into_vars | rule sim_andthen_ate [OF sim_parse_select] | rule sim_eat_in | rule sim_rest | simp)+)

lemma sim_execute_body: "sim e calm n (parse_execute_body L) (parse_execute_body L)"
  unfolding parse_execute_body_def parse_execute_param_def
  by ((rule sim_andthen_ate [OF sim_at_variable] | rule sim_recursive | rule sim_arguments | rule sim_eat_in | rule sim_rest | simp)+)

lemma sim_insert: "sim e B n (parse_insert L) (parse_insert L)"
  unfolding parse_insert_def parse_insert_source_def Let_def
  by ((rule sim_execute_body | rule sim_recursive | rule sim_comma_list | rule sim_eat_in | rule sim_rest | simp)+)

lemma sim_update: "sim e B n (parse_update L) (parse_update L)"
  unfolding parse_update_def
  by ((rule sim_optional_alias | rule sim_recursive | rule sim_comma_list | rule sim_eat_in | rule sim_rest | simp)+)

lemma sim_delete: "sim e B n (parse_delete L) (parse_delete L)"
  unfolding parse_delete_def
  by ((rule sim_optional_alias | rule sim_recursive | rule sim_comma_list | rule sim_eat_in | rule sim_rest | simp)+)

lemma sim_merge: "sim e B n (parse_merge L) (parse_merge L)"
  unfolding parse_merge_def
  by ((rule sim_optional_alias | rule sim_recursive | rule sim_eat_in | rule sim_rest | simp)+)

lemma sim_column_def: "sim e B n (parse_column_def L) (parse_column_def L)"
proof -
  have "sim e calm n (parse_primary L (recursive_parsers L)) (parse_primary L (recursive_parsers L))" for e
    by (rule sim_mono [OF sim_primary [OF recursive_similar [of n]] le_SucI [OF order_refl]])
  then show ?thesis
    unfolding parse_column_def_def parse_identity_def
    by - ((assumption | rule sim_data_type | rule sim_andthen_ate [OF sim_int_literal] | rule sim_eat_in | rule sim_rest | simp)+)
qed

lemma sim_table_constraint: "sim e calm n (parse_table_constraint L) (parse_table_constraint L)"
  unfolding parse_table_constraint_def constraint_columns_def parse_identifier_list_def parse_clustered_def
  by ((rule sim_recursive | rule sim_comma_list | rule sim_eat_in | rule sim_rest | simp)+)

lemma sim_create_table: "sim e B n (parse_create_table L) (parse_create_table L)"
  unfolding parse_create_table_def table_elements_def
  by ((rule sim_table_constraint | rule sim_column_def | rule sim_ploop | rule sim_eat_in | rule sim_rest | simp)+)

lemma sim_create_temp_table: "sim e B n (parse_create_temp_table L) (parse_create_temp_table L)"
  unfolding parse_create_temp_table_def
  by (rule sim_andthen_ate, rule sim_advance_case)
    ((rule sim_column_def | rule sim_comma_list | rule sim_eat_in | rule sim_rest |
      simp add: sim_ret sim_err_at split: tsql_token.split)+)

lemma sim_create_database: "sim e B n (parse_create_database L) (parse_create_database L)"
  unfolding parse_create_database_def by ((rule sim_eat_in | rule sim_rest | simp)+)

lemma sim_create_view: "sim e B n (parse_create_view L) (parse_create_view L)"
  unfolding parse_create_view_def parse_identifier_list_def
  by ((rule sim_recursive | rule sim_comma_list | rule sim_eat_in | rule sim_rest | simp)+)

lemma sim_create_index: "sim e calm n (parse_create_index L) (parse_create_index L)"
  unfolding parse_create_index_def index_column_def parse_clustered_def
  by ((rule sim_comma_list | rule sim_eat_in | rule sim_rest | simp)+)

lemma sim_procedure_params: "sim e calm n (parse_procedure_params L) (parse_procedure_params L)"
  unfolding parse_procedure_params_def parse_procedure_param_def
  by ((rule sim_andthen_ate [OF sim_at_variable] | rule sim_data_type | rule sim_recursive | rule sim_arguments |
       rule sim_eat_in | rule sim_rest | simp)+)

lemma sim_with_options: "sim e calm n (with_options L) (with_options L)"
  unfolding with_options_def
  by ((rule sim_ploop | rule sim_eat_in | rule sim_rest | simp)+)

lemma sim_alter_table_action: "sim e calm n (parse_alter_table_action L) (parse_alter_table_action L)"
  unfolding parse_alter_table_action_def
  by ((rule sim_table_constraint | rule sim_column_def | rule sim_eat_in | rule sim_rest | simp)+)

lemma sim_passthrough_from: "sim e calm n (parse_passthrough_from L k) (parse_passthrough_from L k)"
  unfolding parse_passthrough_from_def by ((rule sim_texts_until_end | rule sim_rest | simp)+)

lemma sim_drop_named: "(\<And>name b. sim False calm n (k name b) (k name b)) \<Longrightarrow> sim e calm n (drop_named L k) (drop_named L k)"
  unfolding drop_named_def
  by (rule sim_andthen) (simp add: sim_def, (rule sim_eat_in | assumption)+)

lemma sim_drop: "sim e B n (parse_drop L) (parse_drop L)"
  unfolding parse_drop_def
  by ((rule sim_drop_named | rule sim_passthrough_from | rule sim_eat_in | rule sim_rest | simp)+)

lemma sim_truncate: "sim e B n (parse_truncate L) (parse_truncate L)"
  unfolding parse_truncate_def by ((rule sim_eat_in | rule sim_rest | simp)+)

lemma sim_return: "sim e B n (parse_return L) (parse_return L)"
  unfolding parse_return_def by ((rule sim_recursive | rule sim_eat_in | rule sim_rest | simp)+)

lemma sim_goto: "sim e B n (parse_goto L) (parse_goto L)"
  unfolding parse_goto_def by ((rule sim_eat_in | rule sim_rest | simp)+)

lemma sim_waitfor: "sim e B n (parse_waitfor L) (parse_waitfor L)"
  unfolding parse_waitfor_def
  by ((rule sim_andthen_ate [OF sim_string_literal] | rule sim_eat_in | rule sim_rest | simp)+)

lemma sim_declare: "sim e B n (parse_declare L) (parse_declare L)"
  unfolding parse_declare_def parse_declare_cursor_def parse_variable_decl_def cursor_option_def
  by ((rule sim_andthen_ate [OF sim_at_variable] | rule sim_data_type | rule sim_recursive | rule sim_comma_list | rule sim_ploop |
       rule sim_eat_in | rule sim_rest | simp)+)

lemma sim_set: "sim e B n (parse_set L) (parse_set L)"
  unfolding parse_set_def parse_set_variable_def set_assignment_def
  by ((rule sim_andthen_ate [OF sim_at_variable] | rule sim_consume | rule sim_recursive | rule sim_comma_list | rule sim_looking |
       rule sim_eat_in | rule sim_rest | simp add: op_of_def assign_ops_def)+)

lemma sim_print: "sim e B n (parse_print L) (parse_print L)"
  unfolding parse_print_def by ((rule sim_recursive | rule sim_eat_in | rule sim_rest | simp)+)

lemma sim_execute: "sim True B n (parse_execute L) (parse_execute L)"
  unfolding parse_execute_def by ((rule sim_execute_body | rule sim_eat_in | rule sim_rest | simp)+)

lemma sim_named_statement: "k \<noteq> ''Eof'' \<Longrightarrow> sim e B n (named_statement L k f) (named_statement L k f)"
  unfolding named_statement_def by ((rule sim_eat_in | rule sim_rest | simp)+)

lemma sim_fetch_cursor: "sim e B n (parse_fetch_cursor L) (parse_fetch_cursor L)"
proof -
  have absolute: "sim e calm n
      (andthen p_advance (\<lambda>t. case t of
           IntLiteral n \<Rightarrow> ret (FetchAbsolute n)
         | AtVariable _ \<Rightarrow> ret (FetchAbsolute 0)
         | _ \<Rightarrow> err_at (chs ''expected number after ABSOLUTE'')))
      (andthen p_advance (\<lambda>t. case t of
           IntLiteral n \<Rightarrow> ret (FetchAbsolute n)
         | AtVariable _ \<Rightarrow> ret (FetchAbsolute 0)
         | _ \<Rightarrow> err_at (chs ''expected number after ABSOLUTE'')))" for e
    by (rule sim_advance_case) (auto simp: sim_ret sim_err_at split: tsql_token.split)
  show ?thesis
    unfolding parse_fetch_cursor_def parse_fetch_orientation_def
    by ((rule absolute | rule sim_andthen_ate [OF sim_int_literal] | rule sim_at_variable | rule sim_comma_list |
         rule sim_eat_in | rule sim_rest | simp)+)
qed

lemma sim_transaction_name: "sim e calm n transaction_name transaction_name"
  unfolding transaction_name_def
proof (rule sim_looking, goal_cases)
  case (1 t)
  then show ?case by (cases t) (simp_all only: tsql_token.case, ((rule sim_rest | simp)+))
qed (simp add: sim_ret)

lemma sim_transaction_end: "sim e calm n (transaction_end f) (transaction_end f)"
  unfolding transaction_end_def by ((rule sim_transaction_name | rule sim_eat_in | rule sim_rest | simp)+)

lemma sim_commit: "sim e B n (parse_commit L) (parse_commit L)"
  unfolding parse_commit_def by ((rule sim_transaction_end | rule sim_eat_in | rule sim_rest | simp)+)

lemma sim_rollback: "sim e B n (parse_rollback L) (parse_rollback L)"
  unfolding parse_rollback_def by ((rule sim_transaction_end | rule sim_eat_in | rule sim_rest | simp)+)

lemma sim_save: "sim e B n (parse_save_transaction L) (parse_save_transaction L)"
  unfolding parse_save_transaction_def by ((rule sim_eat_in | rule sim_rest | simp)+)

lemma sim_throw: "sim e B n (parse_throw L) (parse_throw L)"
proof -
  have number: "sim e eats n
      (andthen p_advance (\<lambda>t. case t of
           IntLiteral n \<Rightarrow> ret (Some (to_i32 n)) | AtVariable _ \<Rightarrow> ret None
         | _ \<Rightarrow> err_at (chs ''expected error number'')))
      (andthen p_advance (\<lambda>t. case t of
           IntLiteral n \<Rightarrow> ret (Some (to_i32 n)) | AtVariable _ \<Rightarrow> ret None
         | _ \<Rightarrow> err_at (chs ''expected error number'')))" for e
    by (rule sim_advance_case) (auto simp: sim_ret sim_err_at split: tsql_token.split)
  show ?thesis
    unfolding parse_throw_def
    by ((rule sim_andthen_ate [OF number] | rule sim_recursive | rule sim_andthen_ate [OF sim_int_literal] | rule sim_eat_in |
         rule sim_rest | simp)+)
qed

lemma sim_raiserror: "sim e B n (parse_raiserror L) (parse_raiserror L)"
  unfolding parse_raiserror_def by ((rule sim_recursive | rule sim_eat_in | rule sim_rest | simp)+)

lemma sim_system_procedure: "sim e calm n (parse_system_procedure_call L name) (parse_system_procedure_call L name)"
proof -
  have login: "sim e calm n
      (andthen p_advance (\<lambda>t. case t of
           StringLiteral v \<Rightarrow> ret (Some v) | Identifier v \<Rightarrow> ret (Some v) | _ \<Rightarrow> err_at (chs ''expected login name'')))
      (andthen p_advance (\<lambda>t. case t of
           StringLiteral v \<Rightarrow> ret (Some v) | Identifier v \<Rightarrow> ret (Some v) | _ \<Rightarrow> err_at (chs ''expected login name'')))" for e
    by (rule sim_advance_case) (auto simp: sim_ret sim_err_at split: tsql_token.split)
  show ?thesis
    unfolding parse_system_procedure_call_def optional_name_def
    by ((rule login | rule sim_recursive | rule sim_arguments | rule sim_eat_in | rule sim_rest | simp)+)
qed

lemma sim_identifier_statement: "sim e B n (parse_identifier_statement L) (parse_identifier_statement L)"
  unfolding parse_identifier_statement_def
  by ((rule sim_system_procedure | rule sim_recursive | rule sim_arguments | rule sim_eat_in | rule sim_rest | simp)+)

subsection \<open>Statements that hold statements\<close>

text \<open>Up to the fuel \<open>n\<close> the statement parsers agree, and away from the end they consume a token.\<close>

definition ssimilar :: "nat \<Rightarrow> ('f, 'f tsql_statement) parser \<Rightarrow> ('f, 'f tsql_statement) parser \<Rightarrow> bool" where
  "ssimilar n S S' \<longleftrightarrow> sim False calm n S S' \<and> sim True eats n S S'"

lemma ssimilarD:
  assumes "ssimilar n S S'"
  shows "sim e calm n S S'" and "sim True eats n S S'"
  using assms sim_at_end by (auto simp: ssimilar_def)

lemma andthen_ret: "andthen (ret x) f = f x"
  by (simp add: andthen_def ret_def fun_eq_iff)

lemma andthen_assoc: "andthen (andthen p f) g = andthen p (\<lambda>x. andthen (f x) g)"
  by (auto simp: andthen_def fun_eq_iff split: option.splits sum.splits)

lemma andthen_if_token: "andthen (if_token k p q) f = if_token k (andthen p f) (andthen q f)"
  by (auto simp: if_token_def branch_def andthen_def fun_eq_iff split: option.splits sum.splits)

lemma skip_semicolons_unfold: "skip_semicolons = if_token ''Semicolon'' skip_semicolons (ret ())"
proof -
  have "sim False isl n (if_token ''Semicolon'' (ret (Inl ())) (ret (Inr ())))
      (if_token ''Semicolon'' (ret (Inl ())) (ret (Inr ())))" for n
    by ((rule sim_eat_in | rule sim_rest | simp)+)
  from ploop_unfold [of "\<lambda>_. if_token ''Semicolon'' (ret (Inl ())) (ret (Inr ()))", OF this]
  show ?thesis
    by (simp add: andthen_if_token andthen_ret flip: skip_semicolons_def)
qed

lemma andthen_skip_semicolons:
  "andthen skip_semicolons f = if_token ''Semicolon'' (andthen skip_semicolons f) (f ())"
  by (subst skip_semicolons_unfold)
    (auto simp: if_token_def branch_def andthen_def ret_def fun_eq_iff split: option.splits sum.splits)

lemma sim_skip_semicolons: "sim e calm n skip_semicolons skip_semicolons"
  unfolding skip_semicolons_def by ((rule sim_ploop | rule sim_eat_in | rule sim_rest | simp)+)

text \<open>After the semicolons a step that consumes a token away from the end makes a loop go on.\<close>

lemma sim_after_semicolons:
  assumes "\<And>u. sim False calm n (f u) (g u)" and "sim True B n (f ()) (g ())"
  shows "sim True B n (andthen skip_semicolons f) (andthen skip_semicolons g)"
  by (subst (1 2) andthen_skip_semicolons)
    (intro sim_if_token_in sim_andthen sim_skip_semicolons assms; simp)

lemma sim_block:
  assumes "ssimilar n S S'"
  shows "sim e calm n (parse_block S) (parse_block S')"
proof -
  have body: "sim True isl n
      (andthen skip_semicolons (\<lambda>_. branch (check ''End'') (ret (Inr stmts))
         (andthen S (\<lambda>x. andthen skip_semicolons (\<lambda>_. ret (Inl (stmts @ [x])))))))
      (andthen skip_semicolons (\<lambda>_. branch (check ''End'') (ret (Inr stmts))
         (andthen S' (\<lambda>x. andthen skip_semicolons (\<lambda>_. ret (Inl (stmts @ [x])))))))" for stmts
    by (rule sim_after_semicolons)
      ((rule sim_branch | rule sim_andthen_ate [OF ssimilarD(2) [OF assms]] | rule ssimilarD [OF assms] | rule sim_skip_semicolons |
        rule sim_rest | simp)+)
  show ?thesis
    unfolding parse_block_def
    by (rule sim_ploop, rule sim_branch_inside) (simp, rule body, simp add: sim_ret)
qed

lemma sim_begin: "ssimilar n S S' \<Longrightarrow> sim e B (Suc n) (parse_begin L S) (parse_begin L S')"
  unfolding parse_begin_def parse_try_catch_def
  by ((rule sim_block, assumption | rule sim_transaction_name | rule sim_eat | rule sim_eat_in | rule sim_rest | simp)+)

lemma sim_body:
  assumes "ssimilar n S S'"
  shows "sim e calm n (parse_body L S) (parse_body L S')"
proof -
  have "sim e calm n (parse_begin L S) (parse_begin L S')" for e
    by (rule sim_mono [OF sim_begin [OF assms] le_SucI [OF order_refl]])
  then show ?thesis
    unfolding parse_body_def by - ((assumption | rule ssimilarD [OF assms] | rule sim_rest | simp)+)
qed

lemma sim_if_statement: "ssimilar n S S' \<Longrightarrow> sim e B (Suc n) (parse_if L S) (parse_if L S')"
  unfolding parse_if_def
  by ((rule sim_body, assumption | rule sim_recursive | rule sim_eat | rule sim_eat_in | rule sim_rest | simp)+)

lemma sim_while: "ssimilar n S S' \<Longrightarrow> sim e B (Suc n) (parse_while L S) (parse_while L S')"
  unfolding parse_while_def
  by ((rule sim_body, assumption | rule sim_recursive | rule sim_eat | rule sim_eat_in | rule sim_rest | simp)+)

lemma sim_procedure_body:
  assumes "ssimilar n S S'"
  shows "sim e calm n (parse_procedure_body S) (parse_procedure_body S')"
proof -
  have step: "sim True isl n
      (branch (\<lambda>s. is_at_end s \<or> check ''Go'' s) (ret (Inr stmts)) (andthen S (\<lambda>x. ret (Inl (stmts @ [x])))))
      (branch (\<lambda>s. is_at_end s \<or> check ''Go'' s) (ret (Inr stmts)) (andthen S' (\<lambda>x. ret (Inl (stmts @ [x])))))" for stmts
    by ((rule sim_branch | rule sim_andthen_ate [OF ssimilarD(2) [OF assms]] | rule sim_rest | simp)+)
  show ?thesis
    unfolding parse_procedure_body_def
    by ((rule sim_ploop | rule sim_branch_end | rule sim_eat_in | rule sim_after_semicolons | rule step |
         rule ssimilarD [OF assms] | rule sim_rest | simp)+)
qed

lemma sim_create:
  assumes "ssimilar n S S'"
  shows "sim e B (Suc n) (parse_create L S) (parse_create L S')"
  unfolding parse_create_def parse_create_procedure_def
  by ((rule sim_create_table | rule sim_create_database | rule sim_create_view | rule sim_create_index |
       rule sim_procedure_body [OF assms] | rule sim_procedure_params | rule sim_with_options | rule sim_texts_until_end |
       rule sim_eat | rule sim_eat_in | rule sim_rest | simp)+)

lemma sim_alter:
  assumes "ssimilar n S S'"
  shows "sim e B (Suc n) (parse_alter L S) (parse_alter L S')"
  unfolding parse_alter_def
  by ((rule sim_alter_table_action | rule sim_procedure_body [OF assms] | rule sim_procedure_params | rule sim_with_options |
       rule sim_passthrough_from | rule sim_eat | rule sim_eat_in | rule sim_rest | simp)+)

lemmas sim_statements = sim_select_statement sim_insert sim_update sim_delete sim_merge sim_drop sim_truncate sim_return sim_goto
  sim_waitfor sim_declare sim_set sim_print sim_execute sim_named_statement sim_fetch_cursor sim_commit sim_rollback sim_save
  sim_throw sim_raiserror sim_passthrough_eats

lemma sim_keyword_statement:
  assumes "ssimilar n S S'"
  shows "sim True eats (Suc n) (keyword_statement L S k) (keyword_statement L S' k)"
  unfolding keyword_statement_def parse_open_cursor_def parse_close_cursor_def parse_deallocate_cursor_def parse_use_def
  by ((rule sim_if | rule sim_statements | rule sim_create [OF assms] | rule sim_alter [OF assms] | rule sim_begin [OF assms] |
       rule sim_if_statement [OF assms] | rule sim_while [OF assms] | rule sim_eat | rule sim_rest | simp)+)

lemma ssimilar_step:
  assumes "ssimilar n S S'"
  shows "ssimilar (Suc n) (parse_statement_r L S) (parse_statement_r L S')"
proof -
  have inside: "sim True eats (Suc n)
      (case t of
         Tok k \<Rightarrow> keyword_statement L S k
       | AtVariable name \<Rightarrow>
           branch (\<lambda>s. p_peek_ahead 1 s = Tok ''Colon'')
             (andthen p_advance (\<lambda>_. andthen p_advance (\<lambda>_. ret (Label name)))) (parse_select_into_vars L)
       | PoundTemp _ \<Rightarrow> parse_create_temp_table L
       | DoublePoundTemp _ \<Rightarrow> parse_create_temp_table L
       | Identifier _ \<Rightarrow>
           branch (\<lambda>s. p_peek_ahead 1 s = Tok ''Colon'')
             (andthen (expect_identifier L) (\<lambda>name. andthen p_advance (\<lambda>_. ret (Label name)))) (parse_identifier_statement L)
       | _ \<Rightarrow> parse_passthrough L)
      (case t of
         Tok k \<Rightarrow> keyword_statement L S' k
       | AtVariable name \<Rightarrow>
           branch (\<lambda>s. p_peek_ahead 1 s = Tok ''Colon'')
             (andthen p_advance (\<lambda>_. andthen p_advance (\<lambda>_. ret (Label name)))) (parse_select_into_vars L)
       | PoundTemp _ \<Rightarrow> parse_create_temp_table L
       | DoublePoundTemp _ \<Rightarrow> parse_create_temp_table L
       | Identifier _ \<Rightarrow>
           branch (\<lambda>s. p_peek_ahead 1 s = Tok ''Colon'')
             (andthen (expect_identifier L) (\<lambda>name. andthen p_advance (\<lambda>_. ret (Label name)))) (parse_identifier_statement L)
       | _ \<Rightarrow> parse_passthrough L)" for t :: "'a tsql_token"
    by (cases t)
      (simp_all only: tsql_token.case,
       ((rule sim_keyword_statement [OF assms] | rule sim_select_into_vars | rule sim_create_temp_table | rule sim_identifier_statement |
         rule sim_passthrough_eats | rule sim_branch | rule sim_eat | rule sim_rest | simp)+))
  have "sim True eats (Suc n) (parse_statement_r L S) (parse_statement_r L S')"
    unfolding parse_statement_r_def by (rule sim_looking) (rule inside)+
  moreover have "sim False calm (Suc n) (parse_statement_r L S) (parse_statement_r L S')"
    unfolding parse_statement_r_def
  proof (rule sim_looking, goal_cases)
    case (1 t)
    show ?case by (rule sim_weaken [OF inside]) simp
  qed (simp add: keyword_statement_def sim_passthrough)
  ultimately show ?thesis by (simp add: ssimilar_def)
qed

lemma statements_similar: "ssimilar n (statements L (n + i)) (statements L (n + j))"
  by (induction n) (simp_all add: ssimilar_step ssimilar_def [of 0] sim_def)

lemma statement_knot: "ssimilar n (statements L (n + i)) (parse_statement L)"
proof -
  have "ssimilar (Suc (remaining s)) (statements L (n + i)) (statements L (Suc (remaining s)))"
    if "remaining s < n" for s :: "'a tsql_parser"
  proof -
    have "n + i = Suc (remaining s) + (n + i - Suc (remaining s))" using that by simp
    then show ?thesis using statements_similar [of "Suc (remaining s)" L "n + i - Suc (remaining s)" 0]
      by (metis add_0_right)
  qed
  then show ?thesis unfolding ssimilar_def sim_def parse_statement_def using lessI by blast
qed

lemma statement_similar: "ssimilar n (parse_statement L) (parse_statement L)"
  using statement_knot [of n L 0] unfolding ssimilar_def sim_def by metis

lemma parse_statement_unfold: "parse_statement L = parse_statement_r L (parse_statement L)"
proof
  fix s :: "'a tsql_parser"
  show "parse_statement L s = parse_statement_r L (parse_statement L) s"
    using simD [OF ssimilarD(1) [OF ssimilar_step [OF statement_knot [of "remaining s" L 0]]], of s False L]
    by (simp add: parse_statement_def)
qed

lemma sim_parse_statements: "sim e calm n (parse_statements L) (parse_statements L)"
proof -
  note S = statement_similar [of n L]
  have "sim True isl n
      (andthen skip_semicolons (\<lambda>_. branch is_at_end (ret (Inr stmts))
         (andthen (parse_statement L) (\<lambda>x. andthen skip_semicolons (\<lambda>_. ret (Inl (stmts @ [x])))))))
      (andthen skip_semicolons (\<lambda>_. branch is_at_end (ret (Inr stmts))
         (andthen (parse_statement L) (\<lambda>x. andthen skip_semicolons (\<lambda>_. ret (Inl (stmts @ [x])))))))" for stmts
    by (rule sim_after_semicolons)
      ((rule sim_andthen_ate [OF ssimilarD(2) [OF S]] | rule ssimilarD [OF S] | rule sim_skip_semicolons | rule sim_rest | simp)+)
  then show ?thesis
    unfolding parse_statements_def by (intro sim_ploop sim_branch_end) (simp_all add: sim_ret)
qed

end
