(* ===== verification/TsqlExpr_Roundtrip.thy ===== *)
theory TsqlExpr_Roundtrip
  imports TsqlParser_Total
begin

section \<open>Printing an expression and parsing it back\<close>

text \<open>
  A printer for expressions, with parentheses where the precedence of the operators needs them:
  \<open>raw e\<close> is the text of \<open>e\<close> and \<open>lev e\<close> the level of the grammar that reads it, 0 for \<open>OR\<close> up to 7
  for primary expressions; an operand is enclosed when its level is too low. The parser reads it
  back. A column with a table name cannot be followed by a star, which the parser takes for a
  wildcard (see \<open>TsqlFindings\<close>): it is enclosed as an operand of a multiplication or of a sign.
\<close>

subsection \<open>Reading a given list of tokens\<close>

definition at :: "'f tsql_parser \<Rightarrow> 'f tsql_token list \<Rightarrow> bool" where
  "at s ts \<longleftrightarrow> drop (ps_pos s) (ps_tokens s) = ts"

definition fwd :: "'f tsql_parser \<Rightarrow> nat \<Rightarrow> 'f tsql_parser" where
  "fwd s n = s\<lparr>ps_pos := ps_pos s + n\<rparr>"

definition first :: "'f tsql_token list \<Rightarrow> 'f tsql_token" where
  "first ts = (case ts of [] \<Rightarrow> Tok ''Eof'' | t # _ \<Rightarrow> t)"

definition yields :: "('f, 'a) parser \<Rightarrow> 'f tsql_token list \<Rightarrow> 'f tsql_token list \<Rightarrow> 'a \<Rightarrow> bool" where
  "yields p ts rest x \<longleftrightarrow> (\<forall>s. at s (ts @ rest) \<longrightarrow> p s = Some (Inr (x, fwd s (length ts))))"

lemma first_simps [simp]: "first [] = Tok ''Eof''" "first (t # ts) = t"
  by (simp_all add: first_def)

lemma first_append: "ts \<noteq> [] \<Longrightarrow> first (ts @ us) = hd ts"
  by (cases ts) simp_all

lemma fwd_fwd [simp]: "fwd (fwd s m) n = fwd s (m + n)"
  by (simp add: fwd_def add.assoc)

lemma fwd_0 [simp]: "fwd s 0 = s"
  by (simp add: fwd_def)

lemma at_fwd: "at s (ts @ us) \<Longrightarrow> at (fwd s (length ts)) us"
proof -
  assume "at s (ts @ us)"
  then have "drop (length ts) (drop (ps_pos s) (ps_tokens s)) = us" by (simp add: at_def)
  then show ?thesis by (simp add: at_def fwd_def drop_drop add.commute)
qed

lemma at_fwd_1: "at s (t # us) \<Longrightarrow> at (fwd s (Suc 0)) us"
  using at_fwd [of s "[t]" us] by simp

lemma at_peek: "at s ts \<Longrightarrow> p_peek s = first ts"
  by (auto simp: at_def p_peek_def Cons_nth_drop_Suc [symmetric] split: if_splits)

lemma at_advance: "at s (t # ts) \<Longrightarrow> p_advance s = Some (Inr (t, fwd s (Suc 0)))"
proof -
  assume s: "at s (t # ts)"
  then have "ps_pos s < length (ps_tokens s)" by (metis at_def drop_all list.discI not_le)
  with s show ?thesis by (auto simp: at_def p_advance_def fwd_def Cons_nth_drop_Suc [symmetric])
qed

named_theorems yields_intros \<open>reading a list of tokens, combinator by combinator\<close>

lemma yields_ret [yields_intros]: "yields (ret x) [] rest x"
  by (simp add: yields_def ret_def)

lemma yields_andthen:
  assumes "yields p ts (us @ rest) x" and "yields (f x) us rest y"
  shows "yields (andthen p f) (ts @ us) rest y"
  using assms at_fwd [of _ ts "us @ rest"] unfolding yields_def andthen_def by auto

lemma yields_advance: "yields (f t) us rest y \<Longrightarrow> yields (andthen p_advance f) (t # us) rest y"
  unfolding yields_def andthen_def by (simp add: at_advance) (metis at_fwd_1 fwd_fwd plus_1_eq_Suc One_nat_def)

lemma yields_looking: "yields (f (first (ts @ rest))) ts rest x \<Longrightarrow> yields (looking f) ts rest x"
  by (simp add: yields_def looking_def at_peek)

lemma yields_branch_yes: "(\<And>s. at s (ts @ rest) \<Longrightarrow> b s) \<Longrightarrow> yields p ts rest x \<Longrightarrow> yields (branch b p q) ts rest x"
  by (simp add: yields_def branch_def)

lemma yields_branch_no: "(\<And>s. at s (ts @ rest) \<Longrightarrow> \<not> b s) \<Longrightarrow> yields q ts rest x \<Longrightarrow> yields (branch b p q) ts rest x"
  by (simp add: yields_def branch_def)

lemma at_check: "at s ts \<Longrightarrow> check k s \<longleftrightarrow> first ts = Tok k"
  by (simp add: check_def at_peek)

lemma yields_if_token_yes: "yields p ts rest x \<Longrightarrow> yields (if_token k p q) (Tok k # ts) rest x"
  unfolding if_token_def
  by (rule yields_branch_yes) (auto simp: at_check intro: yields_advance)

lemma yields_if_token_no:
  "first (ts @ rest) \<noteq> Tok k \<Longrightarrow> yields q ts rest x \<Longrightarrow> yields (if_token k p q) ts rest x"
  unfolding if_token_def by (rule yields_branch_no) (simp add: at_check)

lemma yields_expect: "yields (f (Tok k)) us rest y \<Longrightarrow> yields (andthen (expect L k) f) (Tok k # us) rest y"
proof -
  assume "yields (f (Tok k)) us rest y"
  moreover have "yields (expect L k) [Tok k] (us @ rest) (Tok k)"
    unfolding expect_def by (rule yields_branch_yes) (auto simp: at_check yields_def at_advance)
  ultimately show ?thesis using yields_andthen by fastforce
qed

lemma yields_quoted: "yields (f name) us rest y \<Longrightarrow> yields (andthen (expect_identifier L) f) (QuotedIdentifier name # us) rest y"
  unfolding expect_identifier_def andthen_assoc by (rule yields_advance) (simp add: andthen_ret)

lemma yields_identifier: "yields (f name) us rest y \<Longrightarrow> yields (andthen (expect_identifier L) f) (Identifier name # us) rest y"
  unfolding expect_identifier_def andthen_assoc by (rule yields_advance) (simp add: andthen_ret)

lemma yields_match_token:
  "yields (f True) us rest y \<Longrightarrow> yields (andthen (match_token k) f) (Tok k # us) rest y"
  "first (us @ rest) \<noteq> Tok k \<Longrightarrow> yields (f False) us rest y \<Longrightarrow> yields (andthen (match_token k) f) us rest y"
  unfolding match_token_def andthen_if_token andthen_ret
  by (simp_all add: yields_if_token_yes yields_if_token_no)

lemma yields_opt_clause:
  "yields p ts (us @ rest) x \<Longrightarrow> yields (f (Some x)) us rest y \<Longrightarrow> yields (andthen (opt_clause k p) f) (Tok k # ts @ us) rest y"
  "first (us @ rest) \<noteq> Tok k \<Longrightarrow> yields (f None) us rest y \<Longrightarrow> yields (andthen (opt_clause k p) f) us rest y"
  unfolding opt_clause_def andthen_if_token andthen_assoc andthen_ret
  by (simp_all add: yields_if_token_yes yields_if_token_no yields_andthen)

subsection \<open>Loops\<close>

lemma yields_loop:
  assumes "\<And>n a. sim False isl n (body a) (body a)"
  shows "yields (body a) ts (us @ rest) (Inl a') \<Longrightarrow> yields (ploop body a') us rest x \<Longrightarrow> yields (ploop body a) (ts @ us) rest x"
    and "yields (body a) ts rest (Inr x) \<Longrightarrow> yields (ploop body a) ts rest x"
proof -
  let ?k = "\<lambda>x. case x of Inl a' \<Rightarrow> ploop body a' | Inr b \<Rightarrow> ret b"
  note unfold = ploop_unfold [of body a, OF assms]
  show "yields (ploop body a) (ts @ us) rest x"
    if "yields (body a) ts (us @ rest) (Inl a')" "yields (ploop body a') us rest x"
    unfolding unfold by (rule yields_andthen [OF that(1)]) (simp add: that(2))
  show "yields (ploop body a) ts rest x" if "yields (body a) ts rest (Inr x)"
    using yields_andthen [of "body a" ts "[]" rest "Inr x" ?k x] that by (simp add: unfold yields_ret)
qed

definition comma_sep :: "'f tsql_token list list \<Rightarrow> 'f tsql_token list" where
  "comma_sep tss = concat (map (\<lambda>(i, ts). (if 0 < i then [Tok ''Comma''] else []) @ ts) (enumerate 0 tss))"

fun after_comma :: "'f tsql_token list list \<Rightarrow> 'f tsql_token list" where
  "after_comma [] = []"
| "after_comma (ts # tss) = Tok ''Comma'' # ts @ after_comma tss"

lemma comma_sep_Cons: "comma_sep (ts # tss) = ts @ after_comma tss"
proof -
  have "concat (map (\<lambda>(i, ts). (if 0 < i then [Tok ''Comma''] else []) @ ts) (enumerate (Suc n) tss)) = after_comma tss" for n
    by (induction tss arbitrary: n) simp_all
  then show ?thesis by (simp add: comma_sep_def)
qed

lemma yields_comma_list:
  assumes p: "\<And>n. sim False calm n p p"
    and items: "\<And>x us. x \<in> set xs \<Longrightarrow> first us = Tok ''Comma'' \<or> first us = first rest \<Longrightarrow> yields p (f x) us x"
    and "xs \<noteq> []" and "first rest \<noteq> Tok ''Comma''"
  shows "yields (comma_list p) (comma_sep (map f xs)) rest xs"
proof -
  define body where "body = (\<lambda>ys. andthen p (\<lambda>x. if_token ''Comma'' (ret (Inl (ys @ [x]))) (ret (Inr (ys @ [x])))))"
  have sim: "sim False isl n (body a) (body a)" for n a
    unfolding body_def by ((rule p | rule sim_eat_in | rule sim_rest | simp)+)
  have step: "yields (ploop body ys) (f x @ after_comma (map f zs)) rest (ys @ x # zs)"
    if "set (x # zs) \<subseteq> set xs" for ys x zs
    using that
  proof (induction zs arbitrary: ys x)
    case Nil
    have "yields (body ys) (f x @ []) rest (Inr (ys @ [x]))"
      unfolding body_def
      by (rule yields_andthen [of _ _ _ _ x], use items [of x] Nil in simp, rule yields_if_token_no)
        (simp_all add: assms(4) yields_ret)
    then show ?case using yields_loop(2) [OF sim] by simp
  next
    case (Cons z zs)
    have "yields (body ys) (f x @ [Tok ''Comma'']) ((f z @ after_comma (map f zs)) @ rest) (Inl (ys @ [x]))"
      unfolding body_def
      by (rule yields_andthen [of _ _ _ _ x]) (use items [of x] Cons.prems in \<open>auto intro: yields_if_token_yes yields_ret\<close>)
    moreover have "yields (ploop body (ys @ [x])) (f z @ after_comma (map f zs)) rest ((ys @ [x]) @ z # zs)"
      using Cons.prems by (intro Cons.IH) auto
    ultimately show ?case using yields_loop(1) [OF sim] by fastforce
  qed
  obtain x zs where xs: "xs = x # zs" using assms(3) by (cases xs) auto
  show ?thesis
    using step [of x zs "[]"] unfolding xs comma_list_def body_def [symmetric] by (simp add: comma_sep_Cons)
qed

subsection \<open>The printer\<close>

abbreviation tok :: "string \<Rightarrow> 'f tsql_token" where
  "tok k \<equiv> Tok k"

definition op_lev :: "tsql_binary_op \<Rightarrow> nat" where
  "op_lev op =
     (case op of OrOp \<Rightarrow> 0 | AndOp \<Rightarrow> 1
      | EqOp \<Rightarrow> 3 | NotEqOp \<Rightarrow> 3 | LtOp \<Rightarrow> 3 | GtOp \<Rightarrow> 3 | LtEqOp \<Rightarrow> 3 | GtEqOp \<Rightarrow> 3 | AssignOp \<Rightarrow> 3
      | Add \<Rightarrow> 4 | Subtract \<Rightarrow> 4 | BitwiseAnd \<Rightarrow> 4 | BitwiseOr \<Rightarrow> 4 | BitwiseXor \<Rightarrow> 4 | StringConcat \<Rightarrow> 4
      | Multiply \<Rightarrow> 5 | Divide \<Rightarrow> 5 | Modulo \<Rightarrow> 5)"

definition op_name :: "tsql_binary_op \<Rightarrow> string" where
  "op_name op =
     (case op of OrOp \<Rightarrow> ''Or'' | AndOp \<Rightarrow> ''And''
      | EqOp \<Rightarrow> ''Equals'' | NotEqOp \<Rightarrow> ''NotEquals'' | LtOp \<Rightarrow> ''Lt'' | GtOp \<Rightarrow> ''Gt'' | LtEqOp \<Rightarrow> ''LtEq''
      | GtEqOp \<Rightarrow> ''GtEq'' | AssignOp \<Rightarrow> ''RightOuterJoin''
      | Add \<Rightarrow> ''Plus'' | Subtract \<Rightarrow> ''Minus'' | BitwiseAnd \<Rightarrow> ''Ampersand'' | BitwiseOr \<Rightarrow> ''Pipe'' | BitwiseXor \<Rightarrow> ''Caret''
      | StringConcat \<Rightarrow> ''Plus'' | Multiply \<Rightarrow> ''Star'' | Divide \<Rightarrow> ''Slash'' | Modulo \<Rightarrow> ''PercentOp'')"

fun lev :: "'f tsql_expr \<Rightarrow> nat" where
  "lev (BinaryOp l op r) = op_lev op"
| "lev (UnaryOp op e) = (if op = NotOp then 2 else 6)"
| "lev (InList e es neg) = 3"
| "lev (Between e lo hi neg) = 3"
| "lev (Like e pat neg esc) = 3"
| "lev (ColumnRef None None (Some t) c) = 5"
| "lev _ = 7"

text \<open>A column with the name of its table.\<close>

definition qualified_col :: "'f tsql_expr \<Rightarrow> bool" where
  "qualified_col e \<longleftrightarrow> (case e of ColumnRef None None (Some t) c \<Rightarrow> True | _ \<Rightarrow> False)"

definition left_lev :: "tsql_binary_op \<Rightarrow> nat" where
  "left_lev op = (if op_lev op = 3 then 4 else op_lev op)"

definition right_lev :: "tsql_binary_op \<Rightarrow> nat" where
  "right_lev op = op_lev op + 1"

definition enclose :: "bool \<Rightarrow> 'f tsql_token list \<Rightarrow> 'f tsql_token list" where
  "enclose b ts = (if b then [tok ''LeftParen''] @ ts @ [tok ''RightParen''] else ts)"

fun literal_token :: "'f tsql_literal \<Rightarrow> 'f tsql_token" where
  "literal_token LitNull = tok ''Null''"
| "literal_token (LitInt n) = IntLiteral n"
| "literal_token (LitFloat f) = FloatLiteral f"
| "literal_token (LitString v) = StringLiteral v"
| "literal_token (LitBinary b) = BinaryLiteral b"
| "literal_token (LitMoney v) = MoneyLiteral v"
| "literal_token _ = tok ''Eof''"

definition call :: "ustring \<Rightarrow> 'f tsql_token list \<Rightarrow> 'f tsql_token list" where
  "call name ts = [QuotedIdentifier name, tok ''LeftParen''] @ ts @ [tok ''RightParen'']"

definition neg_token :: "bool \<Rightarrow> 'f tsql_token list" where
  "neg_token neg = (if neg then [tok ''Not''] else [])"

fun raw :: "'f tsql_expr \<Rightarrow> 'f tsql_token list" where
  "raw (Literal l) = [literal_token l]"
| "raw (ColumnRef None None None c) = [QuotedIdentifier c]"
| "raw (ColumnRef None None (Some t) c) = [QuotedIdentifier t, tok ''Dot'', QuotedIdentifier c]"
| "raw (ColumnRef (Some d) (Some s) (Some t) c) =
     [QuotedIdentifier d, tok ''Dot'', QuotedIdentifier s, tok ''Dot'', QuotedIdentifier t, tok ''Dot'', QuotedIdentifier c]"
| "raw (Variable v) = [AtVariable v]"
| "raw (SystemVariable v) = [AtAtVariable v]"
| "raw (BinaryOp l op r) =
     enclose (lev l < left_lev op \<or> op_lev op = 5 \<and> qualified_col l) (raw l) @ [tok (op_name op)] @ enclose (lev r < right_lev op) (raw r)"
| "raw (UnaryOp op e) =
     (case op of
        NotOp \<Rightarrow> [tok ''Not''] @ enclose (lev e < 3) (raw e)
      | Negate \<Rightarrow> [tok ''Minus''] @ enclose (lev e < 7) (raw e)
      | _ \<Rightarrow> [tok ''Tilde''] @ enclose (lev e < 7) (raw e))"
| "raw (FunctionCall name args) = call name (comma_sep (map raw args))"
| "raw (Coalesce args) = call (chs ''COALESCE'') (comma_sep (map raw args))"
| "raw (IsNull a b) = call (chs ''ISNULL'') (raw a @ [tok ''Comma''] @ raw b)"
| "raw (NullIf a b) = call (chs ''NULLIF'') (raw a @ [tok ''Comma''] @ raw b)"
| "raw (CaseWhen operand whens els) =
     [tok ''Case''] @ (case operand of None \<Rightarrow> [] | Some e \<Rightarrow> raw e) @
     concat (map (\<lambda>(w, t). [tok ''When''] @ raw w @ [tok ''Then''] @ raw t) whens) @
     (case els of None \<Rightarrow> [] | Some e \<Rightarrow> [tok ''Else''] @ raw e) @ [tok ''End'']"
| "raw (InList e es neg) =
     enclose (lev e < 4) (raw e) @ neg_token neg @ [tok ''In'', tok ''LeftParen''] @ comma_sep (map raw es) @ [tok ''RightParen'']"
| "raw (Between e lo hi neg) =
     enclose (lev e < 4) (raw e) @ neg_token neg @ [tok ''Between''] @ enclose (lev lo < 4) (raw lo) @ [tok ''And''] @
     enclose (lev hi < 4) (raw hi)"
| "raw (Like e pat neg esc) =
     enclose (lev e < 4) (raw e) @ neg_token neg @ [tok ''Like''] @ enclose (lev pat < 4) (raw pat) @
     (case esc of None \<Rightarrow> [] | Some x \<Rightarrow> [Identifier (chs ''ESCAPE'')] @ enclose (lev x < 4) (raw x))"
| "raw Wildcard = [tok ''Star'']"
| "raw _ = []"

definition special_functions :: "string list" where
  "special_functions = [''CAST'', ''CONVERT'', ''ISNULL'', ''COALESCE'', ''NULLIF'', ''TOP'']"

text \<open>The expressions the printer covers: no subquery, and no constructor the parser never builds.\<close>

fun printable :: "'f parser_lib \<Rightarrow> 'f tsql_expr \<Rightarrow> bool" where
  "printable L (Literal l) = (case l of LitDateTime v \<Rightarrow> False | LitBit b \<Rightarrow> False | _ \<Rightarrow> True)"
| "printable L (ColumnRef d s t c) = (if t = None then d = None \<and> s = None else d = None \<and> s = None \<or> d \<noteq> None \<and> s \<noteq> None)"
| "printable L (Variable v) = True"
| "printable L (SystemVariable v) = True"
| "printable L (BinaryOp l op r) = (op \<noteq> StringConcat \<and> printable L l \<and> printable L r)"
| "printable L (UnaryOp op e) = (op \<noteq> Positive \<and> printable L e)"
| "printable L (FunctionCall name args) =
     (upper_chars (pl_chars L) name \<notin> set (map chs special_functions) \<and> list_all (printable L) args)"
| "printable L (Coalesce args) = (args \<noteq> [] \<and> list_all (printable L) args)"
| "printable L (IsNull a b) = (printable L a \<and> printable L b)"
| "printable L (NullIf a b) = (printable L a \<and> printable L b)"
| "printable L (CaseWhen operand whens els) =
     ((operand \<noteq> None \<or> whens \<noteq> []) \<and> pred_option (printable L) operand \<and> list_all (\<lambda>(w, t). printable L w \<and> printable L t) whens \<and> pred_option (printable L) els)"
| "printable L (InList e es neg) = (es \<noteq> [] \<and> printable L e \<and> list_all (printable L) es)"
| "printable L (Between e lo hi neg) = (printable L e \<and> printable L lo \<and> printable L hi)"
| "printable L (Like e pat neg esc) = (printable L e \<and> printable L pat \<and> pred_option (printable L) esc)"
| "printable L Wildcard = True"
| "printable L _ = False"

subsection \<open>The levels of the grammar\<close>

definition grammar :: "'f parser_lib \<Rightarrow> nat \<Rightarrow> ('f, 'f tsql_expr) parser" where
  "grammar L k =
     (let R = recursive_parsers L
      in if k = 0 then parse_or_expr L R
         else if k = 1 then parse_and_expr L R
         else if k = 2 then parse_not_expr L R
         else if k = 3 then parse_comparison L R
         else if k = 4 then parse_addition L R
         else if k = 5 then parse_multiplication L R
         else if k = 6 then parse_unary L R
         else parse_primary L R)"

definition chain_ops :: "nat \<Rightarrow> (string \<times> tsql_binary_op) list" where
  "chain_ops k = (if k = 0 then [(''Or'', OrOp)] else if k = 1 then [(''And'', AndOp)]
     else if k = 4 then addition_ops else multiplication_ops)"

abbreviation chain_level :: "nat \<Rightarrow> bool" where
  "chain_level k \<equiv> k \<in> {0, 1, 4, 5}"

text \<open>The level at which a token continues an expression; a token stops the expressions of the levels above.\<close>

definition continues :: "'f tsql_token \<Rightarrow> nat option" where
  "continues t =
     (case t of
        Tok k \<Rightarrow> map_of
          ([(''Or'', 0), (''And'', 1), (''Is'', 3), (''Not'', 3), (''In'', 3), (''Between'', 3), (''Like'', 3)] @
           map (\<lambda>(w, op). (w, 3)) comparison_ops @ map (\<lambda>(w, op). (w, 4)) addition_ops @
           map (\<lambda>(w, op). (w, 5)) multiplication_ops @ [(''Dot'', 7), (''LeftParen'', 7)]) k
      | Identifier v \<Rightarrow> if same_ci v ''ESCAPE'' then Some 3 else None
      | QuotedIdentifier v \<Rightarrow> if same_ci v ''ESCAPE'' then Some 3 else None
      | _ \<Rightarrow> None)"

definition stops :: "nat \<Rightarrow> 'f tsql_token \<Rightarrow> bool" where
  "stops k t \<longleftrightarrow> (case continues t of None \<Rightarrow> True | Some j \<Rightarrow> j < k)"

lemma stops_mono: "stops k t \<Longrightarrow> k \<le> k' \<Longrightarrow> stops k' t"
  by (auto simp: stops_def split: option.splits)

lemma stops_op_of:
  "stops k t \<Longrightarrow> chain_level k \<Longrightarrow> op_of (chain_ops k) t = None"
  by (auto simp: stops_def continues_def op_of_def chain_ops_def addition_ops_def multiplication_ops_def comparison_ops_def
      split: tsql_token.splits if_splits)

lemma grammar_chain: "chain_level k \<Longrightarrow> grammar L k = chain (chain_ops k) (grammar L (Suc k))"
  by (auto simp: grammar_def chain_ops_def parse_or_expr_def parse_and_expr_def parse_addition_def parse_multiplication_def)

lemma sim_grammar: "sim e calm n (grammar L k) (grammar L k)"
proof -
  note R = recursive_similar [of n L]
  have "sim e eats (Suc n) (parse_and_expr L (recursive_parsers L)) (parse_and_expr L (recursive_parsers L))"
    unfolding parse_and_expr_def by (intro sim_chain sim_not_expr [OF R]) (simp add: op_of_def)
  then have "sim e eats (Suc n) (grammar L k) (grammar L k)"
    unfolding grammar_def Let_def
    by (simp add: sim_or_expr [OF R] sim_not_expr [OF R] sim_comparison [OF R] sim_addition [OF R]
      sim_multiplication [OF R] sim_unary [OF R] sim_primary [OF R])
  then show ?thesis by (rule sim_weaken [OF sim_mono]) auto
qed

definition chain_loop :: "(string \<times> tsql_binary_op) list \<Rightarrow> ('f, 'f tsql_expr) parser \<Rightarrow> 'f tsql_expr \<Rightarrow> ('f, 'f tsql_expr) parser" where
  "chain_loop ops p =
     ploop (\<lambda>left. looking (\<lambda>t.
       case op_of ops t of
         Some op \<Rightarrow> andthen p_advance (\<lambda>_. andthen p (\<lambda>right. ret (Inl (BinaryOp left op right))))
       | None \<Rightarrow> ret (Inr left)))"

lemma chain_chain_loop: "chain ops p = andthen p (chain_loop ops p)"
  by (simp add: chain_def chain_loop_def)

lemma yields_chain_loop:
  assumes p: "\<And>n. sim False calm n p p" and eof: "map_of ops ''Eof'' = None"
  shows "op_of ops (first rest) = None \<Longrightarrow> yields (chain_loop ops p left) [] rest left"
    and "map_of ops w = Some op \<Longrightarrow> yields p us (vs @ rest) r \<Longrightarrow> yields (chain_loop ops p (BinaryOp left op r)) vs rest x \<Longrightarrow>
      yields (chain_loop ops p left) (Tok w # us @ vs) rest x"
proof -
  define body where "body = (\<lambda>left. looking (\<lambda>t.
       case op_of ops t of
         Some op \<Rightarrow> andthen p_advance (\<lambda>_. andthen p (\<lambda>right. ret (Inl (BinaryOp left op right))))
       | None \<Rightarrow> ret (Inr left)))"
  have loop: "chain_loop ops p = ploop body" by (simp add: chain_loop_def body_def)
  have sim: "sim False isl n (body a) (body a)" for n a
    unfolding body_def
  proof (rule sim_looking, goal_cases)
    case 1
    show ?case by ((rule sim_at_end [OF p] | rule sim_eat_in | rule sim_rest | simp)+)
  qed (simp add: op_of_def eof sim_ret)
  show "yields (chain_loop ops p left) [] rest left" if "op_of ops (first rest) = None"
    unfolding loop
    by (rule yields_loop(2) [OF sim], unfold body_def, rule yields_looking) (simp add: that yields_ret)
  show "yields (chain_loop ops p left) (Tok w # us @ vs) rest x"
    if "map_of ops w = Some op" "yields p us (vs @ rest) r" "yields (chain_loop ops p (BinaryOp left op r)) vs rest x"
  proof -
    have "yields (body left) (Tok w # us @ []) (vs @ rest) (Inl (BinaryOp left op r))"
      unfolding body_def
      by (rule yields_looking)
        (use that in \<open>auto simp: op_of_def intro!: yields_advance yields_andthen [of p us "[]", simplified] yields_ret\<close>)
    then show ?thesis using yields_loop(1) [of body left "Tok w # us" vs rest, OF sim] that(3) by (simp add: loop)
  qed
qed

subsection \<open>Descending the levels\<close>

definition toks :: "nat \<Rightarrow> 'f tsql_expr \<Rightarrow> 'f tsql_token list" where
  "toks k e = enclose (lev e < k) (raw e)"

definition parses :: "'f parser_lib \<Rightarrow> nat \<Rightarrow> 'f tsql_expr \<Rightarrow> bool" where
  "parses L k e \<longleftrightarrow> (\<forall>rest. stops k (first rest) \<longrightarrow> yields (grammar L k) (toks k e) rest e)"

text \<open>Reading the first operand of a chain hands it to the loop.\<close>

definition feeds :: "'f parser_lib \<Rightarrow> nat \<Rightarrow> 'f tsql_expr \<Rightarrow> bool" where
  "feeds L k e \<longleftrightarrow>
     (\<forall>vs rest x. stops (Suc k) (first (vs @ rest)) \<longrightarrow>
        yields (chain_loop (chain_ops k) (grammar L (Suc k)) e) vs rest x \<longrightarrow>
        yields (grammar L k) (toks k e @ vs) rest x)"

lemma chain_ops_eof: "map_of (chain_ops k) ''Eof'' = None"
  by (simp add: chain_ops_def addition_ops_def multiplication_ops_def)

lemma feeds_parses: "feeds L k e \<Longrightarrow> chain_level k \<Longrightarrow> parses L k e"
  unfolding parses_def
proof (intro allI impI)
  fix rest :: "'a tsql_token list"
  assume f: "feeds L k e" and k: "chain_level k" and stop: "stops k (first rest)"
  have "yields (chain_loop (chain_ops k) (grammar L (Suc k)) e) [] rest e"
    by (intro yields_chain_loop(1) sim_grammar chain_ops_eof stops_op_of stop k)
  then show "yields (grammar L k) (toks k e) rest e"
    using f stops_mono [OF stop] unfolding feeds_def by (metis append_Nil append_Nil2 le_SucI order_refl)
qed

lemma toks_Suc: "lev e \<noteq> k \<Longrightarrow> toks (Suc k) e = toks k e"
  by (auto simp: toks_def less_Suc_eq)

lemma feeds_operand: "parses L (Suc k) e \<Longrightarrow> chain_level k \<Longrightarrow> lev e \<noteq> k \<Longrightarrow> feeds L k e"
  unfolding feeds_def parses_def grammar_chain chain_chain_loop toks_Suc
  by (auto intro: yields_andthen)

definition starts_ok :: "nat \<Rightarrow> 'f tsql_token \<Rightarrow> bool" where
  "starts_ok k t \<longleftrightarrow> t \<notin> Tok ` {''Select'', ''When'', ''RightParen''} \<and> (3 \<le> k \<longrightarrow> t \<noteq> Tok ''Not'') \<and>
     (7 \<le> k \<longrightarrow> t \<notin> Tok ` {''Minus'', ''Plus'', ''Tilde''})"

lemma starts_ok_mono: "starts_ok k t \<Longrightarrow> k' \<le> k \<Longrightarrow> starts_ok k' t"
  by (auto simp: starts_ok_def)

lemma starts_ok_paren [simp]: "starts_ok k (Tok ''LeftParen'')"
  by (auto simp: starts_ok_def)

lemma enclose_start:
  assumes "ts \<noteq> []" and "starts_ok j (hd ts)" and "j < k \<longrightarrow> b"
  shows "enclose b ts \<noteq> [] \<and> starts_ok k (hd (enclose b ts))"
  using assms starts_ok_mono by (auto simp: enclose_def not_less)

lemma op_levs: "op_lev op \<in> {0, 1, 3, 4, 5}" "left_lev op \<in> {0, 1, 4, 5}" "op_lev op \<le> left_lev op"
  by (auto simp: op_lev_def left_lev_def split: tsql_binary_op.splits)

lemma operand_start:
  assumes "raw e \<noteq> [] \<and> starts_ok (lev e) (hd (raw e))"
  shows "enclose (lev e < 4) (raw e) \<noteq> []" and "starts_ok 3 (hd (enclose (lev e < 4) (raw e)))"
  using enclose_start [of "raw e" "lev e" 4 "lev e < 4"] assms starts_ok_mono [of 4 _ 3] by auto

lemma raw_start: "printable L e \<Longrightarrow> raw e \<noteq> [] \<and> starts_ok (lev e) (hd (raw e))"
proof (induction e rule: raw.induct)
  case (1 l)
  then show ?case by (cases l) (auto simp: starts_ok_def)
next
  case (7 l op r)
  let ?b = "lev l < left_lev op \<or> op_lev op = 5 \<and> qualified_col l"
  have "enclose ?b (raw l) \<noteq> [] \<and> starts_ok (left_lev op) (hd (enclose ?b (raw l)))"
    using 7 by (intro enclose_start [of _ "lev l"]) auto
  then show ?case using starts_ok_mono [OF _ op_levs(3) [of op]] by auto
next
  case (8 op e)
  then show ?case by (auto simp: starts_ok_def split: tsql_unary_op.splits)
next
  case (14 e es neg)
  then show ?case using operand_start [of e] by auto
next
  case (15 e lo hi neg)
  then show ?case using operand_start [of e] by auto
next
  case (16 e pat neg esc)
  then show ?case using operand_start [of e] by auto
qed (auto simp: starts_ok_def enclose_def call_def split: if_splits)

lemma toks_start: "printable L e \<Longrightarrow> toks k e \<noteq> [] \<and> starts_ok k (hd (toks k e))"
  using raw_start [of L e] unfolding toks_def by (intro enclose_start) auto

lemma first_toks: "printable L e \<Longrightarrow> starts_ok k (first (toks k e @ us))"
  using toks_start [of L e k] by (simp add: first_append)

lemma comparison_stops:
  assumes "stops 3 (first rest)"
  shows "first rest \<notin> Tok ` {''Is'', ''Not'', ''In'', ''Between'', ''Like''}" and "op_of comparison_ops (first rest) = None"
  using assms
  by (auto simp: stops_def continues_def op_of_def comparison_ops_def addition_ops_def multiplication_ops_def
      split: tsql_token.splits if_splits)

definition comparison_tail :: "'f parser_lib \<Rightarrow> 'f tsql_expr \<Rightarrow> ('f, 'f tsql_expr) parser" where
  "comparison_tail L left =
     (let R = recursive_parsers L
      in if_token ''Is'' (parse_is_null L left)
         (andthen (match_token ''Not'') (\<lambda>negated.
            if_token ''In'' (parse_in L R left negated)
              (if_token ''Between'' (parse_between L R left negated)
                 (if_token ''Like'' (parse_like L R left negated)
                    (parse_comparison_op L R left negated))))))"

lemma grammar_steps:
  "grammar L 2 = if_token ''Not'' (andthen (grammar L 3) (\<lambda>e. ret (UnaryOp NotOp e))) (grammar L 3)"
  "grammar L 3 = andthen (grammar L 4) (comparison_tail L)"
  "grammar L 6 = if_token ''Minus'' (andthen (grammar L 7) (\<lambda>e. ret (UnaryOp Negate e)))
       (if_token ''Plus'' (grammar L 7)
          (if_token ''Tilde'' (andthen (grammar L 7) (\<lambda>e. ret (UnaryOp BitwiseNot e))) (grammar L 7)))"
  "grammar L 0 = parse_expr L" "grammar L 7 = parse_primary L (recursive_parsers L)"
  "parse_addition L (recursive_parsers L) = grammar L 4"
  by (simp_all add: grammar_def Let_def parse_not_expr_def parse_comparison_def parse_unary_def comparison_tail_def [abs_def]
      parse_expr_unfold)

lemma yields_tail_none:
  assumes "stops 3 (first rest)"
  shows "yields (comparison_tail L e) [] rest e"
  unfolding comparison_tail_def Let_def
  using comparison_stops [OF assms]
  by (intro yields_if_token_no yields_match_token(2))
    (auto simp: parse_comparison_op_def intro!: yields_looking yields_ret)

lemma yields_descend_step:
  assumes read: "yields (grammar L (Suc k)) ts rest e" and stop: "stops k (first rest)"
    and start: "starts_ok (Suc k) (first (ts @ rest))" and k: "k \<le> 6"
  shows "yields (grammar L k) ts rest e"
proof (cases "chain_level k")
  case True
  have "yields (chain_loop (chain_ops k) (grammar L (Suc k)) e) [] rest e"
    by (intro yields_chain_loop(1) sim_grammar chain_ops_eof stops_op_of stop True)
  then have "yields (grammar L k) (ts @ []) rest e"
    unfolding grammar_chain [OF True] chain_chain_loop using read by (intro yields_andthen [of _ _ _ _ e]) simp_all
  then show ?thesis by simp
next
  case False
  with k consider "k = 2" | "k = 3" | "k = 6" by force
  then show ?thesis
  proof cases
    case 1
    then show ?thesis using start read by (auto simp: grammar_steps(1) starts_ok_def intro!: yields_if_token_no)
  next
    case 2
    then have "yields (grammar L 3) (ts @ []) rest e"
      unfolding grammar_steps(2) using read stop by (intro yields_andthen [of _ _ _ _ e] yields_tail_none) simp_all
    with 2 show ?thesis by simp
  next
    case 3
    then show ?thesis using start read by (auto simp: grammar_steps(3) starts_ok_def intro!: yields_if_token_no)
  qed
qed

lemma parses_descend_step:
  assumes p: "parses L (Suc k) e" and e: "printable L e" "lev e \<noteq> k" and k: "k \<le> 6"
  shows "parses L k e"
  unfolding parses_def
proof (intro allI impI)
  fix rest :: "'a tsql_token list"
  assume stop: "stops k (first rest)"
  have "yields (grammar L (Suc k)) (toks k e) rest e"
    using p stops_mono [OF stop, of "Suc k"] toks_Suc [OF e(2)] by (simp add: parses_def)
  moreover have "starts_ok (Suc k) (first (toks k e @ rest))"
    using first_toks [OF e(1), of "Suc k" rest] toks_Suc [OF e(2)] by simp
  ultimately show "yields (grammar L k) (toks k e) rest e" by (rule yields_descend_step [OF _ stop _ k])
qed

lemma parses_descend:
  assumes "parses L j e" and "printable L e" and "k \<le> j" and "j \<le> 7" and "\<And>i. k \<le> i \<Longrightarrow> i < j \<Longrightarrow> i \<noteq> lev e"
  shows "parses L k e"
  using assms(3)
proof (induction rule: inc_induct)
  case base
  show ?case by (rule assms(1))
next
  case (step i)
  have "lev e \<noteq> i" using assms(5) [OF step.hyps] by simp
  moreover have "i \<le> 6" using step.hyps(2) assms(4) by simp
  ultimately show ?case by (rule parses_descend_step [OF step.IH assms(2)])
qed

subsection \<open>From its own level to every level\<close>

definition everywhere :: "'f parser_lib \<Rightarrow> 'f tsql_expr \<Rightarrow> bool" where
  "everywhere L e \<longleftrightarrow> (\<forall>k \<le> 7. parses L k e) \<and> (\<forall>k. chain_level k \<longrightarrow> \<not> (k = 5 \<and> qualified_col e) \<longrightarrow> feeds L k e)"

lemma stops_closing:
  "stops 0 (Tok ''RightParen'')" "stops 0 (Tok ''Comma'')" "stops 0 (Tok ''When'')" "stops 0 (Tok ''Then'')"
  "stops 0 (Tok ''Else'')" "stops 0 (Tok ''End'')" "stops 4 (Tok ''And'')" "stops 4 (Tok ''Not'')" "stops 4 (Tok ''In'')"
  "stops 4 (Tok ''Between'')" "stops 4 (Tok ''Like'')" "stops 4 (Identifier (chs ''ESCAPE''))"
  by (simp_all add: stops_def continues_def comparison_ops_def addition_ops_def multiplication_ops_def same_ci_def)

lemma primary_paren:
  assumes read: "yields (parse_expr L) ts ([Tok ''RightParen''] @ rest) x" and start: "starts_ok 0 (first (ts @ Tok ''RightParen'' # rest))"
  shows "yields (grammar L 7) (Tok ''LeftParen'' # ts @ [Tok ''RightParen'']) rest x"
proof -
  have close: "yields (andthen (expect L ''RightParen'') (\<lambda>_. ret x)) [Tok ''RightParen''] rest x"
    by (rule yields_expect) (rule yields_ret)
  have "yields (branch (check ''Select'')
      (andthen (parse_select L) (\<lambda>query. andthen (expect L ''RightParen'') (\<lambda>_. ret (Subquery query))))
      (andthen (parse_expr L) (\<lambda>e. andthen (expect L ''RightParen'') (\<lambda>_. ret e)))) (ts @ [Tok ''RightParen'']) rest x"
    by (rule yields_branch_no, use start in \<open>simp add: at_check starts_ok_def\<close>, rule yields_andthen, rule read, rule close)
  then show ?thesis
    unfolding grammar_steps(5) parse_primary_def
    by (intro yields_looking) (simp add: recursive_parsers_def yields_advance)
qed

lemma parses_enclosed:
  assumes "parses L 0 e" and "printable L e" and "lev e < 7"
  shows "parses L 7 e"
  unfolding parses_def
proof (intro allI impI)
  fix rest :: "'a tsql_token list"
  have "stops 0 (first ([Tok ''RightParen''] @ rest))" by (simp add: stops_closing)
  then have "yields (grammar L 0) (toks 0 e) ([Tok ''RightParen''] @ rest) e" using assms(1) unfolding parses_def by blast
  then have "yields (parse_expr L) (raw e) ([Tok ''RightParen''] @ rest) e"
    by (simp only: toks_def enclose_def grammar_steps(4) not_less_zero if_False)
  then have "yields (grammar L 7) (Tok ''LeftParen'' # raw e @ [Tok ''RightParen'']) rest e"
    using first_toks [OF assms(2), of 0] by (intro primary_paren) (simp_all add: toks_def enclose_def)
  then show "yields (grammar L 7) (toks 7 e) rest e" using assms(3) by (simp add: toks_def enclose_def)
qed

lemma qualified_col_lev: "qualified_col e \<Longrightarrow> lev e = 5"
  by (auto simp: qualified_col_def split: tsql_expr.splits option.splits)

lemma everywhere_intro:
  assumes e: "printable L e" and own: "parses L (lev e) e" "chain_level (lev e) \<Longrightarrow> \<not> qualified_col e \<Longrightarrow> feeds L (lev e) e" and "lev e \<le> 7"
  shows "everywhere L e"
proof -
  have below: "parses L k e" if "k \<le> lev e" for k
    using that assms(4) by (intro parses_descend [OF own(1) e]) auto
  have top: "parses L 7 e" if "lev e < 7"
    using that by (intro parses_enclosed [OF below e]) auto
  have all: "parses L k e" if "k \<le> 7" for k
  proof (cases "k \<le> lev e")
    case False
    then show ?thesis using that assms(4) by (intro parses_descend [OF top e]) auto
  qed (rule below)
  moreover have "feeds L k e" if "chain_level k" "\<not> (k = 5 \<and> qualified_col e)" for k
    using own(2) that feeds_operand [OF all [of "Suc k"]] qualified_col_lev [of e] by (cases "k = lev e") auto
  ultimately show ?thesis by (simp add: everywhere_def)
qed

lemma everywhere_parses: "everywhere L e \<Longrightarrow> k \<le> 7 \<Longrightarrow> parses L k e"
  by (simp add: everywhere_def)

lemma everywhere_reads:
  "everywhere L e \<Longrightarrow> stops 0 (first rest) \<Longrightarrow> yields (parse_expr L) (raw e) rest e"
  "everywhere L e \<Longrightarrow> k \<le> 7 \<Longrightarrow> stops k (first rest) \<Longrightarrow> yields (grammar L k) (enclose (lev e < k) (raw e)) rest e"
  using everywhere_parses [of L e 0] everywhere_parses [of L e]
  by (auto simp: parses_def toks_def enclose_def grammar_steps(4))

subsection \<open>The cases\<close>

lemma chain_operator:
  "printable L (BinaryOp l op r) \<Longrightarrow> chain_level (op_lev op) \<Longrightarrow> map_of (chain_ops (op_lev op)) (op_name op) = Some op"
  by (cases op) (simp_all add: op_lev_def op_name_def chain_ops_def addition_ops_def multiplication_ops_def)

lemma stops_operator: "chain_level (op_lev op) \<Longrightarrow> stops (Suc (op_lev op)) (Tok (op_name op))"
  by (cases op) (simp_all add: op_lev_def op_name_def addition_ops_def multiplication_ops_def comparison_ops_def stops_def continues_def)

lemma chain_everywhere:
  assumes "everywhere L l" and "everywhere L r" and "printable L (BinaryOp l op r)" and k: "chain_level (op_lev op)"
  shows "everywhere L (BinaryOp l op r)"
proof -
  define k where "k = op_lev op"
  have op: "map_of (chain_ops k) (op_name op) = Some op" and stop: "stops (Suc k) (Tok (op_name op))"
    using chain_operator [OF assms(3) k] stops_operator [OF k] by (simp_all add: k_def)
  have k7: "Suc k \<le> 7" and kk: "chain_level k" "k \<noteq> 3" using k by (auto simp: k_def)
  have "feeds L k (BinaryOp l op r)"
    unfolding feeds_def
  proof (intro allI impI)
    fix vs rest :: "'a tsql_token list" and x
    assume s: "stops (Suc k) (first (vs @ rest))" and
      y: "yields (chain_loop (chain_ops k) (grammar L (Suc k)) (BinaryOp l op r)) vs rest x"
    have "yields (grammar L (Suc k)) (toks (Suc k) r) (vs @ rest) r"
      using everywhere_parses [OF assms(2) k7] s by (simp add: parses_def)
    then have "yields (chain_loop (chain_ops k) (grammar L (Suc k)) l) (Tok (op_name op) # toks (Suc k) r @ vs) rest x"
      by (rule yields_chain_loop(2) [OF sim_grammar chain_ops_eof op _ y])
    note loop = this
    show "yields (grammar L k) (toks k (BinaryOp l op r) @ vs) rest x"
    proof (cases "k = 5 \<and> qualified_col l")
      case True
      have "yields (grammar L (Suc k)) (toks (Suc k) l) ((Tok (op_name op) # toks (Suc k) r @ vs) @ rest) l"
        using everywhere_parses [OF assms(1) k7] stop unfolding parses_def by (metis append_Cons first_simps(2))
      then have "yields (grammar L k) (toks (Suc k) l @ Tok (op_name op) # toks (Suc k) r @ vs) rest x"
        unfolding grammar_chain [OF kk(1)] chain_chain_loop using loop by (rule yields_andthen)
      then show ?thesis
        using True qualified_col_lev [of l] by (simp add: toks_def enclose_def left_lev_def right_lev_def k_def)
    next
      case False
      then have "feeds L k l" using assms(1) kk unfolding everywhere_def by blast
      with loop have "yields (grammar L k) (toks k l @ Tok (op_name op) # toks (Suc k) r @ vs) rest x"
        using stop unfolding feeds_def by (metis append_Cons first_simps(2))
      then show ?thesis
        using kk False by (auto simp add: toks_def enclose_def left_lev_def right_lev_def k_def)
    qed
  qed
  moreover from this have "parses L k (BinaryOp l op r)" by (rule feeds_parses) (rule kk)
  ultimately show ?thesis using kk by (intro everywhere_intro [OF assms(3)]) (auto simp: k_def)
qed

end
