(* ===== verification/TsqlExpr_Cases.thy ===== *)
theory TsqlExpr_Cases
  imports TsqlExpr_Roundtrip
begin

section \<open>The round trip, construct by construct\<close>

text \<open>
  Each lemma takes the round trip of the operands at every level and shows it for the construct, at
  the level of the grammar that reads it; \<open>everywhere_intro\<close> carries it to the other levels.
\<close>

subsection \<open>Comparisons\<close>

lemma comparison_own:
  assumes e: "printable L e" "lev e = 3" "raw e = enclose (lev l < 4) (raw l) @ ts" and l: "everywhere L l"
    and ts: "ts \<noteq> []" "stops 4 (hd ts)"
    and tail: "\<And>rest. stops 3 (first rest) \<Longrightarrow> yields (comparison_tail L l) ts rest e"
  shows "everywhere L e"
proof (rule everywhere_intro [OF e(1)])
  show "parses L (lev e) e"
    unfolding parses_def
  proof (intro allI impI)
    fix rest :: "'a tsql_token list"
    assume "stops (lev e) (first rest)"
    then have t: "yields (comparison_tail L l) ts rest e" using e(2) by (intro tail) simp
    have "stops 4 (first (ts @ rest))" using ts by (simp add: first_append)
    then have r: "yields (grammar L 4) (enclose (lev l < 4) (raw l)) (ts @ rest) l" by (intro everywhere_reads(2) l) auto
    have "yields (andthen (grammar L 4) (comparison_tail L)) (enclose (lev l < 4) (raw l) @ ts) rest e"
      by (rule yields_andthen, rule r, rule t)
    then show "yields (grammar L (lev e)) (toks (lev e) e) rest e"
      using e by (simp add: grammar_steps(2) toks_def enclose_def [of False])
  qed
qed (use e(2) in auto)

lemma stops_comparison:
  assumes "op_lev op = 3"
  shows "stops 4 (Tok (op_name op))" and "map_of comparison_ops (op_name op) = Some op"
    and "op_name op \<notin> {''Is'', ''Not'', ''In'', ''Between'', ''Like''}"
  using assms
  by (cases op; simp add: op_lev_def op_name_def stops_def continues_def comparison_ops_def addition_ops_def multiplication_ops_def)+

lemma stops_no_star: "stops 5 t \<Longrightarrow> t \<noteq> Tok ''Star''"
  by (auto simp: stops_def continues_def comparison_ops_def addition_ops_def multiplication_ops_def)

lemma comparison_op_reads:
  assumes r: "everywhere L r" and op: "op_lev op = 3" and stop: "stops 3 (first rest)"
  shows "yields (parse_comparison_op L (recursive_parsers L) l neg) (Tok (op_name op) # enclose (lev r < 4) (raw r)) rest (BinaryOp l op r)"
proof -
  let ?r = "enclose (lev r < 4) (raw r)"
  have "yields (grammar L 4) ?r ([] @ rest) r" using stops_mono [OF stop, of 4] by (intro everywhere_reads(2) r) auto
  then have "yields (andthen (grammar L 4) (\<lambda>right.
      if op = EqOp then if_token ''Star'' (ret (OldStyleJoin l right OldLeftOuter)) (ret (BinaryOp l op right))
      else ret (BinaryOp l op right))) (?r @ []) rest (BinaryOp l op r)"
    by (rule yields_andthen) (use stops_no_star [OF stops_mono [OF stop]] in \<open>auto intro!: yields_if_token_no yields_ret\<close>)
  then show ?thesis
    unfolding parse_comparison_op_def grammar_steps
    by (intro yields_looking) (simp add: op_of_def stops_comparison(2) [OF op] yields_advance)
qed

lemma comparison_everywhere:
  assumes l: "everywhere L l" and r: "everywhere L r" and e: "printable L (BinaryOp l op r)" and op: "op_lev op = 3"
  shows "everywhere L (BinaryOp l op r)"
proof (rule comparison_own [OF e])
  fix rest :: "'a tsql_token list"
  assume stop: "stops 3 (first rest)"
  show "yields (comparison_tail L l) (Tok (op_name op) # enclose (lev r < 4) (raw r)) rest (BinaryOp l op r)"
    unfolding comparison_tail_def Let_def
    using stops_comparison(3) [OF op] comparison_op_reads [OF r op stop, of l False]
    by (intro yields_if_token_no yields_match_token(2)) auto
qed (use l op stops_comparison(1) [OF op] in \<open>auto simp: left_lev_def right_lev_def\<close>)

lemma tail_negated:
  assumes "k \<in> {''In'', ''Between'', ''Like''}"
    and "yields (if_token ''In'' (parse_in L (recursive_parsers L) l neg)
              (if_token ''Between'' (parse_between L (recursive_parsers L) l neg)
                 (if_token ''Like'' (parse_like L (recursive_parsers L) l neg)
                    (parse_comparison_op L (recursive_parsers L) l neg)))) (Tok k # ts) rest e"
  shows "yields (comparison_tail L l) (neg_token neg @ Tok k # ts) rest e"
  unfolding comparison_tail_def Let_def neg_token_def
  using assms by (cases neg) (auto intro!: yields_if_token_no yields_match_token)

lemma neg_token_stops:
  "k \<in> {''In'', ''Between'', ''Like''} \<Longrightarrow> neg_token neg @ Tok k # ts \<noteq> [] \<and> stops 4 (hd (neg_token neg @ Tok k # ts))"
  using stops_closing by (auto simp: neg_token_def)

lemma yields_expr_list:
  assumes "args \<noteq> []" and "list_all (everywhere L) args"
  shows "yields (parse_expr_list_r (recursive_parsers L)) (comma_sep (map raw args)) (Tok ''RightParen'' # rest) args"
  unfolding parse_expr_list_r_def
proof (rule yields_comma_list)
  show "sim False calm n (r_expr (recursive_parsers L)) (r_expr (recursive_parsers L))" for n
    by (simp add: recursive_parsers_def sim_grammar [of False n L 0, unfolded grammar_steps(4)])
  fix x and us :: "'a tsql_token list"
  assume "x \<in> set args" "first us = Tok ''Comma'' \<or> first us = first (Tok ''RightParen'' # rest)"
  then have "everywhere L x" "stops 0 (first us)" using assms(2) stops_closing(1,2) by (auto simp: list_all_iff)
  then show "yields (r_expr (recursive_parsers L)) (raw x) us x"
    by (simp add: recursive_parsers_def everywhere_reads(1))
qed (use assms in simp_all)

lemma comma_sep_start:
  assumes "args \<noteq> []" and "list_all (printable L) args"
  shows "starts_ok 0 (first (comma_sep (map raw args) @ us))"
proof -
  obtain x xs where args: "args = x # xs" using assms(1) by (cases args) auto
  then have "printable L x" using assms(2) by simp
  from first_toks [OF this, of 0] show ?thesis by (simp add: args comma_sep_Cons toks_def enclose_def)
qed

lemma in_list_everywhere:
  assumes "everywhere L l" and e: "printable L (InList l es neg)" and es: "list_all (everywhere L) es"
  shows "everywhere L (InList l es neg)"
proof (rule comparison_own [OF e])
  fix rest :: "'a tsql_token list"
  let ?list = "comma_sep (map raw es)"
  have list: "yields (parse_expr_list_r (recursive_parsers L)) ?list ([Tok ''RightParen''] @ rest) es"
    using e es yields_expr_list [of es L rest] by simp
  have "yields (andthen (parse_expr_list_r (recursive_parsers L)) (\<lambda>list. andthen (expect L ''RightParen'') (\<lambda>_. ret (InList l list neg))))
      (?list @ [Tok ''RightParen'']) rest (InList l es neg)"
    by (rule yields_andthen, rule list, rule yields_expect, rule yields_ret)
  moreover have "first (?list @ us) \<noteq> Tok ''Select''" for us
    using comma_sep_start [of es L us] e by (auto simp: starts_ok_def)
  ultimately have "yields (parse_in L (recursive_parsers L) l neg) (Tok ''LeftParen'' # ?list @ [Tok ''RightParen'']) rest (InList l es neg)"
    unfolding parse_in_def by (intro yields_expect yields_branch_no) (auto simp: at_check)
  then show "yields (comparison_tail L l) (neg_token neg @ Tok ''In'' # Tok ''LeftParen'' # ?list @ [Tok ''RightParen'']) rest (InList l es neg)"
    by (intro tail_negated) (simp_all add: yields_if_token_yes)
qed (use assms neg_token_stops [of "''In''"] in auto)


lemma between_everywhere:
  assumes l: "everywhere L l" and lo: "everywhere L lo" and hi: "everywhere L hi" and e: "printable L (Between l lo hi neg)"
  shows "everywhere L (Between l lo hi neg)"
proof (rule comparison_own [OF e])
  fix rest :: "'a tsql_token list"
  assume stop: "stops 3 (first rest)"
  let ?lo = "enclose (lev lo < 4) (raw lo)" and ?hi = "enclose (lev hi < 4) (raw hi)"
  have reads: "yields (grammar L 4) ?lo ((Tok ''And'' # ?hi @ []) @ rest) lo" "yields (grammar L 4) ?hi ([] @ rest) hi"
    using stops_mono [OF stop, of 4] stops_closing(7) by (intro everywhere_reads(2) lo hi; simp)+
  have "yields (parse_between L (recursive_parsers L) l neg) (?lo @ Tok ''And'' # ?hi @ []) rest (Between l lo hi neg)"
    unfolding parse_between_def grammar_steps
    by (rule yields_andthen, rule reads, rule yields_expect, rule yields_andthen, rule reads, rule yields_ret)
  then show "yields (comparison_tail L l) (neg_token neg @ Tok ''Between'' # ?lo @ Tok ''And'' # ?hi) rest (Between l lo hi neg)"
    by (intro tail_negated yields_if_token_no yields_if_token_yes) simp_all
qed (use l neg_token_stops [of "''Between''"] in auto)

lemma at_escape: "at s ts \<Longrightarrow> peek_ident_ci ''ESCAPE'' s \<Longrightarrow> \<not> stops 3 (first ts)"
  by (auto simp: peek_ident_ci_def peek_identifier_value_def at_peek stops_def continues_def split: tsql_token.splits option.splits)

lemma like_everywhere:
  assumes l: "everywhere L l" and pat: "everywhere L pat" and esc: "pred_option (everywhere L) esc"
    and e: "printable L (Like l pat neg esc)"
  shows "everywhere L (Like l pat neg esc)"
proof (rule comparison_own [OF e])
  fix rest :: "'a tsql_token list"
  assume stop: "stops 3 (first rest)"
  let ?pat = "enclose (lev pat < 4) (raw pat)"
    and ?esc = "case esc of None \<Rightarrow> [] | Some x \<Rightarrow> [Identifier (chs ''ESCAPE'')] @ enclose (lev x < 4) (raw x)"
  have stop4: "stops 4 (first (?esc @ rest))"
    using stops_mono [OF stop, of 4] stops_closing(12) by (auto split: option.splits)
  have read: "yields (grammar L 4) ?pat ((?esc @ []) @ rest) pat"
    using stop4 by (intro everywhere_reads(2) pat) auto
  have escape: "yields (branch (peek_ident_ci ''ESCAPE'')
         (andthen p_advance (\<lambda>_. andthen (grammar L 4) (\<lambda>e. ret (Some e)))) (ret None)) ?esc ([] @ rest) esc"
  proof (cases esc)
    case None
    have "\<not> peek_ident_ci ''ESCAPE'' s" if "at s rest" for s using at_escape [OF that] stop by blast
    then show ?thesis unfolding None option.case append_Nil by (intro yields_branch_no yields_ret) auto
  next
    case (Some x)
    have x: "yields (grammar L 4) (enclose (lev x < 4) (raw x)) ([] @ rest) x"
      using esc stops_mono [OF stop, of 4] by (intro everywhere_reads(2)) (auto simp: Some)
    have "yields (andthen (grammar L 4) (\<lambda>e. ret (Some e))) (enclose (lev x < 4) (raw x) @ []) rest (Some x)"
      by (rule yields_andthen, rule x, rule yields_ret)
    moreover have "peek_ident_ci ''ESCAPE'' s" if "at s (Identifier (chs ''ESCAPE'') # us)" for s :: "'a tsql_parser" and us
      using at_peek [OF that] by (simp add: peek_ident_ci_def peek_identifier_value_def same_ci_def)
    ultimately show ?thesis using Some by (auto intro!: yields_branch_yes yields_advance)
  qed
  have "yields (parse_like L (recursive_parsers L) l neg) (?pat @ ?esc @ []) rest (Like l pat neg esc)"
    unfolding parse_like_def grammar_steps
    by (rule yields_andthen, rule read, rule yields_andthen, rule escape, rule yields_ret)
  then show "yields (comparison_tail L l) (neg_token neg @ Tok ''Like'' # ?pat @ ?esc) rest (Like l pat neg esc)"
    by (intro tail_negated yields_if_token_no yields_if_token_yes) simp_all
qed (use l neg_token_stops [of "''Like''"] in auto)

subsection \<open>Unary operators\<close>

lemma unary_everywhere:
  assumes x: "everywhere L x" and e: "printable L (UnaryOp op x)"
  shows "everywhere L (UnaryOp op x)"
proof (rule everywhere_intro [OF e])
  show "parses L (lev (UnaryOp op x)) (UnaryOp op x)"
    unfolding parses_def
  proof (intro allI impI)
    fix rest :: "'a tsql_token list"
    assume stop: "stops (lev (UnaryOp op x)) (first rest)"
    define k where "k = Suc (lev (UnaryOp op x))"
    have k: "k = (if op = NotOp then 3 else 7)" by (simp add: k_def)
    have x: "yields (grammar L k) (enclose (lev x < k) (raw x)) ([] @ rest) x"
      using stops_mono [OF stop, of k] by (intro everywhere_reads(2) x) (auto simp: k_def)
    have "yields (andthen (grammar L k) (\<lambda>e. ret (UnaryOp op e))) (enclose (lev x < k) (raw x) @ []) rest (UnaryOp op x)"
      by (rule yields_andthen, rule x, rule yields_ret)
    then show "yields (grammar L (lev (UnaryOp op x))) (toks (lev (UnaryOp op x)) (UnaryOp op x)) rest (UnaryOp op x)"
      using e k by (cases op) (auto simp: toks_def enclose_def [of False] grammar_steps(1,3) intro!: yields_if_token_yes yields_if_token_no)
  qed
qed auto


subsection \<open>Primary expressions\<close>

lemma primary_own:
  assumes e: "printable L e" "lev e = 7" and "\<And>rest. stops 7 (first rest) \<Longrightarrow> yields (grammar L 7) (raw e) rest e"
  shows "everywhere L e"
  by (rule everywhere_intro [OF e(1)]) (use assms in \<open>auto simp: parses_def toks_def enclose_def\<close>)

lemma stops_name: "stops 7 t \<Longrightarrow> t \<noteq> Tok ''Dot'' \<and> t \<noteq> Tok ''LeftParen''"
  by (auto simp: stops_def continues_def comparison_ops_def addition_ops_def multiplication_ops_def)

lemma primary_leaf:
  "yields (grammar L 7) [AtVariable v] rest (Variable v)"
  "yields (grammar L 7) [AtAtVariable v] rest (SystemVariable v)"
  "yields (grammar L 7) [Tok ''Star''] rest Wildcard"
  "l \<notin> range LitDateTime \<union> range LitBit \<Longrightarrow> yields (grammar L 7) [literal_token l] rest (Literal l)"
  unfolding grammar_steps(5) parse_primary_def
  by (cases l; auto intro!: yields_looking yields_advance yields_ret)+

lemma primary_name:
  assumes "yields (parse_column_ref_or_function L (recursive_parsers L)) (QuotedIdentifier name # ts) rest x"
  shows "yields (grammar L 7) (QuotedIdentifier name # ts) rest x"
  unfolding grammar_steps(5) parse_primary_def using assms by (intro yields_looking) simp

lemma column_reads:
  "stops 7 (first rest) \<Longrightarrow> yields (grammar L 7) [QuotedIdentifier c] rest (ColumnRef None None None c)"
  "first rest \<noteq> Tok ''Dot'' \<Longrightarrow> first rest \<noteq> Tok ''Star'' \<Longrightarrow>
     yields (grammar L 7) [QuotedIdentifier t, Tok ''Dot'', QuotedIdentifier c] rest (ColumnRef None None (Some t) c)"
  "yields (grammar L 7) [QuotedIdentifier d, Tok ''Dot'', QuotedIdentifier s, Tok ''Dot'', QuotedIdentifier t, Tok ''Dot'', QuotedIdentifier c]
     rest (ColumnRef (Some d) (Some s) (Some t) c)"
proof -
  show "yields (grammar L 7) [QuotedIdentifier c] rest (ColumnRef None None None c)" if "stops 7 (first rest)"
    using stops_name [OF that]
    by (intro primary_name) (auto simp: parse_column_ref_or_function_def at_check
        intro!: yields_quoted yields_if_token_no yields_branch_no yields_ret)
  show "yields (grammar L 7) [QuotedIdentifier t, Tok ''Dot'', QuotedIdentifier c] rest (ColumnRef None None (Some t) c)"
    if "first rest \<noteq> Tok ''Dot''" "first rest \<noteq> Tok ''Star''"
    using that by (intro primary_name) (auto simp: parse_column_ref_or_function_def
        intro!: yields_quoted yields_if_token_yes yields_if_token_no yields_ret)
  show "yields (grammar L 7) [QuotedIdentifier d, Tok ''Dot'', QuotedIdentifier s, Tok ''Dot'', QuotedIdentifier t, Tok ''Dot'', QuotedIdentifier c]
     rest (ColumnRef (Some d) (Some s) (Some t) c)"
    unfolding parse_column_ref_or_function_def
    by (intro primary_name) (auto simp: parse_column_ref_or_function_def intro!: yields_quoted yields_if_token_yes yields_ret)
qed

lemma leaf_descends:
  assumes "yields (grammar L 7) ts rest e" and "stops k (first rest)" and "starts_ok 7 (first (ts @ rest))" and "k \<le> 7"
  shows "yields (grammar L k) ts rest e"
  using assms(4)
proof (induction rule: inc_induct)
  case base
  show ?case by (rule assms(1))
next
  case (step n)
  then have "n \<le> 6" "Suc n \<le> 7" by simp_all
  then show ?case
    by (intro yields_descend_step [OF step.IH] stops_mono [OF assms(2)] starts_ok_mono [OF assms(3)]) (use step.hyps in simp_all)
qed

lemma dotted_column_everywhere: "everywhere L (ColumnRef None None (Some t) c)"
proof (rule everywhere_intro)
  let ?e = "ColumnRef None None (Some t) c :: 'a tsql_expr"
  show "parses L (lev ?e) ?e"
    unfolding parses_def
  proof (intro allI impI)
    fix rest :: "'a tsql_token list"
    assume "stops (lev ?e) (first rest)"
    then have stop: "stops 5 (first rest)" by simp
    then have "first rest \<noteq> Tok ''Dot''" "first rest \<noteq> Tok ''Star''" using stops_name [OF stops_mono [OF stop]] stops_no_star by auto
    then have "yields (grammar L 5) [QuotedIdentifier t, Tok ''Dot'', QuotedIdentifier c] rest ?e"
      by (intro leaf_descends [OF column_reads(2) stop]) (simp_all add: starts_ok_def image_iff)
    then show "yields (grammar L (lev ?e)) (toks (lev ?e) ?e) rest ?e" by (simp add: toks_def enclose_def)
  qed
qed (simp_all add: qualified_col_def)

lemma column_everywhere:
  assumes "printable L (ColumnRef d s t c)"
  shows "everywhere L (ColumnRef d s t c)"
proof -
  consider "d = None" "s = None" "t = None" | t' where "d = None" "s = None" "t = Some t'"
    | d' s' t' where "d = Some d'" "s = Some s'" "t = Some t'"
    using assms by (cases d; cases s; cases t) (auto split: if_splits)
  then show ?thesis
  proof cases
    case 1
    then show ?thesis using assms column_reads(1) by (intro primary_own) auto
  next
    case 2
    then show ?thesis by (simp add: dotted_column_everywhere)
  next
    case 3
    then show ?thesis using assms column_reads(3) by (intro primary_own) auto
  qed
qed


subsection \<open>Calls\<close>

lemma call_reads:
  assumes "yields (parse_function_call L (recursive_parsers L) name (upper_chars (pl_chars L) name)) (Tok ''LeftParen'' # ts @ [Tok ''RightParen'']) rest x"
  shows "yields (grammar L 7) (call name ts) rest x"
  unfolding call_def append_Cons append_Nil
  by (rule primary_name, unfold parse_column_ref_or_function_def, rule yields_quoted)
    (rule yields_if_token_no, simp, rule yields_branch_yes, simp add: at_check, rule assms)

lemma function_call_everywhere:
  assumes e: "printable L (FunctionCall name args)" and args: "list_all (everywhere L) args"
  shows "everywhere L (FunctionCall name args)"
proof (rule primary_own [OF e])
  fix rest :: "'a tsql_token list"
  let ?R = "recursive_parsers L"
  have other: "chs w \<noteq> upper_chars (pl_chars L) name" if "w \<in> set special_functions" for w
    using e that by (metis image_eqI image_set printable.simps(7))
  have read: "yields (branch (check ''RightParen'') (ret []) (parse_expr_list_r ?R)) (comma_sep (map raw args)) ([Tok ''RightParen''] @ rest) args"
  proof (cases args)
    case Nil
    have "yields (branch (check ''RightParen'') (ret []) (parse_expr_list_r ?R)) [] ([Tok ''RightParen''] @ rest) []"
      by (rule yields_branch_yes) (simp_all add: at_check yields_ret)
    then show ?thesis by (simp add: Nil comma_sep_def)
  next
    case (Cons x xs)
    then have "args \<noteq> []" by simp
    moreover have "first (comma_sep (map raw args) @ us) \<noteq> Tok ''RightParen''" for us
      using comma_sep_start [OF \<open>args \<noteq> []\<close>, of L us] e by (auto simp: starts_ok_def)
    ultimately show ?thesis
      using yields_expr_list [OF _ args, of rest] by (intro yields_branch_no) (simp_all add: at_check)
  qed
  have "yields (parse_function_call L ?R name (upper_chars (pl_chars L) name))
      (Tok ''LeftParen'' # comma_sep (map raw args) @ [Tok ''RightParen'']) rest (FunctionCall name args)"
    unfolding parse_function_call_def
    by (rule yields_expect, simp only: other [THEN not_sym] special_functions_def list.set insert_iff simp_thms if_False,
      rule yields_andthen, rule read, rule yields_expect, rule yields_ret)
  then show "yields (grammar L 7) (raw (FunctionCall name args)) rest (FunctionCall name args)"
    using call_reads by simp
qed simp

lemma special_calls:
  "parse_function_call L R name (upper_chars C (chs ''COALESCE'')) =
     andthen (expect L ''LeftParen'') (\<lambda>_. andthen (parse_expr_list_r R) (\<lambda>args. andthen (expect L ''RightParen'') (\<lambda>_. ret (Coalesce args))))"
  "parse_function_call L R name (upper_chars C (chs ''ISNULL'')) =
     andthen (expect L ''LeftParen'') (\<lambda>_. andthen (r_expr R) (\<lambda>e. andthen (expect L ''Comma'') (\<lambda>_. andthen (r_expr R) (\<lambda>e'.
       andthen (expect L ''RightParen'') (\<lambda>_. ret (IsNull e e'))))))"
  "parse_function_call L R name (upper_chars C (chs ''NULLIF'')) =
     andthen (expect L ''LeftParen'') (\<lambda>_. andthen (r_expr R) (\<lambda>e. andthen (expect L ''Comma'') (\<lambda>_. andthen (r_expr R) (\<lambda>e'.
       andthen (expect L ''RightParen'') (\<lambda>_. ret (NullIf e e'))))))"
  by (simp_all add: parse_function_call_def upper_chars_def upper_char_def)

lemma coalesce_everywhere:
  assumes e: "printable L (Coalesce args)" and args: "list_all (everywhere L) args"
  shows "everywhere L (Coalesce args)"
proof (rule primary_own [OF e])
  fix rest :: "'a tsql_token list"
  have list: "yields (parse_expr_list_r (recursive_parsers L)) (comma_sep (map raw args)) ([Tok ''RightParen''] @ rest) args"
    using e args yields_expr_list [of args L rest] by simp
  have "yields (andthen (parse_expr_list_r (recursive_parsers L)) (\<lambda>args. andthen (expect L ''RightParen'') (\<lambda>_. ret (Coalesce args))))
      (comma_sep (map raw args) @ [Tok ''RightParen'']) rest (Coalesce args)"
    by (rule yields_andthen, rule list, rule yields_expect, rule yields_ret)
  then show "yields (grammar L 7) (raw (Coalesce args)) rest (Coalesce args)"
    unfolding raw.simps by (intro call_reads) (unfold special_calls, rule yields_expect)
qed simp

lemma pair_reads:
  assumes "everywhere L a" and "everywhere L b"
  shows "yields (andthen (parse_expr L) (\<lambda>e. andthen (expect L ''Comma'') (\<lambda>_. andthen (parse_expr L) (\<lambda>e'.
      andthen (expect L ''RightParen'') (\<lambda>_. ret (f e e')))))) (raw a @ Tok ''Comma'' # raw b @ [Tok ''RightParen'']) rest (f a b)"
proof -
  have "yields (parse_expr L) (raw a) ((Tok ''Comma'' # raw b @ [Tok ''RightParen'']) @ rest) a"
    and "yields (parse_expr L) (raw b) ([Tok ''RightParen''] @ rest) b"
    using assms by (simp_all add: everywhere_reads(1) stops_closing)
  note read = this
  show ?thesis
    by (rule yields_andthen, rule read, rule yields_expect, rule yields_andthen, rule read, rule yields_expect, rule yields_ret)
qed

lemma is_null_everywhere:
  assumes "printable L (IsNull a b)" and "everywhere L a" and "everywhere L b"
  shows "everywhere L (IsNull a b)"
  by (rule primary_own [OF assms(1)], simp, unfold raw.simps, rule call_reads, unfold special_calls, rule yields_expect)
    (use pair_reads [OF assms(2,3), of IsNull] in \<open>simp add: recursive_parsers_def\<close>)

lemma null_if_everywhere:
  assumes "printable L (NullIf a b)" and "everywhere L a" and "everywhere L b"
  shows "everywhere L (NullIf a b)"
  by (rule primary_own [OF assms(1)], simp, unfold raw.simps, rule call_reads, unfold special_calls, rule yields_expect)
    (use pair_reads [OF assms(2,3), of NullIf] in \<open>simp add: recursive_parsers_def\<close>)


subsection \<open>CASE\<close>

definition when_tokens :: "('f tsql_expr \<times> 'f tsql_expr) list \<Rightarrow> 'f tsql_token list" where
  "when_tokens whens = concat (map (\<lambda>(w, t). [Tok ''When''] @ raw w @ [Tok ''Then''] @ raw t) whens)"

definition when_body where
  "when_body L ws = if_token ''When''
     (andthen (parse_expr L) (\<lambda>w. andthen (expect L ''Then'') (\<lambda>_. andthen (parse_expr L) (\<lambda>t. ret (Inl (ws @ [(w, t)]))))))
     (ret (Inr ws))"

lemma when_loop:
  assumes "list_all (\<lambda>(w, t). everywhere L w \<and> everywhere L t) whens" and "first rest = Tok ''Else'' \<or> first rest = Tok ''End''"
  shows "yields (ploop (when_body L) ws) (when_tokens whens) rest (ws @ whens)"
  using assms(1)
proof (induction whens arbitrary: ws)
  have sim: "sim False isl n (when_body L a) (when_body L a)" for n a
    unfolding when_body_def by ((rule sim_parse_expr | rule sim_eat_in | rule sim_rest | simp)+)
  case Nil
  have "yields (when_body L ws) [] rest (Inr ws)"
    unfolding when_body_def using assms(2) by (intro yields_if_token_no yields_ret) auto
  then show ?case using yields_loop(2) [OF sim] by (simp add: when_tokens_def)
next
  have sim: "sim False isl n (when_body L a) (when_body L a)" for n a
    unfolding when_body_def by ((rule sim_parse_expr | rule sim_eat_in | rule sim_rest | simp)+)
  case (Cons wt whens)
  obtain w t where wt: "wt = (w, t)" by force
  let ?more = "when_tokens whens @ rest"
  have "first ?more \<in> {Tok ''When'', Tok ''Else'', Tok ''End''}"
    using assms(2) by (cases whens) (auto simp: when_tokens_def split: prod.splits)
  then have stop: "stops 0 (first ?more)" using stops_closing by auto
  have "yields (parse_expr L) (raw w) ((Tok ''Then'' # raw t @ []) @ ?more) w" "yields (parse_expr L) (raw t) ([] @ ?more) t"
    using Cons.prems stop by (auto simp: wt everywhere_reads(1) stops_closing)
  note read = this
  have "yields (when_body L ws) (Tok ''When'' # raw w @ Tok ''Then'' # raw t @ []) ?more (Inl (ws @ [(w, t)]))"
    unfolding when_body_def
    by (rule yields_if_token_yes, rule yields_andthen, rule read, rule yields_expect, rule yields_andthen, rule read, rule yields_ret)
  moreover have "yields (ploop (when_body L) (ws @ [(w, t)])) (when_tokens whens) rest ((ws @ [(w, t)]) @ whens)"
    using Cons.prems by (intro Cons.IH) simp
  ultimately have "yields (ploop (when_body L) ws) ((Tok ''When'' # raw w @ Tok ''Then'' # raw t @ []) @ when_tokens whens) rest ((ws @ [(w, t)]) @ whens)"
    by (rule yields_loop(1) [OF sim])
  then show ?case by (simp add: wt when_tokens_def)
qed

lemma case_everywhere:
  assumes e: "printable L (CaseWhen operand whens els)" and operand: "pred_option (everywhere L) operand"
    and whens: "list_all (\<lambda>(w, t). everywhere L w \<and> everywhere L t) whens" and els: "pred_option (everywhere L) els"
  shows "everywhere L (CaseWhen operand whens els)"
proof (rule primary_own [OF e])
  fix rest :: "'a tsql_token list"
  let ?else = "(case els of None \<Rightarrow> [] | Some e \<Rightarrow> [Tok ''Else''] @ raw e) @ [Tok ''End'']"
  let ?tail = "when_tokens whens @ ?else"
  have else_read: "yields (andthen (opt_clause ''Else'' (parse_expr L)) (\<lambda>else_expr. andthen (expect L ''End'') (\<lambda>_.
      ret (CaseWhen operand whens else_expr)))) ?else rest (CaseWhen operand whens els)"
  proof (cases els)
    case None
    then show ?thesis by (auto intro!: yields_opt_clause(2) yields_expect yields_ret)
  next
    case (Some x)
    have "yields (parse_expr L) (raw x) ([Tok ''End''] @ rest) x" using els Some by (simp add: everywhere_reads(1) stops_closing)
    then show ?thesis using Some by (auto intro!: yields_opt_clause(1) yields_expect yields_ret)
  qed
  have "first (?else @ rest) = Tok ''Else'' \<or> first (?else @ rest) = Tok ''End''" by (cases els) auto
  then have loop: "yields (ploop (when_body L) []) (when_tokens whens) (?else @ rest) whens"
    using when_loop [OF whens, of "?else @ rest" "[]"] by simp
  have start: "first (?tail @ us) \<in> {Tok ''When'', Tok ''Else'', Tok ''End''}" for us
    by (cases whens; cases els) (auto simp: when_tokens_def split: prod.splits)
  have operand_read: "yields (branch (\<lambda>s. \<not> check ''When'' s) (andthen (parse_expr L) (\<lambda>e. ret (Some e))) (ret None))
      (case operand of None \<Rightarrow> [] | Some e \<Rightarrow> raw e) (?tail @ rest) operand"
  proof (cases operand)
    case None
    then have "first (?tail @ rest) = Tok ''When''" using e by (cases whens) (auto simp: when_tokens_def)
    then show ?thesis using None by (auto simp: at_check intro!: yields_branch_no yields_ret)
  next
    case (Some x)
    have x: "yields (parse_expr L) (raw x) ([] @ ?tail @ rest) x"
      using operand Some start [of rest] stops_closing by (intro everywhere_reads(1)) auto
    have "first (raw x @ us) \<noteq> Tok ''When''" for us
      using first_toks [of L x 0 us] e Some by (simp add: toks_def enclose_def starts_ok_def image_iff)
    moreover have "yields (andthen (parse_expr L) (\<lambda>e. ret (Some e))) (raw x @ []) (?tail @ rest) (Some x)"
      by (rule yields_andthen, rule x, rule yields_ret)
    ultimately show ?thesis using Some by (intro yields_branch_yes) (simp_all add: at_check)
  qed
  have "yields (parse_case_expr L (recursive_parsers L)) (Tok ''Case'' # (case operand of None \<Rightarrow> [] | Some e \<Rightarrow> raw e) @ ?tail) rest
      (CaseWhen operand whens els)"
    unfolding parse_case_expr_def recursive_parsers_def parsers.select_convs
    by (rule yields_expect, rule yields_andthen, rule operand_read, rule yields_andthen, rule loop [unfolded when_body_def [abs_def]],
      rule else_read)
  then show "yields (grammar L 7) (raw (CaseWhen operand whens els)) rest (CaseWhen operand whens els)"
    unfolding grammar_steps parse_primary_def by (intro yields_looking) (simp add: when_tokens_def)
qed simp

subsection \<open>All expressions\<close>

lemma printable_everywhere: "printable L e \<Longrightarrow> everywhere L e"
proof (induction e rule: raw.induct)
  case (1 l)
  then have "l \<notin> range LitDateTime \<union> range LitBit" by (auto split: tsql_literal.splits)
  then show ?case by (intro primary_own [OF "1.prems"]) (simp_all add: primary_leaf)
next
  case (7 l op r)
  then have "everywhere L l" "everywhere L r" by simp_all
  then show ?case using op_levs(1) [of op] chain_everywhere [OF _ _ "7.prems"] comparison_everywhere [OF _ _ "7.prems"] by blast
next
  case (8 op e)
  then show ?case by (intro unary_everywhere) (cases op; simp)+
next
  case (9 name args)
  then show ?case by (intro function_call_everywhere) (auto simp: list_all_iff)
next
  case (10 args)
  then show ?case by (intro coalesce_everywhere) (auto simp: list_all_iff)
next
  case (11 a b)
  then show ?case by (intro is_null_everywhere) simp_all
next
  case (12 a b)
  then show ?case by (intro null_if_everywhere) simp_all
next
  case (13 operand whens els)
  have "pred_option (everywhere L) operand" using 13 by (cases operand) auto
  moreover have "list_all (\<lambda>(w, t). everywhere L w \<and> everywhere L t) whens" using 13 by (fastforce simp: list_all_iff)
  moreover have "pred_option (everywhere L) els" using 13 by (cases els) auto
  ultimately show ?case by (rule case_everywhere [OF "13.prems"])
next
  case (14 e es neg)
  then show ?case by (intro in_list_everywhere) (auto simp: list_all_iff)
next
  case (15 e lo hi neg)
  then show ?case by (intro between_everywhere) simp_all
next
  case (16 e pat neg esc)
  moreover have "pred_option (everywhere L) esc" using 16 by (cases esc) auto
  ultimately show ?case by (intro like_everywhere) simp_all
qed (auto intro!: column_everywhere primary_own primary_leaf)

text \<open>
  C28. Printing an expression with parentheses where an operand binds less tightly than its operator
  and parsing the text gives the expression back: the operators have the levels OR, AND, NOT,
  comparison, addition, multiplication and unary and group to the left, and calls, CASE, IN, BETWEEN and
  LIKE hold their parts. A column with the name of its table has parentheses as an operand of a
  multiplication or a sign, because the parser takes a star behind it for a wildcard. The parser stops
  right behind the expression, wherever it stands in the text, when the next token does not continue
  an expression. CAST, CONVERT, IS NULL, EXISTS and subqueries are not among the expressions.
\<close>

theorem expr_roundtrip:
  assumes "printable L e" and "stops 0 (first rest)"
  shows "parse_expr L \<lparr>ps_tokens = before @ raw e @ rest, ps_pos = length before\<rparr> =
    Some (Inr (e, \<lparr>ps_tokens = before @ raw e @ rest, ps_pos = length before + length (raw e)\<rparr>))"
proof -
  let ?s = "\<lparr>ps_tokens = before @ raw e @ rest, ps_pos = length before\<rparr>"
  have "yields (parse_expr L) (raw e) rest e"
    using everywhere_reads(1) [OF printable_everywhere [OF assms(1)] assms(2)] .
  moreover have "at ?s (raw e @ rest)" by (simp add: at_def)
  ultimately show ?thesis by (simp add: yields_def fwd_def)
qed

text \<open>
  The text of (a OR t.b) AND NOT c IN (1, -d * 2), between a WHERE and a semicolon.
\<close>

definition sample_expr :: "nat tsql_expr" where
  "sample_expr =
     (let col = \<lambda>c. ColumnRef None None None (chs c)
      in BinaryOp (BinaryOp (col ''a'') OrOp (ColumnRef None None (Some (chs ''t'')) (chs ''b''))) AndOp
           (UnaryOp NotOp (InList (col ''c'') [Literal (LitInt 1),
              BinaryOp (UnaryOp Negate (col ''d'')) Multiply (Literal (LitInt 2))] False)))"

definition plain_lib :: "nat parser_lib" where
  "plain_lib =
     \<lparr>pl_chars = \<lparr>uni_whitespace = \<lambda>_. False, uni_alphabetic = \<lambda>_. False, uni_numeric = \<lambda>_. False, uni_upper = id,
        parse_f64 = \<lambda>_. None\<rparr>, pl_debug_str = id, pl_debug_f64 = \<lambda>_. []\<rparr>"

theorem expr_roundtrip_witness:
  "parse_expr plain_lib \<lparr>ps_tokens = [Tok ''Where''] @ raw sample_expr @ [Tok ''Semicolon''], ps_pos = 1\<rparr> =
     Some (Inr (sample_expr, \<lparr>ps_tokens = [Tok ''Where''] @ raw sample_expr @ [Tok ''Semicolon''], ps_pos = 20\<rparr>))
   \<and> length (raw sample_expr) = 19"
proof -
  have "printable plain_lib sample_expr" by (simp add: sample_expr_def)
  moreover have "stops 0 (first [Tok ''Semicolon''])"
    by (simp add: stops_def continues_def comparison_ops_def addition_ops_def multiplication_ops_def)
  moreover have "length (raw sample_expr) = 19"
    by (simp add: sample_expr_def qualified_col_def op_lev_def left_lev_def right_lev_def enclose_def neg_token_def comma_sep_def)
  ultimately show ?thesis using expr_roundtrip [of plain_lib sample_expr "[Tok ''Semicolon'']" "[Tok ''Where'']"] by simp
qed

end
