(* ===== verification/TsqlLexer_Correct.thy ===== *)
theory TsqlLexer_Correct
  imports TsqlLexer
begin

section \<open>Properties of the T-SQL lexer\<close>

text \<open>
  The shape of a token list, the positions of errors, the round trip of quoted text, and the
  keywords in any case. The lexer is a total function: the progress of \<open>next_token\<close> makes the
  loop of \<open>tokenize\<close> end.
\<close>

subsection \<open>The shape of the result\<close>

definition layout :: "'f tsql_token \<Rightarrow> bool" where
  "layout t \<longleftrightarrow> t = Tok ''Whitespace'' \<or> t = Tok ''Newline'' \<or> t = Tok ''Eof''"

text \<open>
  C25. For every input the lexer returns, with an error or with a list of tokens; the list ends with
  the only end-of-input token and has no white space, newline or comment in it.
\<close>

theorem tokenize_shape:
  "case tokenize C lx of
     Inl e \<Rightarrow> True
   | Inr ts \<Rightarrow> \<exists>us. ts = us @ [Tok ''Eof''] \<and> list_all (\<lambda>t. \<not> layout t) us"
proof (induction C lx rule: tokenize.induct)
  case (1 C lx)
  show ?case
  proof (cases "next_token C lx")
    case (Inl e)
    then show ?thesis by (subst tokenize.simps) simp
  next
    case (Inr p)
    obtain tok lx' where p: "p = (tok, lx')" by (cases p)
    show ?thesis
    proof (cases "tok = Tok ''Eof''")
      case True
      with Inr p show ?thesis by (subst tokenize.simps) simp
    next
      case False
      have IH: "case tokenize C lx' of Inl e \<Rightarrow> True
          | Inr ts \<Rightarrow> \<exists>us. ts = us @ [Tok ''Eof''] \<and> list_all (\<lambda>t. \<not> layout t) us"
        using 1 [OF Inr p [symmetric] False] .
      have step: "tokenize C lx = (if tok = Tok ''Whitespace'' \<or> tok = Tok ''Newline'' then tokenize C lx'
          else map_ok (Cons tok) (tokenize C lx'))"
        using Inr p False by (subst tokenize.simps) (simp add: Let_def)
      show ?thesis
      proof (cases "tokenize C lx'")
        case (Inr ts)
        with IH obtain us where "ts = us @ [Tok ''Eof'']" "list_all (\<lambda>t. \<not> layout t) us" by auto
        with Inr step False show ?thesis
          by (auto simp: layout_def intro!: exI [of _ "tok # us"])
      qed (simp add: step)
    qed
  qed
qed

subsection \<open>Positions\<close>

text \<open>Line and column of the cursor, computed from the text before it.\<close>

definition line_at :: "uchar list \<Rightarrow> nat \<Rightarrow> nat" where
  "line_at input pos = 1 + length (filter (\<lambda>c. c = 10) (take pos input))"

definition column_at :: "uchar list \<Rightarrow> nat \<Rightarrow> nat" where
  "column_at input pos = 1 + length (takeWhile (\<lambda>c. c \<noteq> 10) (rev (take pos input)))"

definition lx_ok :: "uchar list \<Rightarrow> tsql_lexer \<Rightarrow> bool" where
  "lx_ok input lx \<longleftrightarrow> lx_input lx = input \<and> lx_pos lx \<le> length input \<and>
     lx_line lx = line_at input (lx_pos lx) \<and> lx_col lx = column_at input (lx_pos lx)"

lemma lx_ok_new: "lx_ok input (lexer_new input)"
  by (simp add: lx_ok_def lexer_new_def line_at_def column_at_def)

lemma lx_ok_advance:
  assumes "lx_ok input lx"
  shows "lx_ok input (advance lx)"
proof (cases "lx_pos lx < length input")
  case True
  then have "take (lx_pos lx + 1) input = take (lx_pos lx) input @ [input ! lx_pos lx]"
    by (simp add: take_Suc_conv_app_nth)
  with True assms show ?thesis
    by (auto simp: lx_ok_def advance_def peek_def line_at_def column_at_def)
qed (use assms in \<open>simp add: advance_def peek_def lx_ok_def\<close>)

lemma lx_ok_reach: "reach lx lx' \<Longrightarrow> lx_ok input lx \<Longrightarrow> lx_ok input lx'"
proof -
  assume "reach lx lx'" and ok: "lx_ok input lx"
  then obtain n where "lx' = (advance ^^ n) lx" by (auto simp: reach_def)
  moreover have "lx_ok input ((advance ^^ n) lx)" by (induction n) (simp_all add: ok lx_ok_advance)
  ultimately show ?thesis by simp
qed

lemma tokenize_error_reached:
  assumes "tokenize C lx = Inl e"
  shows "\<exists>lx' msg. reach lx lx' \<and> e = lex_err lx' msg"
  using assms
proof (induction C lx rule: tokenize.induct)
  case (1 C lx)
  show ?case
  proof (cases "peek lx")
    case None
    then have "next_token C lx = Inr (Tok ''Eof'', lx)" by (simp add: next_token_def)
    with 1(2) show ?thesis by (subst (asm) tokenize.simps) simp
  next
    case (Some c)
    note r = reads_next_token [OF Some, of C]
    show ?thesis
    proof (cases "next_token C lx")
      case (Inl e')
      with 1(2) have "e = e'" by (subst (asm) tokenize.simps) simp
      with r Inl show ?thesis by (auto simp: reads_def)
    next
      case (Inr p)
      obtain tok lx' where p: "p = (tok, lx')" by (cases p)
      with r Inr have reach: "reach (advance lx) lx'" and tok: "tok \<noteq> Tok ''Eof''" by (auto simp: reads_def)
      have "tokenize C lx' = Inl e"
        using 1(2) Inr p tok
        by (subst (asm) tokenize.simps) (cases "tokenize C lx'", auto simp: Let_def split: if_splits)
      from 1(1) [OF Inr p [symmetric] tok this] reach_advance [OF reach] show ?thesis
        by (blast intro: reach_trans)
    qed
  qed
qed

text \<open>
  C24. An error of the lexer names a position in the text, at most its length, and the line and
  column of that position: one more than the line feeds before it, one more than the characters
  since the last of them.
\<close>

theorem tokenize_error_position:
  "case tokenize C (lexer_new input) of
     Inr ts \<Rightarrow> True
   | Inl e \<Rightarrow> pe_position e \<le> length input \<and> pe_line e = line_at input (pe_position e) \<and>
        pe_column e = column_at input (pe_position e)"
proof (cases "tokenize C (lexer_new input)")
  case (Inl e)
  from tokenize_error_reached [OF this] obtain lx msg where "reach (lexer_new input) lx" "e = lex_err lx msg" by blast
  with lx_ok_reach [OF _ lx_ok_new] have "lx_ok input lx" by blast
  with \<open>e = _\<close> Inl show ?thesis by (simp add: lx_ok_def lex_err_def parse_error_new_def)
qed simp

subsection \<open>What is left of the input\<close>

definition rest :: "tsql_lexer \<Rightarrow> uchar list" where
  "rest lx = drop (lx_pos lx) (lx_input lx)"

lemma peek_rest: "peek lx = (case rest lx of [] \<Rightarrow> None | c # _ \<Rightarrow> Some c)"
  by (cases "lx_pos lx < length (lx_input lx)") (simp_all add: peek_def rest_def Cons_nth_drop_Suc [symmetric])

lemma rest_advance [simp]: "rest (advance lx) = tl (rest lx)"
  by (auto simp: advance_def peek_def rest_def drop_Suc tl_drop)

lemma rest_new [simp]: "rest (lexer_new input) = input"
  by (simp add: rest_def lexer_new_def)

lemma peek_ahead_rest: "peek_ahead lx n = (if n < length (rest lx) then Some (rest lx ! n) else None)"
  by (auto simp: peek_ahead_def rest_def)

lemma tokenize_end: "rest lx = [] \<Longrightarrow> tokenize C lx = Inr [Tok ''Eof'']"
  by (subst tokenize.simps) (simp add: next_token_def peek_rest)

lemma tokenize_step:
  assumes "next_token C lx = Inr (tok, lx')" and "\<not> layout tok"
  shows "tokenize C lx = map_ok (Cons tok) (tokenize C lx')"
  using assms by (subst tokenize.simps) (simp add: layout_def Let_def)

subsection \<open>Quoted text\<close>

fun doubled :: "uchar \<Rightarrow> uchar list \<Rightarrow> uchar list" where
  "doubled q [] = []"
| "doubled q (c # s) = (if c = q then [q, q] else [c]) @ doubled q s"

lemma quoted_chars_doubled:
  assumes "rest lx = doubled q s @ q # r" and "r = [] \<or> hd r \<noteq> q"
  shows "fst (quoted_chars q lx) = Some s \<and> rest (snd (quoted_chars q lx)) = r"
  using assms
proof (induction s arbitrary: lx)
  case Nil
  then show ?case
    by (subst (1 2) quoted_chars.simps) (auto simp: peek_rest split: list.splits)
next
  case (Cons c s)
  define next_lx where "next_lx = (if c = q then advance (advance lx) else advance lx)"
  have "rest next_lx = doubled q s @ q # r" using Cons.prems(1) by (auto simp: next_lx_def)
  from Cons.IH [OF this Cons.prems(2)]
  have IH: "fst (quoted_chars q next_lx) = Some s" "rest (snd (quoted_chars q next_lx)) = r" by auto
  have "quoted_chars q lx = (case quoted_chars q next_lx of (s, lx') \<Rightarrow> (map_option (Cons c) s, lx'))"
    using Cons.prems(1) by (subst quoted_chars.simps) (auto simp: peek_rest next_lx_def)
  with IH show ?case by (cases "quoted_chars q next_lx") simp
qed

text \<open>
  C23. Quoting is a round trip for every text: between single quotes with every quote doubled it is
  read back as the string literal of exactly that text, with an \<open>N\<close> in front as a national one,
  and between double quotes as the quoted identifier.
\<close>

theorem quoted_roundtrip:
  "tokenize C (lexer_new (39 # doubled 39 s @ [39])) = Inr [StringLiteral s, Tok ''Eof''] \<and>
   tokenize C (lexer_new (ch CHR ''N'' # 39 # doubled 39 s @ [39])) = Inr [NStringLiteral s, Tok ''Eof''] \<and>
   tokenize C (lexer_new (34 # doubled 34 s @ [34])) = Inr [QuotedIdentifier s, Tok ''Eof'']"
proof -
  have q: "\<exists>lx'. quoted_chars q lx = (Some s, lx') \<and> rest lx' = []" if "rest lx = doubled q s @ [q]" for q lx
    using quoted_chars_doubled [of lx q s "[]"] that by (cases "quoted_chars q lx") auto
  define a where "a = lexer_new (39 # doubled 39 s @ [39])"
  define n where "n = lexer_new (78 # 39 # doubled 39 s @ [39])"
  define d where "d = lexer_new (34 # doubled 34 s @ [34])"
  obtain la where la: "quoted_chars 39 (advance a) = (Some s, la)" "rest la = []" using q [of "advance a" 39] by (auto simp: a_def)
  obtain ln where ln: "quoted_chars 39 (advance (advance n)) = (Some s, ln)" "rest ln = []"
    using q [of "advance (advance n)" 39] by (auto simp: n_def)
  obtain ld where ld: "quoted_chars 34 (advance d) = (Some s, ld)" "rest ld = []" using q [of "advance d" 34] by (auto simp: d_def)
  have "next_token C a = Inr (StringLiteral s, la)"
    using la by (simp add: next_token_def peek_rest a_def [THEN arg_cong [where f = rest]] is_whitespace_def read_string_literal_def)
  moreover have "next_token C n = Inr (NStringLiteral s, ln)"
    using ln by (simp add: next_token_def peek_rest peek_ahead_rest n_def [THEN arg_cong [where f = rest]] is_whitespace_def read_string_literal_def)
  moreover have "next_token C d = Inr (QuotedIdentifier s, ld)"
    using ld by (simp add: next_token_def peek_rest d_def [THEN arg_cong [where f = rest]] is_whitespace_def is_ascii_digit_def
        read_quoted_identifier_def)
  ultimately show ?thesis
    using la(2) ln(2) ld(2) by (simp add: tokenize_step tokenize_end layout_def flip: a_def n_def d_def)
qed

subsection \<open>Keywords\<close>

lemma take_chars_all:
  assumes "rest lx = s @ r" and "\<forall>c \<in> set s. P c" and "r = [] \<or> \<not> P (hd r)"
  shows "fst (take_chars P lx) = s \<and> rest (snd (take_chars P lx)) = r"
  using assms
proof (induction s arbitrary: lx)
  case Nil
  then show ?case by (subst (1 2) take_chars.simps) (auto simp: peek_rest split: list.splits)
next
  case (Cons c s)
  then have "fst (take_chars P (advance lx)) = s" "rest (snd (take_chars P (advance lx))) = r" by auto
  with Cons.prems show ?case
    by (subst (1 2) take_chars.simps) (auto simp: peek_rest split: prod.splits)
qed

definition word_char :: "uchar \<Rightarrow> bool" where
  "word_char c \<longleftrightarrow> 65 \<le> c \<and> c \<le> 90 \<or> c = 95"

lemma keyword_table_words:
  "list_all (\<lambda>(w, k). w \<noteq> [] \<and> 65 \<le> hd (chs w) \<and> hd (chs w) \<le> 90 \<and> list_all word_char (chs w) \<and>
     k \<notin> set [''Whitespace'', ''Newline'', ''Eof'']) keyword_table"
  by code_simp

text \<open>Words are compared by their numbers in base 256.\<close>

definition word_code :: "string \<Rightarrow> nat" where
  "word_code w = foldr (\<lambda>c h. of_char c + 256 * h) w 0"

lemma keyword_table_distinct: "distinct (map fst keyword_table)"
proof -
  have "distinct (map word_code (map fst keyword_table))" by (simp add: keyword_table_def word_code_def)
  then show ?thesis by (simp only: distinct_map)
qed

lemma inj_chs: "inj (\<lambda>s. chs s)"
  by (rule injI) (simp add: map_injective inj_def)

lemma keyword_lookup:
  assumes "(w, k) \<in> set keyword_table"
  shows "map_of (map (\<lambda>(w, k). (chs w, k)) keyword_table) (chs w) = Some k"
proof (rule map_of_is_SomeI)
  have "map fst (map (\<lambda>(w, k). (chs w, k)) keyword_table) = map (\<lambda>s. chs s) (map fst keyword_table)"
    by (simp add: case_prod_beta)
  then show "distinct (map fst (map (\<lambda>(w, k). (chs w, k)) keyword_table))"
    using keyword_table_distinct inj_chs by (metis distinct_map inj_on_subset subset_UNIV)
  show "(chs w, k) \<in> set (map (\<lambda>(w, k). (chs w, k)) keyword_table)"
    using assms by force
qed

lemma upper_word_char:
  assumes "word_char (upper_char c)" and "c < 128"
  shows "is_alphanumeric C c \<or> c = 95"
  using assms by (auto simp: word_char_def upper_char_def is_alphanumeric_def is_alphabetic_def split: if_splits)

lemma next_token_alpha:
  assumes "peek lx = Some c" and alpha: "65 \<le> c \<and> c \<le> 90 \<or> 97 \<le> c \<and> c \<le> 122" and "peek_ahead lx 1 \<noteq> Some 39"
  shows "next_token C lx = read_identifier_or_keyword C lx"
proof -
  have "\<not> is_whitespace C c" "\<not> is_ascii_digit c" "is_alphabetic C c"
    using alpha by (auto simp: is_whitespace_def is_ascii_digit_def is_alphabetic_def)
  moreover have "c \<noteq> 45" "c \<noteq> 47" "c \<noteq> 39" "c \<noteq> 48" "c \<noteq> 36" "c \<noteq> 64" "c \<noteq> 35" "c \<noteq> 91" "c \<noteq> 34"
    using alpha by auto
  ultimately show ?thesis using assms(1,3) by (simp add: next_token_def)
qed

text \<open>
  Keywords are recognised in every mixture of cases: a word of ASCII characters whose upper-case
  form is in the keyword table is read as the token of the table.
\<close>

theorem keyword_case_insensitive:
  assumes "(w, k) \<in> set keyword_table" and "map upper_char name = chs w" and "\<forall>c \<in> set name. c < 128"
  shows "tokenize C (lexer_new name) = Inr [Tok k, Tok ''Eof'']"
proof -
  let ?P = "\<lambda>c. is_alphanumeric C c \<or> c = ch CHR ''_'' \<or> c = ch CHR ''@'' \<or> c = ch CHR ''#''"
  from assms(1) keyword_table_words have w: "w \<noteq> []" "65 \<le> hd (chs w)" "hd (chs w) \<le> 90" "list_all word_char (chs w)"
    and k: "k \<notin> set [''Whitespace'', ''Newline'', ''Eof'']"
    by (auto simp: list_all_iff)
  from w(1) assms(2) obtain c cs where name: "name = c # cs" by (cases name) auto
  have up: "65 \<le> upper_char c" "upper_char c \<le> 90" using w(2,3) assms(2) name by (auto simp: hd_map)
  have "word_char (upper_char x)" if "x \<in> set name" for x
    using w(4) that unfolding assms(2) [symmetric] list_all_iff by auto
  then have P: "\<forall>x \<in> set name. ?P x" using assms(3) upper_word_char by fastforce
  obtain lx where t: "take_chars ?P (lexer_new name) = (name, lx)" "rest lx = []"
    using take_chars_all [of "lexer_new name" name "[]" ?P] P by (cases "take_chars ?P (lexer_new name)") auto
  have alpha: "65 \<le> c \<and> c \<le> 90 \<or> 97 \<le> c \<and> c \<le> 122" using up by (auto simp: upper_char_def split: if_splits)
  have tok: "keyword_or_identifier C name = Tok k"
    using keyword_lookup [OF assms(1)] assms(2,3) by (simp add: keyword_or_identifier_def upper_chars_def)
  have second: "peek_ahead (lexer_new name) 1 \<noteq> Some 39"
  proof
    assume "peek_ahead (lexer_new name) 1 = Some 39"
    then have "1 < length name" "name ! 1 = 39" by (simp_all add: peek_ahead_rest split: if_splits)
    then have "39 \<in> set name" by (metis nth_mem)
    with P show False by (auto simp: is_alphanumeric_def is_alphabetic_def is_numeric_char_def)
  qed
  have "next_token C (lexer_new name) = read_identifier_or_keyword C (lexer_new name)"
    by (rule next_token_alpha [OF _ alpha second]) (simp add: peek_rest name)
  also have "\<dots> = Inr (Tok k, lx)" using t(1) tok by (simp add: read_identifier_or_keyword_def)
  finally show ?thesis using t(2) k by (simp add: tokenize_step tokenize_end layout_def)
qed

definition plain_chars :: "nat char_lib" where
  "plain_chars =
     \<lparr>uni_whitespace = (\<lambda>_. False), uni_alphabetic = (\<lambda>_. False), uni_numeric = (\<lambda>_. False), uni_upper = (\<lambda>s. s),
      parse_f64 = (\<lambda>_. None)\<rparr>"

theorem keyword_case_insensitive_witness:
  "tokenize plain_chars (lexer_new (chs ''SeLecT'')) = Inr [Tok ''Select'', Tok ''Eof'']"
  by (rule keyword_case_insensitive [where w = "''SELECT''"]) (simp_all add: keyword_table_def upper_char_def)

subsection \<open>Operators and literals that are read in another sense\<close>

text \<open>
  The operators \<open>!<\<close> and \<open>!>\<close>, not less than and not greater than, are read as the
  inequality operator: the tokens of \<open>1!<2\<close> are those of \<open>1<>2\<close>.
\<close>

theorem bang_less_is_inequality:
  "tokenize plain_chars (lexer_new (chs ''1!<2'')) = tokenize plain_chars (lexer_new (chs ''1<>2'')) \<and>
   tokenize plain_chars (lexer_new (chs ''1!>2'')) = tokenize plain_chars (lexer_new (chs ''1<>2''))"
  by code_simp

text \<open>
  A money literal swallows a following subtraction, and a binary literal with an odd number of
  digits is padded on the right-hand digit: \<open>$5-3\<close> is one literal, and \<open>0xABC\<close> is the bytes
  AB 0C.
\<close>

theorem money_and_binary_literals:
  "tokenize plain_chars (lexer_new (chs ''$5-3'')) = Inr [MoneyLiteral (chs ''5-3''), Tok ''Eof''] \<and>
   tokenize plain_chars (lexer_new (chs ''0xABC'')) = Inr [BinaryLiteral [171, 12], Tok ''Eof'']"
  by code_simp

end
