(* ===== verification/TsqlParser_Correct.thy ===== *)
theory TsqlParser_Correct
  imports TsqlParser_Total TsqlLexer_Correct
begin

section \<open>What the T-SQL parser returns\<close>

text \<open>
  Two consequences of \<open>TsqlParser_Total\<close> for whole texts: parsing returns on every text, with positions
  of errors that lie within it, and the functions satisfy the recursive equations of the program, so
  that the bound on the depth in their definitions cannot be seen.
\<close>

subsection \<open>It returns\<close>

lemma tokens_bounded:
  "tokenize C lx = Inr ts \<Longrightarrow> length ts \<le> Suc (left_over lx)"
proof (induction C lx arbitrary: ts rule: tokenize.induct)
  case (1 C lx)
  obtain tok lx' where tok: "next_token C lx = Inr (tok, lx')"
    using 1(2) by (subst (asm) tokenize.simps) (auto split: sum.splits)
  show ?case
  proof (cases "tok = Tok ''Eof''")
    case True
    then show ?thesis using 1(2) tok by (subst (asm) tokenize.simps) auto
  next
    case False
    then obtain us where us: "tokenize C lx' = Inr us" and "length ts \<le> Suc (length us)"
      using 1(2) tok by (subst (asm) tokenize.simps) (cases "tokenize C lx'"; auto simp: Let_def split: if_splits)
    moreover have "length us \<le> Suc (left_over lx')" using 1(1) [OF tok refl _ us] False by simp
    ultimately show ?thesis using next_token_progress [OF tok False] by simp
  qed
qed

lemma option_result_cases:
  obtains (none) "r = None" | (error) e where "r = Some (Inl e)" | (ok) x s where "r = Some (Inr (x, s))"
  by (cases r) (auto split: sum.splits, metis sum.exhaust surj_pair)

text \<open>
  C29. The parser returns on every text: with a list of statements, or with an error whose position
  lies within the text (the lexer's) or within its tokens, of which there is at most one more than
  characters. No loop of the parser runs forever and no recursion is unbounded.
\<close>

theorem tsql_parse_total:
  "\<exists>r. parse_tsql L input = Some r \<and> (case r of Inl e \<Rightarrow> pe_position e \<le> length input + 1 | Inr stmts \<Rightarrow> True)"
proof (cases "tokenize (pl_chars L) (lexer_new input)")
  case (Inl e)
  have "pe_position e \<le> length input"
  proof -
    obtain lx msg where "reach (lexer_new input) lx" "e = lex_err lx msg"
      using tokenize_error_reached [OF Inl] by blast
    with lx_ok_reach [OF _ lx_ok_new] show ?thesis by (auto simp: lx_ok_def lex_err_def parse_error_new_def)
  qed
  with Inl show ?thesis by (simp add: parse_tsql_def)
next
  case (Inr ts)
  define s where "s = \<lparr>ps_tokens = ts, ps_pos = 0\<rparr>"
  have "good calm s (parse_statements L s)"
    using simD [OF sim_parse_statements [of False] lessI] by blast
  moreover have "length ts \<le> Suc (length input)"
    using tokens_bounded [OF Inr] by (simp add: left_over_def lexer_new_def)
  ultimately show ?thesis
    using Inr unfolding parse_tsql_def s_def [symmetric]
    by (cases "parse_statements L s" rule: option_result_cases) (auto simp: s_def)
qed

text \<open>
  The fuel of the model cannot be seen: the functions satisfy the equations of the program, in
  which each calls the others with no bound on the depth.
\<close>

lemma tsql_parser_equations:
  "parse_expr L = parse_or_expr L (recursive_parsers L) \<and>
   parse_select L = parse_select_r L (recursive_parsers L) \<and>
   parse_table_ref L = parse_table_ref_r L (recursive_parsers L) \<and>
   parse_statement L = parse_statement_r L (parse_statement L)"
  using parse_expr_unfold parse_select_unfold parse_table_ref_unfold parse_statement_unfold by blast

end
