(* ===== verification/TsqlFindings.thy ===== *)
theory TsqlFindings
  imports TsqlExpr_Cases TsqlParser_Correct
begin

section \<open>Statements the T-SQL parser misreads\<close>

text \<open>
  Forms of T-SQL that the functions of crates/tsql-parser/src/parser.rs read as something else or
  reject, whatever the names in them and whatever follows.
\<close>

definition fails :: "('f, 'a) parser \<Rightarrow> 'f tsql_token list \<Rightarrow> ustring \<Rightarrow> bool" where
  "fails p ts msg \<longleftrightarrow> (\<forall>s. at s ts \<longrightarrow> (\<exists>e. p s = Some (Inl e) \<and> pe_message e = msg))"

lemma fails_err_at: "fails (err_at msg) ts msg"
  by (simp add: fails_def err_at_def parse_error_new_def)

lemma fails_andthen: "fails p ts msg \<Longrightarrow> fails (andthen p f) ts msg"
  unfolding fails_def andthen_def by fastforce

lemma fails_after:
  assumes "yields p ts us x" and "fails (f x) us msg"
  shows "fails (andthen p f) (ts @ us) msg"
  using assms at_fwd [of _ ts us] unfolding fails_def yields_def andthen_def by fastforce

lemma fails_looking: "fails (f (first ts)) ts msg \<Longrightarrow> fails (looking f) ts msg"
  by (simp add: fails_def looking_def at_peek)

lemma fails_advance: "fails (f t) ts msg \<Longrightarrow> fails (andthen p_advance f) (t # ts) msg"
  using at_fwd_1 [of _ t ts] unfolding fails_def andthen_def by (fastforce simp: at_advance)

lemma fails_branch:
  "(\<And>s. at s ts \<Longrightarrow> b s) \<Longrightarrow> fails p ts msg \<Longrightarrow> fails (branch b p q) ts msg"
  "(\<And>s. at s ts \<Longrightarrow> \<not> b s) \<Longrightarrow> fails q ts msg \<Longrightarrow> fails (branch b p q) ts msg"
  by (simp_all add: fails_def branch_def)

lemma fails_if_token:
  "fails p ts msg \<Longrightarrow> fails (if_token k p q) (Tok k # ts) msg"
  "first ts \<noteq> Tok k \<Longrightarrow> fails q ts msg \<Longrightarrow> fails (if_token k p q) ts msg"
  unfolding if_token_def
  by (rule fails_branch(1), simp_all add: at_check fails_advance) (rule fails_branch(2), simp_all add: at_check)

lemma fails_expect: "fails (f (Tok k)) ts msg \<Longrightarrow> fails (andthen (expect L k) f) (Tok k # ts) msg"
  using fails_after [of "expect L k" "[Tok k]" ts "Tok k" f msg]
  by (simp add: expect_def yields_def branch_def at_check at_advance)

lemma fails_quoted:
  "fails (f name) ts msg \<Longrightarrow> fails (andthen (expect_identifier L) f) (QuotedIdentifier name # ts) msg"
  "fails (f name) ts msg \<Longrightarrow> fails (andthen (expect_identifier L) f) (Identifier name # ts) msg"
  unfolding expect_identifier_def andthen_assoc by (rule fails_advance, simp add: andthen_ret)+

lemma fails_identifier:
  "t = Tok k \<Longrightarrow> \<not> is_keyword t \<Longrightarrow> fails (expect_identifier L) (t # ts) (chs ''expected identifier, found '' @ debug_token L t)"
  unfolding expect_identifier_def by (auto intro!: fails_advance fails_err_at)

subsection \<open>Names\<close>

text \<open>A star after a column with a table name is taken for a wildcard, whatever follows; the wildcard itself is an error.\<close>

lemma dotted_product_is_wildcard:
  "yields (grammar L 7) [QuotedIdentifier t, Tok ''Dot'', QuotedIdentifier c, Tok ''Star''] us (TableWildcard t)"
  by (intro primary_name) (auto simp: parse_column_ref_or_function_def
      intro!: yields_quoted yields_if_token_yes yields_if_token_no yields_ret)

lemma table_wildcard_rejected:
  "fails (parse_primary L R) (QuotedIdentifier t # Tok ''Dot'' # Tok ''Star'' # us) (chs ''expected identifier, found Star'')"
  unfolding parse_primary_def
  by (rule fails_looking, simp, unfold parse_column_ref_or_function_def, intro fails_quoted fails_if_token(1) fails_andthen)
    (use fails_identifier [of "Tok ''Star''" "''Star''" L us] in \<open>simp add: is_keyword_def\<close>)

text \<open>A column with three parts loses the first.\<close>

lemma three_part_column_drops_first:
  "first us \<noteq> Tok ''Dot'' \<Longrightarrow>
   yields (grammar L 7) [QuotedIdentifier a, Tok ''Dot'', QuotedIdentifier b, Tok ''Dot'', QuotedIdentifier c] us
     (ColumnRef None None (Some b) c)"
  by (intro primary_name) (auto simp: parse_column_ref_or_function_def
      intro!: yields_quoted yields_if_token_yes yields_if_token_no yields_ret)

text \<open>A sign applies to a primary expression only: two of them are an error.\<close>

lemma double_minus_rejected:
  "fails (parse_unary L R) (Tok ''Minus'' # Tok ''Minus'' # us) (chs ''unexpected token in expression: Minus'')"
  unfolding parse_unary_def parse_primary_def
  by (intro fails_if_token(1) fails_andthen fails_looking) (simp add: fails_err_at)

text \<open>A NOT before a comparison operator is dropped.\<close>

lemma negated_comparison_drops_not:
  assumes "everywhere L r" and op: "op_lev op = 3" and stop: "stops 3 (first us)"
  shows "yields (comparison_tail L l) (Tok ''Not'' # Tok (op_name op) # toks 4 r) us (BinaryOp l op r)"
proof -
  have "yields (parse_comparison_op L (recursive_parsers L) l True) (Tok (op_name op) # toks 4 r @ []) us (BinaryOp l op r)"
    using comparison_op_reads [OF assms, of l True] by (simp add: toks_def)
  then show ?thesis
    unfolding comparison_tail_def Let_def
    using stops_comparison(3) [OF op] by (intro yields_if_token_no yields_match_token(1)) auto
qed

subsection \<open>Statements\<close>

text \<open>The answer of \<open>parse_if_exists\<close> is always no and nothing is consumed.\<close>

lemma yields_if_exists: "yields (f False) ts us x \<Longrightarrow> yields (andthen (\<lambda>s. Some (Inr (parse_if_exists s, s))) f) ts us x"
  by (simp add: yields_def andthen_def parse_if_exists_def)

lemma drop_if_exists_drops_if:
  "yields (parse_drop L) [Tok ''Drop'', Tok ''Table'', Tok ''If''] us (Ddl (DropTable (chs ''IF'') False))"
proof -
  have name: "yields (expect_identifier L) [Tok ''If''] ([] @ us) (chs ''IF'')"
    unfolding expect_identifier_def
    by (rule yields_advance) (simp add: is_keyword_def token_to_string_def token_texts_def yields_ret)
  have "yields (andthen (expect_identifier L) (\<lambda>name. ret (Ddl (DropTable name False)))) ([Tok ''If''] @ []) us (Ddl (DropTable (chs ''IF'') False))"
    by (rule yields_andthen, rule name, rule yields_ret)
  then show ?thesis
    unfolding parse_drop_def drop_named_def by (auto intro!: yields_expect yields_if_token_yes yields_if_exists)
qed

text \<open>The test for an assignment looks at the second token of the batch, wherever the statement begins.\<close>

lemma select_test_ignores_position:
  "selects_into_vars \<lparr>ps_tokens = ts, ps_pos = n\<rparr> = selects_into_vars \<lparr>ps_tokens = ts, ps_pos = m\<rparr>"
  by (simp add: selects_into_vars_def)

lemma fails_ploop: "fails (body a) ts msg \<Longrightarrow> fails (ploop body a) ts msg"
  unfolding fails_def ploop_def by fastforce

lemma later_query_is_assignment:
  assumes "ps_tokens s = Tok ''Select'' # AtVariable v # Tok ''Equals'' # us" and "at s (Tok ''Select'' # t # ts)"
    and "t \<notin> range AtVariable"
  shows "\<exists>e. parse_select_statement L s = Some (Inl e) \<and> pe_message e = chs ''expected @variable''"
proof -
  have "fails (at_variable ''expected @variable'') (t # ts) (chs ''expected @variable'')"
    unfolding at_variable_def using assms(3) by (intro fails_advance) (auto simp: fails_err_at split: tsql_token.splits)
  then have "fails (parse_select_into_vars_statement L) (Tok ''Select'' # t # ts) (chs ''expected @variable'')"
    unfolding parse_select_into_vars_statement_def parse_select_into_vars_def var_assignments_def
    by (intro fails_expect fails_andthen fails_ploop)
  moreover have "selects_into_vars s" using assms(1) by (simp add: selects_into_vars_def assignment_index_def)
  ultimately show ?thesis using assms(2) by (simp add: parse_select_statement_def branch_def fails_def)
qed

text \<open>The options of SET: NOCOUNT is a keyword that is no identifier, and ON is not an expression.\<close>

lemma set_nocount_rejected:
  "fails (parse_set L) (Tok ''Set'' # Tok ''NoCount'' # us) (chs ''expected identifier, found NoCount'')"
  unfolding parse_set_def
  by (intro fails_expect fails_branch(2) fails_andthen)
    (use fails_identifier [of "Tok ''NoCount''" "''NoCount''" L us] in \<open>auto simp: is_keyword_def peek_is_at_variable_def at_peek\<close>)

text \<open>A column of a table can only be altered when the second ALTER is left out.\<close>

lemma alter_column_rejected:
  "fails (parse_alter L S) (Tok ''Alter'' # Tok ''Table'' # QuotedIdentifier t # Tok ''Alter'' # us) (chs ''expected ALTER TABLE action'')"
  unfolding parse_alter_def parse_alter_table_action_def
  by (intro fails_expect fails_if_token(1) fails_quoted fails_andthen fails_if_token(2) fails_branch(2) fails_err_at)
    (auto simp: at_peek peek_is_ident_def)

text \<open>A temporary table is no target of INSERT.\<close>

lemma insert_into_temp_rejected:
  "fails (parse_insert L) (Tok ''Insert'' # Tok ''Into'' # PoundTemp t # us) (chs ''expected identifier, found '' @ debug_token L (PoundTemp t))"
proof -
  have "fails (expect_identifier L) (PoundTemp t # us) (chs ''expected identifier, found '' @ debug_token L (PoundTemp t))"
    unfolding expect_identifier_def by (intro fails_advance) (simp add: is_keyword_def fails_err_at)
  then show ?thesis
    unfolding parse_insert_def match_token_def andthen_if_token andthen_ret
    by (intro fails_expect fails_if_token(1) fails_andthen)
qed

end
