(* ===== verification/TsqlBatch.thy ===== *)
theory TsqlBatch
  imports TsqlStatements
begin

section \<open>Splitting a text into batches (crates/tsql-parser/src/batch.rs)\<close>

text \<open>
  The splitter copies characters into the current batch and ends it at a line that begins with GO,
  outside strings and comments. Its loop is a recursion on the characters left; \<open>start\<close> says that
  none has been read yet.
\<close>

subsection \<open>The splitter\<close>

record batch_state =
  in_string :: bool
  in_line_comment :: bool
  in_block_comment :: bool
  current_batch :: ustring
  batches :: "ustring list"

definition newline :: uchar where
  "newline = 10"

definition next_is :: "char \<Rightarrow> ustring \<Rightarrow> bool" where
  "next_is c cs \<longleftrightarrow> (case cs of d # _ \<Rightarrow> d = ch c | [] \<Rightarrow> False)"

definition go_follows :: "'f char_lib \<Rightarrow> ustring \<Rightarrow> bool" where
  "go_follows C cs \<longleftrightarrow>
     (case cs of
        g # oh # after \<Rightarrow>
          g \<in> {ch CHR ''G'', ch CHR ''g''} \<and> oh \<in> {ch CHR ''O'', ch CHR ''o''} \<and>
          (case after of [] \<Rightarrow> True | d # _ \<Rightarrow> is_whitespace C d \<or> d = ch CHR ''-'')
      | _ \<Rightarrow> False)"

definition blanks :: "'f char_lib \<Rightarrow> ustring \<Rightarrow> ustring" where
  "blanks C cs = takeWhile (\<lambda>c. is_whitespace C c \<and> c \<noteq> newline) cs"

definition skip_blanks :: "'f char_lib \<Rightarrow> ustring \<Rightarrow> ustring" where
  "skip_blanks C cs = dropWhile (\<lambda>c. is_whitespace C c \<and> c \<noteq> newline) cs"

definition push_chars :: "ustring \<Rightarrow> batch_state \<Rightarrow> batch_state" where
  "push_chars cs s = s\<lparr>current_batch := current_batch s @ cs\<rparr>"

definition end_batch :: "'f char_lib \<Rightarrow> batch_state \<Rightarrow> batch_state" where
  "end_batch C s =
     (let trimmed = trim_chars C (current_batch s)
      in s\<lparr>batches := batches s @ (if trimmed \<noteq> [] then [trimmed] else []), current_batch := []\<rparr>)"

lemma length_rest_of_line: "length (dropWhile P (drop n (dropWhile Q cs))) \<le> length cs"
proof -
  have "length (drop n (dropWhile Q cs)) \<le> length cs" using length_dropWhile_le [of Q cs] by simp
  then show ?thesis using length_dropWhile_le [of P "drop n (dropWhile Q cs)"] by linarith
qed

function split_loop :: "'f char_lib \<Rightarrow> bool \<Rightarrow> ustring \<Rightarrow> batch_state \<Rightarrow> ustring list" where
  "split_loop C start [] s = batches (end_batch C s)"
| "split_loop C start (c # cs) s =
     (let pushed = push_chars [c] s
      in if \<not> in_line_comment s \<and> \<not> in_block_comment s \<and> c = ch CHR 0x27 then
           split_loop C False cs (pushed\<lparr>in_string := \<not> in_string s\<rparr>)
         else if in_string s then split_loop C False cs pushed
         else if \<not> in_block_comment s \<and> c = ch CHR ''-'' \<and> next_is CHR ''-'' cs then
           split_loop C False cs (pushed\<lparr>in_line_comment := True\<rparr>)
         else if in_line_comment s then
           split_loop C False cs (if c = newline then pushed\<lparr>in_line_comment := False\<rparr> else pushed)
         else if c = ch CHR ''/'' \<and> next_is CHR ''*'' cs then
           split_loop C False cs (pushed\<lparr>in_block_comment := True\<rparr>)
         else if in_block_comment s then
           (if c = ch CHR ''*'' \<and> next_is CHR ''/'' cs then
              split_loop C False (tl cs) ((push_chars (chs ''/'') pushed)\<lparr>in_block_comment := False\<rparr>)
            else split_loop C False cs pushed)
         else if c = newline \<or> start \<and> (c = ch CHR ''G'' \<or> c = ch CHR ''g'') then
           (if c = newline then
              let after = skip_blanks C cs; s' = push_chars (blanks C cs) pushed
              in if go_follows C after
                 then split_loop C False (dropWhile (\<lambda>d. d \<noteq> newline) (drop 2 after)) (end_batch C s')
                 else split_loop C False after s'
            else split_loop C False cs pushed)
         else split_loop C False cs pushed)"
  by pat_completeness auto
termination
  by (relation "measure (\<lambda>(C, start, cs, s). length cs)")
    (auto simp: skip_blanks_def less_Suc_eq_le length_rest_of_line length_dropWhile_le)

declare split_loop.simps(2) [simp del]

definition batch_start :: batch_state where
  "batch_start = \<lparr>in_string = False, in_line_comment = False, in_block_comment = False, current_batch = [], batches = []\<rparr>"

definition split_batches :: "'f char_lib \<Rightarrow> ustring \<Rightarrow> ustring list" where
  "split_batches C input = split_loop C True input batch_start"

subsection \<open>Joining and splitting\<close>





definition code_state :: "batch_state \<Rightarrow> bool" where
  "code_state s \<longleftrightarrow> \<not> in_string s \<and> \<not> in_line_comment s \<and> \<not> in_block_comment s"

lemma code_state_push [simp]: "code_state (push_chars cs s) = code_state s"
  by (simp add: code_state_def push_chars_def)


lemma push_chars_Nil [simp]: "push_chars [] s = s"
  by (simp add: push_chars_def)























definition ascii_chars :: "nat char_lib" where
  "ascii_chars =
     \<lparr>uni_whitespace = \<lambda>_. False, uni_alphabetic = \<lambda>_. False, uni_numeric = \<lambda>_. False, uni_upper = id, parse_f64 = \<lambda>_. None\<rparr>"





subsection \<open>Where the splitter differs from its description\<close>

text \<open>GO in the first line is no separator, although the description of the function allows it.\<close>

lemma go_in_first_line_ignored:
  "split_batches ascii_chars (chs ''GO'' @ [10] @ chs ''PRINT 1'') = [chs ''GO'' @ [10] @ chs ''PRINT 1'']"
  by code_simp

text \<open>A slash after the star that opens a comment closes it again.\<close>

lemma slash_star_slash_closes:
  "split_batches ascii_chars (chs ''/*/'' @ [10] @ chs ''GO'' @ [10] @ chs ''*/'') = [chs ''/*/'', chs ''*/'']"
  by code_simp

text \<open>
  A line comment swallows the line break that ends it, so a GO on the next line is not seen: both
  batches are run as one.
\<close>

lemma go_after_line_comment_ignored:
  "split_batches ascii_chars (chs ''PRINT 1 -- one'' @ [10] @ chs ''GO'' @ [10] @ chs ''PRINT 2'') =
     [chs ''PRINT 1 -- one'' @ [10] @ chs ''GO'' @ [10] @ chs ''PRINT 2'']"
  by code_simp

end
