(* ===== verification/TsqlTypes.thy ===== *)
theory TsqlTypes
  imports TsqlBatch CatalogTypes
begin

section \<open>T-SQL types and column types (crates/tsql-parser/src/types.rs)\<close>

text \<open>
  The column type a T-SQL type is stored as, the T-SQL name of a column type, and the reader of type
  names, which the executor uses on the names the parser's types print.
\<close>

subsection \<open>To column types and back\<close>

abbreviation decimal_of :: "nat option \<Rightarrow> nat option \<Rightarrow> data_type" where
  "decimal_of p s \<equiv> DtDecimal \<lparr>dec_precision = case_option 18 id p, dec_scale = case_option 0 id s\<rparr>"

primrec tsql_type_to_datatype :: "tsql_data_type \<Rightarrow> data_type" where
  "tsql_type_to_datatype TInt = DtInt32"
| "tsql_type_to_datatype TSmallInt = DtInt16"
| "tsql_type_to_datatype TTinyInt = DtUInt8"
| "tsql_type_to_datatype TBigInt = DtInt64"
| "tsql_type_to_datatype TBit = DtBoolean"
| "tsql_type_to_datatype (TDecimal p s) = decimal_of p s"
| "tsql_type_to_datatype (TNumeric p s) = decimal_of p s"
| "tsql_type_to_datatype TMoney = DtMoney"
| "tsql_type_to_datatype TSmallMoney = DtSmallMoney"
| "tsql_type_to_datatype (TFloat p) = (if case_option 53 id p \<le> 24 then DtFloat32 else DtFloat64)"
| "tsql_type_to_datatype TReal = DtFloat32"
| "tsql_type_to_datatype (TChar n) = DtChar (case_option 1 id n)"
| "tsql_type_to_datatype (TVarchar n) = DtVarchar (case_option 8000 id n)"
| "tsql_type_to_datatype (TNChar n) = DtChar (case_option 1 id n)"
| "tsql_type_to_datatype (TNVarchar n) = DtVarchar (case_option 4000 id n)"
| "tsql_type_to_datatype TText = DtString"
| "tsql_type_to_datatype TNText = DtString"
| "tsql_type_to_datatype (TBinary n) = DtFixedSizeBinary (case_option 1 id n)"
| "tsql_type_to_datatype (TVarBinary n) = DtBinary"
| "tsql_type_to_datatype TImage = DtBinary"
| "tsql_type_to_datatype TDate = DtDate"
| "tsql_type_to_datatype (TTime p) = DtTime"
| "tsql_type_to_datatype TDateTime = DtDateTime"
| "tsql_type_to_datatype TSmallDateTime = DtDateTime"
| "tsql_type_to_datatype (TDateTime2 p) = DtDateTime"
| "tsql_type_to_datatype (TDateTimeOffset p) = DtDateTimeOffset"
| "tsql_type_to_datatype TUniqueIdentifier = DtUniqueIdentifier"
| "tsql_type_to_datatype TXml = DtString"
| "tsql_type_to_datatype TSqlVariant = DtString"
| "tsql_type_to_datatype TTable = DtString"
| "tsql_type_to_datatype TCursorType = DtString"
| "tsql_type_to_datatype (TUserDefined name) = DtString"

fun datatype_to_tsql_type :: "data_type \<Rightarrow> string" where
  "datatype_to_tsql_type DtNull = ''NULL''"
| "datatype_to_tsql_type DtBoolean = ''BIT''"
| "datatype_to_tsql_type DtInt8 = ''TINYINT''"
| "datatype_to_tsql_type DtInt16 = ''SMALLINT''"
| "datatype_to_tsql_type DtInt32 = ''INT''"
| "datatype_to_tsql_type DtInt64 = ''BIGINT''"
| "datatype_to_tsql_type DtInt128 = ''DECIMAL(38, 0)''"
| "datatype_to_tsql_type DtUInt8 = ''TINYINT''"
| "datatype_to_tsql_type DtUInt16 = ''SMALLINT''"
| "datatype_to_tsql_type DtUInt32 = ''INT''"
| "datatype_to_tsql_type DtUInt64 = ''BIGINT''"
| "datatype_to_tsql_type DtFloat32 = ''REAL''"
| "datatype_to_tsql_type DtFloat64 = ''FLOAT''"
| "datatype_to_tsql_type (DtDecimal d) = ''DECIMAL('' @ show_nat (dec_precision d) @ '', '' @ show_nat (dec_scale d) @ '')''"
| "datatype_to_tsql_type DtDate = ''DATE''"
| "datatype_to_tsql_type DtDateTime = ''DATETIME''"
| "datatype_to_tsql_type DtTime = ''TIME''"
| "datatype_to_tsql_type DtDateTimeOffset = ''DATETIMEOFFSET''"
| "datatype_to_tsql_type (DtVarchar n) = ''VARCHAR('' @ show_nat n @ '')''"
| "datatype_to_tsql_type (DtChar n) = ''CHAR('' @ show_nat n @ '')''"
| "datatype_to_tsql_type DtString = ''VARCHAR(MAX)''"
| "datatype_to_tsql_type DtBinary = ''VARBINARY(MAX)''"
| "datatype_to_tsql_type (DtFixedSizeBinary n) = ''BINARY('' @ show_nat n @ '')''"
| "datatype_to_tsql_type DtMoney = ''MONEY''"
| "datatype_to_tsql_type DtSmallMoney = ''SMALLMONEY''"
| "datatype_to_tsql_type DtUniqueIdentifier = ''UNIQUEIDENTIFIER''"
| "datatype_to_tsql_type DtJson = ''VARCHAR(MAX)''"
| "datatype_to_tsql_type (DtArray inner) = ''VARCHAR(MAX) /* ARRAY of '' @ datatype_to_tsql_type inner @ '' */''"
| "datatype_to_tsql_type (DtMap k v) = ''VARCHAR(MAX) /* MAP */''"
| "datatype_to_tsql_type (DtStruct fs) = ''VARCHAR(MAX) /* STRUCT */''"
| "datatype_to_tsql_type (DtFloat32Vector dim) =
     ''BINARY('' @ show_nat (dim * 4 mod 2 ^ 64) @ '') /* FLOAT32_VECTOR('' @ show_nat dim @ '') */''"

subsection \<open>Reading a type name\<close>

definition parse_unsigned :: "nat \<Rightarrow> ustring \<Rightarrow> nat option" where
  "parse_unsigned limit s =
     (if list_all (\<lambda>c. c < 128) s then
        Option.bind (parse_nat (let t = map char_of s in case t of c # cs \<Rightarrow> if c = CHR ''+'' then cs else t | [] \<Rightarrow> []))
          (\<lambda>n. if n < limit then Some n else None)
      else None)"

definition strip_parens :: "ustring \<Rightarrow> ustring option" where
  "strip_parens s =
     (if s \<noteq> [] \<and> hd s = ch CHR ''('' \<and> last s = ch CHR '')'' then Some (butlast (tl s)) else None)"

definition parse_optional_size :: "'f char_lib \<Rightarrow> ustring \<Rightarrow> nat option" where
  "parse_optional_size C s =
     (case strip_parens (trim_chars C s) of
        Some inner \<Rightarrow>
          let inner = trim_chars C inner
          in if same_ci inner ''MAX'' then Some 8000 else parse_unsigned (2 ^ 64) inner
      | None \<Rightarrow> None)"

fun split_commas :: "ustring \<Rightarrow> ustring list" where
  "split_commas [] = [[]]"
| "split_commas (c # cs) =
     (if c = ch CHR '','' then [] # split_commas cs
      else case split_commas cs of part # parts \<Rightarrow> (c # part) # parts | [] \<Rightarrow> [[c]])"

definition parse_precision_scale :: "'f char_lib \<Rightarrow> ustring \<Rightarrow> nat option \<times> nat option" where
  "parse_precision_scale C s =
     (case strip_parens (trim_chars C s) of
        Some inner \<Rightarrow>
          (case split_commas inner of
             [p] \<Rightarrow> (parse_unsigned 256 (trim_chars C p), None)
           | [p, q] \<Rightarrow> (parse_unsigned 256 (trim_chars C p), parse_unsigned 256 (trim_chars C q))
           | _ \<Rightarrow> (None, None))
      | None \<Rightarrow> (None, None))"

definition strip_prefix :: "string \<Rightarrow> ustring \<Rightarrow> ustring option" where
  "strip_prefix w s = (if take (length w) s = chs w then Some (drop (length w) s) else None)"

definition named_types :: "(string \<times> tsql_data_type) list" where
  "named_types =
     [(''INT'', TInt), (''INTEGER'', TInt), (''SMALLINT'', TSmallInt), (''TINYINT'', TTinyInt), (''BIGINT'', TBigInt),
      (''BIT'', TBit), (''MONEY'', TMoney), (''SMALLMONEY'', TSmallMoney), (''REAL'', TReal), (''DATE'', TDate),
      (''DATETIME'', TDateTime), (''SMALLDATETIME'', TSmallDateTime), (''UNIQUEIDENTIFIER'', TUniqueIdentifier),
      (''XML'', TXml), (''SQL_VARIANT'', TSqlVariant), (''TEXT'', TText), (''NTEXT'', TNText), (''IMAGE'', TImage)]"

definition prefixed_types :: "'f char_lib \<Rightarrow> (string \<times> (ustring \<Rightarrow> tsql_data_type)) list" where
  "prefixed_types C =
     (let size = parse_optional_size C; small = (\<lambda>s. map_option (\<lambda>n. n mod 256) (parse_optional_size C s));
          pair = (\<lambda>f s. case parse_precision_scale C s of (p, q) \<Rightarrow> f p q)
      in [(''VARCHAR'', \<lambda>s. TVarchar (size s)), (''CHAR'', \<lambda>s. TChar (size s)), (''NVARCHAR'', \<lambda>s. TNVarchar (size s)),
          (''NCHAR'', \<lambda>s. TNChar (size s)), (''VARBINARY'', \<lambda>s. TVarBinary (size s)), (''BINARY'', \<lambda>s. TBinary (size s)),
          (''DECIMAL'', pair TDecimal), (''NUMERIC'', pair TNumeric), (''FLOAT'', \<lambda>s. TFloat (small s)),
          (''DATETIME2'', \<lambda>s. TDateTime2 (small s)), (''DATETIMEOFFSET'', \<lambda>s. TDateTimeOffset (small s)),
          (''TIME'', \<lambda>s. TTime (small s))])"

fun first_prefix :: "(string \<times> (ustring \<Rightarrow> 'a)) list \<Rightarrow> ustring \<Rightarrow> 'a option" where
  "first_prefix [] s = None"
| "first_prefix ((w, f) # rest) s =
     (case strip_prefix w s of Some after \<Rightarrow> Some (f after) | None \<Rightarrow> first_prefix rest s)"

definition parse_tsql_type_name :: "'f char_lib \<Rightarrow> ustring \<Rightarrow> tsql_data_type option" where
  "parse_tsql_type_name C name =
     (let upper = upper_chars C (trim_chars C name)
      in case by_name named_types upper of
           Some t \<Rightarrow> Some t
         | None \<Rightarrow>
             (case first_prefix (prefixed_types C) upper of
                Some t \<Rightarrow> Some t
              | None \<Rightarrow> Some (TUserDefined name)))"

subsection \<open>The round trip\<close>

text \<open>The types whose name the reader knows, with sizes that fit their integers.\<close>

fun named_back :: "tsql_data_type \<Rightarrow> bool" where
  "named_back (TDecimal p s) = (pred_option (\<lambda>n. n < 256) p \<and> pred_option (\<lambda>n. n < 256) s \<and> (p = None \<longrightarrow> s = None))"
| "named_back (TNumeric p s) = (pred_option (\<lambda>n. n < 256) p \<and> pred_option (\<lambda>n. n < 256) s \<and> (p = None \<longrightarrow> s = None))"
| "named_back (TFloat p) = pred_option (\<lambda>n. n < 256) p"
| "named_back (TTime p) = pred_option (\<lambda>n. n < 256) p"
| "named_back (TDateTime2 p) = pred_option (\<lambda>n. n < 256) p"
| "named_back (TDateTimeOffset p) = pred_option (\<lambda>n. n < 256) p"
| "named_back (TChar n) = pred_option (\<lambda>n. n < 2 ^ 64) n"
| "named_back (TVarchar n) = pred_option (\<lambda>n. n < 2 ^ 64) n"
| "named_back (TNChar n) = pred_option (\<lambda>n. n < 2 ^ 64) n"
| "named_back (TNVarchar n) = pred_option (\<lambda>n. n < 2 ^ 64) n"
| "named_back (TBinary n) = pred_option (\<lambda>n. n < 2 ^ 64) n"
| "named_back (TVarBinary n) = pred_option (\<lambda>n. n < 2 ^ 64) n"
| "named_back TTable = False"
| "named_back TCursorType = False"
| "named_back (TUserDefined name) = False"
| "named_back _ = True"


definition solid :: "string \<Rightarrow> bool" where
  "solid w \<longleftrightarrow> (\<forall>c \<in> set w. (of_char c :: nat) < 128 \<and> \<not> (97 \<le> (of_char c :: nat) \<and> of_char c \<le> (122 :: nat)))"

lemma digit_codes: "c \<in> set (show_nat n) \<Longrightarrow> 48 \<le> (of_char c :: nat) \<and> of_char c \<le> (57 :: nat)"
  using set_show_nat [of n] by (auto simp: digits_def)

lemma solid_simps:
  "solid []" "solid (c # w) \<longleftrightarrow> (of_char c :: nat) < 128 \<and> \<not> (97 \<le> (of_char c :: nat) \<and> of_char c \<le> (122 :: nat)) \<and> solid w" "solid (v @ w) \<longleftrightarrow> solid v \<and> solid w" "solid (show_nat n)"
  by (auto simp: solid_def dest: digit_codes)

lemma upper_solid: "solid w \<Longrightarrow> upper_chars C (chs w) = chs w"
  by (auto simp: solid_def upper_chars_def upper_char_def)

lemma trim_solid:
  assumes "w = [] \<or> \<not> is_whitespace C (of_char (hd w)) \<and> \<not> is_whitespace C (of_char (last w))"
  shows "trim_chars C (chs w) = chs w"
proof (cases "w = []")
  case False
  then have "dropWhile (is_whitespace C) (chs w) = chs w" using assms by (cases w) auto
  moreover have "dropWhile (is_whitespace C) (rev (chs w)) = rev (chs w)"
    using False assms by (cases w rule: rev_cases) auto
  ultimately show ?thesis by (simp add: trim_chars_def)
qed (simp add: trim_chars_def)

lemma digit_solid: "c \<in> set (show_nat n) \<Longrightarrow> \<not> is_whitespace C (of_char c)"
  using digit_codes [of c n] by (auto simp: is_whitespace_def)

lemma trim_show_nat [simp]: "trim_chars C (chs (show_nat n)) = chs (show_nat n)"
  using digit_solid [of _ n C] by (intro trim_solid) (simp add: show_nat_nonempty)

lemma map_char_of_chs [simp]: "map char_of (chs w) = w"
  by (induction w) simp_all

lemma parse_unsigned_show_nat [simp]: "n < limit \<Longrightarrow> parse_unsigned limit (chs (show_nat n)) = Some n"
proof -
  assume n: "n < limit"
  have "list_all (\<lambda>c. c < 128) (chs (show_nat n))" by (auto simp: list_all_iff dest: digit_codes)
  moreover have "(case show_nat n of c # cs \<Rightarrow> if c = CHR ''+'' then cs else show_nat n | [] \<Rightarrow> []) = show_nat n"
    by (cases "show_nat n") (auto dest: show_nat_Cons_digit simp: digits_def)
  ultimately show ?thesis using n by (simp add: parse_unsigned_def parse_nat_show_nat Let_def)
qed

lemma strip_parens_enclosed: "strip_parens (ch CHR ''('' # s @ [ch CHR '')'']) = Some s"
  by (simp add: strip_parens_def)

lemma not_max: "\<not> same_ci (chs (show_nat n)) ''MAX''"
  using digit_codes [of "hd (show_nat n)" n] show_nat_nonempty [of n]
  by (cases "show_nat n") (auto simp: same_ci_def upper_char_def)

lemma size_shown:
  assumes "n < 2 ^ 64"
  shows "parse_optional_size C (ch CHR ''('' # chs (show_nat n) @ [ch CHR '')'']) = Some n"
proof -
  have "trim_chars C (chs (''('' @ show_nat n @ '')'')) = chs (''('' @ show_nat n @ '')'')"
    by (intro trim_solid) (simp add: is_whitespace_def)
  then show ?thesis using assms strip_parens_enclosed [of "chs (show_nat n)"] not_max [of n] by (simp add: parse_optional_size_def)
qed

lemma split_commas_none: "ch CHR '','' \<notin> set s \<Longrightarrow> split_commas s = [s]"
  by (induction s) auto

lemma split_commas_one: "ch CHR '','' \<notin> set s \<Longrightarrow> split_commas (s @ ch CHR '','' # t) = s # split_commas t"
  by (induction s) auto

lemma show_nat_no_comma: "ch CHR '','' \<notin> set (chs (show_nat n))"
  by (auto dest: digit_codes)

lemma trim_leading: "is_whitespace C c \<Longrightarrow> trim_chars C (c # s) = trim_chars C s"
  by (simp add: trim_chars_def)

definition precision_text :: "nat \<Rightarrow> nat option \<Rightarrow> string" where
  "precision_text p q = ''('' @ show_nat p @ (case q of None \<Rightarrow> [] | Some q \<Rightarrow> '', '' @ show_nat q) @ '')''"

lemma precision_shown:
  assumes "p < 256" and "pred_option (\<lambda>n. n < 256) q"
  shows "parse_precision_scale C (chs (precision_text p q)) = (Some p, q)"
proof -
  let ?inner = "show_nat p @ (case q of None \<Rightarrow> [] | Some q \<Rightarrow> '', '' @ show_nat q)"
  have "trim_chars C (chs (precision_text p q)) = chs (precision_text p q)"
    by (intro trim_solid) (simp add: precision_text_def is_whitespace_def)
  then have strip: "strip_parens (trim_chars C (chs (precision_text p q))) = Some (chs ?inner)"
    using strip_parens_enclosed [of "chs ?inner"] by (simp add: precision_text_def)
  show ?thesis
  proof (cases q)
    case None
    then show ?thesis
      using strip assms split_commas_none [OF show_nat_no_comma [of p]] by (simp add: parse_precision_scale_def)
  next
    case (Some r)
    have "split_commas (chs ?inner) = [chs (show_nat p), ch CHR '' '' # chs (show_nat r)]"
      using split_commas_one [OF show_nat_no_comma, of p "ch CHR '' '' # chs (show_nat r)"]
        split_commas_none [of "ch CHR '' '' # chs (show_nat r)"] show_nat_no_comma [of r] by (simp add: Some)
    then show ?thesis
      using strip assms Some by (simp add: parse_precision_scale_def trim_leading is_whitespace_def)
  qed
qed

lemma read_solid:
  assumes "solid w" and "\<not> is_whitespace C (of_char (hd w))" and "\<not> is_whitespace C (of_char (last w))"
  shows "parse_tsql_type_name C (chs w) =
    (case by_name named_types (chs w) of
       Some t \<Rightarrow> Some t
     | None \<Rightarrow> (case first_prefix (prefixed_types C) (chs w) of Some t \<Rightarrow> Some t | None \<Rightarrow> Some (TUserDefined (chs w))))"
  using assms by (simp add: parse_tsql_type_name_def trim_solid upper_solid Let_def)

lemma size_absent: "parse_optional_size C [] = None" "parse_precision_scale C [] = (None, None)"
  by (simp_all add: parse_optional_size_def parse_precision_scale_def strip_parens_def trim_chars_def)

text \<open>One lemma for all types with a size or a precision: the reader finds the prefix and reads what follows it.\<close>

definition prefixes :: "string list" where
  "prefixes = [''VARCHAR'', ''CHAR'', ''NVARCHAR'', ''NCHAR'', ''VARBINARY'', ''BINARY'', ''DECIMAL'', ''NUMERIC'', ''FLOAT'',
     ''DATETIME2'', ''DATETIMEOFFSET'', ''TIME'']"

lemma inj_chs_eq: "chs v = chs w \<longleftrightarrow> v = w"
  by (rule inj_map_eq_map) (simp add: inj_def)

lemma by_name_chs: "by_name table (chs w) = map_of table w"
  by (induction table) (auto simp: by_name_def inj_chs_eq)

lemma strip_prefix_chs: "strip_prefix v (chs w) = (if take (length v) w = v then Some (chs (drop (length v) w)) else None)"
  by (simp add: strip_prefix_def take_map drop_map inj_chs_eq)

lemma named_types_plain: "(w, t) \<in> set named_types \<Longrightarrow> CHR ''('' \<notin> set w"
  by (auto simp: named_types_def)

lemma prefixes_solid: "w \<in> set prefixes \<Longrightarrow> solid w"
  unfolding prefixes_def list.set insert_iff by (elim disjE) (simp_all add: solid_def)

lemma prefixes_unnamed: "w \<in> set prefixes \<Longrightarrow> map_of named_types w = None"
  unfolding prefixes_def list.set insert_iff by (elim disjE) (simp_all add: named_types_def)

lemma prefixes_ends: "w \<in> set prefixes \<Longrightarrow> w \<noteq> [] \<and> \<not> is_whitespace C (of_char (hd w)) \<and> \<not> is_whitespace C (of_char (last w))"
  unfolding prefixes_def list.set insert_iff by (elim disjE) (simp_all add: is_whitespace_def)

lemma first_prefix_found:
  assumes "w \<in> set prefixes"
  shows "\<exists>f. map_of (prefixed_types C) w = Some f \<and> first_prefix (prefixed_types C) (chs (w @ r)) = Some (f (chs r))"
  using assms unfolding prefixed_types_def prefixes_def Let_def list.set insert_iff
  by (elim disjE) (simp_all add: strip_prefix_def)

lemma prefixed_name_read:
  assumes w: "w \<in> set prefixes" and r: "solid r" "r = [] \<or> hd r = CHR ''('' \<and> last r = CHR '')''"
  shows "parse_tsql_type_name C (chs (w @ r)) = map_option (\<lambda>f. f (chs r)) (map_of (prefixed_types C) w)"
proof -
  note facts = prefixes_ends [OF w, of C]
  have paren: "\<not> is_whitespace C (of_char CHR '')'')" by (simp add: is_whitespace_def)
  have "solid (w @ r)" using prefixes_solid [OF w] r by (simp add: solid_simps)
  moreover have "\<not> is_whitespace C (of_char (hd (w @ r)))" "\<not> is_whitespace C (of_char (last (w @ r)))"
    using facts r(2) paren by (auto simp: last_append)
  moreover have "map_of named_types (w @ r) = None"
  proof (cases "r = []")
    case False
    then have "CHR ''('' \<in> set (w @ r)" using r(2) hd_in_set [OF False] by auto
    then show ?thesis using named_types_plain by (force simp: map_of_eq_None_iff)
  qed (simp add: prefixes_unnamed [OF w])
  ultimately show ?thesis using first_prefix_found [OF w, of C r] by (auto simp: read_solid by_name_chs simp del: map_append)
qed

lemma show_sized_text: "show_sized w n = chs (w @ (case n of None \<Rightarrow> [] | Some n \<Rightarrow> ''('' @ show_nat n @ '')''))"
  by (cases n) (simp_all add: show_sized_def)

lemma show_precision_text:
  "p = None \<longrightarrow> s = None \<Longrightarrow> show_precision w p s = chs (w @ (case p of None \<Rightarrow> [] | Some p \<Rightarrow> precision_text p s))"
  by (cases p; cases s) (simp_all add: show_precision_def precision_text_def)

lemma sized_name_read:
  assumes "w \<in> set prefixes" and "pred_option (\<lambda>n. n < 2 ^ 64) n" and "map_of (prefixed_types C) w = Some f"
    and "\<And>s. f s = g (parse_optional_size C s)"
  shows "parse_tsql_type_name C (show_sized w n) = Some (g n)"
proof -
  let ?r = "case n of None \<Rightarrow> [] | Some n \<Rightarrow> ''('' @ show_nat n @ '')''"
  have "solid ?r" "?r = [] \<or> hd ?r = CHR ''('' \<and> last ?r = CHR '')''"
    by (cases n; simp add: solid_simps)+
  moreover have "parse_optional_size C (chs ?r) = n"
    using assms(2) size_shown [of _ C] by (cases n) (simp_all add: size_absent)
  ultimately show ?thesis
    using prefixed_name_read [OF assms(1), of ?r C] assms(3,4) by (simp add: show_sized_text del: map_append)
qed

lemma precision_name_read:
  assumes "w \<in> set prefixes" and "pred_option (\<lambda>n. n < 256) p" "pred_option (\<lambda>n. n < 256) q" "p = None \<longrightarrow> q = None"
    and "map_of (prefixed_types C) w = Some f" and "\<And>s. f s = case_prod g (parse_precision_scale C s)"
  shows "parse_tsql_type_name C (show_precision w p q) = Some (g p q)"
proof -
  let ?r = "case p of None \<Rightarrow> [] | Some p \<Rightarrow> precision_text p q"
  have "solid ?r" "?r = [] \<or> hd ?r = CHR ''('' \<and> last ?r = CHR '')''"
    by (cases p; cases q; simp add: precision_text_def solid_simps)+
  moreover have "parse_precision_scale C (chs ?r) = (p, q)"
    using assms(2-4) precision_shown [of _ q C] by (cases p) (simp_all add: size_absent)
  ultimately show ?thesis
    using prefixed_name_read [OF assms(1), of ?r C] assms(5,6) by (simp add: show_precision_text [OF assms(4)] del: map_append)
qed

lemma plain_name_read:
  assumes "(w, t) \<in> set named_types"
  shows "parse_tsql_type_name C (chs w) = map_of named_types w \<and> map_of named_types w \<noteq> None"
proof -
  have "solid w \<and> \<not> is_whitespace C (of_char (hd w)) \<and> \<not> is_whitespace C (of_char (last w))"
    using assms unfolding named_types_def list.set insert_iff prod.inject empty_iff
    by (elim disjE conjE) (simp_all add: solid_def is_whitespace_def)
  moreover have "map_of named_types w \<noteq> None" using weak_map_of_SomeI [OF assms] by auto
  ultimately show ?thesis by (auto simp: read_solid by_name_chs)
qed

lemma plain_reads:
  "parse_tsql_type_name C (chs ''INT'') = Some TInt"
  "parse_tsql_type_name C (chs ''SMALLINT'') = Some TSmallInt"
  "parse_tsql_type_name C (chs ''TINYINT'') = Some TTinyInt"
  "parse_tsql_type_name C (chs ''BIGINT'') = Some TBigInt"
  "parse_tsql_type_name C (chs ''BIT'') = Some TBit"
  "parse_tsql_type_name C (chs ''MONEY'') = Some TMoney"
  "parse_tsql_type_name C (chs ''SMALLMONEY'') = Some TSmallMoney"
  "parse_tsql_type_name C (chs ''REAL'') = Some TReal"
  "parse_tsql_type_name C (chs ''DATE'') = Some TDate"
  "parse_tsql_type_name C (chs ''DATETIME'') = Some TDateTime"
  "parse_tsql_type_name C (chs ''SMALLDATETIME'') = Some TSmallDateTime"
  "parse_tsql_type_name C (chs ''UNIQUEIDENTIFIER'') = Some TUniqueIdentifier"
  "parse_tsql_type_name C (chs ''XML'') = Some TXml"
  "parse_tsql_type_name C (chs ''SQL_VARIANT'') = Some TSqlVariant"
  "parse_tsql_type_name C (chs ''TEXT'') = Some TText"
  "parse_tsql_type_name C (chs ''NTEXT'') = Some TNText"
  "parse_tsql_type_name C (chs ''IMAGE'') = Some TImage"
  by (rule trans [OF conjunct1 [OF plain_name_read]]; simp add: named_types_def)+

lemma sized_reads:
  "pred_option (\<lambda>n. n < 2 ^ 64) n \<Longrightarrow> parse_tsql_type_name C (show_sized ''VARCHAR'' n) = Some (TVarchar n)"
  "pred_option (\<lambda>n. n < 2 ^ 64) n \<Longrightarrow> parse_tsql_type_name C (show_sized ''CHAR'' n) = Some (TChar n)"
  "pred_option (\<lambda>n. n < 2 ^ 64) n \<Longrightarrow> parse_tsql_type_name C (show_sized ''NVARCHAR'' n) = Some (TNVarchar n)"
  "pred_option (\<lambda>n. n < 2 ^ 64) n \<Longrightarrow> parse_tsql_type_name C (show_sized ''NCHAR'' n) = Some (TNChar n)"
  "pred_option (\<lambda>n. n < 2 ^ 64) n \<Longrightarrow> parse_tsql_type_name C (show_sized ''VARBINARY'' n) = Some (TVarBinary n)"
  "pred_option (\<lambda>n. n < 2 ^ 64) n \<Longrightarrow> parse_tsql_type_name C (show_sized ''BINARY'' n) = Some (TBinary n)"
  by (rule sized_name_read; simp add: prefixes_def prefixed_types_def Let_def)+

lemma small_size: "pred_option (\<lambda>n. n < 256) n \<Longrightarrow> pred_option (\<lambda>n. n < 2 ^ 64) n \<and> map_option (\<lambda>n. n mod 256) n = n" for n :: "nat option"
  by (cases n) simp_all

lemma small_name_read:
  assumes "w \<in> set prefixes" and "pred_option (\<lambda>n. n < 256) n" and "map_of (prefixed_types C) w = Some f"
    and "\<And>s. f s = g (map_option (\<lambda>n. n mod 256) (parse_optional_size C s))"
  shows "parse_tsql_type_name C (show_sized w n) = Some (g n)"
  using sized_name_read [of w n C f "\<lambda>n. g (map_option (\<lambda>n. n mod 256) n)", OF assms(1) _ assms(3,4)] small_size [OF assms(2)] by simp

lemma small_reads:
  "pred_option (\<lambda>n. n < 256) n \<Longrightarrow> parse_tsql_type_name C (show_sized ''FLOAT'' n) = Some (TFloat n)"
  "pred_option (\<lambda>n. n < 256) n \<Longrightarrow> parse_tsql_type_name C (show_sized ''DATETIME2'' n) = Some (TDateTime2 n)"
  "pred_option (\<lambda>n. n < 256) n \<Longrightarrow> parse_tsql_type_name C (show_sized ''DATETIMEOFFSET'' n) = Some (TDateTimeOffset n)"
  "pred_option (\<lambda>n. n < 256) n \<Longrightarrow> parse_tsql_type_name C (show_sized ''TIME'' n) = Some (TTime n)"
  by (rule small_name_read; simp add: prefixes_def prefixed_types_def Let_def)+

lemma precision_reads:
  "pred_option (\<lambda>n. n < 256) p \<Longrightarrow> pred_option (\<lambda>n. n < 256) q \<Longrightarrow> (p = None \<longrightarrow> q = None) \<Longrightarrow>
     parse_tsql_type_name C (show_precision ''DECIMAL'' p q) = Some (TDecimal p q)"
  "pred_option (\<lambda>n. n < 256) p \<Longrightarrow> pred_option (\<lambda>n. n < 256) q \<Longrightarrow> (p = None \<longrightarrow> q = None) \<Longrightarrow>
     parse_tsql_type_name C (show_precision ''NUMERIC'' p q) = Some (TNumeric p q)"
  by (rule precision_name_read; simp add: prefixes_def prefixed_types_def Let_def)+

text \<open>
  C30. The name a type prints is read back as that type, sizes, precision and scale included: a
  parameter bound by EXECUTE has the type its procedure was declared with.
\<close>

theorem type_name_roundtrip:
  assumes "named_back t"
  shows "parse_tsql_type_name C (show_tsql_data_type t) = Some t"
  using assms
  by (cases t) (auto simp only: show_tsql_data_type.simps named_back.simps plain_reads sized_reads small_reads intro!: precision_reads)

theorem type_name_roundtrip_witness:
  "parse_tsql_type_name ascii_chars (show_tsql_data_type (TDecimal (Some 18) (Some 2))) = Some (TDecimal (Some 18) (Some 2))"
  by (rule type_name_roundtrip) simp

text \<open>The reader takes a prefix of a user-defined name for the whole: a type called TIMESTAMP is read as TIME.\<close>

lemma prefix_of_user_type: "parse_tsql_type_name C (chs ''TIMESTAMP'') = Some (TTime None)"
proof -
  have "solid ''TIMESTAMP''" by (simp add: solid_def)
  moreover have "by_name named_types (chs ''TIMESTAMP'') = None" unfolding by_name_chs by (simp add: named_types_def)
  moreover have "first_prefix (prefixed_types C) (chs (''TIME'' @ ''STAMP'')) = Some (TTime (map_option (\<lambda>n. n mod 256) (parse_optional_size C (chs ''STAMP''))))"
    using first_prefix_found [of "''TIME''" C "''STAMP''"] by (auto simp: prefixes_def prefixed_types_def Let_def)
  moreover have "parse_optional_size C (chs ''STAMP'') = None"
    using trim_solid [of "''STAMP''" C] by (simp add: parse_optional_size_def strip_parens_def is_whitespace_def)
  ultimately show ?thesis using read_solid [of "''TIMESTAMP''" C] by (simp add: is_whitespace_def)
qed

end
