(* ===== verification/TsqlLike.thy ===== *)
theory TsqlLike
  imports TsqlTypes
begin

section \<open>LIKE in T-SQL (crates/tsql-executor/src/interpreter.rs, tsql_like_match)\<close>

text \<open>
  The matcher is a dynamic program: one row of booleans per token of the pattern, cell \<open>j\<close> of it says
  whether the tokens so far match the first \<open>j\<close> characters. It is shown to decide the declarative
  meaning of a pattern: the value is a sequence of pieces, one per token, each of which fits its token.
  What the program takes from the standard library beyond ASCII is in \<open>exec_lib\<close>, with the operations
  on floating point numbers that the executor needs.
\<close>

record 'f exec_lib =
  xl_parser :: "'f parser_lib"
  xl_lower :: "ustring \<Rightarrow> ustring"
  xl_lower_char :: "uchar \<Rightarrow> ustring"
  xl_show_f64 :: "'f \<Rightarrow> ustring"
  xl_neg_f64 :: "'f \<Rightarrow> 'f"
  xl_f64_to_i32 :: "'f \<Rightarrow> int"
  xl_le_f64 :: "'f \<Rightarrow> 'f \<Rightarrow> bool"
  xl_zero_f64 :: 'f

abbreviation xl_chars :: "'f exec_lib \<Rightarrow> 'f char_lib" where
  "xl_chars X \<equiv> pl_chars (xl_parser X)"

definition lower_char :: "uchar \<Rightarrow> uchar" where
  "lower_char c = (if 65 \<le> c \<and> c \<le> 90 then c + 32 else c)"

definition lower_chars :: "'f exec_lib \<Rightarrow> ustring \<Rightarrow> ustring" where
  "lower_chars X s = (if list_all (\<lambda>c. c < 128) s then map lower_char s else xl_lower X s)"

definition lower_each :: "'f exec_lib \<Rightarrow> uchar \<Rightarrow> ustring" where
  "lower_each X c = (if c < 128 then [lower_char c] else xl_lower_char X c)"

subsection \<open>The matcher\<close>

datatype like_tok = Many | One | LitTok uchar

definition like_tok_of :: "uchar \<Rightarrow> like_tok" where
  "like_tok_of c = (if c = ch CHR ''%'' then Many else if c = ch CHR ''_'' then One else LitTok c)"

fun like_tokens :: "uchar option \<Rightarrow> ustring \<Rightarrow> like_tok list" where
  "like_tokens esc [] = []"
| "like_tokens esc [c] = [like_tok_of c]"
| "like_tokens esc (c # d # cs) =
     (if esc = Some c then LitTok d # like_tokens esc cs else like_tok_of c # like_tokens esc (d # cs))"

fun like_cells :: "like_tok \<Rightarrow> bool \<Rightarrow> bool list \<Rightarrow> ustring \<Rightarrow> bool list" where
  "like_cells tok left (p # q # prev) (c # cs) =
     (let cell = (case tok of Many \<Rightarrow> q \<or> left | One \<Rightarrow> p | LitTok d \<Rightarrow> p \<and> c = d)
      in cell # like_cells tok cell (q # prev) cs)"
| "like_cells tok left prev cs = []"

definition like_row :: "ustring \<Rightarrow> bool list \<Rightarrow> like_tok \<Rightarrow> bool list" where
  "like_row v prev tok = (let start = hd prev \<and> tok = Many in start # like_cells tok start prev v)"

definition tsql_like_match :: "'f exec_lib \<Rightarrow> ustring \<Rightarrow> ustring \<Rightarrow> uchar option \<Rightarrow> bool" where
  "tsql_like_match X value_text pattern escape =
     (let v = concat (map (lower_each X) value_text); p = concat (map (lower_each X) pattern);
          esc = map_option (\<lambda>c. case lower_each X c of d # _ \<Rightarrow> d | [] \<Rightarrow> c) escape
      in last (foldl (like_row v) (True # replicate (length v) False) (like_tokens esc p)))"

subsection \<open>What a pattern means\<close>

definition fits :: "like_tok \<Rightarrow> ustring \<Rightarrow> bool" where
  "fits tok piece \<longleftrightarrow> (case tok of Many \<Rightarrow> True | One \<Rightarrow> length piece = 1 | LitTok c \<Rightarrow> piece = [c])"

definition denotes :: "like_tok list \<Rightarrow> ustring \<Rightarrow> bool" where
  "denotes toks v \<longleftrightarrow> (\<exists>pieces. concat pieces = v \<and> list_all2 fits toks pieces)"

lemma denotes_Nil: "denotes [] v \<longleftrightarrow> v = []"
  by (auto simp: denotes_def)

lemma denotes_snoc: "denotes (toks @ [t]) v \<longleftrightarrow> (\<exists>a b. v = a @ b \<and> denotes toks a \<and> fits t b)"
proof
  assume "denotes (toks @ [t]) v"
  then obtain pieces where "concat pieces = v" "list_all2 fits (toks @ [t]) pieces" by (auto simp: denotes_def)
  then obtain us b where "v = concat us @ b" "list_all2 fits toks us" "fits t b"
    by (auto simp: list_all2_append1 list_all2_Cons1)
  then show "\<exists>a b. v = a @ b \<and> denotes toks a \<and> fits t b" unfolding denotes_def by blast
next
  assume "\<exists>a b. v = a @ b \<and> denotes toks a \<and> fits t b"
  then obtain us b where "v = concat us @ b" "list_all2 fits toks us" "fits t b" by (auto simp: denotes_def)
  then have "concat (us @ [b]) = v \<and> list_all2 fits (toks @ [t]) (us @ [b])" by (simp add: list_all2_appendI)
  then show "denotes (toks @ [t]) v" unfolding denotes_def by blast
qed

lemma denotes_many:
  assumes "j < length v"
  shows "denotes (toks @ [Many]) (take (Suc j) v) \<longleftrightarrow> denotes toks (take (Suc j) v) \<or> denotes (toks @ [Many]) (take j v)"
proof -
  have u: "take (Suc j) v = take j v @ [v ! j]" using assms by (rule take_Suc_conv_app_nth)
  show ?thesis
  proof
    assume "denotes (toks @ [Many]) (take (Suc j) v)"
    then obtain a b where ab: "take (Suc j) v = a @ b" "denotes toks a" by (auto simp: denotes_snoc)
    show "denotes toks (take (Suc j) v) \<or> denotes (toks @ [Many]) (take j v)"
    proof (cases b rule: rev_cases)
      case (snoc c x)
      then have "take j v = a @ c" using ab(1) u by (simp flip: append_assoc)
      then show ?thesis using ab(2) by (auto simp: denotes_snoc fits_def)
    qed (use ab in simp)
  next
    assume "denotes toks (take (Suc j) v) \<or> denotes (toks @ [Many]) (take j v)"
    then obtain a b where "denotes toks a" "take (Suc j) v = a @ b"
      unfolding denotes_snoc u by (metis append_assoc append_Nil2)
    then show "denotes (toks @ [Many]) (take (Suc j) v)" by (auto simp: denotes_snoc fits_def)
  qed
qed

lemma denotes_one:
  assumes "j < length v"
  shows "denotes (toks @ [One]) (take (Suc j) v) \<longleftrightarrow> denotes toks (take j v)"
    and "denotes (toks @ [LitTok d]) (take (Suc j) v) \<longleftrightarrow> denotes toks (take j v) \<and> v ! j = d"
  using take_Suc_conv_app_nth [OF assms] by (auto simp: denotes_snoc fits_def length_Suc_conv)

subsection \<open>The rows\<close>

lemma like_cells_rows:
  assumes "\<And>j. j < length v \<Longrightarrow> Q (Suc j) = (case tok of Many \<Rightarrow> P (Suc j) \<or> Q j | One \<Rightarrow> P j | LitTok d \<Rightarrow> P j \<and> v ! j = d)"
  shows "i \<le> length v \<Longrightarrow> like_cells tok (Q i) (map P [i..<Suc (length v)]) (drop i v) = map Q [Suc i..<Suc (length v)]"
proof (induction "length v - i" arbitrary: i)
  case 0
  then show ?case by simp
next
  case (Suc k)
  then have i: "i < length v" by simp
  have rows: "map P [i..<Suc (length v)] = P i # P (Suc i) # map P [Suc (Suc i)..<Suc (length v)]"
    using i by (simp add: upt_conv_Cons del: upt_Suc)
  have IH: "like_cells tok (Q (Suc i)) (map P [Suc i..<Suc (length v)]) (drop (Suc i) v) = map Q [Suc (Suc i)..<Suc (length v)]"
    using Suc i by (intro Suc.hyps(1)) auto
  have "like_cells tok (Q i) (map P [i..<Suc (length v)]) (drop i v) =
      Q (Suc i) # like_cells tok (Q (Suc i)) (map P [Suc i..<Suc (length v)]) (drop (Suc i) v)"
    using assms [OF i] i unfolding rows Cons_nth_drop_Suc [OF i, symmetric]
    by (auto simp: Let_def upt_conv_Cons simp del: upt_Suc split: like_tok.splits)
  then show ?case using IH i by (simp add: upt_conv_Cons del: upt_Suc)
qed

definition denotes_row :: "like_tok list \<Rightarrow> ustring \<Rightarrow> bool list" where
  "denotes_row toks v = map (\<lambda>j. denotes toks (take j v)) [0..<Suc (length v)]"

lemma like_row_step: "like_row v (denotes_row toks v) t = denotes_row (toks @ [t]) v"
proof -
  let ?P = "\<lambda>j. denotes toks (take j v)" and ?Q = "\<lambda>j. denotes (toks @ [t]) (take j v)"
  have start: "(hd (denotes_row toks v) \<and> t = Many) = ?Q 0"
    by (cases t) (auto simp: denotes_row_def upt_conv_Cons denotes_snoc fits_def simp del: upt_Suc)
  have "like_cells t (?Q 0) (map ?P [0..<Suc (length v)]) (drop 0 v) = map ?Q [Suc 0..<Suc (length v)]"
    by (rule like_cells_rows) (cases t; simp add: denotes_many denotes_one)+
  then show ?thesis
    unfolding like_row_def Let_def start by (simp add: denotes_row_def upt_conv_Cons del: upt_Suc)
qed

lemma like_rows: "foldl (like_row v) (denotes_row toks v) ts = denotes_row (toks @ ts) v"
  by (induction ts arbitrary: toks) (simp_all add: like_row_step)

lemma first_row: "denotes_row [] v = True # replicate (length v) False"
proof -
  have "map (\<lambda>j. take j v = []) [Suc 0..<Suc (length v)] = replicate (length v) False"
    by (rule nth_equalityI) (auto simp del: upt_Suc)
  then show ?thesis by (simp add: denotes_row_def denotes_Nil upt_conv_Cons del: upt_Suc)
qed

text \<open>
  C31. The dynamic program of LIKE decides the meaning of the pattern: the value, in lower case, is a
  sequence of pieces, one for each token of the pattern, where a percent sign takes any piece, an
  underscore one character and everything else, an escaped wildcard included, itself.
\<close>

theorem tsql_like_spec:
  "tsql_like_match X value_text pattern escape \<longleftrightarrow>
     (let v = concat (map (lower_each X) value_text); p = concat (map (lower_each X) pattern);
          esc = map_option (\<lambda>c. case lower_each X c of d # _ \<Rightarrow> d | [] \<Rightarrow> c) escape
      in \<exists>pieces. concat pieces = v \<and> list_all2 fits (like_tokens esc p) pieces)"
  unfolding tsql_like_match_def Let_def denotes_def [symmetric] first_row [symmetric] like_rows
  by (simp add: denotes_row_def)

end
