(* ===== verification/Utf8.thy ===== *)
theory Utf8
  imports Rust_Std
begin

section \<open>Strings as characters and as bytes\<close>

text \<open>
  The T-SQL front end works on the characters of a \<open>String\<close>, the catalog and the errors on its UTF-8
  bytes. \<open>utf8\<close> is what \<open>String::push\<close> writes, \<open>code_points\<close> what \<open>str::chars\<close> reads.
\<close>

definition utf8_char :: "nat \<Rightarrow> string" where
  "utf8_char c =
     map char_of
       (if c < 128 then [c]
        else if c < 2048 then [192 + c div 64, 128 + c mod 64]
        else if c < 65536 then [224 + c div 4096, 128 + c div 64 mod 64, 128 + c mod 64]
        else [240 + c div 262144, 128 + c div 4096 mod 64, 128 + c div 64 mod 64, 128 + c mod 64])"

definition utf8 :: "nat list \<Rightarrow> string" where
  "utf8 s = concat (map utf8_char s)"

definition follow :: "nat \<Rightarrow> char \<Rightarrow> nat" where
  "follow acc c = 64 * acc + of_char c mod 64"

definition utf8_decode_head :: "string \<Rightarrow> nat" where
  "utf8_decode_head s =
     (case s of
        [] \<Rightarrow> 0
      | b # bs \<Rightarrow>
          let v = of_char b
          in if v < 128 then v
             else if v < 224 then fold (\<lambda>c acc. follow acc c) (take 1 bs) (v - 192)
             else if v < 240 then fold (\<lambda>c acc. follow acc c) (take 2 bs) (v - 224)
             else fold (\<lambda>c acc. follow acc c) (take 3 bs) (v - 240))"

definition head_width :: "string \<Rightarrow> nat" where
  "head_width s =
     (case s of [] \<Rightarrow> 0 | b # bs \<Rightarrow> let v = of_char b :: nat in if v < 128 then 1 else if v < 224 then 2 else if v < 240 then 3 else 4)"

function code_points :: "string \<Rightarrow> nat list" where
  "code_points s = (if s = [] then [] else utf8_decode_head s # code_points (drop (head_width s) s))"
  by pat_completeness auto
termination
  by (relation "measure length") (auto simp: head_width_def Let_def neq_Nil_conv)

declare code_points.simps [simp del]

text \<open>A Unicode scalar value: what a Rust \<open>char\<close> is.\<close>

definition scalar :: "nat \<Rightarrow> bool" where
  "scalar c \<longleftrightarrow> c < 55296 \<or> 57344 \<le> c \<and> c < 1114112"

lemma mod_256_small: "n < 256 \<Longrightarrow> (of_char (char_of n :: char) :: nat) = n"
  by (simp add: of_char_of)

lemma base_64:
  "64 * (c div 64) + c mod 64 = (c :: nat)" "64 * (64 * (c div 4096) + c div 64 mod 64) + c mod 64 = c"
  "64 * (64 * (64 * (c div 262144) + c div 4096 mod 64) + c div 64 mod 64) + c mod 64 = c"
proof -
  have step: "64 * (n div 64) + n mod 64 = n" for n :: nat by simp
  have d: "c div 4096 = c div 64 div 64" "c div 262144 = c div 64 div 64 div 64" by (simp_all flip: div_mult2_eq)
  show "64 * (c div 64) + c mod 64 = c" "64 * (64 * (c div 4096) + c div 64 mod 64) + c mod 64 = c"
    "64 * (64 * (64 * (c div 262144) + c div 4096 mod 64) + c div 64 mod 64) + c mod 64 = c"
    unfolding d step by (rule refl)+
qed

lemma tail_mod: "(128 + n mod 64) mod 64 = n mod (64 :: nat)"
proof -
  have "(128 + n mod 64) mod 64 = (2 * 64 + n mod 64) mod 64" by simp
  then show ?thesis by (simp only: mod_mult_self3 mod_mod_trivial)
qed

lemma base_64_flat:
  "4096 * (c div 4096) + 64 * (c div 64 mod 64) + c mod 64 = (c :: nat)"
  "262144 * (c div 262144) + 4096 * (c div 4096 mod 64) + 64 * (c div 64 mod 64) + c mod 64 = c"
  using base_64(2,3) [of c] by simp_all

lemmas decode_simps = utf8_char_def utf8_decode_head_def head_width_def mod_256_small follow_def tail_mod Let_def base_64 base_64_flat

lemma utf8_char_decode:
  assumes "c < 1114112"
  shows "utf8_char c \<noteq> [] \<and> utf8_decode_head (utf8_char c @ s) = c \<and> head_width (utf8_char c @ s) = length (utf8_char c)"
proof -
  have small: "128 + n mod 64 < 256" for n :: nat using mod_less_divisor [of 64 n] by linarith
  consider "c < 128" | "128 \<le> c" "c < 2048" | "2048 \<le> c" "c < 65536" | "65536 \<le> c" by linarith
  then show ?thesis
  proof cases
    case 1
    then show ?thesis by (simp add: decode_simps)
  next
    case 2
    then have "192 + c div 64 < 224" "192 + c div 64 < 256" by (auto simp: less_mult_imp_div_less)
    then show ?thesis using 2 small by (simp add: decode_simps)
  next
    case 3
    then have "224 + c div 4096 < 240" "224 + c div 4096 < 256" by (auto simp: less_mult_imp_div_less)
    then show ?thesis using 3 small by (simp add: decode_simps numeral_2_eq_2)
  next
    case 4
    then have "240 + c div 262144 < 256" using assms by (auto simp: less_mult_imp_div_less)
    then show ?thesis using 4 small by (simp add: decode_simps numeral_3_eq_3)
  qed
qed

lemma utf8_simps [simp]: "utf8 [] = []" "utf8 (c # cs) = utf8_char c @ utf8 cs" "utf8 (s @ t) = utf8 s @ utf8 t"
  by (simp_all add: utf8_def)

lemma code_points_Nil [simp]: "code_points [] = []"
  by (simp add: code_points.simps)

lemma code_points_utf8: "list_all (\<lambda>c. c < 1114112) s \<Longrightarrow> code_points (utf8 s) = s"
proof (induction s)
  case (Cons c cs)
  then show ?case
    using utf8_char_decode [of c "utf8 cs"] by (subst code_points.simps) simp
qed simp

lemma utf8_chs: "\<forall>c \<in> set s. (of_char c :: nat) < 128 \<Longrightarrow> utf8 (map of_char s) = s"
  by (induction s) (simp_all add: utf8_char_def)

end
