(* ===== verification/TsqlRuntime.thy ===== *)
theory TsqlRuntime
  imports TsqlLike Errors Utf8
begin

section \<open>Variables, cursors and transactions of the T-SQL executor\<close>

text \<open>
  The three stores of an execution context (crates/tsql-executor/src/variables.rs,
  cursor_engine.rs, transaction.rs). A hash map is an association list. A position of a cursor is an
  \<open>isize\<close> and a transaction count a \<open>u32\<close>; both wrap in the release profile. The transaction manager
  is shared by all connections; the locale \<open>connection_state\<close> states what keeps them apart.
\<close>

subsection \<open>Variables\<close>

type_synonym 'f variable_store = "(ustring \<times> tsql_data_type \<times> 'f tsql_literal) list"

definition default_for_type :: "'f exec_lib \<Rightarrow> tsql_data_type \<Rightarrow> 'f tsql_literal" where
  "default_for_type X dt =
     (case dt of
        TInt \<Rightarrow> LitInt 0 | TSmallInt \<Rightarrow> LitInt 0 | TTinyInt \<Rightarrow> LitInt 0 | TBigInt \<Rightarrow> LitInt 0
      | TFloat _ \<Rightarrow> LitFloat (xl_zero_f64 X) | TReal \<Rightarrow> LitFloat (xl_zero_f64 X)
      | TBit \<Rightarrow> LitBit False
      | TMoney \<Rightarrow> LitMoney (chs ''0.00'') | TSmallMoney \<Rightarrow> LitMoney (chs ''0.00'')
      | TChar _ \<Rightarrow> LitString [] | TVarchar _ \<Rightarrow> LitString [] | TNChar _ \<Rightarrow> LitString [] | TNVarchar _ \<Rightarrow> LitString []
      | TText \<Rightarrow> LitString [] | TNText \<Rightarrow> LitString [] | TXml \<Rightarrow> LitString []
      | TBinary _ \<Rightarrow> LitBinary [] | TVarBinary _ \<Rightarrow> LitBinary [] | TImage \<Rightarrow> LitBinary []
      | TDate \<Rightarrow> LitDateTime [] | TDateTime \<Rightarrow> LitDateTime [] | TSmallDateTime \<Rightarrow> LitDateTime [] | TDateTime2 _ \<Rightarrow> LitDateTime []
      | _ \<Rightarrow> LitNull)"

definition coerce_literal :: "'f tsql_literal \<Rightarrow> tsql_data_type \<Rightarrow> 'f tsql_literal" where
  "coerce_literal v target = v"

definition var_declare :: "'f exec_lib \<Rightarrow> ustring \<Rightarrow> tsql_data_type \<Rightarrow> 'f tsql_literal option \<Rightarrow> 'f variable_store \<Rightarrow> 'f variable_store" where
  "var_declare X name dt initial vs =
     AList.update (lower_chars X name) (dt, case initial of Some v \<Rightarrow> v | None \<Rightarrow> default_for_type X dt) vs"

definition var_set :: "'f exec_lib \<Rightarrow> ustring \<Rightarrow> 'f tsql_literal \<Rightarrow> 'f variable_store \<Rightarrow> procedure_error + 'f variable_store" where
  "var_set X name v vs =
     (let key = lower_chars X name
      in case map_of vs key of
           Some (dt, _) \<Rightarrow> Inr (AList.update key (dt, coerce_literal v dt) vs)
         | None \<Rightarrow> Inl (VariableNotDeclared (utf8 name)))"

definition var_get :: "'f exec_lib \<Rightarrow> ustring \<Rightarrow> 'f variable_store \<Rightarrow> procedure_error + 'f tsql_literal" where
  "var_get X name vs =
     (case map_of vs (lower_chars X name) of Some (_, v) \<Rightarrow> Inr v | None \<Rightarrow> Inl (VariableNotDeclared (utf8 name)))"

definition var_snapshot :: "'f variable_store \<Rightarrow> 'f variable_store" where
  "var_snapshot vs = vs"

definition var_restore :: "'f variable_store \<Rightarrow> 'f variable_store \<Rightarrow> 'f variable_store" where
  "var_restore vs snapshot = snapshot"

text \<open>What reading returns after a declaration or an assignment, in terms of the names in lower case.\<close>

lemma var_get_declare:
  "var_get X name (var_declare X other dt initial vs) =
     (if lower_chars X name = lower_chars X other then Inr (case initial of Some v \<Rightarrow> v | None \<Rightarrow> default_for_type X dt)
      else var_get X name vs)"
  by (simp add: var_get_def var_declare_def update_conv')

lemma var_get_set:
  assumes "var_set X other v vs = Inr vs'"
  shows "var_get X name vs' = (if lower_chars X name = lower_chars X other then Inr v else var_get X name vs)"
  using assms by (auto simp: var_set_def var_get_def update_conv' coerce_literal_def Let_def split: option.splits if_splits)

lemma var_set_declared: "(\<exists>vs'. var_set X name v vs = Inr vs') \<longleftrightarrow> (\<exists>u. var_get X name vs = Inr u)"
  by (auto simp: var_set_def var_get_def Let_def split: option.splits)

subsection \<open>Cursors\<close>

datatype cursor_status = Declared | Open | Closed | Deallocated

record tsql_cursor =
  cu_name :: ustring
  cu_status :: cursor_status
  cu_result_set :: "ustring list list"
  cu_columns :: "(ustring \<times> ustring) list"
  cu_position :: int
  cu_scroll_type :: cursor_scroll_type
  cu_is_read_only :: bool

type_synonym cursor_store = "(ustring \<times> tsql_cursor) list"

definition cursor_declare :: "'f exec_lib \<Rightarrow> ustring \<Rightarrow> cursor_scroll_type \<Rightarrow> cursor_store \<Rightarrow> procedure_error + cursor_store" where
  "cursor_declare X name scroll cs =
     (if map_of cs name \<noteq> None then Inl (CursorAlreadyDeclared (utf8 name))
      else Inr (AList.update (lower_chars X name)
        \<lparr>cu_name = name, cu_status = Declared, cu_result_set = [], cu_columns = [], cu_position = -1,
         cu_scroll_type = scroll, cu_is_read_only = True\<rparr> cs))"

definition cursor_open :: "'f exec_lib \<Rightarrow> ustring \<Rightarrow> ustring list list \<Rightarrow> (ustring \<times> ustring) list \<Rightarrow> cursor_store \<Rightarrow> procedure_error + cursor_store" where
  "cursor_open X name rows columns cs =
     (case map_of cs (lower_chars X name) of
        None \<Rightarrow> Inl (CursorNotDeclared (utf8 name))
      | Some c \<Rightarrow>
          Inr (AList.update (lower_chars X name)
            (c\<lparr>cu_result_set := rows, cu_columns := columns, cu_position := -1, cu_status := Open\<rparr>) cs))"

definition row_at :: "ustring list list \<Rightarrow> int \<Rightarrow> ustring list option \<times> int" where
  "row_at rows p = (if 0 \<le> p \<and> p < int (length rows) then (Some (rows ! nat p), 0) else (None, -1))"

definition fetch_position :: "fetch_orientation \<Rightarrow> nat \<Rightarrow> int \<Rightarrow> int" where
  "fetch_position orientation row_count p =
     (case orientation of
        FetchNext \<Rightarrow> wrap_i64 (p + 1)
      | FetchPrior \<Rightarrow> wrap_i64 (p - 1)
      | FetchFirst \<Rightarrow> 0
      | FetchLast \<Rightarrow> int row_count - 1
      | FetchAbsolute n \<Rightarrow> n
      | FetchRelative n \<Rightarrow> wrap_i64 (p + n))"

definition cursor_fetch :: "'f exec_lib \<Rightarrow> ustring \<Rightarrow> fetch_orientation \<Rightarrow> cursor_store \<Rightarrow>
    (procedure_error + ustring list option \<times> int) \<times> cursor_store" where
  "cursor_fetch X name orientation cs =
     (case map_of cs (lower_chars X name) of
        None \<Rightarrow> (Inl (CursorNotDeclared (utf8 name)), cs)
      | Some c \<Rightarrow>
          if cu_status c \<noteq> Open then (Inl (CursorNotOpen (utf8 name)), cs)
          else let p = fetch_position orientation (length (cu_result_set c)) (cu_position c)
               in (Inr (row_at (cu_result_set c) p), AList.update (lower_chars X name) (c\<lparr>cu_position := p\<rparr>) cs))"

definition cursor_close :: "'f exec_lib \<Rightarrow> ustring \<Rightarrow> cursor_store \<Rightarrow> procedure_error + cursor_store" where
  "cursor_close X name cs =
     (case map_of cs (lower_chars X name) of
        None \<Rightarrow> Inl (CursorNotDeclared (utf8 name))
      | Some c \<Rightarrow> Inr (AList.update (lower_chars X name) (c\<lparr>cu_status := Closed\<rparr>) cs))"

definition cursor_deallocate :: "'f exec_lib \<Rightarrow> ustring \<Rightarrow> cursor_store \<Rightarrow> procedure_error + cursor_store" where
  "cursor_deallocate X name cs =
     (case map_of cs (lower_chars X name) of
        None \<Rightarrow> Inl (CursorNotDeclared (utf8 name))
      | Some _ \<Rightarrow> Inr (AList.delete (lower_chars X name) cs))"

text \<open>Fetching the next row again and again.\<close>

fun fetch_all :: "'f exec_lib \<Rightarrow> ustring \<Rightarrow> nat \<Rightarrow> cursor_store \<Rightarrow> (procedure_error + ustring list option \<times> int) list" where
  "fetch_all X name 0 cs = []"
| "fetch_all X name (Suc n) cs = (case cursor_fetch X name FetchNext cs of (r, cs') \<Rightarrow> r # fetch_all X name n cs')"

lemma fetch_all_from:
  assumes "map_of cs (lower_chars X name) = Some c" and "cu_status c = Open" and "-1 \<le> cu_position c"
    and "cu_position c + int n < 2 ^ 63"
  shows "fetch_all X name n cs = map (\<lambda>i. Inr (row_at (cu_result_set c) (cu_position c + 1 + int i))) [0..<n]"
  using assms
proof (induction n arbitrary: cs c)
  case (Suc n)
  have next_pos: "wrap_i64 (cu_position c + 1) = cu_position c + 1"
    using Suc.prems by (intro wrap_i64_id) (auto simp: in_i64_def i64_min_def i64_max_def)
  let ?c = "c\<lparr>cu_position := cu_position c + 1\<rparr>" and ?cs = "AList.update (lower_chars X name) (c\<lparr>cu_position := cu_position c + 1\<rparr>) cs"
  have "fetch_all X name n ?cs = map (\<lambda>i. Inr (row_at (cu_result_set c) (cu_position c + 1 + 1 + int i))) [0..<n]"
    using Suc.IH [of ?cs ?c] Suc.prems by (simp add: update_conv')
  then show ?case
    using Suc.prems next_pos by (simp add: cursor_fetch_def fetch_position_def map_upt_Suc Let_def ac_simps del: upt_Suc)
qed simp

subsection \<open>Transactions\<close>

record transaction_state =
  tran_count :: nat
  savepoints :: "ustring list"
  is_active :: bool

type_synonym transactions = "(nat \<times> transaction_state) list"

definition transaction_default :: transaction_state where
  "transaction_default = \<lparr>tran_count = 0, savepoints = [], is_active = False\<rparr>"

definition session_entry :: "nat \<Rightarrow> transactions \<Rightarrow> transaction_state" where
  "session_entry conn ts = (case map_of ts conn of Some s \<Rightarrow> s | None \<Rightarrow> transaction_default)"

definition begin_tran :: "nat \<Rightarrow> transactions \<Rightarrow> transactions" where
  "begin_tran conn ts =
     (let s = session_entry conn ts
      in AList.update conn (s\<lparr>tran_count := (tran_count s + 1) mod 2 ^ 32, is_active := True\<rparr>) ts)"

definition commit_tran :: "nat \<Rightarrow> transactions \<Rightarrow> bool \<times> transactions" where
  "commit_tran conn ts =
     (let s = session_entry conn ts;
          s = (if 0 < tran_count s then s\<lparr>tran_count := tran_count s - 1\<rparr> else s)
      in if tran_count s = 0 then (True, AList.update conn (s\<lparr>is_active := False, savepoints := []\<rparr>) ts)
         else (False, AList.update conn s ts))"

definition rollback_tran :: "nat \<Rightarrow> transactions \<Rightarrow> transactions" where
  "rollback_tran conn ts =
     (case map_of ts conn of
        Some s \<Rightarrow> AList.update conn (s\<lparr>tran_count := 0, is_active := False, savepoints := []\<rparr>) ts
      | None \<Rightarrow> ts)"

definition save_tran :: "nat \<Rightarrow> ustring \<Rightarrow> transactions \<Rightarrow> transactions" where
  "save_tran conn name ts =
     (let s = session_entry conn ts in AList.update conn (s\<lparr>savepoints := savepoints s @ [name]\<rparr>) ts)"

definition get_tran_count :: "transactions \<Rightarrow> nat \<Rightarrow> nat" where
  "get_tran_count ts conn = (case map_of ts conn of Some s \<Rightarrow> tran_count s | None \<Rightarrow> 0)"

text \<open>What each operation does to the entry of each connection.\<close>

lemma session_entry_ops:
  "session_entry c (begin_tran d ts) =
     (if c = d then (session_entry d ts)\<lparr>tran_count := (tran_count (session_entry d ts) + 1) mod 2 ^ 32, is_active := True\<rparr>
      else session_entry c ts)"
  "session_entry c (snd (commit_tran d ts)) =
     (if c = d then
        if tran_count (session_entry d ts) \<le> 1 then transaction_default
        else (session_entry d ts)\<lparr>tran_count := tran_count (session_entry d ts) - 1\<rparr>
      else session_entry c ts)"
  "session_entry c (rollback_tran d ts) = (if c = d then transaction_default else session_entry c ts)"
  "session_entry c (save_tran d name ts) =
     (if c = d then (session_entry d ts)\<lparr>savepoints := savepoints (session_entry d ts) @ [name]\<rparr> else session_entry c ts)"
  by (auto simp: session_entry_def begin_tran_def commit_tran_def rollback_tran_def save_tran_def update_conv' Let_def
      transaction_default_def split: option.splits)

lemma get_tran_count_entry: "get_tran_count ts conn = tran_count (session_entry conn ts)"
  by (simp add: get_tran_count_def session_entry_def transaction_default_def split: option.splits)

subsection \<open>Connections that share one manager\<close>

text \<open>
  A store that many connections share: each operation belongs to one connection and leaves what the
  others see as it is. If moreover what a connection sees after an operation of its own depends only on
  what it saw before, then the order in which the operations of others are mixed in makes no
  difference to it.
\<close>

locale isolated_state =
  fixes view_of :: "'c \<Rightarrow> 's \<Rightarrow> 'v"
    and act :: "'c \<Rightarrow> 'o \<Rightarrow> 's \<Rightarrow> 's"
  assumes foreign: "c \<noteq> d \<Longrightarrow> view_of c (act d a s) = view_of c s"
begin

definition run_steps :: "('c \<times> 'o) list \<Rightarrow> 's \<Rightarrow> 's" where
  "run_steps tr s = fold (\<lambda>(d, a). act d a) tr s"

lemma run_simps [simp]: "run_steps [] s = s" "run_steps ((d, a) # tr) s = run_steps tr (act d a s)"
  by (simp_all add: run_steps_def)

lemma run_foreign: "c \<notin> fst ` set tr \<Longrightarrow> view_of c (run_steps tr s) = view_of c s"
  by (induction tr arbitrary: s) (auto simp: foreign)

end

locale connection_state = isolated_state +
  assumes determined: "view_of c s = view_of c t \<Longrightarrow> view_of c (act c a s) = view_of c (act c a t)"
begin

lemma run_own_steps:
  "view_of c s = view_of c t \<Longrightarrow> view_of c (run_steps tr s) = view_of c (run_steps (filter (\<lambda>(d, a). d = c) tr) t)"
proof (induction tr arbitrary: s t)
  case (Cons step tr)
  obtain d a where step: "step = (d, a)" by (cases step)
  show ?case
  proof (cases "d = c")
    case True
    with determined [OF Cons.prems] have "view_of c (act d a s) = view_of c (act d a t)" by simp
    from Cons.IH [OF this] show ?thesis using step True by simp
  next
    case False
    then have "view_of c (act d a s) = view_of c t" using Cons.prems foreign by simp
    from Cons.IH [OF this] show ?thesis using step False by simp
  qed
qed simp

lemma run_interleaving:
  assumes "filter (\<lambda>(d, a). d = c) tr = filter (\<lambda>(d, a). d = c) tr'"
  shows "view_of c (run_steps tr s) = view_of c (run_steps tr' s)"
  using run_own_steps [of c s s tr] run_own_steps [of c s s tr'] assms by simp

end

definition tran_step :: "nat \<Rightarrow> transaction_statement \<Rightarrow> transactions \<Rightarrow> transactions" where
  "tran_step conn stmt ts =
     (case stmt of
        BeginTransaction _ \<Rightarrow> begin_tran conn ts
      | CommitTransaction _ \<Rightarrow> snd (commit_tran conn ts)
      | RollbackTransaction _ \<Rightarrow> rollback_tran conn ts
      | SaveTransaction name \<Rightarrow> save_tran conn name ts)"

interpretation tx: connection_state session_entry tran_step
  by unfold_locales (auto simp: tran_step_def session_entry_ops split: transaction_statement.splits)

subsection \<open>Properties of cursors and transactions\<close>

text \<open>
  C34. A cursor that is opened on some rows gives every row once and in order, and after the last one
  the status -1 for ever, as long as the position fits its type.
\<close>

theorem cursor_scan:
  assumes "cursor_open X name rows columns cs = Inr cs'" and "int (length rows + k) < 2 ^ 63"
  shows "fetch_all X name (length rows + k) cs' =
           map (\<lambda>row. Inr (Some row, 0)) rows @ replicate k (Inr (None, -1))"
proof -
  obtain c where c: "map_of cs' (lower_chars X name) = Some c" "cu_status c = Open" "cu_result_set c = rows" "cu_position c = -1"
    using assms(1) by (auto simp: cursor_open_def update_conv' split: option.splits)
  have "fetch_all X name (length rows + k) cs' = map (\<lambda>i. Inr (row_at rows (int i))) [0..<length rows + k]"
    using fetch_all_from [of cs' X name c "length rows + k"] c assms(2) by simp
  moreover have "map (\<lambda>i. Inr (row_at rows (int i))) [0..<length rows] = map (\<lambda>row. Inr (Some row, 0)) rows"
    by (intro nth_equalityI) (simp_all add: row_at_def)
  moreover have "map (\<lambda>i. Inr (row_at rows (int i))) [length rows..<length rows + k] = replicate k (Inr (None, -1))"
    by (intro nth_equalityI) (simp_all add: row_at_def)
  ultimately show ?thesis by (simp add: upt_add_eq_append [of 0])
qed

definition ascii_exec :: "nat exec_lib" where
  "ascii_exec =
     \<lparr>xl_parser = \<lparr>pl_chars = ascii_chars, pl_debug_str = id, pl_debug_f64 = \<lambda>_. []\<rparr>, xl_lower = id, xl_lower_char = \<lambda>c. [c],
      xl_show_f64 = \<lambda>_. [], xl_neg_f64 = id, xl_f64_to_i32 = int, xl_le_f64 = (\<le>), xl_zero_f64 = 0\<rparr>"

definition one_cursor :: cursor_store where
  "one_cursor =
     [(chs ''c'', \<lparr>cu_name = chs ''C'', cu_status = Declared, cu_result_set = [], cu_columns = [], cu_position = -1,
       cu_scroll_type = CursorForwardOnly, cu_is_read_only = True\<rparr>)]"

definition two_rows :: "ustring list list" where
  "two_rows = [[chs ''1''], [chs ''2'']]"

theorem cursor_scan_witness:
  "fetch_all ascii_exec (chs ''c'') (length two_rows + 2) (projr (cursor_open ascii_exec (chs ''c'') two_rows [] one_cursor)) =
     map (\<lambda>row. Inr (Some row, 0)) two_rows @ replicate 2 (Inr (None, -1))"
proof -
  obtain cs' where cs': "cursor_open ascii_exec (chs ''c'') two_rows [] one_cursor = Inr cs'"
    by (simp add: cursor_open_def one_cursor_def lower_chars_def lower_char_def)
  then show ?thesis using cursor_scan [OF cs', of 2] by (simp add: two_rows_def)
qed

text \<open>
  The transaction count of a connection is decided by its own statements: two histories in which
  they are the same and in the same order give it the same count, whatever other connections do and
  however their statements are mixed in.
\<close>

theorem tran_count_interleaving:
  assumes "filter (\<lambda>(d, a). d = c) tr = filter (\<lambda>(d, a). d = c) tr'"
  shows "get_tran_count (fold (\<lambda>(d, a). tran_step d a) tr ts) c = get_tran_count (fold (\<lambda>(d, a). tran_step d a) tr' ts) c"
  using tx.run_interleaving [OF assms, of ts] by (simp add: get_tran_count_entry tx.run_steps_def)

theorem tran_count_interleaving_witness:
  "get_tran_count (fold (\<lambda>(d, a). tran_step d a)
     [(1, BeginTransaction None), (2, BeginTransaction None), (1, BeginTransaction None), (2, RollbackTransaction None)] []) 1 =
   get_tran_count (fold (\<lambda>(d, a). tran_step d a) [(1, BeginTransaction None), (1, BeginTransaction None)] []) 1"
  by (rule tran_count_interleaving) simp

text \<open>A cursor declared under a name with upper-case letters can be declared again: the check looks for the
  name as it is written, the map holds it in lower case. The declaration replaces the open cursor.\<close>

lemma declare_mixed_case_replaces:
  "lower_chars X name \<noteq> name \<Longrightarrow> map_of cs name = None \<Longrightarrow> \<exists>cs'. cursor_declare X name scroll cs = Inr cs' \<and>
     map_option cu_status (map_of cs' (lower_chars X name)) = Some Declared"
  by (auto simp: cursor_declare_def update_conv')

end
