(* ===== verification/TsqlEval.thy ===== *)
theory TsqlEval
  imports TsqlRuntime CatalogManager
begin

section \<open>Evaluating T-SQL expressions (crates/tsql-executor/src/context.rs, interpreter.rs)\<close>

text \<open>
  The execution context and the evaluation of expressions and conditions. An evaluation returns a
  value, an error, or panics (the only panic is the division of \<open>i64::MIN\<close> by -1); it changes nothing
  of the context, so the context is an argument and the state of the evaluation is only the number of
  readings of the clock and of the generator of identifiers so far. The texts of those readings are in
  \<open>exec_env\<close>, the packages chrono and uuid. Arithmetic on \<open>i64\<close> wraps, as in the release profile.
\<close>

subsection \<open>The context\<close>

record tsql_options =
  so_nocount :: bool
  so_ansi_nulls :: bool
  so_xact_abort :: bool

definition tsql_options_default :: tsql_options where
  "tsql_options_default = \<lparr>so_nocount = False, so_ansi_nulls = True, so_xact_abort = False\<rparr>"

record ('f, 'b) exec_context =
  xc_conn_id :: nat
  xc_database :: ustring
  xc_variables :: "'f variable_store"
  xc_cursors :: cursor_store
  xc_set_options :: tsql_options
  xc_rowcount :: nat
  xc_error :: int
  xc_fetch_status :: int
  xc_nest_level :: nat
  xc_identity :: int
  xc_messages :: "ustring list"
  xc_catalog :: "'b catalog_manager"
  xc_txn :: transactions
  xc_max_nest_level :: nat
  xc_catch_number :: int
  xc_catch_message :: ustring
  xc_catch_severity :: nat
  xc_catch_state :: nat
  xc_catch_line :: nat
  xc_catch_procedure :: "ustring option"
  xc_readings :: nat

definition context_new :: "nat \<Rightarrow> ustring \<Rightarrow> 'b catalog_manager \<Rightarrow> transactions \<Rightarrow> nat \<Rightarrow> ('f, 'b) exec_context" where
  "context_new conn db catalog txn readings =
     \<lparr>xc_conn_id = conn, xc_database = db, xc_variables = [], xc_cursors = [], xc_set_options = tsql_options_default,
      xc_rowcount = 0, xc_error = 0, xc_fetch_status = -9, xc_nest_level = 0, xc_identity = 0, xc_messages = [],
      xc_catalog = catalog, xc_txn = txn, xc_max_nest_level = 32, xc_catch_number = 0, xc_catch_message = [],
      xc_catch_severity = 0, xc_catch_state = 0, xc_catch_line = 0, xc_catch_procedure = None, xc_readings = readings\<rparr>"

definition child_context :: "('f, 'b) exec_context \<Rightarrow> ('f, 'b) exec_context" where
  "child_context ctx =
     \<lparr>xc_conn_id = xc_conn_id ctx, xc_database = xc_database ctx, xc_variables = [], xc_cursors = [],
      xc_set_options = xc_set_options ctx, xc_rowcount = 0, xc_error = 0, xc_fetch_status = -9,
      xc_nest_level = (xc_nest_level ctx + 1) mod 2 ^ 32, xc_identity = xc_identity ctx, xc_messages = [],
      xc_catalog = xc_catalog ctx, xc_txn = xc_txn ctx, xc_max_nest_level = xc_max_nest_level ctx,
      xc_catch_number = 0, xc_catch_message = [], xc_catch_severity = 0, xc_catch_state = 0, xc_catch_line = 0,
      xc_catch_procedure = None, xc_readings = xc_readings ctx\<rparr>"

definition fixed_variables :: "(string \<times> 'f tsql_literal) list" where
  "fixed_variables =
     [(''SERVERNAME'', LitString (chs ''HarnessDB'')), (''VERSION'', LitString (chs ''16.0'')),
      (''LANGUAGE'', LitString (chs ''us_english'')), (''DATEFORMAT'', LitString (chs ''mdy'')),
      (''MAX_CONNECTIONS'', LitInt 100), (''CPU_BUSY'', LitInt 0), (''IDLE'', LitInt 0), (''IO_BUSY'', LitInt 0),
      (''PACK_RECEIVED'', LitInt 0), (''PACK_SENT'', LitInt 0), (''PACKET_ERRORS'', LitInt 0),
      (''TOTAL_ERRORS'', LitInt 0), (''TIMETICKS'', LitInt 31250), (''CONNECTIONS'', LitInt 1)]"

definition system_variable :: "'f exec_lib \<Rightarrow> ('f, 'b) exec_context \<Rightarrow> ustring \<Rightarrow> 'f tsql_literal" where
  "system_variable X ctx name =
     (let n = upper_chars (xl_chars X) name
      in if n = chs ''ERROR'' then LitInt (xc_error ctx)
         else if n = chs ''ROWCOUNT'' then LitInt (wrap_i64 (int (xc_rowcount ctx)))
         else if n = chs ''FETCH_STATUS'' then LitInt (xc_fetch_status ctx)
         else if n = chs ''TRANCOUNT'' then LitInt (int (get_tran_count (xc_txn ctx) (xc_conn_id ctx)))
         else if n = chs ''NESTLEVEL'' then LitInt (int (xc_nest_level ctx))
         else if n = chs ''SPID'' then LitInt (int (xc_conn_id ctx))
         else if n = chs ''IDENTITY'' then LitInt (xc_identity ctx)
         else (case map_of (map (\<lambda>(k, v). (chs k, v)) fixed_variables) n of Some v \<Rightarrow> v | None \<Rightarrow> LitNull))"

subsection \<open>Evaluation\<close>

record exec_env =
  ev_local_now :: "nat \<Rightarrow> ustring"
  ev_utc_now :: "nat \<Rightarrow> ustring"
  ev_new_uuid :: "nat \<Rightarrow> ustring"
  ev_timestamp :: "nat \<Rightarrow> int"

datatype 'a outcome = Done 'a | Failed procedure_error | Panicked

type_synonym 'a eval = "nat \<Rightarrow> 'a outcome \<times> nat"

definition pure :: "'a \<Rightarrow> 'a eval" where
  "pure x = (\<lambda>n. (Done x, n))"

definition from_result :: "procedure_error + 'a \<Rightarrow> 'a eval" where
  "from_result r = (\<lambda>n. (case r of Inl e \<Rightarrow> Failed e | Inr x \<Rightarrow> Done x, n))"

definition panic :: "'a eval" where
  "panic = (\<lambda>n. (Panicked, n))"

definition bind_eval :: "'a eval \<Rightarrow> ('a \<Rightarrow> 'b eval) \<Rightarrow> 'b eval" where
  "bind_eval m k = (\<lambda>n. case m n of (Done x, n') \<Rightarrow> k x n' | (Failed e, n') \<Rightarrow> (Failed e, n') | (Panicked, n') \<Rightarrow> (Panicked, n'))"

text \<open>\<open>unwrap_or\<close> on the result of an evaluation: an error is replaced, a panic is not.\<close>

definition or_else :: "'a eval \<Rightarrow> 'a \<Rightarrow> 'a eval" where
  "or_else m d = (\<lambda>n. case m n of (Failed _, n') \<Rightarrow> (Done d, n') | r \<Rightarrow> r)"

definition reading :: "(nat \<Rightarrow> 'a) \<Rightarrow> 'a eval" where
  "reading f = (\<lambda>n. (Done (f n), n + 1))"

definition hex_byte :: "nat \<Rightarrow> string" where
  "hex_byte b = map (\<lambda>d. if d < 10 then char_of (48 + d) else char_of (87 + d)) [b div 16, b mod 16]"

fun literal_to_string :: "'f exec_lib \<Rightarrow> 'f tsql_literal \<Rightarrow> ustring" where
  "literal_to_string X LitNull = chs ''NULL''"
| "literal_to_string X (LitInt n) = chs (show_int n)"
| "literal_to_string X (LitFloat f) = xl_show_f64 X f"
| "literal_to_string X (LitString s) = s"
| "literal_to_string X (LitBinary b) = chs ''0x'' @ chs (concat (map hex_byte b))"
| "literal_to_string X (LitMoney s) = s"
| "literal_to_string X (LitDateTime s) = s"
| "literal_to_string X (LitBit b) = (if b then chs ''1'' else chs ''0'')"

fun lit_is_null :: "'f tsql_literal \<Rightarrow> bool" where
  "lit_is_null LitNull = True"
| "lit_is_null _ = False"

text \<open>Binary operators; \<open>None\<close> is the panic of the division that overflows.\<close>

definition eval_int_op :: "tsql_binary_op \<Rightarrow> int \<Rightarrow> int \<Rightarrow> 'f tsql_literal option" where
  "eval_int_op op l r =
     (case op of
        Add \<Rightarrow> Some (LitInt (wrap_i64 (l + r)))
      | Subtract \<Rightarrow> Some (LitInt (wrap_i64 (l - r)))
      | Multiply \<Rightarrow> Some (LitInt (wrap_i64 (l * r)))
      | Divide \<Rightarrow>
          if r = 0 then Some LitNull
          else if l = i64_min \<and> r = -1 then None
          else Some (LitInt (sgn l * sgn r * (\<bar>l\<bar> div \<bar>r\<bar>)))
      | EqOp \<Rightarrow> Some (LitBit (l = r))
      | NotEqOp \<Rightarrow> Some (LitBit (l \<noteq> r))
      | LtOp \<Rightarrow> Some (LitBit (l < r))
      | GtOp \<Rightarrow> Some (LitBit (l > r))
      | _ \<Rightarrow> Some LitNull)"

definition eval_binary_op :: "'f tsql_literal \<Rightarrow> tsql_binary_op \<Rightarrow> 'f tsql_literal \<Rightarrow> 'f tsql_literal option" where
  "eval_binary_op left op right =
     (case (left, right) of
        (LitInt l, LitInt r) \<Rightarrow> eval_int_op op l r
      | (LitString l, LitString r) \<Rightarrow>
          Some (case op of Add \<Rightarrow> LitString (l @ r) | EqOp \<Rightarrow> LitBit (l = r) | _ \<Rightarrow> LitNull)
      | _ \<Rightarrow> Some LitNull)"

text \<open>The built-in functions get their arguments unevaluated.\<close>

definition on_first :: "'f tsql_literal \<Rightarrow> ('f tsql_literal \<Rightarrow> 'f tsql_literal) \<Rightarrow> 'f tsql_literal eval list \<Rightarrow> 'f tsql_literal eval" where
  "on_first other f args = (case args of a # _ \<Rightarrow> bind_eval a (\<lambda>v. pure (f v)) | [] \<Rightarrow> pure other)"

definition eval_isnull :: "'f tsql_literal eval \<Rightarrow> 'f tsql_literal eval \<Rightarrow> 'f tsql_literal eval" where
  "eval_isnull a b = bind_eval a (\<lambda>v. if lit_is_null v then b else pure v)"

definition eval_builtin_function :: "exec_env \<Rightarrow> 'f exec_lib \<Rightarrow> ('f, 'b) exec_context \<Rightarrow> ustring \<Rightarrow> 'f tsql_literal eval list \<Rightarrow> 'f tsql_literal eval" where
  "eval_builtin_function E X ctx name args =
     (let n = upper_chars (xl_chars X) name
      in if n = chs ''GETDATE'' \<or> n = chs ''SYSDATETIME'' then reading (\<lambda>i. LitDateTime (ev_local_now E i))
         else if n = chs ''GETUTCDATE'' then reading (\<lambda>i. LitDateTime (ev_utc_now E i))
         else if n = chs ''NEWID'' then reading (\<lambda>i. LitString (ev_new_uuid E i))
         else if n = chs ''ISNULL'' then (case args of a # b # _ \<Rightarrow> eval_isnull a b | _ \<Rightarrow> pure LitNull)
         else if n = chs ''LEN'' then on_first (LitInt 0) (\<lambda>v. LitInt (int (length (utf8 (literal_to_string X v))))) args
         else if n = chs ''UPPER'' then on_first (LitString []) (\<lambda>v. LitString (upper_chars (xl_chars X) (literal_to_string X v))) args
         else if n = chs ''LOWER'' then on_first (LitString []) (\<lambda>v. LitString (lower_chars X (literal_to_string X v))) args
         else if n = chs ''DB_NAME'' then pure (LitString (xc_database ctx))
         else if n = chs ''ERROR_MESSAGE'' then pure (LitString (xc_catch_message ctx))
         else if n = chs ''ERROR_NUMBER'' then pure (LitInt (xc_catch_number ctx))
         else if n = chs ''ERROR_SEVERITY'' then pure (LitInt (int (xc_catch_severity ctx)))
         else if n = chs ''ERROR_STATE'' then pure (LitInt (int (xc_catch_state ctx)))
         else if n = chs ''ERROR_LINE'' then pure (LitInt (int (xc_catch_line ctx)))
         else if n = chs ''ERROR_PROCEDURE'' then
           pure (case xc_catch_procedure ctx of Some s \<Rightarrow> LitString s | None \<Rightarrow> LitNull)
         else pure LitNull)"

fun first_value :: "'f tsql_literal eval list \<Rightarrow> 'f tsql_literal eval" where
  "first_value [] = pure LitNull"
| "first_value (m # ms) = bind_eval m (\<lambda>v. if lit_is_null v then first_value ms else pure v)"

fun negated :: "'f exec_lib \<Rightarrow> 'f tsql_literal \<Rightarrow> 'f tsql_literal" where
  "negated X (LitInt n) = LitInt (wrap_i64 (- n))"
| "negated X (LitFloat f) = LitFloat (xl_neg_f64 X f)"
| "negated X v = v"

fun eval_to_literal :: "exec_env \<Rightarrow> 'f exec_lib \<Rightarrow> ('f, 'b) exec_context \<Rightarrow> 'f tsql_expr \<Rightarrow> 'f tsql_literal eval" where
  "eval_to_literal E X ctx (Literal v) = pure v"
| "eval_to_literal E X ctx (Variable name) = from_result (var_get X name (xc_variables ctx))"
| "eval_to_literal E X ctx (SystemVariable name) = pure (system_variable X ctx name)"
| "eval_to_literal E X ctx (BinaryOp l op r) =
     bind_eval (eval_to_literal E X ctx l) (\<lambda>a. bind_eval (eval_to_literal E X ctx r) (\<lambda>b.
       (case eval_binary_op a op b of Some v \<Rightarrow> pure v | None \<Rightarrow> panic)))"
| "eval_to_literal E X ctx (UnaryOp op e) =
     (if op = Negate then bind_eval (eval_to_literal E X ctx e) (\<lambda>v. pure (negated X v)) else pure LitNull)"
| "eval_to_literal E X ctx (FunctionCall name args) =
     eval_builtin_function E X ctx name (map (\<lambda>e. eval_to_literal E X ctx e) args)"
| "eval_to_literal E X ctx (IsNull e replacement) = eval_isnull (eval_to_literal E X ctx e) (eval_to_literal E X ctx replacement)"
| "eval_to_literal E X ctx (Coalesce es) = first_value (map (\<lambda>e. eval_to_literal E X ctx e) es)"
| "eval_to_literal E X ctx (NullIf e other) =
     bind_eval (eval_to_literal E X ctx e) (\<lambda>l. bind_eval (eval_to_literal E X ctx other) (\<lambda>r.
       pure (if literal_to_string X l = literal_to_string X r then LitNull else l)))"
| "eval_to_literal E X ctx _ = pure LitNull"

definition wrap_i32 :: "int \<Rightarrow> int" where
  "wrap_i32 n = (n + 2 ^ 31) mod 2 ^ 32 - 2 ^ 31"

definition parse_i32 :: "string \<Rightarrow> int option" where
  "parse_i32 s = (case parse_i64 s of Some n \<Rightarrow> if - (2 ^ 31) \<le> n \<and> n < 2 ^ 31 then Some n else None | None \<Rightarrow> None)"

fun literal_to_int :: "'f exec_lib \<Rightarrow> 'f tsql_literal \<Rightarrow> int" where
  "literal_to_int X (LitInt n) = wrap_i32 n"
| "literal_to_int X (LitFloat f) = xl_f64_to_i32 X f"
| "literal_to_int X (LitBit b) = (if b then 1 else 0)"
| "literal_to_int X (LitString s) = (case parse_i32 (utf8 s) of Some n \<Rightarrow> n | None \<Rightarrow> 0)"
| "literal_to_int X _ = 0"

definition eval_expr_to_int :: "exec_env \<Rightarrow> 'f exec_lib \<Rightarrow> ('f, 'b) exec_context \<Rightarrow> 'f tsql_expr \<Rightarrow> int eval" where
  "eval_expr_to_int E X ctx e = bind_eval (eval_to_literal E X ctx e) (\<lambda>v. pure (literal_to_int X v))"

subsection \<open>Conditions\<close>

definition compare_text :: "exec_env \<Rightarrow> 'f exec_lib \<Rightarrow> ('f, 'b) exec_context \<Rightarrow> bool \<Rightarrow> 'f tsql_expr \<Rightarrow> 'f tsql_expr \<Rightarrow> bool eval" where
  "compare_text E X ctx same l r =
     bind_eval (eval_to_literal E X ctx l) (\<lambda>a. bind_eval (eval_to_literal E X ctx r) (\<lambda>b.
       pure (if lit_is_null a \<or> lit_is_null b then False else (literal_to_string X a = literal_to_string X b) = same)))"

definition compare_ints :: "exec_env \<Rightarrow> 'f exec_lib \<Rightarrow> ('f, 'b) exec_context \<Rightarrow> (int \<Rightarrow> int \<Rightarrow> bool) \<Rightarrow> 'f tsql_expr \<Rightarrow> 'f tsql_expr \<Rightarrow> bool eval" where
  "compare_ints E X ctx holds l r =
     bind_eval (eval_to_literal E X ctx l) (\<lambda>a. bind_eval (eval_to_literal E X ctx r) (\<lambda>b.
       if lit_is_null a \<or> lit_is_null b then pure False
       else bind_eval (eval_expr_to_int E X ctx l) (\<lambda>i. bind_eval (eval_expr_to_int E X ctx r) (\<lambda>j. pure (holds i j)))))"

definition eval_like :: "exec_env \<Rightarrow> 'f exec_lib \<Rightarrow> ('f, 'b) exec_context \<Rightarrow> 'f tsql_expr \<Rightarrow> 'f tsql_expr \<Rightarrow> bool \<Rightarrow> 'f tsql_expr option \<Rightarrow> bool eval" where
  "eval_like E X ctx e pattern neg escape =
     bind_eval (eval_to_literal E X ctx e) (\<lambda>v.
       if lit_is_null v then pure neg
       else bind_eval (eval_to_literal E X ctx pattern) (\<lambda>p.
         bind_eval
           (case escape of
              Some c \<Rightarrow> bind_eval (eval_to_literal E X ctx c)
                (\<lambda>c. pure (case literal_to_string X c of k # _ \<Rightarrow> Some k | [] \<Rightarrow> None))
            | None \<Rightarrow> pure None)
           (\<lambda>esc. pure (tsql_like_match X (literal_to_string X v) (literal_to_string X p) esc \<noteq> neg))))"

fun eval_in :: "exec_env \<Rightarrow> 'f exec_lib \<Rightarrow> ('f, 'b) exec_context \<Rightarrow> ustring \<Rightarrow> 'f tsql_expr list \<Rightarrow> bool eval" where
  "eval_in E X ctx val [] = pure False"
| "eval_in E X ctx val (item # items) =
     bind_eval (eval_to_literal E X ctx item) (\<lambda>v.
       if literal_to_string X v = val then pure True else eval_in E X ctx val items)"

fun le_text :: "ustring \<Rightarrow> ustring \<Rightarrow> bool" where
  "le_text [] t = True"
| "le_text (c # s) [] = False"
| "le_text (c # s) (d # t) = (c < d \<or> c = d \<and> le_text s t)"

definition in_range :: "'f exec_lib \<Rightarrow> ustring \<Rightarrow> ustring \<Rightarrow> ustring \<Rightarrow> bool" where
  "in_range X val lo hi =
     (case (parse_f64 (xl_chars X) (utf8 val), parse_f64 (xl_chars X) (utf8 lo), parse_f64 (xl_chars X) (utf8 hi)) of
        (Some v, Some l, Some h) \<Rightarrow> xl_le_f64 X l v \<and> xl_le_f64 X v h
      | _ \<Rightarrow> le_text (lower_chars X lo) (lower_chars X val) \<and> le_text (lower_chars X val) (lower_chars X hi))"

definition eval_between :: "exec_env \<Rightarrow> 'f exec_lib \<Rightarrow> ('f, 'b) exec_context \<Rightarrow> 'f tsql_expr \<Rightarrow> 'f tsql_expr \<Rightarrow> 'f tsql_expr \<Rightarrow> bool \<Rightarrow> bool eval" where
  "eval_between E X ctx e low high neg =
     bind_eval (eval_to_literal E X ctx e) (\<lambda>v. bind_eval (eval_to_literal E X ctx low) (\<lambda>l.
       bind_eval (eval_to_literal E X ctx high) (\<lambda>h.
         if lit_is_null v \<or> lit_is_null l \<or> lit_is_null h then pure neg
         else pure (in_range X (literal_to_string X v) (literal_to_string X l) (literal_to_string X h) \<noteq> neg))))"

fun eval_condition :: "exec_env \<Rightarrow> 'f exec_lib \<Rightarrow> ('f, 'b) exec_context \<Rightarrow> 'f tsql_expr \<Rightarrow> bool eval" where
  "eval_condition E X ctx (BinaryOp l op r) =
     (case op of
        EqOp \<Rightarrow> compare_text E X ctx True l r
      | NotEqOp \<Rightarrow> compare_text E X ctx False l r
      | LtOp \<Rightarrow> compare_ints E X ctx (<) l r
      | GtOp \<Rightarrow> compare_ints E X ctx (>) l r
      | LtEqOp \<Rightarrow> compare_ints E X ctx (\<le>) l r
      | GtEqOp \<Rightarrow> compare_ints E X ctx (\<ge>) l r
      | AndOp \<Rightarrow> bind_eval (eval_condition E X ctx l) (\<lambda>a. if a then eval_condition E X ctx r else pure False)
      | OrOp \<Rightarrow> bind_eval (eval_condition E X ctx l) (\<lambda>a. if a then pure True else eval_condition E X ctx r)
      | _ \<Rightarrow> bind_eval (or_else (eval_expr_to_int E X ctx (BinaryOp l op r)) 0) (\<lambda>n. pure (n \<noteq> 0)))"
| "eval_condition E X ctx (UnaryOp op e) =
     (if op = NotOp then bind_eval (eval_condition E X ctx e) (\<lambda>b. pure (\<not> b))
      else bind_eval (or_else (eval_expr_to_int E X ctx (UnaryOp op e)) 0) (\<lambda>n. pure (n \<noteq> 0)))"
| "eval_condition E X ctx (Literal v) =
     (case v of
        LitNull \<Rightarrow> pure False
      | LitBit b \<Rightarrow> pure b
      | LitInt n \<Rightarrow> pure (n \<noteq> 0)
      | _ \<Rightarrow> bind_eval (or_else (eval_expr_to_int E X ctx (Literal v)) 0) (\<lambda>n. pure (n \<noteq> 0)))"
| "eval_condition E X ctx (Like e pattern neg escape) = eval_like E X ctx e pattern neg escape"
| "eval_condition E X ctx (InList e items neg) =
     bind_eval (eval_to_literal E X ctx e) (\<lambda>v.
       if lit_is_null v then pure neg
       else bind_eval (eval_in E X ctx (literal_to_string X v) items) (\<lambda>found. pure (found \<noteq> neg)))"
| "eval_condition E X ctx (Between e low high neg) = eval_between E X ctx e low high neg"
| "eval_condition E X ctx e = bind_eval (or_else (eval_expr_to_int E X ctx e) 0) (\<lambda>n. pure (n \<noteq> 0))"

end
