(* ===== verification/TsqlExec.thy ===== *)
theory TsqlExec
  imports TsqlEval
begin

section \<open>Executing T-SQL (crates/tsql-executor/src/interpreter.rs, system_procs.rs, query_handler.rs)\<close>

text \<open>
  Statements, system procedures and the handler of a query. A statement takes the context to an outcome
  and a context. Only WHILE may run for ever: \<open>exec_statement\<close> and \<open>execute_batch\<close> take a bound on the
  iterations of loops and are \<open>None\<close> when it is used up; a program without WHILE never uses it.
\<close>

subsection \<open>Results (crates/mysql-protocol/src/server.rs)\<close>

datatype column_type = ColString | ColInt | ColFloat | ColDouble | ColDate | ColDateTime | ColBlob

record column_def =
  col_name :: string
  col_type :: column_type

record query_result =
  qr_columns :: "column_def list"
  qr_rows :: "string option list list"
  qr_pre_encoded_rows :: "string option"
  qr_pre_encoded_row_count :: nat
  qr_affected_rows :: "nat option"

definition qr_new :: "column_def list \<Rightarrow> query_result" where
  "qr_new columns =
     \<lparr>qr_columns = columns, qr_rows = [], qr_pre_encoded_rows = None, qr_pre_encoded_row_count = 0, qr_affected_rows = None\<rparr>"

definition with_rows :: "column_def list \<Rightarrow> string option list list \<Rightarrow> query_result" where
  "with_rows columns rows =
     \<lparr>qr_columns = columns, qr_rows = rows, qr_pre_encoded_rows = None, qr_pre_encoded_row_count = 0, qr_affected_rows = None\<rparr>"

definition qr_ok :: query_result where
  "qr_ok = \<lparr>qr_columns = [], qr_rows = [], qr_pre_encoded_rows = None, qr_pre_encoded_row_count = 0, qr_affected_rows = None\<rparr>"

definition ok_with_affected :: "nat \<Rightarrow> query_result" where
  "ok_with_affected n =
     \<lparr>qr_columns = [], qr_rows = [], qr_pre_encoded_rows = None, qr_pre_encoded_row_count = 0, qr_affected_rows = Some n\<rparr>"

datatype exec_result =
    ResOk
  | ResultSet query_result
  | RowsAffected nat
  | ReturnStatus int
  | Message ustring
  | Multiple "exec_result list"

definition into_query_result :: "exec_result \<Rightarrow> query_result" where
  "into_query_result r =
     (case r of
        ResultSet qr \<Rightarrow> qr
      | RowsAffected _ \<Rightarrow> qr_ok
      | ReturnStatus rc \<Rightarrow> with_rows [\<lparr>col_name = ''ReturnStatus'', col_type = ColInt\<rparr>] [[Some (show_int rc)]]
      | _ \<Rightarrow> qr_ok)"

subsection \<open>System procedures\<close>

abbreviation text_col :: "string \<Rightarrow> column_def" where
  "text_col n \<equiv> \<lparr>col_name = n, col_type = ColString\<rparr>"

abbreviation int_col :: "string \<Rightarrow> column_def" where
  "int_col n \<equiv> \<lparr>col_name = n, col_type = ColInt\<rparr>"

definition listed_tables :: "('f, 'b) exec_context \<Rightarrow> string list" where
  "listed_tables ctx = (case cm_list_tables (xc_catalog ctx) (utf8 (xc_database ctx)) of Some ts \<Rightarrow> ts | None \<Rightarrow> [])"

definition exec_sp_help :: "'b meta_backend \<Rightarrow> ('f, 'b) exec_context \<Rightarrow> exec_result" where
  "exec_sp_help B ctx =
     ResultSet (with_rows [text_col ''Name'', text_col ''Owner'', text_col ''Object_type'']
       (map (\<lambda>t. [Some t, Some ''dbo'', Some ''user table'']) (listed_tables ctx) @
        (case cm_list_procedures B (xc_catalog ctx) (utf8 (xc_database ctx)) of
           Inr procs \<Rightarrow> map (\<lambda>p. [Some (sp_name p), Some ''dbo'', Some ''stored procedure'']) procs
         | Inl _ \<Rightarrow> [])))"

definition exec_sp_who :: "('f, 'b) exec_context \<Rightarrow> exec_result" where
  "exec_sp_who ctx =
     ResultSet (with_rows
       [int_col ''spid'', text_col ''status'', text_col ''loginame'', text_col ''hostname'', text_col ''blk'',
        text_col ''dbname'', text_col ''cmd'']
       [[Some (show_nat (xc_conn_id ctx)), Some ''running'', Some ''sa'', Some ''localhost'', Some '' '',
         Some (utf8 (xc_database ctx)), Some ''AWAITING COMMAND'']])"

definition exec_sp_helpdb :: "('f, 'b) exec_context \<Rightarrow> exec_result" where
  "exec_sp_helpdb ctx =
     ResultSet (with_rows
       [text_col ''name'', text_col ''db_size'', text_col ''owner'', int_col ''dbid'', text_col ''created'', text_col ''status'']
       (map (\<lambda>(i, db). [Some db, Some ''10 MB'', Some ''sa'', Some (show_nat (i + 1)), Some ''2024-01-01'', Some ''online''])
          (enumerate 0 (cm_list_databases (xc_catalog ctx)))))"

definition exec_sp_tables :: "('f, 'b) exec_context \<Rightarrow> exec_result" where
  "exec_sp_tables ctx =
     ResultSet (with_rows
       [text_col ''TABLE_QUALIFIER'', text_col ''TABLE_OWNER'', text_col ''TABLE_NAME'', text_col ''TABLE_TYPE'', text_col ''REMARKS'']
       (map (\<lambda>t. [Some (utf8 (xc_database ctx)), Some ''dbo'', Some t, Some ''TABLE'', None]) (listed_tables ctx)))"

definition exec_sp_columns :: exec_result where
  "exec_sp_columns =
     ResultSet (with_rows
       [text_col ''TABLE_NAME'', text_col ''COLUMN_NAME'', text_col ''TYPE_NAME'', int_col ''PRECISION'', int_col ''LENGTH'',
        int_col ''NULLABLE''] [])"

definition exec_sp_databases :: "('f, 'b) exec_context \<Rightarrow> exec_result" where
  "exec_sp_databases ctx =
     ResultSet (with_rows [text_col ''DATABASE_NAME'', int_col ''DATABASE_SIZE'', text_col ''REMARKS'']
       (map (\<lambda>db. [Some db, Some ''10240'', None]) (cm_list_databases (xc_catalog ctx))))"

definition exec_sp_spaceused :: "('f, 'b) exec_context \<Rightarrow> exec_result" where
  "exec_sp_spaceused ctx =
     ResultSet (with_rows
       [text_col ''name'', text_col ''rows'', text_col ''reserved'', text_col ''data'', text_col ''index_size'', text_col ''unused'']
       [[Some (utf8 (xc_database ctx)), Some ''0'', Some ''0 KB'', Some ''0 KB'', Some ''0 KB'', Some ''0 KB'']])"

definition exec_sp_server_info :: exec_result where
  "exec_sp_server_info =
     ResultSet (with_rows [int_col ''attribute_id'', text_col ''attribute_name'', text_col ''attribute_value'']
       [[Some ''1'', Some ''DBMS_NAME'', Some ''HarnessDB''],
        [Some ''2'', Some ''DBMS_VERSION'', Some ''16.0''],
        [Some ''10'', Some ''OWNER_TERM'', Some ''owner''],
        [Some ''11'', Some ''TABLE_TERM'', Some ''table''],
        [Some ''12'', Some ''COLUMN_TERM'', Some ''column'']])"

definition exec_sp_version :: exec_result where
  "exec_sp_version =
     ResultSet (with_rows [text_col ''Attribute'', text_col ''Value'']
       [[Some ''Sybase Server'', Some ''HarnessDB 16.0''], [Some ''Sybase Server Directory'', Some ''/opt/harnessdb'']])"

definition execute_system_proc :: "'b meta_backend \<Rightarrow> 'f exec_lib \<Rightarrow> ('f, 'b) exec_context \<Rightarrow> ustring \<Rightarrow> exec_result" where
  "execute_system_proc B X ctx name =
     (let n = upper_chars (xl_chars X) name
      in if n = chs ''SP_HELP'' then exec_sp_help B ctx
         else if n = chs ''SP_WHO'' then exec_sp_who ctx
         else if n = chs ''SP_HELPDB'' then exec_sp_helpdb ctx
         else if n = chs ''SP_TABLES'' then exec_sp_tables ctx
         else if n = chs ''SP_COLUMNS'' then exec_sp_columns
         else if n = chs ''SP_DATABASES'' then exec_sp_databases ctx
         else if n = chs ''SP_SPACEUSED'' then exec_sp_spaceused ctx
         else if n = chs ''SP_SERVER_INFO'' then exec_sp_server_info
         else if n = chs ''SP_VERSION'' then exec_sp_version
         else ResOk)"

definition execute_system_proc_stmt :: "'b meta_backend \<Rightarrow> ('f, 'b) exec_context \<Rightarrow> 'f system_proc \<Rightarrow> exec_result" where
  "execute_system_proc_stmt B ctx sp =
     (case sp of
        SpHelp _ \<Rightarrow> exec_sp_help B ctx
      | SpWho _ \<Rightarrow> exec_sp_who ctx
      | SpHelpDb _ \<Rightarrow> exec_sp_helpdb ctx
      | SpTables _ _ _ \<Rightarrow> exec_sp_tables ctx
      | SpColumns _ _ _ \<Rightarrow> exec_sp_columns
      | SpDatabases \<Rightarrow> exec_sp_databases ctx
      | SpSpaceUsed _ \<Rightarrow> exec_sp_spaceused ctx
      | SpServerInfo \<Rightarrow> exec_sp_server_info
      | SpVersion \<Rightarrow> exec_sp_version
      | _ \<Rightarrow> ResOk)"

subsection \<open>Statements\<close>

type_synonym ('f, 'b) exec = "('f, 'b) exec_context \<Rightarrow> exec_result outcome \<times> ('f, 'b) exec_context"

definition evaluate :: "(('f, 'b) exec_context \<Rightarrow> 'a eval) \<Rightarrow> ('f, 'b) exec_context \<Rightarrow> 'a outcome \<times> ('f, 'b) exec_context" where
  "evaluate m ctx = (case m ctx (xc_readings ctx) of (r, n) \<Rightarrow> (r, ctx\<lparr>xc_readings := n\<rparr>))"

fun exec_declare :: "exec_env \<Rightarrow> 'f exec_lib \<Rightarrow> 'f variable_decl list \<Rightarrow> ('f, 'b) exec" where
  "exec_declare E X [] ctx = (Done ResOk, ctx)"
| "exec_declare E X (v # vs) ctx =
     (case vd_default v of
        None \<Rightarrow> exec_declare E X vs (ctx\<lparr>xc_variables := var_declare X (vd_name v) (vd_data_type v) None (xc_variables ctx)\<rparr>)
      | Some e \<Rightarrow>
          (case evaluate (\<lambda>c. eval_to_literal E X c e) ctx of
             (Done l, ctx) \<Rightarrow>
               exec_declare E X vs (ctx\<lparr>xc_variables := var_declare X (vd_name v) (vd_data_type v) (Some l) (xc_variables ctx)\<rparr>)
           | (Failed err, ctx) \<Rightarrow> (Failed err, ctx)
           | (Panicked, ctx) \<Rightarrow> (Panicked, ctx)))"

fun exec_assignments :: "exec_env \<Rightarrow> 'f exec_lib \<Rightarrow> (ustring \<times> 'f tsql_expr) list \<Rightarrow> ('f, 'b) exec" where
  "exec_assignments E X [] ctx = (Done ResOk, ctx)"
| "exec_assignments E X ((name, e) # as) ctx =
     (case evaluate (\<lambda>c. eval_to_literal E X c e) ctx of
        (Done l, ctx) \<Rightarrow>
          (case var_set X name l (xc_variables ctx) of
             Inl err \<Rightarrow> (Failed err, ctx)
           | Inr vs \<Rightarrow> exec_assignments E X as (ctx\<lparr>xc_variables := vs\<rparr>))
      | (Failed err, ctx) \<Rightarrow> (Failed err, ctx)
      | (Panicked, ctx) \<Rightarrow> (Panicked, ctx))"

definition exec_select :: "exec_env \<Rightarrow> 'f exec_lib \<Rightarrow> 'f tsql_select \<Rightarrow> ('f, 'b) exec" where
  "exec_select E X sel ctx =
     (case (sel_from sel, sel_list sel) of
        (None, [item]) \<Rightarrow>
          (case evaluate (\<lambda>c. eval_to_literal E X c (si_expr item)) ctx of
             (Done l, ctx) \<Rightarrow>
               (Done (ResultSet (with_rows
                  [text_col (utf8 (case si_alias item of Some a \<Rightarrow> a | None \<Rightarrow> chs ''result''))]
                  [[Some (utf8 (literal_to_string X l))]])), ctx)
           | (Failed err, ctx) \<Rightarrow> (Failed err, ctx)
           | (Panicked, ctx) \<Rightarrow> (Panicked, ctx))
      | _ \<Rightarrow> (Done ResOk, ctx))"

definition param_meta :: "'f procedure_param \<Rightarrow> procedure_param_meta" where
  "param_meta p =
     \<lparr>pp_name = utf8 (prm_name p), pp_data_type = utf8 (show_tsql_data_type (prm_data_type p)),
      pp_direction = (if prm_output p then ''OUT'' else ''IN''), pp_default_value = None\<rparr>"

definition exec_create_procedure :: "exec_env \<Rightarrow> 'b meta_backend \<Rightarrow> ustring \<Rightarrow> 'f procedure_param list \<Rightarrow> bool \<Rightarrow> bool \<Rightarrow> ('f, 'b) exec" where
  "exec_create_procedure E B name params recompile encryption ctx =
     (case cm_fetch_id (xc_catalog ctx) of
        (i, cm) \<Rightarrow>
          (let now = ev_timestamp E (xc_readings ctx);
               p = \<lparr>sp_id = i, sp_name = utf8 name, sp_database = utf8 (xc_database ctx), sp_owner = ''dbo'',
                    sp_create_time = now, sp_alter_time = now, sp_source_sql = ''CREATE PROC '' @ utf8 name @ '' ...'',
                    sp_params = map param_meta params, sp_is_recompiled = recompile, sp_is_encrypted = encryption\<rparr>
           in case create_procedure B cm (utf8 (xc_database ctx)) p of
                (r, cm) \<Rightarrow>
                  (case r of Inl err \<Rightarrow> Failed (ProcedureSyntaxError (show_dharness_error err)) | Inr _ \<Rightarrow> Done ResOk,
                   ctx\<lparr>xc_catalog := cm, xc_readings := xc_readings ctx + 1\<rparr>)))"

definition exec_drop_procedure :: "'b meta_backend \<Rightarrow> ustring \<Rightarrow> ('f, 'b) exec" where
  "exec_drop_procedure B name ctx =
     (case drop_procedure B (xc_catalog ctx) (utf8 (xc_database ctx)) (utf8 name) of
        (r, cm) \<Rightarrow>
          (case r of Inl _ \<Rightarrow> Failed (ProcedureNotFound (utf8 name)) | Inr _ \<Rightarrow> Done ResOk, ctx\<lparr>xc_catalog := cm\<rparr>))"

definition param_type :: "'f exec_lib \<Rightarrow> procedure_param_meta \<Rightarrow> tsql_data_type" where
  "param_type X p =
     (case parse_tsql_type_name (xl_chars X) (code_points (pp_data_type p)) of Some dt \<Rightarrow> dt | None \<Rightarrow> TVarchar (Some 255))"

text \<open>Parameters are bound in the child context, their values evaluated in the caller's.\<close>

fun bind_params :: "exec_env \<Rightarrow> 'f exec_lib \<Rightarrow> procedure_param_meta list \<Rightarrow> 'f execute_param list \<Rightarrow>
    ('f, 'b) exec_context \<Rightarrow> ('f, 'b) exec_context \<Rightarrow> ('f, 'b) exec_context outcome \<times> ('f, 'b) exec_context" where
  "bind_params E X (p # ps) (a # as) child ctx =
     (let (name, e) = (case a of Positional e \<Rightarrow> (code_points (pp_name p), e) | Named n e _ \<Rightarrow> (n, e))
      in case evaluate (\<lambda>c. eval_to_literal E X c e) ctx of
           (Done v, ctx) \<Rightarrow>
             bind_params E X ps as (child\<lparr>xc_variables := var_declare X name (param_type X p) (Some v) (xc_variables child)\<rparr>) ctx
         | (Failed err, ctx) \<Rightarrow> (Failed err, ctx)
         | (Panicked, ctx) \<Rightarrow> (Panicked, ctx))"
| "bind_params E X ps as child ctx = (Done child, ctx)"

definition exec_execute :: "exec_env \<Rightarrow> 'b meta_backend \<Rightarrow> 'f exec_lib \<Rightarrow> 'f execute_stmt \<Rightarrow> ('f, 'b) exec" where
  "exec_execute E B X ex ctx =
     (case cm_get_procedure B (xc_catalog ctx) (utf8 (xc_database ctx)) (utf8 (ex_procedure ex)) of
        Inl err \<Rightarrow> (Failed (ProcedureSyntaxError (show_dharness_error err)), ctx)
      | Inr (Some meta) \<Rightarrow>
          (case bind_params E X (sp_params meta) (ex_params ex) (child_context ctx) ctx of
             (Done _, ctx) \<Rightarrow> (Done (ReturnStatus 0), ctx)
           | (Failed err, ctx) \<Rightarrow> (Failed err, ctx)
           | (Panicked, ctx) \<Rightarrow> (Panicked, ctx))
      | Inr None \<Rightarrow>
          if take 3 (upper_chars (xl_chars X) (ex_procedure ex)) = chs ''SP_'' then
            (Done (execute_system_proc B X ctx (ex_procedure ex)), ctx)
          else (Failed (ProcedureNotFound (utf8 (ex_procedure ex))), ctx))"

text \<open>RAISERROR and THROW: an error in the message itself is replaced by a fixed text.\<close>

definition exec_raise :: "exec_env \<Rightarrow> 'f exec_lib \<Rightarrow> string \<Rightarrow> 'f tsql_expr \<Rightarrow> ('f, 'b) exec" where
  "exec_raise E X fallback e ctx =
     (case evaluate (\<lambda>c. eval_to_literal E X c e) ctx of
        (Done l, ctx) \<Rightarrow> (Failed (procedure_error.Raiserror 16 1 (utf8 (literal_to_string X l))), ctx)
      | (Failed _, ctx) \<Rightarrow> (Failed (procedure_error.Raiserror 16 1 fallback), ctx)
      | (Panicked, ctx) \<Rightarrow> (Panicked, ctx))"

fun fetch_into :: "'f exec_lib \<Rightarrow> ustring list \<Rightarrow> ustring list \<Rightarrow> 'f variable_store \<Rightarrow> procedure_error option \<times> 'f variable_store" where
  "fetch_into X (v # vs) (x # xs) store =
     (case var_set X v (LitString x) store of Inl err \<Rightarrow> (Some err, store) | Inr store \<Rightarrow> fetch_into X vs xs store)"
| "fetch_into X vs xs store = (None, store)"

definition with_cursors :: "procedure_error + cursor_store \<Rightarrow> ('f, 'b) exec" where
  "with_cursors r ctx = (case r of Inl err \<Rightarrow> (Failed err, ctx) | Inr cs \<Rightarrow> (Done ResOk, ctx\<lparr>xc_cursors := cs\<rparr>))"

definition exec_fetch :: "'f exec_lib \<Rightarrow> fetch_cursor \<Rightarrow> ('f, 'b) exec" where
  "exec_fetch X fc ctx =
     (case cursor_fetch X (fc_cursor_name fc) (fc_orientation fc) (xc_cursors ctx) of
        (Inl err, cs) \<Rightarrow> (Failed err, ctx\<lparr>xc_cursors := cs, xc_fetch_status := -1\<rparr>)
      | (Inr (row, status), cs) \<Rightarrow>
          (case fetch_into X (fc_into_variables fc) (case row of Some r \<Rightarrow> r | None \<Rightarrow> []) (xc_variables ctx) of
             (err, vs) \<Rightarrow>
               (case err of Some e \<Rightarrow> Failed e | None \<Rightarrow> Done ResOk,
                ctx\<lparr>xc_cursors := cs, xc_fetch_status := status, xc_variables := vs\<rparr>)))"

definition exec_cursor :: "'f exec_lib \<Rightarrow> 'f cursor_statement \<Rightarrow> ('f, 'b) exec" where
  "exec_cursor X stmt ctx =
     (case stmt of
        DeclareCursor dc \<Rightarrow> with_cursors (cursor_declare X (dc_name dc) (dc_scroll_type dc) (xc_cursors ctx)) ctx
      | OpenCursor name \<Rightarrow> with_cursors (cursor_open X name [] [] (xc_cursors ctx)) ctx
      | FetchCursor fc \<Rightarrow> exec_fetch X fc ctx
      | CloseCursor name \<Rightarrow> with_cursors (cursor_close X name (xc_cursors ctx)) ctx
      | DeallocateCursor name \<Rightarrow> with_cursors (cursor_deallocate X name (xc_cursors ctx)) ctx)"

definition exec_set_option :: "exec_env \<Rightarrow> 'f exec_lib \<Rightarrow> ustring \<Rightarrow> 'f tsql_expr \<Rightarrow> ('f, 'b) exec" where
  "exec_set_option E X name e ctx =
     (case evaluate (\<lambda>c. or_else (bind_eval (eval_to_literal E X c e) (\<lambda>v. pure (literal_to_string X v))) []) ctx of
        (Done val, ctx) \<Rightarrow>
          (let n = upper_chars (xl_chars X) name;
               on = (upper_chars (xl_chars X) val = chs ''ON'');
               so = xc_set_options ctx
           in (Done ResOk, ctx\<lparr>xc_set_options :=
                 (if n = chs ''NOCOUNT'' then so\<lparr>so_nocount := on\<rparr>
                  else if n = chs ''ANSI_NULLS'' then so\<lparr>so_ansi_nulls := on\<rparr>
                  else if n = chs ''XACT_ABORT'' then so\<lparr>so_xact_abort := on\<rparr>
                  else so)\<rparr>))
      | (Failed err, ctx) \<Rightarrow> (Failed err, ctx)
      | (Panicked, ctx) \<Rightarrow> (Panicked, ctx))"

definition exec_print :: "exec_env \<Rightarrow> 'f exec_lib \<Rightarrow> 'f tsql_expr \<Rightarrow> ('f, 'b) exec" where
  "exec_print E X e ctx =
     (case evaluate (\<lambda>c. eval_to_literal E X c e) ctx of
        (Done v, ctx) \<Rightarrow>
          (let msg = literal_to_string X v in (Done (Message msg), ctx\<lparr>xc_messages := xc_messages ctx @ [msg]\<rparr>))
      | (Failed err, ctx) \<Rightarrow> (Failed err, ctx)
      | (Panicked, ctx) \<Rightarrow> (Panicked, ctx))"

definition exec_return :: "exec_env \<Rightarrow> 'f exec_lib \<Rightarrow> 'f tsql_expr option \<Rightarrow> ('f, 'b) exec" where
  "exec_return E X e ctx =
     (case e of
        None \<Rightarrow> (Done (ReturnStatus 0), ctx)
      | Some e \<Rightarrow>
          (case evaluate (\<lambda>c. eval_expr_to_int E X c e) ctx of
             (Done n, ctx) \<Rightarrow> (Done (ReturnStatus n), ctx)
           | (Failed err, ctx) \<Rightarrow> (Failed err, ctx)
           | (Panicked, ctx) \<Rightarrow> (Panicked, ctx)))"

text \<open>The statements that contain no other statement.\<close>

definition exec_simple :: "exec_env \<Rightarrow> 'b meta_backend \<Rightarrow> 'f exec_lib \<Rightarrow> 'f tsql_statement \<Rightarrow> ('f, 'b) exec" where
  "exec_simple E B X stmt ctx =
     (case stmt of
        Dml (SelectStmt sel) \<Rightarrow> exec_select E X sel ctx
      | Return e \<Rightarrow> exec_return E X e ctx
      | Declare vs \<Rightarrow> exec_declare E X vs ctx
      | SetVariable as \<Rightarrow> exec_assignments E X as ctx
      | SelectIntoVars sv \<Rightarrow> exec_assignments E X (sv_assignments sv) ctx
      | Print e \<Rightarrow> exec_print E X e ctx
      | CreateProcedure _ name params _ recompile encryption \<Rightarrow> exec_create_procedure E B name params recompile encryption ctx
      | DropProcedure name _ \<Rightarrow> exec_drop_procedure B name ctx
      | Execute ex \<Rightarrow> exec_execute E B X ex ctx
      | SystemProcedure sp \<Rightarrow> (Done (execute_system_proc_stmt B ctx sp), ctx)
      | tsql_statement.Raiserror r \<Rightarrow> exec_raise E X ''Unknown error'' (rr_message_or_id r) ctx
      | Throw _ message _ \<Rightarrow> exec_raise E X ''User thrown error'' message ctx
      | CursorStmt c \<Rightarrow> exec_cursor X c ctx
      | Tran t \<Rightarrow> (Done ResOk, ctx\<lparr>xc_txn := tran_step (xc_conn_id ctx) t (xc_txn ctx)\<rparr>)
      | UseDatabase db \<Rightarrow> (Done ResOk, ctx\<lparr>xc_database := db\<rparr>)
      | SetOption name e \<Rightarrow> exec_set_option E X name e ctx
      | _ \<Rightarrow> (Done ResOk, ctx))"

definition enter_catch :: "procedure_error \<Rightarrow> ('f, 'b) exec_context \<Rightarrow> ('f, 'b) exec_context" where
  "enter_catch err ctx =
     ctx\<lparr>xc_error := 1, xc_catch_message := code_points (show_procedure_error err), xc_catch_number := 1,
        xc_catch_severity := 16, xc_catch_state := 1\<rparr>"

fun exec_statement :: "exec_env \<Rightarrow> 'b meta_backend \<Rightarrow> 'f exec_lib \<Rightarrow> nat \<Rightarrow> 'f tsql_statement \<Rightarrow> ('f, 'b) exec_context \<Rightarrow>
    (exec_result outcome \<times> ('f, 'b) exec_context) option"
  and execute_batch :: "exec_env \<Rightarrow> 'b meta_backend \<Rightarrow> 'f exec_lib \<Rightarrow> nat \<Rightarrow> 'f tsql_statement list \<Rightarrow> exec_result \<Rightarrow> ('f, 'b) exec_context \<Rightarrow>
    (exec_result outcome \<times> ('f, 'b) exec_context) option"
  and while_loop :: "exec_env \<Rightarrow> 'b meta_backend \<Rightarrow> 'f exec_lib \<Rightarrow> nat \<Rightarrow> 'f tsql_expr \<Rightarrow> 'f tsql_statement list \<Rightarrow> ('f, 'b) exec_context \<Rightarrow>
    (exec_result outcome \<times> ('f, 'b) exec_context) option" where
  "exec_statement E B X n (BeginEnd stmts) ctx = execute_batch E B X n stmts ResOk ctx"
| "exec_statement E B X n (IfElse c then_body else_body) ctx =
     (case evaluate (\<lambda>cx. eval_condition E X cx c) ctx of
        (Done b, ctx) \<Rightarrow>
          if b then execute_batch E B X n then_body ResOk ctx
          else (case else_body of Some body \<Rightarrow> execute_batch E B X n body ResOk ctx | None \<Rightarrow> Some (Done ResOk, ctx))
      | (Failed err, ctx) \<Rightarrow> Some (Failed err, ctx)
      | (Panicked, ctx) \<Rightarrow> Some (Panicked, ctx))"
| "exec_statement E B X n (While c body) ctx = while_loop E B X n c body ctx"
| "exec_statement E B X n (TryCatch try_body catch_body) ctx =
     (case execute_batch E B X n try_body ResOk ctx of
        None \<Rightarrow> None
      | Some (Failed err, ctx) \<Rightarrow>
          (case execute_batch E B X n catch_body ResOk (enter_catch err ctx) of
             Some (Done r, ctx) \<Rightarrow> Some (Done r, ctx\<lparr>xc_error := 0\<rparr>)
           | r \<Rightarrow> r)
      | r \<Rightarrow> r)"
| "exec_statement E B X n stmt ctx = Some (exec_simple E B X stmt ctx)"
| "execute_batch E B X n [] last_result ctx = Some (Done last_result, ctx)"
| "execute_batch E B X n (s # ss) last_result ctx =
     (case exec_statement E B X n s ctx of
        Some (Done (ReturnStatus rc), ctx) \<Rightarrow> Some (Done (ReturnStatus rc), ctx)
      | Some (Done r, ctx) \<Rightarrow> execute_batch E B X n ss r ctx
      | r \<Rightarrow> r)"
| "while_loop E B X 0 c body ctx = None"
| "while_loop E B X (Suc n) c body ctx =
     (case evaluate (\<lambda>cx. eval_condition E X cx c) ctx of
        (Done True, ctx) \<Rightarrow>
          (case execute_batch E B X n body ResOk ctx of
             Some (Done (ReturnStatus _), ctx) \<Rightarrow> Some (Done (ReturnStatus 0), ctx)
           | Some (Done _, ctx) \<Rightarrow> while_loop E B X n c body ctx
           | r \<Rightarrow> r)
      | (Done False, ctx) \<Rightarrow> Some (Done ResOk, ctx)
      | (Failed err, ctx) \<Rightarrow> Some (Failed err, ctx)
      | (Panicked, ctx) \<Rightarrow> Some (Panicked, ctx))"

subsection \<open>The query handler\<close>

record 'b tsql_handler =
  th_catalog :: "'b catalog_manager"
  th_txn :: transactions
  th_sessions :: "(nat \<times> ustring) list"
  th_readings :: nat

definition handler_new :: "'b catalog_manager \<Rightarrow> 'b tsql_handler" where
  "handler_new catalog = \<lparr>th_catalog = catalog, th_txn = [], th_sessions = [], th_readings = 0\<rparr>"

definition get_or_create_context :: "'b tsql_handler \<Rightarrow> nat \<Rightarrow> ('f, 'b) exec_context" where
  "get_or_create_context h conn =
     context_new conn (case map_of (th_sessions h) conn of Some db \<Rightarrow> db | None \<Rightarrow> chs ''master'')
       (th_catalog h) (th_txn h) (th_readings h)"

definition handler_set_database :: "nat \<Rightarrow> ustring \<Rightarrow> 'b tsql_handler \<Rightarrow> 'b tsql_handler" where
  "handler_set_database conn db h = h\<lparr>th_sessions := AList.update conn db (th_sessions h)\<rparr>"

text \<open>What the handler and the other connections see of the context: the catalog and the transactions.\<close>

definition share :: "('f, 'b) exec_context \<Rightarrow> 'b tsql_handler \<Rightarrow> 'b tsql_handler" where
  "share ctx h = h\<lparr>th_catalog := xc_catalog ctx, th_txn := xc_txn ctx, th_readings := xc_readings ctx\<rparr>"

text \<open>The batches of a query one after the other; the result is \<open>None\<close> within when a batch panics.\<close>

fun handle_batches :: "exec_env \<Rightarrow> 'b meta_backend \<Rightarrow> 'f exec_lib \<Rightarrow> nat \<Rightarrow> nat \<Rightarrow> ustring list \<Rightarrow> query_result \<Rightarrow> 'b tsql_handler \<Rightarrow>
    (query_result option \<times> 'b tsql_handler) option" where
  "handle_batches E B X n conn [] last_result h = Some (Some last_result, h)"
| "handle_batches E B X n conn (b # bs) last_result h =
     (let trimmed = trim_chars (xl_chars X) b
      in if trimmed = [] then handle_batches E B X n conn bs last_result h
         else case parse_tsql (xl_parser X) trimmed of
             None \<Rightarrow> None
           | Some (Inl _) \<Rightarrow> Some (Some qr_ok, h)
           | Some (Inr stmts) \<Rightarrow>
               (case execute_batch E B X n stmts ResOk (get_or_create_context h conn) of
                  None \<Rightarrow> None
                | Some (Panicked, ctx) \<Rightarrow> Some (None, share ctx h)
                | Some (r, ctx) \<Rightarrow>
                    handle_batches E B X n conn bs
                      (case r of
                         Done (ResultSet qr) \<Rightarrow> qr
                       | Done (RowsAffected k) \<Rightarrow> ok_with_affected k
                       | _ \<Rightarrow> last_result)
                      (handler_set_database conn (xc_database ctx) (share ctx h))))"

definition handle_query :: "exec_env \<Rightarrow> 'b meta_backend \<Rightarrow> 'f exec_lib \<Rightarrow> nat \<Rightarrow> nat \<Rightarrow> ustring \<Rightarrow> 'b tsql_handler \<Rightarrow>
    (query_result option \<times> 'b tsql_handler) option" where
  "handle_query E B X n conn sql h = handle_batches E B X n conn (split_batches (xl_chars X) sql) qr_ok h"

end
