(* ===== verification/Tds.thy ===== *)
theory Tds
  imports TsqlExec Bytes Framing
begin

section \<open>The TDS protocol (crates/tds-protocol, crates/sybase-protocol)\<close>

text \<open>
  Packets, tokens and the connection loop in front of a query handler, the argument \<open>H\<close>; the server
  passes the T-SQL handler of \<open>TsqlExec\<close>. The input of a connection is the list of all bytes the client
  sends before it closes the socket, so \<open>More\<close> of the packet reader is the end of the input. Text on the
  wire is UTF-16 in little-endian order.
\<close>

abbreviation byte_of :: "nat \<Rightarrow> char" where
  "byte_of n \<equiv> char_of n"

subsection \<open>Packets (packet.rs)\<close>

definition TDS_LANGUAGE :: nat where "TDS_LANGUAGE = 1"
definition TDS_RPC :: nat where "TDS_RPC = 3"
definition TDS_REPLY :: nat where "TDS_REPLY = 4"
definition TDS_BULK :: nat where "TDS_BULK = 7"
definition TDS_LOGIN :: nat where "TDS_LOGIN = 16"
definition TDS_ATTENTION :: nat where "TDS_ATTENTION = 18"
definition STATUS_EOM :: nat where "STATUS_EOM = 1"
definition STATUS_NORMAL :: nat where "STATUS_NORMAL = 0"

lemmas tds_types = TDS_LANGUAGE_def TDS_RPC_def TDS_REPLY_def TDS_BULK_def TDS_LOGIN_def TDS_ATTENTION_def
  STATUS_EOM_def STATUS_NORMAL_def

record tds_packet =
  pk_type :: nat
  pk_status :: nat
  pk_data :: bytes

definition packet_new :: "nat \<Rightarrow> bytes \<Rightarrow> tds_packet" where
  "packet_new t payload = \<lparr>pk_type = t, pk_status = STATUS_EOM, pk_data = payload\<rparr>"

definition is_eom :: "tds_packet \<Rightarrow> bool" where
  "is_eom p \<longleftrightarrow> odd (pk_status p)"

definition read_tds_packet :: "bytes \<Rightarrow> tds_packet decoded" where
  "read_tds_packet buf =
     (if length buf < 8 then More
      else let len = le_val (take 2 (drop 2 buf))
           in if len < 8 then Bad
              else if length buf < len then More
              else Got \<lparr>pk_type = byte_val (buf ! 0), pk_status = byte_val (buf ! 1), pk_data = take (len - 8) (drop 8 buf)\<rparr>
                     (drop len buf))"

definition write_tds_packet :: "tds_packet \<Rightarrow> string + bytes" where
  "write_tds_packet p =
     (let total_len = length (pk_data p) + 8
      in if 65535 < total_len then Inl ''TDS packet too large''
         else Inr ([byte_of (pk_type p), byte_of (pk_status p)] @ le_bytes 2 total_len @ be_bytes 2 0 @ [byte_of 0, byte_of 0] @ pk_data p))"

subsection \<open>Text\<close>

definition utf16_char :: "uchar \<Rightarrow> nat list" where
  "utf16_char c = (if c < 65536 then [c] else [55296 + (c - 65536) div 1024, 56320 + (c - 65536) mod 1024])"

definition encode_utf16 :: "ustring \<Rightarrow> nat list" where
  "encode_utf16 s = concat (map utf16_char s)"

fun from_utf16 :: "nat list \<Rightarrow> ustring option" where
  "from_utf16 [] = Some []"
| "from_utf16 (u # us) =
     (if u < 55296 \<or> 57343 < u then map_option (Cons u) (from_utf16 us)
      else if 56319 < u then None
      else case us of
          v # vs \<Rightarrow> if 56320 \<le> v \<and> v \<le> 57343 then map_option (Cons (65536 + (u - 55296) * 1024 + (v - 56320))) (from_utf16 vs) else None
        | [] \<Rightarrow> None)"

definition units :: "nat list \<Rightarrow> bytes" where
  "units us = concat (map (le_bytes 2) us)"

fun le_units :: "bytes \<Rightarrow> nat list" where
  "le_units (a # b # rest) = le_val [a, b] # le_units rest"
| "le_units _ = []"

definition is_control :: "uchar \<Rightarrow> bool" where
  "is_control c \<longleftrightarrow> c < 32 \<or> 127 \<le> c \<and> c \<le> 159"

definition sql_char :: "uchar \<Rightarrow> bool" where
  "sql_char c \<longleftrightarrow> \<not> is_control c \<or> c = 10 \<or> c = 13 \<or> c = 9"

definition decode_tds_string :: "bytes \<Rightarrow> ustring" where
  "decode_tds_string payload =
     (let lossy = code_points (from_utf8_lossy payload)
      in if 2 \<le> length payload \<and> even (length payload) then
           (case from_utf16 (le_units payload) of
              Some s \<Rightarrow> if list_all sql_char s then s else lossy
            | None \<Rightarrow> lossy)
         else lossy)"

subsection \<open>Tokens (token.rs, types.rs)\<close>

definition encode_done :: "nat \<Rightarrow> nat \<Rightarrow> bytes" where
  "encode_done row_count status = [CHR 0xFD] @ le_bytes 2 status @ le_bytes 2 0 @ le_bytes 4 (min row_count 4294967295)"

definition encode_error :: "nat \<Rightarrow> nat \<Rightarrow> nat \<Rightarrow> ustring \<Rightarrow> ustring \<Rightarrow> bytes" where
  "encode_error number state severity message server =
     (let msg = encode_utf16 message; srv = encode_utf16 server;
          total_len = 4 + 1 + 1 + 2 + length msg * 2 + 2 + length srv * 2 + 2 + 4
      in [CHR 0xAA] @ le_bytes 2 total_len @ le_bytes 4 number @ [byte_of state, byte_of severity] @
         le_bytes 2 (length msg) @ units msg @ le_bytes 2 (length srv) @ units srv @ le_bytes 2 0 @ le_bytes 4 0)"

definition encode_info :: "nat \<Rightarrow> nat \<Rightarrow> nat \<Rightarrow> ustring \<Rightarrow> bytes" where
  "encode_info number state severity message =
     (let msg = encode_utf16 message; total_len = 4 + 1 + 1 + 2 + length msg * 2 + 2 + 2 + 4
      in [CHR 0xAB] @ le_bytes 2 total_len @ le_bytes 4 number @ [byte_of state, byte_of severity] @
         le_bytes 2 (length msg) @ units msg @ le_bytes 2 0 @ le_bytes 2 0 @ le_bytes 4 0)"

definition encode_login_ack :: bytes where
  "encode_login_ack =
     (let prog = encode_utf16 (chs ''HarnessDB''); total_len = 1 + 4 + 1 + length prog * 2 + 4
      in [CHR 0xAD] @ le_bytes 2 total_len @ [byte_of 1] @ map byte_of [5, 0, 0, 0] @ [byte_of (min (length prog) 255)] @
         units prog @ le_bytes 4 16)"

definition encode_env_change_db :: "ustring \<Rightarrow> bytes" where
  "encode_env_change_db database =
     (let db_new = encode_utf16 database; total_len = 1 + 1 + length db_new * 2 + 1
      in [CHR 0xE3] @ le_bytes 2 total_len @ [byte_of 1] @ le_bytes 1 (length db_new) @ units db_new @ [byte_of 0])"

definition encode_return_status :: "int \<Rightarrow> bytes" where
  "encode_return_status status = [CHR 0x79] @ le_bytes 4 (of_signed 32 status)"

record tds_column_def =
  tc_name :: ustring
  tc_tds_type :: nat
  tc_max_length :: nat

definition TDS_TYPE_VARCHAR :: nat where "TDS_TYPE_VARCHAR = 39"

definition encode_column :: "tds_column_def \<Rightarrow> bytes" where
  "encode_column col =
     (let name = encode_utf16 (tc_name col)
      in [byte_of (min (length name) 255)] @ units name @ [byte_of 1] @ [byte_of (tc_tds_type col)] @ le_bytes 2 (tc_max_length col))"

definition encode_colmetadata :: "tds_column_def list \<Rightarrow> bytes" where
  "encode_colmetadata columns = [CHR 0x81] @ le_bytes 2 (length columns) @ concat (map encode_column columns)"

definition encode_value :: "string option \<Rightarrow> bytes" where
  "encode_value v =
     (case v of
        Some s \<Rightarrow> let u = encode_utf16 (code_points s) in le_bytes 2 (length u mod 2 ^ 16 * 2) @ units u
      | None \<Rightarrow> le_bytes 4 (of_signed 32 (-1)))"

definition encode_row :: "string option list \<Rightarrow> bytes" where
  "encode_row vals = [CHR 0xD1] @ concat (map encode_value vals)"

definition encode_query_result :: "query_result \<Rightarrow> bytes" where
  "encode_query_result r =
     (if qr_columns r \<noteq> [] then
        encode_colmetadata (map (\<lambda>c. \<lparr>tc_name = code_points (col_name c), tc_tds_type = TDS_TYPE_VARCHAR, tc_max_length = 8000\<rparr>) (qr_columns r)) @
        concat (map encode_row (qr_rows r))
      else []) @
     encode_done (length (qr_rows r)) 16"

subsection \<open>Connections (connection.rs)\<close>

text \<open>A handler answers a query of a connection: \<open>None\<close> if it does not return, \<open>None\<close> within if it panics.\<close>

type_synonym 'h query_handler = "nat \<Rightarrow> ustring \<Rightarrow> 'h \<Rightarrow> (query_result option \<times> 'h) option"

datatype 'h tds_reply = Reply bytes 'h | Hangup 'h

definition language_sql :: "bytes \<Rightarrow> ustring" where
  "language_sql payload = decode_tds_string (if 1 < length payload then drop 1 payload else payload)"

definition rpc_sql :: "bytes \<Rightarrow> ustring" where
  "rpc_sql payload =
     decode_tds_string
       (if 2 < length payload then
          let header_end = 2 + le_val (take 2 payload) * 2
          in if header_end < length payload then drop header_end payload else payload
        else payload)"

definition answer_sql :: "'h query_handler \<Rightarrow> nat \<Rightarrow> ustring \<Rightarrow> 'h \<Rightarrow> 'h tds_reply option" where
  "answer_sql H conn sql h =
     (case H conn sql h of
        None \<Rightarrow> None
      | Some (None, h') \<Rightarrow> Some (Hangup h')
      | Some (Some r, h') \<Rightarrow>
          (case write_tds_packet (packet_new TDS_REPLY (encode_query_result r)) of
             Inl _ \<Rightarrow> Some (Hangup h')
           | Inr bs \<Rightarrow> Some (Reply bs h')))"

definition send_token :: "bytes \<Rightarrow> bytes" where
  "send_token token = (case write_tds_packet (packet_new TDS_REPLY token) of Inl _ \<Rightarrow> [] | Inr bs \<Rightarrow> bs)"

definition tds_command :: "'h query_handler \<Rightarrow> nat \<Rightarrow> tds_packet \<Rightarrow> 'h \<Rightarrow> 'h tds_reply option" where
  "tds_command H conn p h =
     (if pk_type p = TDS_LANGUAGE then answer_sql H conn (language_sql (pk_data p)) h
      else if pk_type p = TDS_RPC then answer_sql H conn (rpc_sql (pk_data p)) h
      else if pk_type p = TDS_ATTENTION then Some (Reply (send_token (encode_done 0 32)) h)
      else Some (Reply (send_token (encode_error 0 0 1
             (chs ''Unsupported packet type 0x'' @ chs (hex_byte (pk_type p))) (chs ''HarnessDB''))) h))"

lemma read_tds_packet_shorter: "read_tds_packet buf = Got p rest \<Longrightarrow> length rest < length buf"
  by (auto simp: read_tds_packet_def Let_def split: if_splits)

function tds_loop :: "'h query_handler \<Rightarrow> nat \<Rightarrow> bytes \<Rightarrow> bytes \<Rightarrow> 'h \<Rightarrow> (bytes \<times> 'h) option" where
  "tds_loop H conn buf written h =
     (case read_tds_packet buf of
        Got p rest \<Rightarrow>
          (case tds_command H conn p h of
             None \<Rightarrow> None
           | Some (Hangup h') \<Rightarrow> Some (written, h')
           | Some (Reply bs h') \<Rightarrow> tds_loop H conn rest (written @ bs) h')
      | More \<Rightarrow> Some (written, h)
      | Bad \<Rightarrow> Some (written, h))"
  by pat_completeness auto
termination
  by (relation "measure (\<lambda>(H, conn, buf, written, h). length buf)") (auto dest: read_tds_packet_shorter)

declare tds_loop.simps [simp del]

definition login_reply :: bytes where
  "login_reply = encode_login_ack @ encode_env_change_db (chs ''master'')"

definition run_connection :: "'h query_handler \<Rightarrow> nat \<Rightarrow> bytes \<Rightarrow> 'h \<Rightarrow> (bytes \<times> 'h) option" where
  "run_connection H conn buf h =
     (case read_tds_packet buf of
        Got p rest \<Rightarrow>
          if pk_type p = TDS_LOGIN then
            (case write_tds_packet (packet_new TDS_REPLY login_reply) of
               Inl _ \<Rightarrow> Some ([], h)
             | Inr bs \<Rightarrow> tds_loop H conn rest bs h)
          else Some ([], h)
      | More \<Rightarrow> Some ([], h)
      | Bad \<Rightarrow> Some ([], h))"

subsection \<open>Servers (server.rs)\<close>

record tds_server_config =
  tsc_bind_addr :: string
  tsc_port :: nat
  tsc_max_connections :: nat

definition tds_server_config_default :: tds_server_config where
  "tds_server_config_default = \<lparr>tsc_bind_addr = ''0.0.0.0'', tsc_port = 5000, tsc_max_connections = 100\<rparr>"

record tds_server =
  tsv_config :: tds_server_config
  tsv_conn_counter :: nat
  tsv_permits :: nat

definition tds_server_new :: "tds_server_config \<Rightarrow> tds_server" where
  "tds_server_new config = \<lparr>tsv_config = config, tsv_conn_counter = 1, tsv_permits = tsc_max_connections config\<rparr>"

text \<open>A new socket gets the number of its connection, or is closed when no permit is left; the end of a
  connection, by a panic too, gives its permit back.\<close>

definition tds_accept :: "tds_server \<Rightarrow> nat option \<times> tds_server" where
  "tds_accept s =
     (if tsv_permits s = 0 then (None, s)
      else (Some (tsv_conn_counter s),
            s\<lparr>tsv_conn_counter := (tsv_conn_counter s + 1) mod 2 ^ 32, tsv_permits := tsv_permits s - 1\<rparr>))"

definition tds_release :: "tds_server \<Rightarrow> tds_server" where
  "tds_release s = s\<lparr>tsv_permits := tsv_permits s + 1\<rparr>"

end
