(* ===== verification/TsqlExec_Correct.thy ===== *)
theory TsqlExec_Correct
  imports TsqlExec TsqlParser_Correct Catalog_Correct
begin

section \<open>Correctness of the T-SQL executor\<close>

text \<open>
  Termination and isolation of the executor, then what it makes of errors, NULL, variables and loops.
  The locale \<open>context_relation\<close> is the induction over the execution of statements: a relation between
  contexts that every simple statement respects holds between the start and the end of a batch.
\<close>

subsection \<open>Induction over executions\<close>

fun plain :: "'f tsql_statement \<Rightarrow> bool" where
  "plain (BeginEnd _) = False"
| "plain (IfElse _ _ _) = False"
| "plain (While _ _) = False"
| "plain (TryCatch _ _) = False"
| "plain _ = True"

lemma exec_plain: "plain s \<Longrightarrow> exec_statement E B X n s ctx = Some (exec_simple E B X s ctx)"
  by (cases s) simp_all

lemma exec_induct [case_names block branch loop protected simple empty cons stop iterate]:
  fixes P :: "nat \<Rightarrow> 'f tsql_statement \<Rightarrow> bool"
    and Q :: "nat \<Rightarrow> 'f tsql_statement list \<Rightarrow> bool"
    and R :: "nat \<Rightarrow> 'f tsql_expr \<Rightarrow> 'f tsql_statement list \<Rightarrow> bool"
  assumes block: "\<And>n ss. Q n ss \<Longrightarrow> P n (BeginEnd ss)"
    and branch: "\<And>n c t e. Q n t \<Longrightarrow> (\<And>b. e = Some b \<Longrightarrow> Q n b) \<Longrightarrow> P n (IfElse c t e)"
    and loop: "\<And>n c body. R n c body \<Longrightarrow> P n (While c body)"
    and protected: "\<And>n t k. Q n t \<Longrightarrow> Q n k \<Longrightarrow> P n (TryCatch t k)"
    and simple: "\<And>n s. plain s \<Longrightarrow> P n s"
    and empty: "\<And>n. Q n []"
    and cons: "\<And>n s ss. P n s \<Longrightarrow> Q n ss \<Longrightarrow> Q n (s # ss)"
    and stop: "\<And>c body. R 0 c body"
    and iterate: "\<And>n c body. Q n body \<Longrightarrow> R n c body \<Longrightarrow> R (Suc n) c body"
  shows "P n s" and "Q n ss" and "R n c body"
proof -
  have list: "Q n ss" if "\<And>s. s \<in> set ss \<Longrightarrow> P n s" for n ss
    using that by (induction ss) (auto intro: empty cons)
  have step: "P n s" if "\<And>c body. R n c body" for n s
  proof (induction s)
    case (IfElse c t e)
    then show ?case by (auto intro!: branch list)
  qed (auto intro: that block loop protected simple list)
  have all: "R n c body" for n c body
  proof (induction n arbitrary: c body)
    case (Suc n)
    show ?case by (rule iterate, rule list, rule step) (rule Suc)+
  qed (rule stop)
  then show "P n s" "Q n ss" "R n c body" using step list by blast+
qed

subsection \<open>The bound on loops\<close>

text \<open>A larger bound gives the same result: \<open>extends\<close> is the order of partial results.\<close>

definition extends :: "'a option \<Rightarrow> 'a option \<Rightarrow> bool" where
  "extends a b \<longleftrightarrow> a = None \<or> b = a"

lemma extends_refl [simp]: "extends a a" "extends None a"
  by (simp_all add: extends_def)

lemma extends_case:
  assumes "extends a b" and "\<And>x. a = Some x \<Longrightarrow> extends (f x) (g x)"
  shows "extends (case a of None \<Rightarrow> None | Some x \<Rightarrow> f x) (case b of None \<Rightarrow> None | Some x \<Rightarrow> g x)"
  using assms by (cases a) (auto simp: extends_def)

lemma batch_cons:
  "execute_batch E B X n (s # ss) res ctx =
     (case exec_statement E B X n s ctx of None \<Rightarrow> None | Some (o1, cx) \<Rightarrow>
        (case o1 of Done (ReturnStatus rc) \<Rightarrow> Some (Done (ReturnStatus rc), cx) | Done r \<Rightarrow> execute_batch E B X n ss r cx
         | Failed e \<Rightarrow> Some (Failed e, cx) | Panicked \<Rightarrow> Some (Panicked, cx)))"
  by (auto split: option.split prod.split outcome.split exec_result.split)

lemma try_catch:
  "exec_statement E B X n (TryCatch t k) ctx =
     (case execute_batch E B X n t ResOk ctx of None \<Rightarrow> None | Some (o1, cx) \<Rightarrow>
        (case o1 of
           Failed e \<Rightarrow>
             (case execute_batch E B X n k ResOk (enter_catch e cx) of None \<Rightarrow> None | Some (o2, cx) \<Rightarrow>
                Some (o2, case o2 of Done _ \<Rightarrow> cx\<lparr>xc_error := 0\<rparr> | _ \<Rightarrow> cx))
         | _ \<Rightarrow> Some (o1, cx)))"
  by (auto split: option.split prod.split outcome.split)

lemma while_step:
  "while_loop E B X (Suc n) c body ctx =
     (case evaluate (\<lambda>cx. eval_condition E X cx c) ctx of (v, cx) \<Rightarrow>
        (case v of
           Done b \<Rightarrow>
             if b then
               (case execute_batch E B X n body ResOk cx of None \<Rightarrow> None | Some (o1, cx) \<Rightarrow>
                  (case o1 of Done (ReturnStatus _) \<Rightarrow> Some (Done (ReturnStatus 0), cx) | Done _ \<Rightarrow> while_loop E B X n c body cx
                   | Failed e \<Rightarrow> Some (Failed e, cx) | Panicked \<Rightarrow> Some (Panicked, cx)))
             else Some (Done ResOk, cx)
         | Failed e \<Rightarrow> Some (Failed e, cx)
         | Panicked \<Rightarrow> Some (Panicked, cx)))"
  by (auto split: option.split prod.split outcome.split exec_result.split bool.split)

lemma exec_more_fuel:
  "\<forall>ctx m. n \<le> m \<longrightarrow> extends (exec_statement E B X n s ctx) (exec_statement E B X m s ctx)"
  "\<forall>res ctx m. n \<le> m \<longrightarrow> extends (execute_batch E B X n ss res ctx) (execute_batch E B X m ss res ctx)"
  "\<forall>ctx m. n \<le> m \<longrightarrow> extends (while_loop E B X n c body ctx) (while_loop E B X m c body ctx)"
proof (induction n s and n ss and n c body rule: exec_induct)
  case (branch n c t e)
  then show ?case by (auto split: prod.split outcome.split option.split)
next
  case (protected n t k)
  show ?case unfolding try_catch
    by (intro allI impI extends_case protected [rule_format])
      (auto split: prod.split outcome.split intro!: extends_case protected [rule_format])
next
  case (cons n s ss)
  show ?case unfolding batch_cons
    by (intro allI impI extends_case cons [rule_format])
      (auto split: prod.split outcome.split exec_result.split intro!: cons [rule_format])
next
  case (iterate n c body)
  show ?case
  proof (intro allI impI)
    fix ctx m
    assume "Suc n \<le> m"
    then obtain k where k: "m = Suc k" "n \<le> k" by (cases m) auto
    then show "extends (while_loop E B X (Suc n) c body ctx) (while_loop E B X m c body ctx)"
      unfolding k(1) while_step
      by (auto split: prod.split outcome.split exec_result.split intro!: extends_case iterate [rule_format])
  qed
qed (simp_all add: exec_plain)

fun while_free :: "'f tsql_statement \<Rightarrow> bool" where
  "while_free (BeginEnd ss) = list_all while_free ss"
| "while_free (IfElse c t e) = (list_all while_free t \<and> (case e of None \<Rightarrow> True | Some b \<Rightarrow> list_all while_free b))"
| "while_free (TryCatch t k) = (list_all while_free t \<and> list_all while_free k)"
| "while_free (While c body) = False"
| "while_free _ = True"

definition returns :: "'a option \<Rightarrow> bool" where
  "returns m \<longleftrightarrow> m \<noteq> None"

lemma returns_Some [simp]: "returns (Some x)"
  by (simp add: returns_def)

lemma returns_case:
  "returns a \<Longrightarrow> (\<And>x. a = Some x \<Longrightarrow> returns (f x)) \<Longrightarrow> returns (case a of None \<Rightarrow> None | Some x \<Rightarrow> f x)"
  by (cases a) (auto simp: returns_def)

lemma while_free_returns:
  fixes s :: "'f tsql_statement"
  shows "while_free s \<longrightarrow> (\<forall>ctx. returns (exec_statement E B X n s ctx))"
    and "list_all while_free ss \<longrightarrow> (\<forall>res ctx. returns (execute_batch E B X n ss res ctx))"
    and "(c, body) = (c :: 'f tsql_expr, body :: 'f tsql_statement list)"
proof (induction n s and n ss and n c body rule: exec_induct)
  case (branch n c t e)
  then show ?case by (auto split: prod.split outcome.split option.split)
next
  case (protected n t k)
  then show ?case unfolding try_catch by (auto split: prod.split outcome.split intro!: returns_case)
next
  case (cons n s ss)
  then show ?case unfolding batch_cons by (auto split: prod.split outcome.split exec_result.split intro!: returns_case)
qed (auto simp: exec_plain)

subsection \<open>What an execution may change\<close>

locale context_relation =
  fixes E :: exec_env
    and B :: "'b meta_backend"
    and X :: "'f exec_lib"
    and rel :: "('f, 'b) exec_context \<Rightarrow> ('f, 'b) exec_context \<Rightarrow> bool"
  assumes rel_refl: "rel ctx ctx"
    and rel_trans: "rel c1 c2 \<Longrightarrow> rel c2 c3 \<Longrightarrow> rel c1 c3"
    and rel_simple: "plain s \<Longrightarrow> rel ctx (snd (exec_simple E B X s ctx))"
    and rel_readings: "rel ctx (ctx\<lparr>xc_readings := k\<rparr>)"
    and rel_error: "rel ctx (ctx\<lparr>xc_error := e\<rparr>)"
    and rel_catch: "rel ctx (enter_catch err ctx)"
begin

definition leads :: "('f, 'b) exec_context \<Rightarrow> ('a \<times> ('f, 'b) exec_context) option \<Rightarrow> bool" where
  "leads ctx m \<longleftrightarrow> (case m of None \<Rightarrow> True | Some (r, ctx') \<Rightarrow> rel ctx ctx')"

lemma leads_simps [simp]: "leads ctx None" "leads ctx (Some (r, ctx')) \<longleftrightarrow> rel ctx ctx'"
  by (simp_all add: leads_def)

lemma leads_trans: "rel ctx ctx' \<Longrightarrow> leads ctx' m \<Longrightarrow> leads ctx m"
  by (auto simp: leads_def split: option.splits intro: rel_trans)

lemma leads_case:
  "leads ctx m \<Longrightarrow> (\<And>r ctx'. rel ctx ctx' \<Longrightarrow> leads ctx (f (r, ctx'))) \<Longrightarrow> leads ctx (case m of None \<Rightarrow> None | Some x \<Rightarrow> f x)"
  by (cases m) auto

lemma leads_evaluate:
  assumes "\<And>r ctx'. rel ctx ctx' \<Longrightarrow> leads ctx (f r ctx')"
  shows "leads ctx (case evaluate m ctx of (r, ctx') \<Rightarrow> f r ctx')"
  using assms rel_readings by (auto simp: evaluate_def split: prod.split)

lemma rel_caught: "rel c1 c2 \<Longrightarrow> rel c1 (enter_catch e c2)"
  by (rule rel_trans [OF _ rel_catch])

lemma rel_cleared: "rel c1 c2 \<Longrightarrow> rel c1 (c2\<lparr>xc_error := e\<rparr>)"
  by (rule rel_trans [OF _ rel_error])

lemma leads_exec:
  "\<forall>ctx. leads ctx (exec_statement E B X n s ctx)"
  "\<forall>res ctx. leads ctx (execute_batch E B X n ss res ctx)"
  "\<forall>ctx. leads ctx (while_loop E B X n c body ctx)"
proof (induction n s and n ss and n c body rule: exec_induct)
  case (branch n c t e)
  then show ?case
    by (auto split: outcome.split option.split intro!: leads_evaluate leads_trans [OF _ branch(1) [rule_format]] leads_trans [OF _ branch(2) [rule_format]])
next
  case (protected n t k)
  show ?case unfolding try_catch
    by (auto split: outcome.split intro!: leads_case protected(1) [rule_format]
        leads_trans [OF rel_caught protected(2) [rule_format]] rel_cleared)
next
  case (cons n s ss)
  show ?case unfolding batch_cons
    by (auto split: outcome.split exec_result.split intro!: leads_case cons [rule_format] leads_trans [OF _ cons(2) [rule_format]])
next
  case (iterate n c body)
  show ?case unfolding while_step
    by (auto split: outcome.split exec_result.split
        intro!: leads_evaluate leads_case leads_trans [OF _ iterate(1) [rule_format]] leads_trans [OF _ iterate(2) [rule_format]])
next
  case (simple n s)
  then show ?case using rel_simple [OF simple] by (simp add: exec_plain leads_def case_prod_beta)
qed (auto intro: rel_refl)

end

text \<open>
  What a batch leaves alone: the number of its connection, the databases and the materialized views of
  the catalog, and the transactions of every other connection.
\<close>

definition confined :: "('f, 'b) exec_context \<Rightarrow> ('f, 'b) exec_context \<Rightarrow> bool" where
  "confined ctx ctx' \<longleftrightarrow>
     xc_conn_id ctx' = xc_conn_id ctx \<and>
     cm_databases (xc_catalog ctx') = cm_databases (xc_catalog ctx) \<and>
     cm_materialized_views (xc_catalog ctx') = cm_materialized_views (xc_catalog ctx) \<and>
     (\<forall>c. c \<noteq> xc_conn_id ctx \<longrightarrow> session_entry c (xc_txn ctx') = session_entry c (xc_txn ctx))"

lemma confined_same:
  "xc_conn_id ctx' = xc_conn_id ctx \<Longrightarrow> xc_catalog ctx' = xc_catalog ctx \<Longrightarrow> xc_txn ctx' = xc_txn ctx \<Longrightarrow> confined ctx ctx'"
  by (simp add: confined_def)

lemma confined_trans: "confined c1 c2 \<Longrightarrow> confined c2 c3 \<Longrightarrow> confined c1 c3"
  by (simp add: confined_def)

lemma evaluate_state: "evaluate m ctx = (r, ctx') \<Longrightarrow> \<exists>k. ctx' = ctx\<lparr>xc_readings := k\<rparr>"
  by (auto simp: evaluate_def split: prod.splits)

lemma confined_evaluate: "evaluate m ctx = (r, ctx') \<Longrightarrow> confined ctx ctx'"
  by (auto dest!: evaluate_state intro: confined_same)

lemma confined_variables: "confined ctx (ctx'\<lparr>xc_variables := vs\<rparr>) = confined ctx ctx'" "confined (ctx\<lparr>xc_variables := vs\<rparr>) ctx' = confined ctx ctx'"
  by (simp_all add: confined_def)

lemma confined_declare: "confined ctx (snd (exec_declare E X vs ctx))"
proof (induction E X vs ctx rule: exec_declare.induct)
  case (2 E X v vs ctx)
  show ?case
  proof (cases "vd_default v")
    case None
    then show ?thesis using 2(1) by (simp add: confined_variables)
  next
    case (Some e)
    obtain r cx where ev: "evaluate (\<lambda>c. eval_to_literal E X c e) ctx = (r, cx)" by (cases "evaluate (\<lambda>c. eval_to_literal E X c e) ctx")
    then show ?thesis
      using 2(2) [OF Some ev [symmetric]] confined_evaluate [OF ev] Some
      by (cases r) (auto simp: confined_variables intro: confined_trans)
  qed
qed (simp add: confined_same)

lemma confined_assignments: "confined ctx (snd (exec_assignments E X as ctx))"
proof (induction E X as ctx rule: exec_assignments.induct)
  case (2 E X name e as ctx)
  obtain r cx where ev: "evaluate (\<lambda>c. eval_to_literal E X c e) ctx = (r, cx)" by (cases "evaluate (\<lambda>c. eval_to_literal E X c e) ctx")
  then show ?case
    using 2 [OF ev [symmetric]] confined_evaluate [OF ev]
    by (cases r) (auto simp: confined_variables split: sum.split intro: confined_trans)
qed (simp add: confined_same)

lemma confined_bind: "confined ctx (snd (bind_params E X ps as child ctx))"
proof (induction E X ps as child ctx rule: bind_params.induct)
  case (1 E X p ps a as child ctx)
  obtain name e where ne: "(case a of Positional e \<Rightarrow> (code_points (pp_name p), e) | Named n e _ \<Rightarrow> (n, e)) = (name, e)"
    by (cases "case a of Positional e \<Rightarrow> (code_points (pp_name p), e) | Named n e _ \<Rightarrow> (n, e)")
  obtain r cx where ev: "evaluate (\<lambda>c. eval_to_literal E X c e) ctx = (r, cx)" by (cases "evaluate (\<lambda>c. eval_to_literal E X c e) ctx")
  then show ?case
    using 1 [OF ne [symmetric] refl ev [symmetric]] confined_evaluate [OF ev] ne
    by (cases r) (auto intro: confined_trans)
qed (simp_all add: confined_same)

lemma catalog_procedures_only:
  "create_procedure B cm db p = (r, cm') \<Longrightarrow> cm_databases cm' = cm_databases cm \<and> cm_materialized_views cm' = cm_materialized_views cm"
  "drop_procedure B cm db name = (r, cm') \<Longrightarrow> cm_databases cm' = cm_databases cm \<and> cm_materialized_views cm' = cm_materialized_views cm"
  by (auto simp: create_procedure_def drop_procedure_def Let_def split: prod.splits sum.splits)

lemma confined_execute: "confined ctx (snd (exec_execute E B X ex ctx))"
proof -
  have "confined ctx cx" if "bind_params E X ps as child ctx = (r, cx)" for ps as child r cx
    using confined_bind [of ctx E X ps as child] that by simp
  then show ?thesis
    by (auto simp: exec_execute_def confined_same split: sum.split option.split prod.split outcome.split)
qed

lemma confined_procedures:
  "confined ctx (snd (exec_create_procedure E B name params rc en ctx))"
  "confined ctx (snd (exec_drop_procedure B name ctx))"
  by (auto simp: exec_create_procedure_def exec_drop_procedure_def confined_def cm_fetch_id_def Let_def
      split: prod.split dest!: catalog_procedures_only)

lemma confined_cursor: "confined ctx (snd (exec_cursor X c ctx))"
  by (auto simp: exec_cursor_def with_cursors_def exec_fetch_def intro!: confined_same
      split: cursor_statement.split sum.split prod.split)

lemma confined_evaluated:
  "confined ctx (snd (exec_select E X sel ctx))" "confined ctx (snd (exec_print E X e ctx))"
  "confined ctx (snd (exec_return E X oe ctx))" "confined ctx (snd (exec_raise E X fallback e ctx))"
  "confined ctx (snd (exec_set_option E X name e ctx))"
  by (auto simp: exec_select_def exec_print_def exec_return_def exec_raise_def exec_set_option_def Let_def intro!: confined_same
      split: option.split list.split prod.split outcome.split dest!: evaluate_state)

lemma confined_tran: "confined ctx (ctx\<lparr>xc_txn := tran_step (xc_conn_id ctx) t (xc_txn ctx)\<rparr>)"
  by (simp add: confined_def tx.foreign)

lemmas confined_simple =
  confined_declare confined_assignments confined_execute confined_procedures confined_cursor confined_evaluated confined_tran

interpretation cf: context_relation E B X confined for E B X
proof unfold_locales
  fix s ctx
  show "confined ctx (snd (exec_simple E B X s ctx))"
    unfolding exec_simple_def
    by (auto split: tsql_statement.split dml_statement.split intro: confined_simple confined_same)
qed (auto intro: confined_same confined_trans simp: enter_catch_def)

subsection \<open>Queries\<close>

text \<open>The parser returns on every text.\<close>

lemma parse_tsql_returns: "returns (parse_tsql L input)"
proof (cases "tokenize (pl_chars L) (lexer_new input)")
  case (Inr ts)
  have "good calm \<lparr>ps_tokens = ts, ps_pos = 0\<rparr> (parse_statements L \<lparr>ps_tokens = ts, ps_pos = 0\<rparr>)"
    using simD [OF sim_parse_statements [of False] lessI] by blast
  then show ?thesis
    using Inr unfolding parse_tsql_def
    by (cases "parse_statements L \<lparr>ps_tokens = ts, ps_pos = 0\<rparr>" rule: option_result_cases) auto
qed (simp add: parse_tsql_def)

lemma handle_batches_return:
  assumes "\<And>b stmts. b \<in> set bs \<Longrightarrow> parse_tsql (xl_parser X) (trim_chars (xl_chars X) b) = Some (Inr stmts) \<Longrightarrow> list_all while_free stmts"
  shows "returns (handle_batches E B X n conn bs res h)"
  using assms
proof (induction bs arbitrary: res h)
  case (Cons b bs)
  obtain p where p: "parse_tsql (xl_parser X) (trim_chars (xl_chars X) b) = Some p"
    using parse_tsql_returns by (auto simp: returns_def)
  have rest: "returns (handle_batches E B X n conn bs res' h')" for res' h'
    by (rule Cons.IH, rule Cons.prems) auto
  show ?case
  proof (cases p)
    case (Inr stmts)
    then have "list_all while_free stmts" using Cons.prems [of b] p by simp
    then obtain o1 ctx where "execute_batch E B X n stmts ResOk (get_or_create_context h conn) = Some (o1, ctx)"
      using while_free_returns(2) [of stmts E B X n] by (fastforce simp: returns_def)
    with p Inr rest show ?thesis by (simp add: Let_def split: outcome.split)
  qed (use p rest in \<open>simp add: Let_def\<close>)
qed simp

text \<open>
  A query whose batches contain no WHILE comes to an end, whatever the bound on the iterations of loops:
  splitting, parsing and executing return. The result may be a panic (no answer), as for the smallest
  integer divided by -1.
\<close>

lemma tsql_query_returns:
  assumes "\<And>b stmts. b \<in> set (split_batches (xl_chars X) sql) \<Longrightarrow>
      parse_tsql (xl_parser X) (trim_chars (xl_chars X) b) = Some (Inr stmts) \<Longrightarrow> list_all while_free stmts"
  shows "\<exists>answer h'. handle_query E B X n conn sql h = Some (answer, h')"
  using handle_batches_return [OF assms] by (auto simp: handle_query_def returns_def)

text \<open>The text COMMIT is one batch with one statement.\<close>

lemma commit_text:
  "split_batches (xl_chars ascii_exec) (chs ''COMMIT'') = [chs ''COMMIT'']"
  "trim_chars (xl_chars ascii_exec) (chs ''COMMIT'') = chs ''COMMIT''"
  "parse_tsql (xl_parser ascii_exec) (chs ''COMMIT'') = Some (Inr [Tran (CommitTransaction None)])"
  by code_simp+

definition still_env :: exec_env where
  "still_env = \<lparr>ev_local_now = \<lambda>_. chs ''2024-01-01 00:00:00'', ev_utc_now = \<lambda>_. chs ''2024-01-01 00:00:00'',
     ev_new_uuid = \<lambda>_. chs ''00000000-0000-4000-8000-000000000000'', ev_timestamp = \<lambda>_. 0\<rparr>"

definition sample_backend :: "json_meta meta_backend" where
  "sample_backend = json_backend sample_json quiet_io"

lemma commit_returns:
  "\<exists>answer h'. handle_query still_env sample_backend ascii_exec 0 2 (chs ''COMMIT'') (handler_new (with_path ''c'')) = Some (answer, h')"
proof (rule tsql_query_returns)
  fix b stmts
  assume "b \<in> set (split_batches (xl_chars ascii_exec) (chs ''COMMIT''))"
    and parsed: "parse_tsql (xl_parser ascii_exec) (trim_chars (xl_chars ascii_exec) b) = Some (Inr stmts)"
  then have b: "b = chs ''COMMIT''" by (simp only: commit_text list.set insert_iff empty_iff simp_thms)
  show "list_all while_free stmts" using parsed unfolding b commit_text by auto
qed

text \<open>What a handler keeps while it serves the queries of one connection.\<close>

definition kept :: "nat \<Rightarrow> 'b tsql_handler \<Rightarrow> 'b tsql_handler \<Rightarrow> bool" where
  "kept conn h h' \<longleftrightarrow>
     cm_databases (th_catalog h') = cm_databases (th_catalog h) \<and>
     cm_materialized_views (th_catalog h') = cm_materialized_views (th_catalog h) \<and>
     (\<forall>c. c \<noteq> conn \<longrightarrow> session_entry c (th_txn h') = session_entry c (th_txn h) \<and> map_of (th_sessions h') c = map_of (th_sessions h) c)"

lemma kept_refl [simp]: "kept conn h h"
  by (simp add: kept_def)

lemma kept_trans: "kept conn h1 h2 \<Longrightarrow> kept conn h2 h3 \<Longrightarrow> kept conn h1 h3"
  by (simp add: kept_def)

lemma kept_use: "kept conn h (handler_set_database conn db h)"
  by (simp add: kept_def handler_set_database_def update_conv')

lemma kept_share:
  assumes "execute_batch E B X n stmts res (get_or_create_context h conn) = Some (r, ctx)"
  shows "kept conn h (share ctx h)"
proof -
  have "confined (get_or_create_context h conn) ctx"
    using cf.leads_exec(2) [of E B X n stmts] assms by (metis cf.leads_simps(2))
  then show ?thesis by (simp add: confined_def kept_def share_def get_or_create_context_def context_new_def)
qed

lemma handle_batches_kept: "handle_batches E B X n conn bs res h = Some (r, h') \<Longrightarrow> kept conn h h'"
proof (induction bs arbitrary: res h)
  case (Cons b bs)
  show ?case
  proof (cases "trim_chars (xl_chars X) b = []")
    case False
    then obtain p where p: "parse_tsql (xl_parser X) (trim_chars (xl_chars X) b) = Some p"
      using parse_tsql_returns by (auto simp: returns_def)
    show ?thesis
    proof (cases p)
      case (Inr stmts)
      then obtain o1 ctx where ex: "execute_batch E B X n stmts ResOk (get_or_create_context h conn) = Some (o1, ctx)"
        using Cons.prems p False by (auto simp: Let_def split: option.splits)
      note share = kept_share [OF ex]
      show ?thesis
      proof (cases "o1 = Panicked")
        case True
        then show ?thesis using Cons.prems p False Inr ex share by (simp add: Let_def)
      next
        case False
        then obtain res' where "handle_batches E B X n conn bs res' (handler_set_database conn (xc_database ctx) (share ctx h)) = Some (r, h')"
          using Cons.prems p \<open>trim_chars (xl_chars X) b \<noteq> []\<close> Inr ex by (cases o1) (auto simp: Let_def)
        from kept_trans [OF kept_trans [OF share kept_use] Cons.IH [OF this]] show ?thesis .
      qed
    qed (use Cons.prems p False in \<open>simp add: Let_def\<close>)
  qed (use Cons in \<open>simp add: Let_def\<close>)
qed simp

text \<open>A sequence of calls on one handler, each by some connection.\<close>

inductive tsql_served :: "exec_env \<Rightarrow> 'b meta_backend \<Rightarrow> 'f exec_lib \<Rightarrow> 'b tsql_handler \<Rightarrow> nat list \<Rightarrow> 'b tsql_handler \<Rightarrow> bool"
  for E B X where
  served_none: "tsql_served E B X h [] h"
| served_query: "handle_query E B X n conn sql h = Some (answer, h') \<Longrightarrow> tsql_served E B X h' conns h'' \<Longrightarrow> tsql_served E B X h (conn # conns) h''"
| served_use: "tsql_served E B X (handler_set_database conn db h) conns h'' \<Longrightarrow> tsql_served E B X h (conn # conns) h''"

lemma served_kept: "tsql_served E B X h conns h' \<Longrightarrow>
  cm_databases (th_catalog h') = cm_databases (th_catalog h) \<and>
  cm_materialized_views (th_catalog h') = cm_materialized_views (th_catalog h) \<and>
  (\<forall>c. c \<notin> set conns \<longrightarrow> session_entry c (th_txn h') = session_entry c (th_txn h) \<and> map_of (th_sessions h') c = map_of (th_sessions h) c)"
proof (induction rule: tsql_served.induct)
  case (served_query n conn sql h answer h' conns h'')
  then have "kept conn h h'" using handle_batches_kept by (auto simp: handle_query_def)
  with served_query show ?case by (auto simp: kept_def)
next
  case (served_use conn db h conns h'')
  with kept_use [of conn h db] show ?case by (auto simp: kept_def)
qed auto

text \<open>A sample of a call: connection 2 commits.\<close>

definition handler_after_commit :: "json_meta tsql_handler" where
  "handler_after_commit =
     \<lparr>th_catalog = with_path ''c'', th_txn = [(2, transaction_default)], th_sessions = [(2, chs ''master'')], th_readings = 0\<rparr>"

lemma commit_answer:
  "handle_query still_env sample_backend ascii_exec 0 2 (chs ''COMMIT'') (handler_new (with_path ''c'')) = Some (Some qr_ok, handler_after_commit)"
  unfolding handle_query_def commit_text handle_batches.simps Let_def option.case sum.case
  by (simp add: exec_simple_def tran_step_def commit_tran_def session_entry_def transaction_default_def get_or_create_context_def
      context_new_def handler_new_def share_def handler_set_database_def handler_after_commit_def)

lemma commit_served: "tsql_served still_env sample_backend ascii_exec (handler_new (with_path ''c'')) [2] handler_after_commit"
  by (rule served_query [OF commit_answer served_none])

text \<open>
  C33. Serving other connections changes neither the transaction count of a connection nor the database
  it uses, whatever texts they send, with or without errors.
\<close>

theorem tsql_connections_isolated:
  assumes "tsql_served E B X h conns h'" and "c \<notin> set conns"
  shows "get_tran_count (th_txn h') c = get_tran_count (th_txn h) c \<and> map_of (th_sessions h') c = map_of (th_sessions h) c"
  using served_kept [OF assms(1)] assms(2) by (simp add: get_tran_count_entry)

theorem tsql_connections_isolated_witness:
  "get_tran_count (th_txn handler_after_commit) 1 = 0 \<and> map_of (th_sessions handler_after_commit) 1 = None"
  using tsql_connections_isolated [OF commit_served, of 1] by (simp add: handler_new_def get_tran_count_def)

text \<open>
  No T-SQL text changes the databases, their tables or the materialized views of the catalog: of the
  statements that the parser knows, only those on procedures reach it.
\<close>

theorem tsql_leaves_tables:
  assumes "tsql_served E B X h conns h'"
  shows "cm_databases (th_catalog h') = cm_databases (th_catalog h) \<and>
    cm_materialized_views (th_catalog h') = cm_materialized_views (th_catalog h)"
  using served_kept [OF assms] by simp

theorem tsql_leaves_tables_witness:
  "cm_databases (th_catalog (handler_after_commit)) = cm_databases (with_path ''c'')"
  using tsql_leaves_tables [OF commit_served] by (simp add: handler_new_def)

subsection \<open>Errors, NULL, variables and loops\<close>

text \<open>
  C35. An error inside TRY is not lost and does not stop the batch: the CATCH block runs next and finds
  its text in ERROR_MESSAGE(), and afterwards the error variable is 0 again.
\<close>

theorem catch_sees_error:
  assumes "execute_batch E B X n body ResOk ctx = Some (Failed err, ctx')"
  shows "\<exists>ctx''. exec_statement E B X n (TryCatch body [Print (FunctionCall (chs ''ERROR_MESSAGE'') [])]) ctx =
            Some (Done (Message (code_points (show_procedure_error err))), ctx'') \<and>
          xc_error ctx'' = 0 \<and> xc_messages ctx'' = xc_messages ctx' @ [code_points (show_procedure_error err)]"
  using assms
  by (simp add: exec_simple_def exec_print_def evaluate_def enter_catch_def eval_builtin_function_def upper_chars_def upper_char_def
      pure_def Let_def)

theorem catch_sees_error_witness:
  "\<exists>ctx''. exec_statement still_env sample_backend ascii_exec 0
      (TryCatch [Print (Variable (chs ''x''))] [Print (FunctionCall (chs ''ERROR_MESSAGE'') [])])
      (context_new 1 (chs ''master'') (with_path ''c'') [] 0) =
    Some (Done (Message (code_points (show_procedure_error (VariableNotDeclared (utf8 (chs ''x'')))))), ctx'') \<and> xc_error ctx'' = 0"
proof -
  have "\<exists>ctx'. execute_batch still_env sample_backend ascii_exec 0 [Print (Variable (chs ''x''))] ResOk
      (context_new 1 (chs ''master'') (with_path ''c'') [] 0) = Some (Failed (VariableNotDeclared (utf8 (chs ''x''))), ctx')"
    by (simp add: exec_simple_def exec_print_def evaluate_def from_result_def var_get_def context_new_def utf8_char_def)
  then show ?thesis using catch_sees_error by fastforce
qed

text \<open>
  What the parser makes of IS NULL and IS NOT NULL does not depend on the value that is tested: the
  first is false and the second is true, for NULL as for every other value.
\<close>

theorem null_test_is_constant:
  assumes "parse_is_null L left s = Some (Inr (test, s'))" and "eval_to_literal E X ctx left k = (Done v, k')"
  shows "eval_condition E X ctx test k = (Done (test \<noteq> BinaryOp left EqOp (Literal LitNull)), k')"
proof -
  consider "test = BinaryOp left EqOp (Literal LitNull)" | "test = UnaryOp NotOp (BinaryOp left EqOp (Literal LitNull))"
    using assms(1) by (auto simp: parse_is_null_def andthen_def ret_def Let_def split: option.splits sum.splits prod.splits if_splits)
  then show ?thesis using assms(2) by cases (simp_all add: compare_text_def bind_eval_def pure_def)
qed

definition null_tokens :: "nat tsql_parser" where
  "null_tokens = \<lparr>ps_tokens = [Tok ''Not'', Tok ''Null'', Tok ''Eof''], ps_pos = 0\<rparr>"

theorem null_test_is_constant_witness:
  "eval_condition still_env ascii_exec (context_new 1 (chs ''master'') (with_path ''c'') [] 0)
     (UnaryOp NotOp (BinaryOp (Literal LitNull) EqOp (Literal LitNull))) 0 = (Done True, 0)"
proof -
  have "parse_is_null (xl_parser ascii_exec) (Literal LitNull) null_tokens =
      Some (Inr (UnaryOp NotOp (BinaryOp (Literal LitNull) EqOp (Literal LitNull)), \<lparr>ps_tokens = ps_tokens null_tokens, ps_pos = 2\<rparr>))"
    by code_simp
  from null_test_is_constant [OF this, of still_env ascii_exec "context_new 1 (chs ''master'') (with_path ''c'') [] 0" 0 LitNull 0]
  show ?thesis by (simp add: pure_def)
qed

text \<open>
  A variable cannot be read: the parser declares it under its name with the at sign and reads it
  under its name without.
\<close>

lemma declared_under_at_name:
  "p_peek s = AtVariable name \<Longrightarrow> parse_variable_decl L s = Some (Inr (d, s')) \<Longrightarrow> vd_name d = at_name name"
  by (auto simp: parse_variable_decl_def at_variable_def andthen_def ret_def p_advance_def p_peek_def Let_def
      split: option.splits sum.splits prod.splits if_splits)

lemma read_without_at:
  "p_peek s = AtVariable name \<Longrightarrow> parse_primary L R s = Some (Inr (e, s')) \<Longrightarrow> e = Variable name"
  by (auto simp: parse_primary_def looking_def andthen_def ret_def p_advance_def split: if_splits)

lemma variable_read_fails:
  assumes "p_peek s = AtVariable name" and "parse_variable_decl L s = Some (Inr (d, s'))" and "vd_default d = None"
    and "p_peek u = AtVariable name" and "parse_primary L R u = Some (Inr (e, u'))" and "list_all (\<lambda>c. c < 128) name"
  shows "\<exists>ctx'. execute_batch E B X n [Declare [d], Print e] res (context_new conn db catalog txn readings) =
           Some (Failed (VariableNotDeclared (utf8 name)), ctx')"
proof -
  have "lower_chars X name \<noteq> lower_chars X (at_name name)"
    using assms(6) arg_cong [of "map lower_char name" "map lower_char (at_name name)" length]
    by (auto simp: lower_chars_def at_name_def)
  then show ?thesis
    using declared_under_at_name [OF assms(1,2)] read_without_at [OF assms(4,5)] assms(3)
    by (simp add: exec_simple_def exec_print_def evaluate_def var_get_def var_declare_def from_result_def context_new_def
        update_conv')
qed

text \<open>
  BREAK does not leave a loop: WHILE 1 = 1 with the body BREAK does not end for any number of
  iterations.
\<close>

theorem break_does_not_leave:
  "execute_batch E B X n [While (BinaryOp (Literal (LitInt 1)) EqOp (Literal (LitInt 1))) [Break]] res ctx = None"
proof -
  have "while_loop E B X n (BinaryOp (Literal (LitInt 1)) EqOp (Literal (LitInt 1))) [Break] ctx = None" for ctx
    by (induction n arbitrary: ctx)
      (simp_all add: while_step evaluate_def compare_text_def bind_eval_def pure_def exec_simple_def)
  then show ?thesis by simp
qed

text \<open>A RETURN inside a loop loses its status.\<close>

lemma return_in_loop_is_zero:
  "\<exists>ctx'. exec_statement E B X (Suc n) (While (Literal (LitInt 1)) [Return (Some (Literal (LitInt 5)))]) ctx =
     Some (Done (ReturnStatus 0), ctx')"
  by (simp add: while_step evaluate_def pure_def exec_simple_def exec_return_def eval_expr_to_int_def bind_eval_def)

text \<open>As a condition a comparison truncates its operands to 32 bits, as an expression it does not.\<close>

lemma comparison_truncates:
  "eval_condition E X ctx (BinaryOp (Literal (LitInt 4294967296)) GtOp (Literal (LitInt 1))) k = (Done False, k)"
  "eval_to_literal E X ctx (BinaryOp (Literal (LitInt 4294967296)) GtOp (Literal (LitInt 1))) k = (Done (LitBit True), k)"
  by (simp_all add: compare_ints_def bind_eval_def pure_def eval_expr_to_int_def wrap_i32_def eval_binary_op_def eval_int_op_def)

text \<open>The smallest integer divided by -1 ends the task that serves the connection.\<close>

lemma division_panics:
  "eval_to_literal E X ctx (BinaryOp (Literal (LitInt i64_min)) Divide (Literal (LitInt (-1)))) k = (Panicked, k)"
  by (simp add: bind_eval_def pure_def eval_binary_op_def eval_int_op_def panic_def)

text \<open>LEN counts bytes: the length of a single accented letter is 2.\<close>

lemma len_counts_bytes:
  "eval_to_literal E X ctx (FunctionCall (chs ''LEN'') [Literal (LitString [233])]) k = (Done (LitInt 2), k)"
  by (simp add: eval_builtin_function_def upper_chars_def upper_char_def Let_def on_first_def bind_eval_def pure_def utf8_char_def)

text \<open>A batch that does not parse is answered like a statement without result, and the batches after it are not run.\<close>

lemma parse_error_answered_ok:
  assumes "trim_chars (xl_chars X) b \<noteq> []" and "parse_tsql (xl_parser X) (trim_chars (xl_chars X) b) = Some (Inl err)"
  shows "handle_batches E B X n conn (b # bs) res h = Some (Some qr_ok, h)"
  using assms by (simp add: Let_def)

end
