(* ===== verification/Tds_Correct.thy ===== *)
theory Tds_Correct
  imports Tds TsqlExec_Correct
begin

section \<open>Correctness of the TDS front end\<close>

text \<open>
  Packets form a framing, text survives the encoding, the answers of the handler can be told apart by
  the client, and a session over the wire is the sequence of its queries.
\<close>

subsection \<open>Packets\<close>

definition packet_ok :: "tds_packet \<Rightarrow> bool" where
  "packet_ok p \<longleftrightarrow> pk_type p < 256 \<and> pk_status p < 256 \<and> length (pk_data p) \<le> 65527"

definition packet_bytes :: "tds_packet \<Rightarrow> bytes" where
  "packet_bytes p = (case write_tds_packet p of Inl _ \<Rightarrow> [] | Inr bs \<Rightarrow> bs)"

lemma packet_bytes_ok:
  "packet_ok p \<Longrightarrow> packet_bytes p =
     [byte_of (pk_type p), byte_of (pk_status p)] @ le_bytes 2 (length (pk_data p) + 8) @ be_bytes 2 0 @ [byte_of 0, byte_of 0] @ pk_data p"
  by (simp add: packet_bytes_def write_tds_packet_def packet_ok_def Let_def)

lemma write_ok: "packet_ok p \<Longrightarrow> write_tds_packet p = Inr (packet_bytes p)"
  by (simp add: packet_bytes_def write_tds_packet_def packet_ok_def Let_def)

lemma length_packet_bytes: "packet_ok p \<Longrightarrow> length (packet_bytes p) = length (pk_data p) + 8"
  by (simp add: packet_bytes_ok)

lemma two_bytes: "length bs = 2 \<longleftrightarrow> (\<exists>a b. bs = [a, b])"
  by (auto simp: numeral_2_eq_2 length_Suc_conv)

lemma drop_header: "drop (n + 8) (b0 # b1 # b2 # b3 # b4 # b5 # b6 # b7 # xs) = drop n xs"
  by (simp add: numeral_eq_Suc)

lemma packet_header:
  assumes "packet_ok p"
  shows "\<exists>a b c d. packet_bytes p = [byte_of (pk_type p), byte_of (pk_status p), a, b, c, d, byte_of 0, byte_of 0] @ pk_data p \<and>
           le_val [a, b] = length (pk_data p) + 8"
proof -
  obtain a b where ab: "le_bytes 2 (length (pk_data p) + 8) = [a, b]" using two_bytes length_le_bytes by metis
  obtain c d where cd: "be_bytes 2 0 = [c, d]" using two_bytes length_be_bytes by metis
  have "le_val [a, b] = length (pk_data p) + 8"
    using le_val_le_bytes [of 2 "length (pk_data p) + 8"] assms by (simp add: ab packet_ok_def)
  then show ?thesis using packet_bytes_ok [OF assms] by (auto simp: ab cd)
qed

lemma read_written:
  assumes "packet_ok p"
  shows "read_tds_packet (packet_bytes p @ behind) = Got p behind"
proof -
  obtain a b c d where p: "packet_bytes p = [byte_of (pk_type p), byte_of (pk_status p), a, b, c, d, byte_of 0, byte_of 0] @ pk_data p"
    and len: "le_val [a, b] = length (pk_data p) + 8" using packet_header [OF assms] by blast
  have "byte_val a + 256 * byte_val b = length (pk_data p) + 8" using len by simp
  then show ?thesis using assms by (simp add: p read_tds_packet_def packet_ok_def Let_def numeral_2_eq_2 drop_header)
qed

lemma read_cut:
  assumes "packet_ok p" and "strict_prefix t (packet_bytes p)"
  shows "read_tds_packet t = More"
proof (cases "length t < 8")
  case False
  obtain a b c d where p: "packet_bytes p = [byte_of (pk_type p), byte_of (pk_status p), a, b, c, d, byte_of 0, byte_of 0] @ pk_data p"
    and len: "le_val [a, b] = length (pk_data p) + 8" using packet_header [OF assms(1)] by blast
  obtain u where u: "packet_bytes p = t @ u" "u \<noteq> []" using assms(2) by (auto simp: strict_prefix_def prefix_def)
  then have short: "length t < length (packet_bytes p)" by simp
  have "take 2 (drop 2 t) = take 2 (drop 2 (packet_bytes p))" using False by (simp add: u(1))
  then have "take 2 (drop 2 t) = [a, b]" by (simp add: p)
  then show ?thesis using len short length_packet_bytes [OF assms(1)] False by (simp add: read_tds_packet_def Let_def)
qed (simp add: read_tds_packet_def)

interpretation tp: framing packet_bytes packet_ok read_tds_packet
proof unfold_locales
  fix p :: tds_packet
  assume "packet_ok p"
  then show "packet_bytes p \<noteq> []" using length_packet_bytes [of p] by auto
qed (auto intro: read_written read_cut)

subsection \<open>Text\<close>

lemma from_utf16_char:
  assumes "scalar c"
  shows "from_utf16 (utf16_char c @ us) = map_option (Cons c) (from_utf16 us)"
proof (cases "c < 65536")
  case True
  with assms show ?thesis by (auto simp: utf16_char_def scalar_def)
next
  case False
  define k where "k = c - 65536"
  have k: "k div 1024 < 1024" using assms False by (auto simp: scalar_def k_def less_mult_imp_div_less)
  have c: "65536 + k div 1024 * 1024 + k mod 1024 = c" using False by (simp add: k_def)
  have m: "k mod 1024 \<le> 1023" using mod_less_divisor [of 1024 k] by linarith
  show ?thesis using False k c by (simp add: utf16_char_def k_def [symmetric] m)
qed

lemma from_utf16_encode: "list_all scalar s \<Longrightarrow> from_utf16 (encode_utf16 s) = Some s"
  by (induction s) (simp_all add: encode_utf16_def from_utf16_char)

lemma utf16_small: "list_all scalar s \<Longrightarrow> \<forall>u \<in> set (encode_utf16 s). u < 65536"
proof (induction s)
  case (Cons c s)
  have "u < 65536" if "u \<in> set (utf16_char c)" for u
  proof (cases "c < 65536")
    case False
    have "(c - 65536) div 1024 < 1024" using Cons.prems False by (intro less_mult_imp_div_less) (auto simp: scalar_def)
    moreover have "(c - 65536) mod 1024 < 1024" by simp
    ultimately show ?thesis using that False by (simp add: utf16_char_def) linarith
  qed (use that in \<open>simp add: utf16_char_def\<close>)
  with Cons show ?case by (auto simp: encode_utf16_def)
qed (simp add: encode_utf16_def)

lemma le_units_units: "\<forall>u \<in> set us. u < 65536 \<Longrightarrow> le_units (units us) = us"
proof (induction us)
  case (Cons u us)
  obtain a b where ab: "le_bytes 2 u = [a, b]" using two_bytes length_le_bytes by metis
  have "le_val [a, b] = u" using le_val_le_bytes [of 2 u] Cons.prems by (simp add: ab)
  with Cons ab show ?case by (simp add: units_def)
qed (simp add: units_def)

lemma length_units [simp]: "length (units us) = 2 * length us"
  by (induction us) (simp_all add: units_def)

lemma units_text: "list_all scalar s \<Longrightarrow> from_utf16 (le_units (units (encode_utf16 s))) = Some s"
  by (simp add: le_units_units utf16_small from_utf16_encode)

lemma encode_utf16_Nil: "encode_utf16 s = [] \<longleftrightarrow> s = []"
  by (cases s) (auto simp: encode_utf16_def utf16_char_def)

lemma decode_text:
  assumes "s \<noteq> []" and "list_all scalar s" and "list_all sql_char s"
  shows "decode_tds_string (units (encode_utf16 s)) = s"
proof -
  have "0 < length (encode_utf16 s)" using assms(1) by (simp add: encode_utf16_Nil)
  then show ?thesis using assms units_text [OF assms(2)] by (simp add: decode_tds_string_def Let_def Suc_le_eq)
qed

subsection \<open>Sessions\<close>

definition language_packet :: "ustring \<Rightarrow> tds_packet" where
  "language_packet q = packet_new TDS_LANGUAGE (byte_of 0 # units (encode_utf16 q))"

definition text_ok :: "ustring \<Rightarrow> bool" where
  "text_ok q \<longleftrightarrow> q \<noteq> [] \<and> list_all scalar q \<and> list_all sql_char q \<and> length (encode_utf16 q) < 32764"

definition login_packet :: tds_packet where
  "login_packet = packet_new TDS_LOGIN []"

definition reply_packet :: "query_result \<Rightarrow> tds_packet" where
  "reply_packet r = packet_new TDS_REPLY (encode_query_result r)"

text \<open>The queries of a session one after the other, without a wire.\<close>

fun ask_all :: "'h query_handler \<Rightarrow> nat \<Rightarrow> ustring list \<Rightarrow> 'h \<Rightarrow> (query_result list \<times> 'h) option" where
  "ask_all H conn [] h = Some ([], h)"
| "ask_all H conn (q # qs) h =
     (case H conn q h of
        Some (Some r, h') \<Rightarrow> (case ask_all H conn qs h' of Some (rs, h'') \<Rightarrow> Some (r # rs, h'') | None \<Rightarrow> None)
      | _ \<Rightarrow> None)"

lemma packet_new_ok: "t < 256 \<Longrightarrow> packet_ok (packet_new t payload) \<longleftrightarrow> length payload \<le> 65527"
  by (simp add: packet_ok_def packet_new_def STATUS_EOM_def)

lemma language_packet_ok: "text_ok q \<Longrightarrow> packet_ok (language_packet q)"
  by (simp add: language_packet_def packet_new_ok TDS_LANGUAGE_def text_ok_def)

lemma command_language:
  assumes "text_ok q" and "H conn q h = Some (Some r, h')" and "packet_ok (reply_packet r)"
  shows "tds_command H conn (language_packet q) h = Some (Reply (packet_bytes (reply_packet r)) h')"
proof -
  have "language_sql (byte_of 0 # units (encode_utf16 q)) = q"
    using assms(1) decode_text [of q] encode_utf16_Nil [of q] by (simp add: language_sql_def text_ok_def)
  then show ?thesis
    using assms(2) write_ok [OF assms(3)]
    by (simp add: tds_command_def language_packet_def packet_new_def answer_sql_def reply_packet_def)
qed

lemma loop_answers:
  assumes "list_all text_ok qs" and "ask_all H conn qs h = Some (rs, h')" and "list_all (\<lambda>r. packet_ok (reply_packet r)) rs"
    and "read_tds_packet t = More"
  shows "tds_loop H conn (concat (map (\<lambda>q. packet_bytes (language_packet q)) qs) @ t) written h =
           Some (written @ concat (map (\<lambda>r. packet_bytes (reply_packet r)) rs), h')"
  using assms(1-3)
proof (induction qs arbitrary: rs written h)
  case Nil
  then show ?case using assms(4) by (subst tds_loop.simps) simp
next
  case (Cons q qs)
  then obtain r h1 rs1 where r: "H conn q h = Some (Some r, h1)" "ask_all H conn qs h1 = Some (rs1, h')" "rs = r # rs1"
    by (auto split: option.splits)
  have q: "text_ok q" using Cons.prems(1) by simp
  have "tds_command H conn (language_packet q) h = Some (Reply (packet_bytes (reply_packet r)) h1)"
    using command_language [of q H conn h r h1] q r Cons.prems(3) by simp
  with read_written [OF language_packet_ok [OF q]] Cons.IH [OF _ r(2)] Cons.prems r(3) show ?case
    by (subst tds_loop.simps) simp
qed

lemma login_reply_ok: "packet_ok (packet_new TDS_REPLY login_reply)"
  by (simp add: packet_new_ok TDS_REPLY_def login_reply_def encode_login_ack_def encode_env_change_db_def Let_def
      encode_utf16_def utf16_char_def)

text \<open>
  C36. A session over the wire is the sequence of its queries: after the login every text reaches the
  handler unchanged, and the bytes written are the login reply and the answers in order, each in one
  packet, whatever part of a further packet follows.
\<close>

theorem tds_session:
  assumes "list_all text_ok qs" and "ask_all H conn qs h = Some (rs, h')"
    and "list_all (\<lambda>r. packet_ok (reply_packet r)) rs"
    and "packet_ok p" and "strict_prefix t (packet_bytes p)"
  shows "run_connection H conn (packet_bytes login_packet @ concat (map (\<lambda>q. packet_bytes (language_packet q)) qs) @ t) h =
           Some (packet_bytes (packet_new TDS_REPLY login_reply) @ concat (map (\<lambda>r. packet_bytes (reply_packet r)) rs), h')"
proof -
  have "packet_ok login_packet" by (simp add: login_packet_def packet_new_ok TDS_LOGIN_def)
  from read_written [OF this]
  have "read_tds_packet (packet_bytes login_packet @ concat (map (\<lambda>q. packet_bytes (language_packet q)) qs) @ t) =
      Got login_packet (concat (map (\<lambda>q. packet_bytes (language_packet q)) qs) @ t)" .
  moreover have "pk_type login_packet = TDS_LOGIN" by (simp add: login_packet_def packet_new_def)
  ultimately show ?thesis
    using loop_answers [OF assms(1-3) tp.dec_part [OF assms(4,5)]] write_ok [OF login_reply_ok]
    by (simp add: run_connection_def)
qed

theorem tds_session_witness:
  "run_connection (handle_query still_env sample_backend ascii_exec 0) 2
     (packet_bytes login_packet @ packet_bytes (language_packet (chs ''COMMIT''))) (handler_new (with_path ''c'')) =
   Some (packet_bytes (packet_new TDS_REPLY login_reply) @ packet_bytes (reply_packet qr_ok), handler_after_commit)"
proof -
  have a: "list_all text_ok [chs ''COMMIT'']"
    by (simp add: text_ok_def scalar_def sql_char_def is_control_def encode_utf16_def utf16_char_def)
  have b: "ask_all (handle_query still_env sample_backend ascii_exec 0) 2 [chs ''COMMIT''] (handler_new (with_path ''c'')) =
      Some ([qr_ok], handler_after_commit)"
    by (simp only: ask_all.simps commit_answer option.case prod.case)
  have c: "list_all (\<lambda>r. packet_ok (reply_packet r)) [qr_ok]"
    by (simp add: reply_packet_def packet_new_ok TDS_REPLY_def encode_query_result_def encode_done_def qr_ok_def)
  have ok: "packet_ok login_packet" by (simp add: login_packet_def packet_new_ok TDS_LOGIN_def)
  have d: "strict_prefix [] (packet_bytes login_packet)" using tp.enc_pos [OF ok] by (simp add: strict_prefix_def)
  from tds_session [OF a b c ok d] show ?thesis by (simp only: list.map concat.simps append_Nil2)
qed

subsection \<open>Answers\<close>

text \<open>An answer that the encoding can carry: names of at most 255 units, values of less than 32768, as many
  values in a row as there are columns.\<close>

definition carries :: "nat \<Rightarrow> string \<Rightarrow> bool" where
  "carries n s \<longleftrightarrow> (\<exists>t. s = utf8 t \<and> list_all scalar t \<and> length (encode_utf16 t) < n)"

definition answer_ok :: "query_result \<Rightarrow> bool" where
  "answer_ok r \<longleftrightarrow>
     length (qr_columns r) < 65536 \<and> list_all (\<lambda>c. carries 256 (col_name c)) (qr_columns r) \<and>
     list_all (\<lambda>row. length row = length (qr_columns r) \<and> list_all (pred_option (carries 32768)) row) (qr_rows r) \<and>
     (qr_columns r = [] \<longrightarrow> qr_rows r = [])"

lemma scalar_below: "list_all scalar t \<Longrightarrow> list_all (\<lambda>c. c < 1114112) t"
  by (induction t) (auto simp: scalar_def)

lemma carries_units:
  assumes "carries n s"
  shows "le_units (units (encode_utf16 (code_points s))) = encode_utf16 (code_points s)"
    and "map_option utf8 (from_utf16 (encode_utf16 (code_points s))) = Some s"
    and "length (encode_utf16 (code_points s)) < n"
proof -
  obtain t where t: "s = utf8 t" "list_all scalar t" "length (encode_utf16 t) < n" using assms by (auto simp: carries_def)
  then have "code_points s = t" by (simp add: code_points_utf8 scalar_below)
  with t show "le_units (units (encode_utf16 (code_points s))) = encode_utf16 (code_points s)"
    "map_option utf8 (from_utf16 (encode_utf16 (code_points s))) = Some s" "length (encode_utf16 (code_points s)) < n"
    by (simp_all add: le_units_units utf16_small from_utf16_encode)
qed

lemma le_bytes_append_inj:
  assumes "le_bytes n x @ a = le_bytes n y @ b" and "x < 256 ^ n" and "y < 256 ^ n"
  shows "x = y \<and> a = b"
proof -
  have eq: "le_bytes n x = le_bytes n y" "a = b" using assms(1) by simp_all
  have "x mod 256 ^ n = y mod 256 ^ n" unfolding le_val_le_bytes [symmetric] eq(1) by (rule refl)
  with assms(2,3) eq(2) show ?thesis by simp
qed

lemma units_append_inj:
  assumes "units (encode_utf16 (code_points s)) @ a = units (encode_utf16 (code_points t)) @ b" and "carries n s" and "carries m t"
    and "length (encode_utf16 (code_points s)) = length (encode_utf16 (code_points t))"
  shows "s = t \<and> a = b"
proof -
  have eq: "units (encode_utf16 (code_points s)) = units (encode_utf16 (code_points t))" "a = b"
    using assms(1,4) by simp_all
  have same: "encode_utf16 (code_points s) = encode_utf16 (code_points t)"
    using arg_cong [OF eq(1), of le_units] unfolding carries_units(1) [OF assms(2)] carries_units(1) [OF assms(3)] .
  have "Some s = Some t"
    using carries_units(2) [OF assms(2)] unfolding same carries_units(2) [OF assms(3)] by (rule sym)
  with eq(2) show ?thesis by simp
qed

lemma null_marker: "le_bytes 4 (of_signed 32 (- 1)) = le_bytes 2 65535 @ le_bytes 2 65535"
  by code_simp

lemma even_not_marker: "k < 32768 \<Longrightarrow> le_bytes 2 (k * 2) @ x \<noteq> le_bytes 2 65535 @ y"
proof
  assume "k < 32768" "le_bytes 2 (k * 2) @ x = le_bytes 2 65535 @ y"
  then have "k * 2 = 65535" using le_bytes_append_inj [of 2 "k * 2" x 65535 y] by simp
  then show False by presburger
qed

lemma encode_some: "carries 32768 s \<Longrightarrow>
  encode_value (Some s) = le_bytes 2 (length (encode_utf16 (code_points s)) * 2) @ units (encode_utf16 (code_points s))"
  using carries_units(3) [of 32768 s] by (simp add: encode_value_def Let_def)

lemma encode_none: "encode_value None = le_bytes 2 65535 @ le_bytes 2 65535"
  by (simp add: encode_value_def null_marker)

lemma value_prefix_free:
  assumes "encode_value v @ a = encode_value w @ b" and "pred_option (carries 32768) v" and "pred_option (carries 32768) w"
  shows "v = w \<and> a = b"
proof (cases v)
  case None
  then show ?thesis
  proof (cases w)
    case (Some t)
    then have t: "carries 32768 t" using assms(3) by simp
    have "le_bytes 2 65535 @ (le_bytes 2 65535 @ a) = le_bytes 2 (length (encode_utf16 (code_points t)) * 2) @ (units (encode_utf16 (code_points t)) @ b)"
      using assms(1) unfolding None Some encode_some [OF t] encode_none append_assoc .
    then show ?thesis using even_not_marker [OF carries_units(3) [OF t]] by (metis (full_types))
  qed (use assms in \<open>simp add: encode_value_def\<close>)
next
  case (Some s)
  then have s: "carries 32768 s" using assms(2) by simp
  show ?thesis
  proof (cases w)
    case None
    have "le_bytes 2 (length (encode_utf16 (code_points s)) * 2) @ (units (encode_utf16 (code_points s)) @ a) = le_bytes 2 65535 @ (le_bytes 2 65535 @ b)"
      using assms(1) unfolding None Some encode_some [OF s] encode_none append_assoc .
    then show ?thesis using even_not_marker [OF carries_units(3) [OF s]] by (metis (full_types))
  next
    case (Some t)
    then have t: "carries 32768 t" using assms(3) by simp
    have eq: "le_bytes 2 (length (encode_utf16 (code_points s)) * 2) @ units (encode_utf16 (code_points s)) @ a =
        le_bytes 2 (length (encode_utf16 (code_points t)) * 2) @ units (encode_utf16 (code_points t)) @ b"
      using assms(1) unfolding \<open>v = Some s\<close> Some encode_some [OF s] encode_some [OF t] append_assoc .
    from le_bytes_append_inj [OF eq] carries_units(3) [OF s] carries_units(3) [OF t]
    have "length (encode_utf16 (code_points s)) = length (encode_utf16 (code_points t))"
      "units (encode_utf16 (code_points s)) @ a = units (encode_utf16 (code_points t)) @ b" by simp_all
    from units_append_inj [OF this(2) s t this(1)] show ?thesis unfolding \<open>v = Some s\<close> Some by simp
  qed
qed

lemma values_prefix_free:
  assumes "length vs = length ws" and "concat (map encode_value vs) @ a = concat (map encode_value ws) @ b"
    and "list_all (pred_option (carries 32768)) vs" and "list_all (pred_option (carries 32768)) ws"
  shows "vs = ws \<and> a = b"
  using assms
proof (induction vs ws rule: list_induct2)
  case (Cons v vs w ws)
  then have "encode_value v @ (concat (map encode_value vs) @ a) = encode_value w @ (concat (map encode_value ws) @ b)" by simp
  from value_prefix_free [OF this] Cons show ?case by simp
qed simp

lemma rows_determined:
  assumes "concat (map encode_row rows) @ encode_done n 16 = concat (map encode_row rows') @ encode_done m 16"
    and "list_all (\<lambda>row. length row = k \<and> list_all (pred_option (carries 32768)) row) rows"
    and "list_all (\<lambda>row. length row = k \<and> list_all (pred_option (carries 32768)) row) rows'"
  shows "rows = rows'"
  using assms
proof (induction rows arbitrary: rows')
  case Nil
  then show ?case by (cases rows') (auto simp: encode_done_def encode_row_def)
next
  case (Cons row rows)
  show ?case
  proof (cases rows')
    case (Cons row' behind)
    with Cons.prems have "concat (map encode_value row) @ (concat (map encode_row rows) @ encode_done n 16) =
        concat (map encode_value row') @ (concat (map encode_row behind) @ encode_done m 16)"
      by (simp add: encode_row_def [of row] encode_row_def [of row'])
    from values_prefix_free [OF _ this] Cons.prems Cons Cons.IH [of behind] show ?thesis by simp
  qed (use Cons.prems in \<open>simp add: encode_done_def encode_row_def\<close>)
qed

definition tds_column :: "column_def \<Rightarrow> tds_column_def" where
  "tds_column c = \<lparr>tc_name = code_points (col_name c), tc_tds_type = TDS_TYPE_VARCHAR, tc_max_length = 8000\<rparr>"

lemma column_prefix_free:
  assumes "encode_column (tds_column c) @ a = encode_column (tds_column d) @ b"
    and "carries 256 (col_name c)" and "carries 256 (col_name d)"
  shows "col_name c = col_name d \<and> a = b"
proof -
  define behind where "behind = [byte_of 1] @ [byte_of TDS_TYPE_VARCHAR] @ le_bytes 2 8000"
  have enc: "encode_column (tds_column c) = le_bytes 1 (length (encode_utf16 (code_points (col_name c)))) @ units (encode_utf16 (code_points (col_name c))) @ behind"
    if "carries 256 (col_name c)" for c
    using carries_units(3) [OF that] by (simp add: encode_column_def tds_column_def Let_def behind_def min_def)
  from assms(1) have "le_bytes 1 (length (encode_utf16 (code_points (col_name c)))) @ units (encode_utf16 (code_points (col_name c))) @ (behind @ a) =
      le_bytes 1 (length (encode_utf16 (code_points (col_name d)))) @ units (encode_utf16 (code_points (col_name d))) @ (behind @ b)"
    using enc [OF assms(2)] enc [OF assms(3)] by simp
  from le_bytes_append_inj [OF this] carries_units(3) [OF assms(2)] carries_units(3) [OF assms(3)]
  have "length (encode_utf16 (code_points (col_name c))) = length (encode_utf16 (code_points (col_name d)))"
    "units (encode_utf16 (code_points (col_name c))) @ (behind @ a) = units (encode_utf16 (code_points (col_name d))) @ (behind @ b)" by simp_all
  from units_append_inj [OF this(2) assms(2,3) this(1)] show ?thesis by simp
qed

lemma columns_prefix_free:
  assumes "length cs = length ds"
    and "concat (map (\<lambda>c. encode_column (tds_column c)) cs) @ a = concat (map (\<lambda>c. encode_column (tds_column c)) ds) @ b"
    and "list_all (\<lambda>c. carries 256 (col_name c)) cs" and "list_all (\<lambda>c. carries 256 (col_name c)) ds"
  shows "map col_name cs = map col_name ds \<and> a = b"
  using assms
proof (induction cs ds rule: list_induct2)
  case (Cons c cs d ds)
  then have "encode_column (tds_column c) @ (concat (map (\<lambda>c. encode_column (tds_column c)) cs) @ a) =
      encode_column (tds_column d) @ (concat (map (\<lambda>c. encode_column (tds_column c)) ds) @ b)" by simp
  from column_prefix_free [OF this] Cons show ?case by simp
qed simp

lemma encode_query_result_eq:
  "encode_query_result r =
     (if qr_columns r \<noteq> [] then [CHR 0x81] @ le_bytes 2 (length (qr_columns r)) @ concat (map (\<lambda>c. encode_column (tds_column c)) (qr_columns r)) @
        concat (map encode_row (qr_rows r)) else []) @ encode_done (length (qr_rows r)) 16"
  by (simp add: encode_query_result_def encode_colmetadata_def tds_column_def comp_def)

text \<open>The bytes are read from the front: number and names of the columns, then the rows.\<close>

lemma reply_injective:
  assumes "answer_ok r" and "answer_ok r'" and "encode_query_result r = encode_query_result r'"
  shows "map col_name (qr_columns r) = map col_name (qr_columns r') \<and> qr_rows r = qr_rows r'"
proof (cases "qr_columns r = []")
  case True
  then have "qr_columns r' = []" using assms(3) by (simp add: encode_query_result_eq encode_done_def split: if_splits)
  then show ?thesis using True assms(1,2) by (simp add: answer_ok_def)
next
  case False
  then have ne: "qr_columns r' \<noteq> []" using assms(3) by (auto simp: encode_query_result_eq encode_done_def split: if_splits)
  have "le_bytes 2 (length (qr_columns r)) @ (concat (map (\<lambda>c. encode_column (tds_column c)) (qr_columns r)) @ concat (map encode_row (qr_rows r)) @ encode_done (length (qr_rows r)) 16) =
      le_bytes 2 (length (qr_columns r')) @ (concat (map (\<lambda>c. encode_column (tds_column c)) (qr_columns r')) @ concat (map encode_row (qr_rows r')) @ encode_done (length (qr_rows r')) 16)"
    using assms(3) False ne by (simp add: encode_query_result_eq)
  from le_bytes_append_inj [OF this] assms(1,2)
  have len: "length (qr_columns r) = length (qr_columns r')"
    and cols: "concat (map (\<lambda>c. encode_column (tds_column c)) (qr_columns r)) @ (concat (map encode_row (qr_rows r)) @ encode_done (length (qr_rows r)) 16) =
      concat (map (\<lambda>c. encode_column (tds_column c)) (qr_columns r')) @ (concat (map encode_row (qr_rows r')) @ encode_done (length (qr_rows r')) 16)"
    by (simp_all add: answer_ok_def)
  from columns_prefix_free [OF len cols] assms(1,2)
  have names: "map col_name (qr_columns r) = map col_name (qr_columns r')"
    and rows: "concat (map encode_row (qr_rows r)) @ encode_done (length (qr_rows r)) 16 = concat (map encode_row (qr_rows r')) @ encode_done (length (qr_rows r')) 16"
    by (simp_all add: answer_ok_def)
  have "qr_rows r = qr_rows r'"
    using rows_determined [OF rows, of "length (qr_columns r)"] assms(1,2) len by (simp add: answer_ok_def)
  with names show ?thesis by simp
qed

text \<open>
  C37. Different answers are different on the wire: the bytes of an answer determine the names of its
  columns and all its values, and NULL is not confused with any text.
\<close>

theorem reply_determines_answer:
  assumes "answer_ok r" and "answer_ok r'"
  shows "encode_query_result r = encode_query_result r' \<longleftrightarrow>
           map col_name (qr_columns r) = map col_name (qr_columns r') \<and> qr_rows r = qr_rows r'"
proof
  have names: "map (\<lambda>c. encode_column (tds_column c)) cs =
      map (\<lambda>n. encode_column \<lparr>tc_name = code_points n, tc_tds_type = TDS_TYPE_VARCHAR, tc_max_length = 8000\<rparr>) (map col_name cs)" for cs
    by (simp add: tds_column_def)
  assume same: "map col_name (qr_columns r) = map col_name (qr_columns r') \<and> qr_rows r = qr_rows r'"
  then have "length (qr_columns r) = length (qr_columns r')" by (metis length_map)
  moreover from this have "qr_columns r = [] \<longleftrightarrow> qr_columns r' = []" by auto
  ultimately show "encode_query_result r = encode_query_result r'"
    using same unfolding encode_query_result_eq names by simp
qed (use reply_injective [OF assms] in simp)

definition one_value :: "string option \<Rightarrow> query_result" where
  "one_value v = with_rows [text_col ''a''] [[v]]"

lemma one_value_ok: "answer_ok (one_value None)" "answer_ok (one_value (Some []))"
proof -
  have "''a'' = utf8 (chs ''a'')" and "length (encode_utf16 (chs ''a'')) < 256" by code_simp+
  moreover have "list_all scalar (chs ''a'')" by (simp add: scalar_def)
  ultimately have "carries 256 ''a''" unfolding carries_def by blast
  moreover have "carries 32768 []"
    unfolding carries_def by (rule exI [of _ "[]"]) (simp add: encode_utf16_def)
  ultimately show "answer_ok (one_value None)" "answer_ok (one_value (Some []))"
    by (simp_all add: answer_ok_def one_value_def with_rows_def)
qed

theorem reply_determines_answer_witness: "encode_query_result (one_value None) \<noteq> encode_query_result (one_value (Some []))"
  using reply_determines_answer [OF one_value_ok] by (simp add: one_value_def with_rows_def)

text \<open>The length field of a token counts the bytes that follow it.\<close>

lemma token_lengths:
  "2 * length (encode_utf16 m) + 2 * length (encode_utf16 s) < 65520 \<Longrightarrow>
     le_val (take 2 (tl (encode_error n st sev m s))) = length (encode_error n st sev m s) - 3"
  "2 * length (encode_utf16 m) < 65520 \<Longrightarrow> le_val (take 2 (tl (encode_info n st sev m))) = length (encode_info n st sev m) - 3"
  "2 * length (encode_utf16 m) < 65520 \<Longrightarrow> le_val (take 2 (tl (encode_env_change_db m))) = length (encode_env_change_db m) - 3"
  by (simp_all add: encode_error_def encode_info_def encode_env_change_db_def Let_def le_val_le_bytes)

subsection \<open>Where the front end falls short\<close>

text \<open>The flag that ends a message is never looked at: every packet is taken for a whole request.\<close>

lemma end_of_message_ignored: "tds_command H conn (p\<lparr>pk_status := st\<rparr>) h = tds_command H conn p h"
  by (simp add: tds_command_def)

text \<open>An answer that does not fit one packet ends the connection.\<close>

lemma large_answer_hangs_up:
  assumes "H conn sql h = Some (Some r, h')" and "65527 < length (encode_query_result r)"
  shows "answer_sql H conn sql h = Some (Hangup h')"
  using assms by (simp add: answer_sql_def write_tds_packet_def packet_new_def)

text \<open>A text in single bytes is taken for UTF-16 when its length is even.\<close>

lemma single_byte_text_misread: "decode_tds_string ''SELECT 1'' = [17747, 17740, 21571, 12576]"
  by code_simp

subsection \<open>The number of connections\<close>

inductive tds_open :: "tds_server_config \<Rightarrow> tds_server \<Rightarrow> nat list \<Rightarrow> bool" for config where
  tds_start: "tds_open config (tds_server_new config) []"
| tds_accepted: "tds_open config s conns \<Longrightarrow> tds_accept s = (Some c, s') \<Longrightarrow> tds_open config s' (c # conns)"
| tds_rejected: "tds_open config s conns \<Longrightarrow> tds_accept s = (None, s') \<Longrightarrow> tds_open config s' conns"
| tds_closed: "tds_open config s conns \<Longrightarrow> c \<in> set conns \<Longrightarrow> tds_open config (tds_release s) (remove1 c conns)"

lemma tds_connection_limit: "tds_open config s conns \<Longrightarrow> length conns + tsv_permits s = tsc_max_connections config"
proof (induction rule: tds_open.induct)
  case (tds_closed s conns c)
  have "Suc (length (remove1 c conns)) = length conns"
    using tds_closed(2) length_pos_if_in_set [of c conns] by (simp add: length_remove1)
  with tds_closed(3) show ?case by (simp add: tds_release_def)
qed (auto simp: tds_server_new_def tds_accept_def split: if_splits)

end
