(* ===== verification/Influx.thy ===== *)
theory Influx
  imports Rust_Std Utf8 "HOL-Library.AList" "HOL-Library.Multiset"
begin

section \<open>The InfluxDB front end (crates/influxdb-protocol)\<close>

text \<open>
  The line protocol (line_protocol.rs), the store of time series (storage.rs) and the commands
  (handler.rs). Strings are UTF-8 bytes. A hash map is an association list; the order in which it is
  iterated, the clock and the f64 texts are in \<open>influx_lib\<close>. A backslash takes the whole character behind
  it with it. \<open>handle_request\<close> routes a request whose parameters the package url has decoded.
\<close>

datatype 'f field_value = FloatValue 'f | IntegerValue int | StringValue string | BooleanValue bool

record 'f ts_point =
  ts_timestamp :: int
  ts_fields :: "(string \<times> 'f field_value) list"
  ts_tags :: "(string \<times> string) list"

record 'f influx_lib =
  il_upper :: "string \<Rightarrow> string"
  il_parse_f64 :: "string \<Rightarrow> 'f option"
  il_show_f64 :: "'f \<Rightarrow> string"
  il_now :: "nat \<Rightarrow> int"
  il_tag_order :: "(string \<times> string) list \<Rightarrow> (string \<times> string) list"
  il_field_order :: "(string \<times> 'f field_value) list \<Rightarrow> (string \<times> 'f field_value) list"
  il_point_order :: "(string \<times> 'f ts_point) list \<Rightarrow> (string \<times> 'f ts_point) list"
  il_name_order :: "string list \<Rightarrow> string list"

subsection \<open>Text\<close>

function all_ws :: "string \<Rightarrow> bool" where
  "all_ws s = (if s = [] then True else if ws_head s = 0 then False else all_ws (drop (ws_head s) s))"
  by pat_completeness auto
termination
  by (relation "measure length") auto

declare all_ws.simps [simp del]

function trim_start :: "string \<Rightarrow> string" where
  "trim_start s = (if s = [] \<or> ws_head s = 0 then s else trim_start (drop (ws_head s) s))"
  by pat_completeness auto
termination
  by (relation "measure length") auto

declare trim_start.simps [simp del]

fun trim_end :: "string \<Rightarrow> string" where
  "trim_end [] = []"
| "trim_end (c # cs) = (if all_ws (c # cs) then [] else c # trim_end cs)"

definition trim :: "string \<Rightarrow> string" where
  "trim s = trim_end (trim_start s)"

definition backslash :: char where "backslash = CHR 0x5C"
definition quote :: char where "quote = CHR 0x22"

subsection \<open>The line protocol\<close>

record 'f influx_point =
  pt_measurement :: string
  pt_tags :: "(string \<times> string) list"
  pt_fields :: "(string \<times> 'f field_value) list"
  pt_timestamp :: "int option"

fun next_unescaped_space :: "string \<Rightarrow> nat option" where
  "next_unescaped_space [] = None"
| "next_unescaped_space [c] = (if c = backslash then None else if c = CHR '' '' then Some 0 else None)"
| "next_unescaped_space (c # d # cs) =
     (if c = backslash then map_option (\<lambda>i. i + 2) (next_unescaped_space cs)
      else if c = CHR '' '' then Some 0
      else map_option Suc (next_unescaped_space (d # cs)))"

fun field_timestamp_boundary :: "bool \<Rightarrow> string \<Rightarrow> nat option" where
  "field_timestamp_boundary in_string [] = None"
| "field_timestamp_boundary in_string [c] = (if c = CHR '' '' \<and> \<not> in_string then Some 0 else None)"
| "field_timestamp_boundary in_string (c # d # cs) =
     (if c = backslash then map_option (\<lambda>i. i + 2) (field_timestamp_boundary in_string cs)
      else if c = quote then map_option Suc (field_timestamp_boundary (\<not> in_string) (d # cs))
      else if c = CHR '' '' \<and> \<not> in_string then Some 0
      else map_option Suc (field_timestamp_boundary in_string (d # cs)))"

definition find_field_timestamp_boundary :: "string \<Rightarrow> nat option" where
  "find_field_timestamp_boundary s = field_timestamp_boundary False s"

text \<open>The character behind a backslash.\<close>

definition escaped :: "string \<Rightarrow> string" where
  "escaped cs = take (head_width cs) cs"

function next_unescaped_char :: "char \<Rightarrow> string \<Rightarrow> nat option" where
  "next_unescaped_char k s =
     (case s of
        [] \<Rightarrow> None
      | c # cs \<Rightarrow>
          if c = backslash then map_option (\<lambda>i. i + 1 + length (escaped cs)) (next_unescaped_char k (drop (head_width cs) cs))
          else if c = k then Some 0
          else map_option Suc (next_unescaped_char k cs))"
  by pat_completeness auto
termination
  by (relation "measure (\<lambda>(k, s). length s)") auto

function split_unescaped :: "char \<Rightarrow> string \<Rightarrow> string \<Rightarrow> string list" where
  "split_unescaped delim cur s =
     (case s of
        [] \<Rightarrow> [cur]
      | c # cs \<Rightarrow>
          if c = backslash then split_unescaped delim (cur @ [c] @ escaped cs) (drop (head_width cs) cs)
          else if c = delim then cur # split_unescaped delim [] cs
          else split_unescaped delim (cur @ [c]) cs)"
  by pat_completeness auto
termination
  by (relation "measure (\<lambda>(delim, cur, s). length s)") auto

definition split_on_unescaped :: "string \<Rightarrow> char \<Rightarrow> string list" where
  "split_on_unescaped s delim = split_unescaped delim [] s"

function split_fields_from :: "bool \<Rightarrow> string \<Rightarrow> string \<Rightarrow> string list" where
  "split_fields_from in_string cur s =
     (case s of
        [] \<Rightarrow> [cur]
      | c # cs \<Rightarrow>
          if c = backslash then split_fields_from in_string (cur @ [c] @ escaped cs) (drop (head_width cs) cs)
          else if c = quote then split_fields_from (\<not> in_string) (cur @ [c]) cs
          else if c = CHR '','' \<and> \<not> in_string then cur # split_fields_from in_string [] cs
          else split_fields_from in_string (cur @ [c]) cs)"
  by pat_completeness auto
termination
  by (relation "measure (\<lambda>(in_string, cur, s). length s)") auto

definition split_fields :: "string \<Rightarrow> string list" where
  "split_fields s = split_fields_from False [] s"

function unescape_tag :: "string \<Rightarrow> string" where
  "unescape_tag s =
     (case s of
        [] \<Rightarrow> []
      | c # cs \<Rightarrow> if c = backslash then escaped cs @ unescape_tag (drop (head_width cs) cs) else c # unescape_tag cs)"
  by pat_completeness auto
termination
  by (relation "measure length") auto

declare next_unescaped_char.simps [simp del] split_unescaped.simps [simp del] split_fields_from.simps [simp del] unescape_tag.simps [simp del]

definition unescape_measurement :: "string \<Rightarrow> string" where
  "unescape_measurement s = unescape_tag s"

definition unescape_field_key :: "string \<Rightarrow> string" where
  "unescape_field_key s = unescape_tag s"

fun unquote :: "string \<Rightarrow> string" where
  "unquote [] = []"
| "unquote [c] = [c]"
| "unquote (c # d # cs) = (if c = backslash \<and> d = quote then quote # unquote cs else c # unquote (d # cs))"

definition parse_field_value :: "'f influx_lib \<Rightarrow> string \<Rightarrow> 'f field_value option" where
  "parse_field_value L s =
     (if s = [] then None
      else if s \<in> set [''t'', ''T'', ''true'', ''True'', ''TRUE''] then Some (BooleanValue True)
      else if s \<in> set [''f'', ''F'', ''false'', ''False'', ''FALSE''] then Some (BooleanValue False)
      else if hd s = quote \<and> last s = quote \<and> 2 \<le> length s then Some (StringValue (unquote (butlast (tl s))))
      else case (if last s = CHR ''i'' then parse_i64 (butlast s) else None) of
          Some n \<Rightarrow> Some (IntegerValue n)
        | None \<Rightarrow> map_option FloatValue (il_parse_f64 L s))"

definition add_tag :: "string \<Rightarrow> (string \<times> string) list \<Rightarrow> (string \<times> string) list" where
  "add_tag part tags =
     (case next_unescaped_char (CHR ''='') part of
        Some i \<Rightarrow> AList.update (unescape_tag (take i part)) (unescape_tag (drop (i + 1) part)) tags
      | None \<Rightarrow> tags)"

definition parse_measurement_tags :: "string \<Rightarrow> (string \<times> (string \<times> string) list) option" where
  "parse_measurement_tags s =
     (case split_on_unescaped s (CHR '','') of
        [] \<Rightarrow> None
      | m # parts \<Rightarrow> Some (unescape_measurement m, fold add_tag parts []))"

fun parse_fields :: "'f influx_lib \<Rightarrow> string list \<Rightarrow> (string \<times> 'f field_value) list \<Rightarrow> (string \<times> 'f field_value) list option" where
  "parse_fields L [] fs = Some fs"
| "parse_fields L (part # parts) fs =
     (case next_unescaped_char (CHR ''='') part of
        Some i \<Rightarrow>
          (case parse_field_value L (drop (i + 1) part) of
             None \<Rightarrow> None
           | Some v \<Rightarrow> parse_fields L parts (AList.update (unescape_field_key (take i part)) v fs))
      | None \<Rightarrow> parse_fields L parts fs)"

definition parse_fields_timestamp :: "'f influx_lib \<Rightarrow> string \<Rightarrow> ((string \<times> 'f field_value) list \<times> int option) option" where
  "parse_fields_timestamp L s =
     (let (fields_str, timestamp) =
        (case find_field_timestamp_boundary s of
           Some i \<Rightarrow> (take i s, parse_i64 (trim (drop (i + 1) s)))
         | None \<Rightarrow> (s, None))
      in map_option (\<lambda>fs. (fs, timestamp)) (parse_fields L (split_fields fields_str) []))"

definition parse_line_protocol :: "'f influx_lib \<Rightarrow> string \<Rightarrow> 'f influx_point option" where
  "parse_line_protocol L text =
     (let line = trim text
      in if line = [] \<or> hd line = CHR ''#'' then None
         else case next_unescaped_space line of
             None \<Rightarrow> None
           | Some i \<Rightarrow>
               (case parse_measurement_tags (take i line) of
                  None \<Rightarrow> None
                | Some (measurement, tags) \<Rightarrow>
                    (case parse_fields_timestamp L (drop (i + 1) line) of
                       None \<Rightarrow> None
                     | Some (fs, timestamp) \<Rightarrow>
                         Some \<lparr>pt_measurement = measurement, pt_tags = tags, pt_fields = fs, pt_timestamp = timestamp\<rparr>)))"

fun join_with :: "string \<Rightarrow> string list \<Rightarrow> string" where
  "join_with sep [] = []"
| "join_with sep [s] = s"
| "join_with sep (s # t # ss) = s @ sep @ join_with sep (t # ss)"

definition format_field :: "'f influx_lib \<Rightarrow> string \<times> 'f field_value \<Rightarrow> string" where
  "format_field L f =
     (case f of (k, v) \<Rightarrow> k @ ''='' @
        (case v of
           FloatValue x \<Rightarrow> il_show_f64 L x
         | IntegerValue n \<Rightarrow> show_int n @ ''i''
         | StringValue s \<Rightarrow> [quote] @ s @ [quote]
         | BooleanValue b \<Rightarrow> if b then ''t'' else ''f''))"

definition format_tag :: "string \<times> string \<Rightarrow> string" where
  "format_tag t = (case t of (k, v) \<Rightarrow> k @ ''='' @ v)"

definition format_point :: "'f influx_lib \<Rightarrow> 'f influx_point \<Rightarrow> string" where
  "format_point L p =
     pt_measurement p @ (if pt_tags p \<noteq> [] then '','' @ join_with '','' (map format_tag (il_tag_order L (pt_tags p))) else []) @ '' '' @
     join_with '','' (map (format_field L) (il_field_order L (pt_fields p))) @
     (case pt_timestamp p of Some ts \<Rightarrow> '' '' @ show_int ts | None \<Rightarrow> [])"

definition format_line_protocol :: "'f influx_lib \<Rightarrow> 'f influx_point list \<Rightarrow> string" where
  "format_line_protocol L points = join_with [CHR 0x0A] (map (format_point L) points)"

subsection \<open>The store\<close>

record 'f measurement =
  ms_points :: "(string \<times> 'f ts_point) list"
  ms_counter :: nat

definition measurement_new :: "'f measurement" where
  "measurement_new = \<lparr>ms_points = [], ms_counter = 0\<rparr>"

fun nibbles :: "nat \<Rightarrow> nat \<Rightarrow> nat list" where
  "nibbles 0 x = []"
| "nibbles (Suc n) x = nibbles n (x div 16) @ [x mod 16]"

definition hex_digit :: "nat \<Rightarrow> char" where
  "hex_digit d = char_of (if d < 10 then 48 + d else 87 + d)"

definition point_key :: "int \<Rightarrow> nat \<Rightarrow> string" where
  "point_key timestamp seq = show_int timestamp @ ''_'' @ map hex_digit (nibbles 16 seq)"

text \<open>A point without time stamp reads the clock; \<open>n\<close> counts the readings.\<close>

definition ms_write :: "'f influx_lib \<Rightarrow> 'f influx_point \<Rightarrow> 'f measurement \<times> nat \<Rightarrow> 'f measurement \<times> nat" where
  "ms_write L p s =
     (case s of (m, n) \<Rightarrow>
        let (timestamp, n) = (case pt_timestamp p of Some t \<Rightarrow> (t, n) | None \<Rightarrow> (il_now L n, n + 1));
            key = point_key timestamp (ms_counter m)
        in (m\<lparr>ms_counter := (ms_counter m + 1) mod 2 ^ 64,
               ms_points := AList.update key \<lparr>ts_timestamp = timestamp, ts_fields = pt_fields p, ts_tags = pt_tags p\<rparr> (ms_points m)\<rparr>, n))"

definition in_window :: "int option \<Rightarrow> int option \<Rightarrow> 'f ts_point \<Rightarrow> bool" where
  "in_window start stop p \<longleftrightarrow>
     (case start of Some s \<Rightarrow> s \<le> ts_timestamp p | None \<Rightarrow> True) \<and> (case stop of Some e \<Rightarrow> ts_timestamp p \<le> e | None \<Rightarrow> True)"

definition ms_query :: "'f influx_lib \<Rightarrow> int option \<Rightarrow> int option \<Rightarrow> 'f measurement \<Rightarrow> 'f ts_point list" where
  "ms_query L start stop m =
     sort_key ts_timestamp (map snd (filter (\<lambda>(k, p). in_window start stop p) (il_point_order L (ms_points m))))"

definition ms_count :: "'f measurement \<Rightarrow> nat" where
  "ms_count m = length (ms_points m)"

type_synonym 'f influx_db = "(string \<times> 'f measurement) list"
type_synonym 'f influx_storage = "(string \<times> 'f influx_db) list"

definition get_measurement :: "string \<Rightarrow> 'f influx_db \<Rightarrow> 'f measurement \<times> 'f influx_db" where
  "get_measurement name db =
     (case map_of db name of Some m \<Rightarrow> (m, db) | None \<Rightarrow> (measurement_new, AList.update name measurement_new db))"

definition list_measurements :: "'f influx_lib \<Rightarrow> 'f influx_db \<Rightarrow> string list" where
  "list_measurements L db = il_name_order L (map fst db)"

definition drop_measurement :: "string \<Rightarrow> 'f influx_db \<Rightarrow> bool \<times> 'f influx_db" where
  "drop_measurement name db = (map_of db name \<noteq> None, AList.delete name db)"

definition get_influx_database :: "string \<Rightarrow> 'f influx_storage \<Rightarrow> 'f influx_db \<times> 'f influx_storage" where
  "get_influx_database name st =
     (case map_of st name of Some db \<Rightarrow> (db, st) | None \<Rightarrow> ([], AList.update name [] st))"

definition list_influx_databases :: "'f influx_lib \<Rightarrow> 'f influx_storage \<Rightarrow> string list" where
  "list_influx_databases L st = il_name_order L (map fst st)"

definition create_influx_database :: "string \<Rightarrow> 'f influx_storage \<Rightarrow> 'f influx_storage" where
  "create_influx_database name st = (if map_of st name = None then AList.update name [] st else st)"

definition drop_influx_database :: "string \<Rightarrow> 'f influx_storage \<Rightarrow> bool \<times> 'f influx_storage" where
  "drop_influx_database name st = (map_of st name \<noteq> None, AList.delete name st)"

subsection \<open>Commands\<close>

text \<open>The lines of a body, without the line feed and one carriage return before it.\<close>

fun split_lines :: "string \<Rightarrow> string \<Rightarrow> string list" where
  "split_lines cur [] = (if cur = [] then [] else [cur])"
| "split_lines cur (c # cs) =
     (if c = CHR 0x0A then (if cur \<noteq> [] \<and> last cur = CHR 0x0D then butlast cur else cur) # split_lines [] cs
      else split_lines (cur @ [c]) cs)"

definition put_measurement :: "string \<Rightarrow> string \<Rightarrow> 'f measurement \<Rightarrow> 'f influx_storage \<Rightarrow> 'f influx_storage" where
  "put_measurement database name m st =
     AList.update database (AList.update name m (fst (get_influx_database database st))) st"

definition write_line :: "'f influx_lib \<Rightarrow> string \<Rightarrow> string \<Rightarrow> 'f influx_storage \<times> nat \<Rightarrow> 'f influx_storage \<times> nat" where
  "write_line L database line s =
     (case s of (st, n) \<Rightarrow>
        if trim line = [] then (st, n)
        else case parse_line_protocol L line of
            None \<Rightarrow> (st, n)
          | Some p \<Rightarrow>
              (let (m, n') = ms_write L p (fst (get_measurement (pt_measurement p) (fst (get_influx_database database st))), n)
               in (put_measurement database (pt_measurement p) m st, n')))"

definition handle_write :: "'f influx_lib \<Rightarrow> string \<Rightarrow> string \<Rightarrow> 'f influx_storage \<times> nat \<Rightarrow> 'f influx_storage \<times> nat" where
  "handle_write L database body s =
     (case s of (st, n) \<Rightarrow> fold (write_line L database) (split_lines [] body) (snd (get_influx_database database st), n))"

fun find_text :: "string \<Rightarrow> string \<Rightarrow> nat option" where
  "find_text w [] = (if w = [] then Some 0 else None)"
| "find_text w (c # cs) = (if take (length w) (c # cs) = w then Some 0 else map_option Suc (find_text w cs))"

text \<open>A slice from a byte index on panics beyond the end and inside a character.\<close>

definition slice_from :: "nat \<Rightarrow> string \<Rightarrow> string option" where
  "slice_from i s = (if i < length s \<and> \<not> is_cont (s ! i) \<or> i = length s then Some (drop i s) else None)"

definition starts_with :: "string \<Rightarrow> string \<Rightarrow> bool" where
  "starts_with w s \<longleftrightarrow> take (length w) s = w"

definition format_ts_point :: "'f influx_lib \<Rightarrow> string \<Rightarrow> 'f ts_point \<Rightarrow> string" where
  "format_ts_point L name p =
     name @ (if ts_tags p \<noteq> [] then '','' @ join_with '','' (map format_tag (il_tag_order L (ts_tags p))) else []) @ '' '' @
     join_with '','' (map (format_field L) (il_field_order L (ts_fields p))) @ '' '' @ show_int (ts_timestamp p)"

definition listing :: "string list \<Rightarrow> string" where
  "listing names = ''results:'' @ [CHR 0x0A] @ join_with [CHR 0x0A] (map (\<lambda>n. ''name: '' @ n) names)"

definition select_points :: "'f influx_lib \<Rightarrow> string \<Rightarrow> string \<Rightarrow> 'f influx_storage \<Rightarrow> string \<times> 'f influx_storage" where
  "select_points L database name st =
     (let m = fst (get_measurement name (fst (get_influx_database database st)))
      in (join_with [CHR 0x0A] (map (format_ts_point L name) (ms_query L None None m)), put_measurement database name m st))"

text \<open>The answer of a query is \<open>None\<close> when a slice panics; the database has been looked up by then only
  if the slice behind FROM was taken.\<close>

definition handle_influx_query :: "'f influx_lib \<Rightarrow> string \<Rightarrow> string \<Rightarrow> 'f influx_storage \<Rightarrow> string option \<times> 'f influx_storage" where
  "handle_influx_query L database text st =
     (let query = rev (dropWhile (\<lambda>c. c = CHR '';'') (rev (trim text)));
          upper = to_uppercase (il_upper L) query;
          words = split_whitespace query;
          unsupported = (Some ''Error: Unsupported query'', st)
      in if starts_with ''SHOW DATABASES'' upper then (Some (listing (list_influx_databases L st)), st)
         else if starts_with ''SHOW MEASUREMENTS'' upper then
           (Some (listing (list_measurements L (fst (get_influx_database database st)))), snd (get_influx_database database st))
         else if starts_with ''CREATE DATABASE'' upper \<and> 3 \<le> length words then
           (Some ''OK'', create_influx_database (words ! 2) st)
         else if starts_with ''DROP DATABASE'' upper \<and> 3 \<le> length words then
           (Some ''OK'', snd (drop_influx_database (words ! 2) st))
         else if starts_with ''SELECT'' upper then
           (case find_text ''FROM'' upper of
              None \<Rightarrow> unsupported
            | Some i \<Rightarrow>
                (case slice_from (i + 4) query of
                   None \<Rightarrow> (None, st)
                 | Some after \<Rightarrow>
                     (let name = (case split_whitespace (trim after) of w # _ \<Rightarrow> w | [] \<Rightarrow> []);
                          (m, db) = get_measurement name (fst (get_influx_database database st))
                      in case find_text ''WHERE'' upper of
                           None \<Rightarrow> (case select_points L database name st of (r, st') \<Rightarrow> (Some r, st'))
                         | Some j \<Rightarrow>
                             (case slice_from (j + 5) query of
                                None \<Rightarrow> (None, put_measurement database name m st)
                              | Some _ \<Rightarrow> (case select_points L database name st of (r, st') \<Rightarrow> (Some r, st'))))))
         else unsupported)"

subsection \<open>Requests (server.rs)\<close>

record influx_server_config =
  is_port :: nat

definition influx_server_config_default :: influx_server_config where
  "influx_server_config_default = \<lparr>is_port = 8086\<rparr>"

record http_request =
  rq_method :: string
  rq_path :: string
  rq_params :: "(string \<times> string) list"
  rq_body :: string

text \<open>Of parameters with the same name the last counts. No reply is a panic, which closes the connection.\<close>

definition query_param :: "http_request \<Rightarrow> string \<Rightarrow> string option" where
  "query_param rq k = map_of (rev (rq_params rq)) k"

definition query_response :: "'f influx_lib \<Rightarrow> string \<Rightarrow> string \<Rightarrow> 'f influx_storage \<times> nat \<Rightarrow> (nat \<times> string) option \<times> 'f influx_storage \<times> nat" where
  "query_response L database q s =
     (case s of (st, n) \<Rightarrow> let (r, st') = handle_influx_query L database q st in (map_option (Pair 200) r, st', n))"

definition missing_query :: "nat \<times> string" where
  "missing_query = (400, ''Missing query parameter '' @ [CHR 0x27] @ ''q'' @ [CHR 0x27])"

definition handle_influx_request :: "'f influx_lib \<Rightarrow> http_request \<Rightarrow> 'f influx_storage \<times> nat \<Rightarrow> (nat \<times> string) option \<times> 'f influx_storage \<times> nat" where
  "handle_influx_request L rq s =
     (let database = (case query_param rq ''db'' of Some d \<Rightarrow> d | None \<Rightarrow> ''default'');
          body = from_utf8_lossy (rq_body rq);
          route = (rq_method rq, rq_path rq)
      in if route = (''POST'', ''/write'') then (Some (204, []), handle_write L database body s)
         else if route = (''GET'', ''/query'') then
           (case query_param rq ''q'' of Some q \<Rightarrow> query_response L database q s | None \<Rightarrow> (Some missing_query, s))
         else if route = (''POST'', ''/query'') then
           (case query_param rq ''q'' of
              Some q \<Rightarrow> query_response L database q s
            | None \<Rightarrow> if body \<noteq> [] then query_response L database body s else (Some missing_query, s))
         else if route = (''GET'', ''/ping'') \<or> route = (''HEAD'', ''/ping'') then (Some (204, []), s)
         else (Some (404, ''Not found''), s))"

end
