(* ===== verification/Influx_Correct.thy ===== *)
theory Influx_Correct
  imports Influx
begin

section \<open>Correctness of the InfluxDB front end\<close>

text \<open>
  Printing a point with the escapes of the line protocol and parsing it gives the point back; no write
  to a measurement is lost and a query gives exactly the points of its window, in order of time.
\<close>

subsection \<open>A printer with escapes\<close>

definition special :: "char \<Rightarrow> bool" where
  "special c \<longleftrightarrow> c = CHR '','' \<or> c = CHR '' '' \<or> c = CHR ''='' \<or> c = backslash"

fun esc :: "string \<Rightarrow> string" where
  "esc [] = []"
| "esc (c # cs) = (if special c then backslash # c # esc cs else c # esc cs)"

fun quoted_text :: "string \<Rightarrow> string" where
  "quoted_text [] = []"
| "quoted_text (c # cs) = (if c = quote then backslash # quote # quoted_text cs else c # quoted_text cs)"

definition print_value :: "'f influx_lib \<Rightarrow> 'f field_value \<Rightarrow> string" where
  "print_value L v =
     (case v of
        FloatValue x \<Rightarrow> il_show_f64 L x
      | IntegerValue n \<Rightarrow> show_int n @ ''i''
      | StringValue s \<Rightarrow> [quote] @ quoted_text s @ [quote]
      | BooleanValue b \<Rightarrow> if b then ''t'' else ''f'')"

definition print_tag :: "string \<times> string \<Rightarrow> string" where
  "print_tag t = (case t of (k, v) \<Rightarrow> esc k @ ''='' @ esc v)"

definition print_field :: "'f influx_lib \<Rightarrow> string \<times> 'f field_value \<Rightarrow> string" where
  "print_field L f = (case f of (k, v) \<Rightarrow> esc k @ ''='' @ print_value L v)"

definition print_point :: "'f influx_lib \<Rightarrow> 'f influx_point \<Rightarrow> string" where
  "print_point L p =
     join_with '','' (esc (pt_measurement p) # map print_tag (pt_tags p)) @ '' '' @
     join_with '','' (map (print_field L) (pt_fields p)) @
     (case pt_timestamp p of Some ts \<Rightarrow> '' '' @ show_int ts | None \<Rightarrow> [])"

lemma marks_differ [simp]:
  "backslash \<noteq> CHR '','' " "backslash \<noteq> CHR '' ''" "backslash \<noteq> CHR ''=''" "backslash \<noteq> quote" "quote \<noteq> backslash"
  "quote \<noteq> CHR '',''" "quote \<noteq> CHR '' ''" "quote \<noteq> CHR ''=''" "CHR '','' \<noteq> backslash" "CHR '' '' \<noteq> backslash" "CHR ''='' \<noteq> backslash"
  "CHR '','' \<noteq> quote" "CHR '' '' \<noteq> quote" "CHR ''='' \<noteq> quote"
  by (simp_all add: backslash_def quote_def)

lemma escaped_special: "special c \<Longrightarrow> escaped (c # cs) = [c]" "special c \<Longrightarrow> head_width (c # cs) = 1"
  by (auto simp: escaped_def head_width_def special_def backslash_def)

lemma escaped_quote: "escaped (quote # cs) = [quote]" "head_width (quote # cs) = 1"
  by (auto simp: escaped_def head_width_def quote_def)

subsection \<open>Reading what was escaped\<close>

lemma unescape_esc: "unescape_tag (esc s) = s"
proof (induction s)
  case (Cons c cs)
  show ?case
  proof (cases "special c")
    case True
    then show ?thesis using Cons by (subst unescape_tag.simps) (simp add: escaped_special)
  next
    case False
    then have "c \<noteq> backslash" by (auto simp: special_def)
    then show ?thesis using Cons False by (subst unescape_tag.simps) simp
  qed
qed (simp add: unescape_tag.simps)

lemma space_after_esc: "next_unescaped_space (esc s @ r) = map_option (\<lambda>i. length (esc s) + i) (next_unescaped_space r)"
proof (induction s)
  case (Cons c cs)
  show ?case
  proof (cases "special c")
    case True
    then show ?thesis using Cons by (simp add: option.map_comp comp_def)
  next
    case False
    then have c: "c \<noteq> backslash" "c \<noteq> CHR '' ''" by (auto simp: special_def)
    then have "next_unescaped_space (c # t) = map_option Suc (next_unescaped_space t)" for t
      by (cases t) simp_all
    then show ?thesis using Cons False by (simp add: option.map_comp comp_def)
  qed
qed (simp add: option.map_ident)

lemma char_after_esc:
  "special k \<Longrightarrow> k \<noteq> backslash \<Longrightarrow> next_unescaped_char k (esc s @ r) = map_option (\<lambda>i. length (esc s) + i) (next_unescaped_char k r)"
proof (induction s)
  case (Cons c cs)
  show ?case
  proof (cases "special c")
    case True
    then show ?thesis using Cons
      by (subst next_unescaped_char.simps, cases "next_unescaped_char k r") (simp_all add: escaped_special)
  next
    case False
    then have "c \<noteq> backslash" "c \<noteq> k" using Cons.prems by (auto simp: special_def)
    then show ?thesis using Cons False
      by (subst next_unescaped_char.simps, cases "next_unescaped_char k r") simp_all
  qed
qed (cases "next_unescaped_char k r", simp_all)

lemma split_after_esc: "split_unescaped (CHR '','') cur (esc s @ r) = split_unescaped (CHR '','') (cur @ esc s) r"
proof (induction s arbitrary: cur)
  case (Cons c cs)
  show ?case
  proof (cases "special c")
    case True
    then show ?thesis using Cons by (subst split_unescaped.simps) (simp add: escaped_special)
  next
    case False
    then have "c \<noteq> backslash" "c \<noteq> CHR '',''" by (auto simp: special_def)
    then show ?thesis using Cons False by (subst split_unescaped.simps) simp
  qed
qed simp

lemma fields_after_esc: "split_fields_from in_string cur (esc s @ r) = split_fields_from in_string (cur @ esc s) r"
  if "quote \<notin> set s"
  using that
proof (induction s arbitrary: cur)
  case (Cons c cs)
  show ?case
  proof (cases "special c")
    case True
    then show ?thesis using Cons by (subst split_fields_from.simps) (simp add: escaped_special)
  next
    case False
    then have "c \<noteq> backslash" "c \<noteq> CHR '',''" "c \<noteq> quote" using Cons.prems by (auto simp: special_def)
    then show ?thesis using Cons False by (subst split_fields_from.simps) simp
  qed
qed simp

lemma boundary_char:
  "c \<noteq> backslash \<Longrightarrow> c \<noteq> quote \<Longrightarrow> c \<noteq> CHR '' '' \<or> in_string \<Longrightarrow>
     field_timestamp_boundary in_string (c # t) = map_option Suc (field_timestamp_boundary in_string t)"
  by (cases t) auto

lemma boundary_quote: "field_timestamp_boundary in_string (quote # t) = map_option Suc (field_timestamp_boundary (\<not> in_string) t)"
  by (cases t) simp_all

lemma boundary_after_esc:
  "quote \<notin> set s \<Longrightarrow> field_timestamp_boundary in_string (esc s @ r) = map_option (\<lambda>i. length (esc s) + i) (field_timestamp_boundary in_string r)"
proof (induction s)
  case (Cons c cs)
  show ?case
  proof (cases "special c")
    case True
    then show ?thesis using Cons by (simp add: option.map_comp comp_def)
  next
    case False
    then have "c \<noteq> backslash" "c \<noteq> CHR '' ''" "c \<noteq> quote" using Cons.prems by (auto simp: special_def)
    then show ?thesis using Cons False by (simp add: boundary_char option.map_comp comp_def)
  qed
qed (cases "field_timestamp_boundary in_string r", simp_all)

subsection \<open>Values\<close>

definition plain_char :: "char \<Rightarrow> bool" where
  "plain_char c \<longleftrightarrow> 32 < byte_val c \<and> byte_val c < 127 \<and> \<not> special c \<and> c \<noteq> quote"

lemma esc_plain: "list_all plain_char s \<Longrightarrow> esc s = s \<and> quote \<notin> set s"
  by (induction s) (auto simp: plain_char_def)

definition bool_words :: "string list" where
  "bool_words = [''t'', ''T'', ''true'', ''True'', ''TRUE'', ''f'', ''F'', ''false'', ''False'', ''FALSE'']"

definition value_ok :: "'f influx_lib \<Rightarrow> 'f field_value \<Rightarrow> bool" where
  "value_ok L v =
     (case v of
        FloatValue x \<Rightarrow>
          (let t = il_show_f64 L x
           in t \<noteq> [] \<and> list_all plain_char t \<and> t \<notin> set bool_words \<and> last t \<noteq> CHR ''i'' \<and> il_parse_f64 L t = Some x)
      | IntegerValue n \<Rightarrow> in_i64 n
      | StringValue s \<Rightarrow> backslash \<notin> set s
      | BooleanValue b \<Rightarrow> True)"

lemma plain_code: "plain_char c" if "33 \<le> byte_val c" "byte_val c < 127" "byte_val c \<notin> {34, 44, 61, 92}"
  using that by (auto simp: plain_char_def special_def backslash_def quote_def)

lemma show_int_plain: "list_all plain_char (show_int n)"
proof -
  have "plain_char c" if "c \<in> set (show_int n)" for c
    using that set_show_int [of n] by (intro plain_code) (auto simp: digits_def)
  then show ?thesis by (simp add: list_all_iff)
qed

lemma unquote_quoted: "backslash \<notin> set s \<Longrightarrow> unquote (quoted_text s) = s"
proof (induction s)
  case (Cons c cs)
  have skip: "unquote (c # t) = c # unquote t" if "c \<noteq> backslash" for t
    using that by (cases t) simp_all
  show ?case using Cons skip by auto
qed simp

lemma fields_in_string:
  "backslash \<notin> set s \<Longrightarrow> split_fields_from True cur (quoted_text s @ r) = split_fields_from True (cur @ quoted_text s) r"
proof (induction s arbitrary: cur)
  case (Cons c cs)
  then have "c \<noteq> backslash" by auto
  with Cons show ?case by (subst split_fields_from.simps) (simp add: escaped_quote)
qed simp

lemma boundary_in_string:
  "backslash \<notin> set s \<Longrightarrow> field_timestamp_boundary True (quoted_text s @ r) = map_option (\<lambda>i. length (quoted_text s) + i) (field_timestamp_boundary True r)"
proof (induction s)
  case (Cons c cs)
  then have "c \<noteq> backslash" by auto
  with Cons show ?case
    by (cases "c = quote"; cases "field_timestamp_boundary True r") (simp_all add: boundary_char)
qed (cases "field_timestamp_boundary True r", simp_all)

text \<open>Texts that the splitters run through without a cut.\<close>

definition tag_text :: "string \<Rightarrow> bool" where
  "tag_text s \<longleftrightarrow> (\<forall>cur r. split_unescaped (CHR '','') cur (s @ r) = split_unescaped (CHR '','') (cur @ s) r) \<and>
     (\<forall>r. next_unescaped_space (s @ r) = map_option (\<lambda>i. length s + i) (next_unescaped_space r))"

definition field_text :: "string \<Rightarrow> bool" where
  "field_text s \<longleftrightarrow> (\<forall>cur r. split_fields_from False cur (s @ r) = split_fields_from False (cur @ s) r) \<and>
     (\<forall>r. field_timestamp_boundary False (s @ r) = map_option (\<lambda>i. length s + i) (field_timestamp_boundary False r))"

lemma tag_text_append: "tag_text s \<Longrightarrow> tag_text t \<Longrightarrow> tag_text (s @ t)"
  by (simp add: tag_text_def option.map_comp comp_def ac_simps)

lemma field_text_append: "field_text s \<Longrightarrow> field_text t \<Longrightarrow> field_text (s @ t)"
  by (simp add: field_text_def option.map_comp comp_def ac_simps)

lemma tag_text_esc: "tag_text (esc s)"
  by (simp add: tag_text_def split_after_esc space_after_esc)

lemma field_text_esc: "quote \<notin> set s \<Longrightarrow> field_text (esc s)"
  by (simp add: field_text_def fields_after_esc boundary_after_esc)

lemma tag_text_equals: "tag_text ''=''"
proof -
  have "next_unescaped_space (CHR ''='' # r) = map_option Suc (next_unescaped_space r)" for r by (cases r) simp_all
  then show ?thesis by (simp add: tag_text_def split_unescaped.simps [of _ _ "CHR ''='' # _"])
qed

lemma field_text_equals: "field_text ''=''"
  by (simp add: field_text_def split_fields_from.simps [of _ _ "CHR ''='' # _"] boundary_char)

lemma field_text_quoted: "backslash \<notin> set s \<Longrightarrow> field_text ([quote] @ quoted_text s @ [quote])"
proof -
  assume s: "backslash \<notin> set s"
  have q: "split_fields_from b cur (quote # r) = split_fields_from (\<not> b) (cur @ [quote]) r" for b cur r
    by (subst split_fields_from.simps) simp
  have "field_timestamp_boundary False ([quote] @ quoted_text s @ [quote] @ r) =
      map_option (\<lambda>i. length ([quote] @ quoted_text s @ [quote]) + i) (field_timestamp_boundary False r)" for r
    by (cases "field_timestamp_boundary False r") (simp_all add: boundary_quote boundary_in_string [OF s])
  then show ?thesis by (simp add: field_text_def q fields_in_string [OF s])
qed

lemma field_text_value: "value_ok L v \<Longrightarrow> field_text (print_value L v)"
proof -
  assume v: "value_ok L v"
  have plain: "field_text s" if "list_all plain_char s" for s
    using field_text_esc [of s] esc_plain [OF that] by simp
  have "list_all plain_char (show_int n @ ''i'')" for n
    using show_int_plain [of n] by (simp add: plain_char_def special_def backslash_def quote_def)
  moreover have "list_all plain_char ''t''" "list_all plain_char ''f''"
    by (simp_all add: plain_char_def special_def backslash_def quote_def)
  ultimately show ?thesis
    using v field_text_quoted by (cases v) (auto simp: value_ok_def print_value_def Let_def intro: plain)
qed

lemma parse_value: "value_ok L v \<Longrightarrow> parse_field_value L (print_value L v) = Some v"
proof -
  assume v: "value_ok L v"
  show ?thesis
  proof (cases v)
    case (FloatValue x)
    let ?t = "il_show_f64 L x"
    have t: "?t \<noteq> []" "list_all plain_char ?t" "?t \<notin> set bool_words" "last ?t \<noteq> CHR ''i''" "il_parse_f64 L ?t = Some x"
      using v FloatValue by (simp_all add: value_ok_def Let_def)
    then have "hd ?t \<noteq> quote" by (cases ?t) (auto simp: plain_char_def)
    then show ?thesis using t FloatValue by (auto simp: parse_field_value_def print_value_def bool_words_def)
  next
    case (IntegerValue n)
    have q: "hd (show_int n @ ''i'') \<noteq> quote"
      using show_int_plain [of n] by (cases "show_int n") (auto simp: plain_char_def quote_def)
    have b: "show_int n @ ''i'' \<notin> set bool_words" by (auto simp: bool_words_def)
    then show ?thesis
      using v q IntegerValue by (auto simp: parse_field_value_def print_value_def value_ok_def bool_words_def)
  next
    case (StringValue s)
    then show ?thesis
      using v by (simp add: parse_field_value_def print_value_def value_ok_def unquote_quoted) (simp add: quote_def)
  next
    case (BooleanValue b)
    then show ?thesis by (simp add: parse_field_value_def print_value_def)
  qed
qed

subsection \<open>Segments\<close>

lemma space_skip: "c \<noteq> backslash \<Longrightarrow> c \<noteq> CHR '' '' \<Longrightarrow> next_unescaped_space (c # t) = map_option Suc (next_unescaped_space t)"
  by (cases t) simp_all

lemma split_join_tags:
  "list_all tag_text (s # ss) \<Longrightarrow> split_unescaped (CHR '','') cur (join_with '','' (s # ss)) = (cur @ s) # ss"
proof (induction ss arbitrary: s cur)
  case Nil
  then have "split_unescaped (CHR '','') cur (s @ []) = split_unescaped (CHR '','') (cur @ s) []" by (metis tag_text_def list.pred_inject(2))
  then show ?case by (simp add: split_unescaped.simps [of _ _ "[]"])
next
  case (Cons t ss)
  then have "split_unescaped (CHR '','') cur (s @ r) = split_unescaped (CHR '','') (cur @ s) r" for r by (simp add: tag_text_def)
  with Cons show ?case by (simp add: split_unescaped.simps [of _ _ "CHR '','' # _"])
qed

lemma space_after_tags:
  "list_all tag_text ss \<Longrightarrow> next_unescaped_space (join_with '','' ss @ r) = map_option (\<lambda>i. length (join_with '','' ss) + i) (next_unescaped_space r)"
proof (induction ss rule: induct_list012)
  case 1
  then show ?case by (cases "next_unescaped_space r") simp_all
next
  case (2 s)
  then show ?case by (simp add: tag_text_def)
next
  case (3 s t ss)
  then have "next_unescaped_space (s @ q) = map_option (\<lambda>i. length s + i) (next_unescaped_space q)" for q by (simp add: tag_text_def)
  with 3 show ?case by (simp add: space_skip option.map_comp comp_def ac_simps)
qed

lemma split_join_fields:
  "list_all field_text (s # ss) \<Longrightarrow> split_fields_from False cur (join_with '','' (s # ss)) = (cur @ s) # ss"
proof (induction ss arbitrary: s cur)
  case Nil
  then have "split_fields_from False cur (s @ []) = split_fields_from False (cur @ s) []" by (metis field_text_def list.pred_inject(2))
  then show ?case by (simp add: split_fields_from.simps [of _ _ "[]"])
next
  case (Cons t ss)
  then have "split_fields_from False cur (s @ r) = split_fields_from False (cur @ s) r" for r by (simp add: field_text_def)
  with Cons show ?case by (simp add: split_fields_from.simps [of _ _ "CHR '','' # _"])
qed

lemma boundary_after_fields:
  "list_all field_text ss \<Longrightarrow> field_timestamp_boundary False (join_with '','' ss @ r) =
     map_option (\<lambda>i. length (join_with '','' ss) + i) (field_timestamp_boundary False r)"
proof (induction ss rule: induct_list012)
  case 1
  then show ?case by (cases "field_timestamp_boundary False r") simp_all
next
  case (2 s)
  then show ?case by (simp add: field_text_def)
next
  case (3 s t ss)
  then have "field_timestamp_boundary False (s @ q) = map_option (\<lambda>i. length s + i) (field_timestamp_boundary False q)" for q
    by (simp add: field_text_def)
  with 3 show ?case by (simp add: boundary_char option.map_comp comp_def ac_simps)
qed

lemma update_new: "k \<notin> fst ` set al \<Longrightarrow> AList.update k v al = al @ [(k, v)]"
  by (induction al) auto

lemma add_printed_tags:
  "distinct (map fst tags @ map fst ts) \<Longrightarrow> fold add_tag (map print_tag ts) tags = tags @ ts"
proof (induction ts arbitrary: tags)
  case (Cons t ts)
  obtain k v where t: "t = (k, v)" by (cases t)
  have "next_unescaped_char (CHR ''='') (print_tag t) = Some (length (esc k))"
    by (simp add: print_tag_def t char_after_esc special_def next_unescaped_char.simps [of _ "CHR ''='' # _"])
  then have "add_tag (print_tag t) tags = AList.update k v tags"
    by (simp add: add_tag_def print_tag_def t unescape_esc)
  with Cons t show ?case by (simp add: update_new)
qed simp

lemma parse_printed_fields:
  "distinct (map fst fs @ map fst gs) \<Longrightarrow> list_all (\<lambda>(k, v). value_ok L v) gs \<Longrightarrow>
     parse_fields L (map (print_field L) gs) fs = Some (fs @ gs)"
proof (induction gs arbitrary: fs)
  case (Cons g gs)
  obtain k v where g: "g = (k, v)" by (cases g)
  have "next_unescaped_char (CHR ''='') (print_field L g) = Some (length (esc k))"
    by (simp add: print_field_def g char_after_esc special_def next_unescaped_char.simps [of _ "CHR ''='' # _"])
  with Cons g show ?case
    by (simp add: print_field_def unescape_field_key_def unescape_esc parse_value update_new)
qed simp

subsection \<open>White space around a line\<close>

definition graph_char :: "char \<Rightarrow> bool" where
  "graph_char c \<longleftrightarrow> 32 < byte_val c \<and> byte_val c < 127"

lemma plain_graph: "plain_char c \<Longrightarrow> graph_char c"
  by (simp add: plain_char_def graph_char_def)

lemma less_if_elim:
  "0 < (if P then x else y) \<Longrightarrow> (P \<Longrightarrow> 0 < x \<Longrightarrow> R) \<Longrightarrow> (\<not> P \<Longrightarrow> 0 < y \<Longrightarrow> R) \<Longrightarrow> R" for x y :: nat
  by (cases P) auto

lemma ws_head_cases:
  assumes "0 < ws_head s"
  obtains b t where "s = b # t" "ws_head s = 1" "byte_val b \<le> 32"
  | b c t where "s = b # c # t" "ws_head s = 2" "127 < byte_val b" "127 < byte_val c"
  | b c d t where "s = b # c # d # t" "ws_head s = 3" "127 < byte_val b" "127 < byte_val c" "127 < byte_val d"
proof -
  consider "s = []" | b where "s = [b]" | b c where "s = [b, c]" | b c d t where "s = b # c # d # t"
    by (metis neq_Nil_conv)
  then show ?thesis
  proof cases
    case 1
    then show ?thesis using assms by (simp add: ws_head_def)
  next
    case 2
    then have "ws_head s = 1 \<and> byte_val b \<le> 32" using assms by (simp add: ws_head_def split: if_splits)
    then show ?thesis using 2 that(1) by blast
  next
    case 3
    then have "ws_head s = 1 \<and> byte_val b \<le> 32 \<or> ws_head s = 2 \<and> 127 < byte_val b \<and> 127 < byte_val c"
      using assms by (auto simp add: ws_head_def split: if_splits)
    then show ?thesis using 3 that(1,2) by blast
  next
    case 4
    then have "ws_head s = 1 \<and> byte_val b \<le> 32 \<or> ws_head s = 2 \<and> 127 < byte_val b \<and> 127 < byte_val c \<or>
        ws_head s = 3 \<and> 127 < byte_val b \<and> 127 < byte_val c \<and> 127 < byte_val d"
      using assms unfolding 4 ws_head_def numeral_3_eq_3 take_Suc_Cons take_0 list.map list.case
      by (elim less_if_elim) (simp_all, (elim conjE disjE, simp_all)+)
    then show ?thesis using 4 that by blast
  qed
qed

lemma ws_head_split: "0 < ws_head s \<Longrightarrow> \<exists>w t. s = w @ t \<and> w \<noteq> [] \<and> length w = ws_head s \<and> (\<forall>c \<in> set w. \<not> graph_char c)"
proof (erule ws_head_cases)
  fix b t assume "s = b # t" "ws_head s = 1" "byte_val b \<le> 32"
  then show ?thesis by (intro exI [of _ "[b]"] exI [of _ t]) (simp add: graph_char_def)
next
  fix b c t assume "s = b # c # t" "ws_head s = 2" "127 < byte_val b" "127 < byte_val c"
  then show ?thesis by (intro exI [of _ "[b, c]"] exI [of _ t]) (simp add: graph_char_def)
next
  fix b c d t assume "s = b # c # d # t" "ws_head s = 3" "127 < byte_val b" "127 < byte_val c" "127 < byte_val d"
  then show ?thesis by (intro exI [of _ "[b, c, d]"] exI [of _ t]) (simp add: graph_char_def)
qed

lemma not_all_ws: "s \<noteq> [] \<Longrightarrow> graph_char (last s) \<Longrightarrow> \<not> all_ws s"
proof (induction s rule: all_ws.induct)
  case (1 s)
  show ?case
  proof (cases "ws_head s = 0")
    case False
    then obtain w t where w: "s = w @ t" "length w = ws_head s" "w \<noteq> []" "\<forall>c \<in> set w. \<not> graph_char c"
      using ws_head_split by blast
    then have "t \<noteq> []" using "1.prems" by auto
    then have "\<not> all_ws (drop (ws_head s) s)" using "1.IH" [OF "1.prems"(1) False] "1.prems" w by simp
    then show ?thesis using "1.prems" False by (subst all_ws.simps) simp
  qed (use "1.prems" in \<open>simp add: all_ws.simps\<close>)
qed

lemma trim_end_graph: "s \<noteq> [] \<Longrightarrow> graph_char (last s) \<Longrightarrow> trim_end s = s"
proof (induction s)
  case (Cons c cs)
  then have "\<not> all_ws (c # cs)" by (intro not_all_ws) auto
  with Cons show ?case by (cases "cs = []") auto
qed simp

lemma trim_graph: "s \<noteq> [] \<Longrightarrow> ws_head s = 0 \<Longrightarrow> graph_char (last s) \<Longrightarrow> trim s = s"
  by (simp add: trim_def trim_start.simps [of s] trim_end_graph)

lemma ws_head_graph: "graph_char c \<Longrightarrow> ws_head (c # cs) = 0"
  by (auto simp: ws_head_def graph_char_def split: list.splits)

lemma trim_show_int: "trim (show_int n) = show_int n"
proof -
  obtain c cs where c: "show_int n = c # cs" by (cases "show_int n") (auto simp: show_int_def split: if_splits)
  then have "graph_char c" "graph_char (last (show_int n))"
    using show_int_plain [of n] by (auto simp: list_all_iff plain_graph)
  then show ?thesis using c by (intro trim_graph) (simp_all add: ws_head_graph)
qed

text \<open>A name a line may start with: not empty, no comment, no white space but an escaped space.\<close>

definition name_ok :: "string \<Rightarrow> bool" where
  "name_ok m \<longleftrightarrow> m \<noteq> [] \<and> hd m \<noteq> CHR ''#'' \<and> (ws_head m = 0 \<or> hd m = CHR '' '')"

lemma ws_head_same:
  "ws_head (a # x) = 1 \<Longrightarrow> ws_head (a # y) = 1"
  "ws_head (a # b # x) = 2 \<Longrightarrow> ws_head (a # b # y) = 2"
  "ws_head (a # b # d # x) = 3 \<Longrightarrow> ws_head (a # b # d # y) = 3"
proof -
  have one: "ws_head (a # x) = 1 \<longleftrightarrow> 9 \<le> byte_val a \<and> byte_val a \<le> 13 \<or> byte_val a = 32" for x
    by (simp add: ws_head_def numeral_3_eq_3 split: list.splits)
  have two: "ws_head (a # b # x) = 2 \<longleftrightarrow> byte_val a = 194 \<and> (byte_val b = 133 \<or> byte_val b = 160)" for x
    by (auto simp add: ws_head_def numeral_3_eq_3 split: list.splits)
  show "ws_head (a # x) = 1 \<Longrightarrow> ws_head (a # y) = 1" unfolding one .
  show "ws_head (a # b # x) = 2 \<Longrightarrow> ws_head (a # b # y) = 2" by (simp add: two)
  show "ws_head (a # b # d # x) = 3 \<Longrightarrow> ws_head (a # b # d # y) = 3" by (simp add: ws_head_def numeral_3_eq_3)
qed

lemma ws_head_ascii: "32 < byte_val c \<Longrightarrow> byte_val c < 128 \<Longrightarrow> ws_head (c # cs) = 0"
  by (auto simp: ws_head_def split: list.splits)

lemma esc_high: "esc s @ c # r = b # x \<Longrightarrow> byte_val c < 128 \<Longrightarrow> 127 < byte_val b \<Longrightarrow> \<exists>s'. s = b # s' \<and> x = esc s' @ c # r"
  by (cases s) (auto simp: backslash_def split: if_splits)

lemma ws_head_name:
  assumes m: "name_ok m" and c: "byte_val c < 128"
  shows "ws_head (esc m @ c # r) = 0"
proof -
  obtain a m' where a: "m = a # m'" using m by (cases m) (auto simp: name_ok_def)
  show ?thesis
  proof (cases "special a")
    case True
    then show ?thesis by (simp add: a ws_head_ascii backslash_def)
  next
    case False
    then have m0: "ws_head m = 0" using m a by (auto simp: name_ok_def special_def)
    have e: "esc m @ c # r = a # esc m' @ c # r" using False a by simp
    show ?thesis
    proof (rule ccontr)
      assume "ws_head (esc m @ c # r) \<noteq> 0"
      then have "0 < ws_head (a # esc m' @ c # r)" by (simp add: e)
      then show False
      proof (cases rule: ws_head_cases)
        case (1 b t)
        then show False using m0 a ws_head_same(1) [of a "esc m' @ c # r" m'] by simp
      next
        case (2 b d t)
        then obtain s' where "m' = d # s'" using esc_high [OF _ c, of m' r d t] by auto
        then show False using 2 m0 a ws_head_same(2) [of a d t s'] by simp
      next
        case (3 b d f t)
        then obtain s' where s': "m' = d # s'" "f # t = esc s' @ c # r" using esc_high [OF _ c, of m' r d "f # t"] by auto
        then obtain s'' where "s' = f # s''" using 3 esc_high [OF _ c, of s' r f t] by auto
        then show False using 3 m0 a s' ws_head_same(3) [of a d f t s''] by simp
      qed
    qed
  qed
qed

subsection \<open>The round trip\<close>

definition field_ok :: "'f influx_lib \<Rightarrow> string \<times> 'f field_value \<Rightarrow> bool" where
  "field_ok L f = (case f of (k, v) \<Rightarrow> quote \<notin> set k \<and> value_ok L v)"

definition point_ok :: "'f influx_lib \<Rightarrow> 'f influx_point \<Rightarrow> bool" where
  "point_ok L p \<longleftrightarrow> name_ok (pt_measurement p) \<and> distinct (map fst (pt_tags p)) \<and> pt_fields p \<noteq> [] \<and>
     distinct (map fst (pt_fields p)) \<and> list_all (field_ok L) (pt_fields p) \<and>
     (case pt_timestamp p of Some ts \<Rightarrow> in_i64 ts | None \<Rightarrow> True)"

lemma print_value_last: "value_ok L v \<Longrightarrow> print_value L v \<noteq> [] \<and> graph_char (last (print_value L v))"
proof (cases v)
  case (FloatValue x)
  assume "value_ok L v"
  then show ?thesis using FloatValue by (auto simp: value_ok_def print_value_def Let_def list_all_iff plain_graph)
qed (auto simp: print_value_def graph_char_def quote_def)

lemma tag_text_print: "tag_text (print_tag t)"
  by (cases t) (simp add: print_tag_def tag_text_append tag_text_esc tag_text_equals [simplified] tag_text_append [of "''=''", simplified])

lemma field_text_print: "field_ok L f \<Longrightarrow> field_text (print_field L f)"
proof -
  assume f: "field_ok L f"
  obtain k v where k: "f = (k, v)" by (cases f)
  have "field_text (esc k)" "field_text (print_value L v)" using f by (simp_all add: k field_ok_def field_text_esc field_text_value)
  then show ?thesis by (simp only: print_field_def k prod.case field_text_append field_text_equals)
qed

lemma parse_printed_head:
  assumes "name_ok m" "distinct (map fst ts)"
  shows "parse_measurement_tags (join_with '','' (esc m # map print_tag ts)) = Some (m, ts)"
proof -
  have "list_all tag_text (esc m # map print_tag ts)" by (simp add: tag_text_esc tag_text_print list_all_iff)
  from split_join_tags [OF this, of "[]"] show ?thesis
    using add_printed_tags [of "[]" ts] assms(2)
    by (simp add: parse_measurement_tags_def split_on_unescaped_def unescape_measurement_def unescape_esc)
qed

lemma parse_printed_tail:
  assumes "fs \<noteq> []" "distinct (map fst fs)" "list_all (field_ok L) fs" "case ts of Some t \<Rightarrow> in_i64 t | None \<Rightarrow> True"
  shows "parse_fields_timestamp L (join_with '','' (map (print_field L) fs) @ (case ts of Some t \<Rightarrow> '' '' @ show_int t | None \<Rightarrow> [])) = Some (fs, ts)"
proof -
  have ft: "list_all field_text (map (print_field L) fs)" using assms(3) by (auto simp: list_all_iff field_text_print)
  obtain g gs where g: "fs = g # gs" using assms(1) by (cases fs) auto
  have sp: "split_fields (join_with '','' (map (print_field L) fs)) = map (print_field L) fs"
    using split_join_fields [of "print_field L g" "map (print_field L) gs" "[]"] ft by (simp add: split_fields_def g)
  have ps: "parse_fields L (map (print_field L) fs) [] = Some fs"
    using parse_printed_fields [of "[]" fs L] assms by (auto simp: list_all_iff field_ok_def)
  show ?thesis
  proof (cases ts)
    case None
    have "field_timestamp_boundary False (join_with '','' (map (print_field L) fs) @ []) = None"
      by (subst boundary_after_fields [OF ft]) simp
    then show ?thesis using None sp ps by (simp add: parse_fields_timestamp_def find_field_timestamp_boundary_def)
  next
    case (Some t)
    have "field_timestamp_boundary False (CHR '' '' # show_int t) = Some 0" by (cases "show_int t") simp_all
    then show ?thesis using Some sp ps assms(4)
      by (simp add: parse_fields_timestamp_def find_field_timestamp_boundary_def boundary_after_fields [OF ft] trim_show_int)
  qed
qed

lemma print_point_last: "point_ok L p \<Longrightarrow> graph_char (last (print_point L p))"
proof -
  assume p: "point_ok L p"
  have "ss \<noteq> [] \<Longrightarrow> last ss \<noteq> [] \<Longrightarrow> join_with sep ss \<noteq> [] \<and> last (join_with sep ss) = last (last ss)" for sep ss
    by (induction sep ss rule: join_with.induct) (auto simp: last_append split: if_splits)
  then have j: "last ss \<noteq> [] \<Longrightarrow> ss \<noteq> [] \<Longrightarrow> join_with sep ss \<noteq> [] \<and> last (join_with sep ss) = last (last ss)" for sep ss by blast
  define f where "f = last (pt_fields p)"
  have "field_ok L f" using p by (simp add: point_ok_def f_def list_all_iff)
  then have f: "print_field L f \<noteq> [] \<and> graph_char (last (print_field L f))"
    using print_value_last by (cases f) (auto simp: print_field_def field_ok_def)
  then have "graph_char (last (join_with '','' (map (print_field L) (pt_fields p)))) \<and> join_with '','' (map (print_field L) (pt_fields p)) \<noteq> []"
    using p j [of "map (print_field L) (pt_fields p)" "'',''"] by (simp add: point_ok_def f_def last_map)
  moreover have "graph_char (last (show_int n)) \<and> show_int n \<noteq> []" for n
  proof -
    have "show_int n \<noteq> []" by (auto simp: show_int_def)
    then show ?thesis using show_int_plain [of n] by (auto simp: list_all_iff plain_graph)
  qed
  ultimately show ?thesis by (cases "pt_timestamp p") (simp_all add: print_point_def)
qed

lemma trim_print_point: "point_ok L p \<Longrightarrow> trim (print_point L p) = print_point L p \<and> print_point L p \<noteq> [] \<and> hd (print_point L p) \<noteq> CHR ''#''"
proof -
  assume p: "point_ok L p"
  then have m: "name_ok (pt_measurement p)" by (simp add: point_ok_def)
  obtain c r where line: "print_point L p = esc (pt_measurement p) @ c # r" "byte_val c < 128"
    by (cases "pt_tags p") (simp_all add: print_point_def)
  obtain a m' where a: "pt_measurement p = a # m'" using m by (cases "pt_measurement p") (auto simp: name_ok_def)
  then have "hd (print_point L p) \<noteq> CHR ''#''" using m line by (auto simp: name_ok_def backslash_def)
  moreover have "trim (print_point L p) = print_point L p"
    using line ws_head_name [OF m line(2)] print_point_last [OF p] by (intro trim_graph) auto
  ultimately show ?thesis using line by simp
qed

lemma parse_print_point: "point_ok L p \<Longrightarrow> parse_line_protocol L (print_point L p) = Some p"
proof -
  assume p: "point_ok L p"
  let ?head = "join_with '','' (esc (pt_measurement p) # map print_tag (pt_tags p))"
  let ?tail = "join_with '','' (map (print_field L) (pt_fields p)) @ (case pt_timestamp p of Some t \<Rightarrow> '' '' @ show_int t | None \<Rightarrow> [])"
  have line: "print_point L p = ?head @ CHR '' '' # ?tail" by (simp add: print_point_def)
  have "next_unescaped_space (CHR '' '' # ?tail) = Some 0" by (cases ?tail) simp_all
  moreover have "list_all tag_text (esc (pt_measurement p) # map print_tag (pt_tags p))"
    by (simp add: tag_text_esc tag_text_print list_all_iff)
  ultimately have "next_unescaped_space (print_point L p) = Some (length ?head)"
    unfolding line by (simp only: space_after_tags option.map add_0_right)
  moreover have "parse_measurement_tags ?head = Some (pt_measurement p, pt_tags p)"
    using p by (intro parse_printed_head) (simp_all add: point_ok_def)
  moreover have "parse_fields_timestamp L ?tail = Some (pt_fields p, pt_timestamp p)"
    using p by (intro parse_printed_tail) (simp_all add: point_ok_def)
  ultimately show ?thesis using trim_print_point [OF p] unfolding parse_line_protocol_def Let_def
    by (simp add: line del: join_with.simps)
qed

subsection \<open>The store keeps every write\<close>

lemma nibbles_length [simp]: "length (nibbles n x) = n"
  by (induction n arbitrary: x) simp_all

lemma nibbles_small: "d \<in> set (nibbles n x) \<Longrightarrow> d < 16"
  by (induction n arbitrary: x) auto

lemma nibbles_inj: "nibbles n x = nibbles n y \<Longrightarrow> x < 16 ^ n \<Longrightarrow> y < 16 ^ n \<Longrightarrow> x = y"
proof (induction n arbitrary: x y)
  case (Suc n)
  then have "nibbles n (x div 16) = nibbles n (y div 16)" "x mod 16 = y mod 16" by simp_all
  moreover have "x div 16 < 16 ^ n" "y div 16 < 16 ^ n" using Suc.prems by (simp_all add: less_mult_imp_div_less mult.commute)
  ultimately show ?case using Suc.IH div_mult_mod_eq [of x 16] div_mult_mod_eq [of y 16] by metis
qed simp

lemma hex_digit_inj: "inj_on hex_digit {..<16}"
proof (rule inj_onI)
  fix a b assume "a \<in> {..<16}" "b \<in> {..<16}" "hex_digit a = hex_digit b"
  then have "byte_val (hex_digit a) = byte_val (hex_digit b)" "a < 16" "b < 16" by simp_all
  then show "a = b" by (auto simp: hex_digit_def split: if_splits)
qed

lemma point_key_inj:
  assumes "point_key t a = point_key u b" "a < 2 ^ 64" "b < 2 ^ 64"
  shows "a = b"
proof -
  have "map hex_digit (nibbles 16 a) = map hex_digit (nibbles 16 b)"
    using assms(1) append_eq_append_conv [of "show_int t @ ''_''" "show_int u @ ''_''" "map hex_digit (nibbles 16 a)" "map hex_digit (nibbles 16 b)"]
    by (simp add: point_key_def)
  moreover have "inj_on hex_digit (set (nibbles 16 a) \<union> set (nibbles 16 b))"
    using nibbles_small by (intro inj_on_subset [OF hex_digit_inj]) auto
  ultimately have "nibbles 16 a = nibbles 16 b" by (simp add: inj_on_map_eq_map)
  moreover have "(16 :: nat) ^ 16 = 2 ^ 64" by simp
  ultimately show ?thesis using assms(2,3) nibbles_inj [of 16 a b] by argo
qed

text \<open>The contract: a measurement is a log of points, a write appends the stamped point.\<close>

definition stamp :: "'f influx_lib \<Rightarrow> nat \<Rightarrow> 'f influx_point \<Rightarrow> 'f ts_point \<times> nat" where
  "stamp L n p =
     (case pt_timestamp p of
        Some t \<Rightarrow> (\<lparr>ts_timestamp = t, ts_fields = pt_fields p, ts_tags = pt_tags p\<rparr>, n)
      | None \<Rightarrow> (\<lparr>ts_timestamp = il_now L n, ts_fields = pt_fields p, ts_tags = pt_tags p\<rparr>, n + 1))"

fun stamped :: "'f influx_lib \<Rightarrow> nat \<Rightarrow> 'f influx_point list \<Rightarrow> (string \<times> 'f ts_point) list" where
  "stamped L n [] = []"
| "stamped L n (p # ps) = (pt_measurement p, fst (stamp L n p)) # stamped L (snd (stamp L n p)) ps"

definition ms_log :: "'f measurement \<Rightarrow> 'f ts_point list" where
  "ms_log m = map snd (ms_points m)"

definition ms_inv :: "'f measurement \<Rightarrow> bool" where
  "ms_inv m \<longleftrightarrow> length (ms_points m) \<le> 2 ^ 64 \<and> ms_counter m = length (ms_points m) mod 2 ^ 64 \<and>
     (\<forall>i < length (ms_points m). \<exists>t. fst (ms_points m ! i) = point_key t i)"

lemma ms_write_log:
  assumes "ms_inv m" "length (ms_points m) < 2 ^ 64"
  shows "ms_log (fst (ms_write L p (m, n))) = ms_log m @ [fst (stamp L n p)] \<and>
    snd (ms_write L p (m, n)) = snd (stamp L n p) \<and> ms_inv (fst (ms_write L p (m, n)))"
proof -
  define k where "k = length (ms_points m)"
  have k: "ms_counter m = k" "k < 2 ^ 64" using assms by (simp_all add: ms_inv_def k_def)
  have fresh: "point_key t k \<notin> fst ` set (ms_points m)" for t
  proof
    assume "point_key t k \<in> fst ` set (ms_points m)"
    then obtain i where i: "i < k" "point_key t k = fst (ms_points m ! i)" by (auto simp: in_set_conv_nth k_def)
    then obtain u where "point_key t k = point_key u i" using assms(1) by (auto simp: ms_inv_def k_def)
    then show False using point_key_inj [of t k u i] i k by simp
  qed
  have upd: "AList.update (point_key t (ms_counter m)) x (ms_points m) = ms_points m @ [(point_key t k, x)]" for t x
    by (simp add: k update_new [OF fresh])
  have inv: "ms_inv (m\<lparr>ms_counter := (ms_counter m + 1) mod 2 ^ 64, ms_points := ms_points m @ [(point_key t k, x)]\<rparr>)" for t x
    using assms k by (auto simp: ms_inv_def nth_append less_Suc_eq k_def)
  show ?thesis
    using inv by (cases "pt_timestamp p") (simp_all add: ms_write_def Let_def stamp_def ms_log_def upd)
qed

definition measurement_of :: "string \<Rightarrow> string \<Rightarrow> 'f influx_storage \<Rightarrow> 'f measurement" where
  "measurement_of database name st = fst (get_measurement name (fst (get_influx_database database st)))"

definition store_inv :: "string \<Rightarrow> 'f influx_storage \<Rightarrow> bool" where
  "store_inv database st \<longleftrightarrow> (\<forall>name. ms_inv (measurement_of database name st))"

lemma measurement_of_put [simp]:
  "measurement_of d x (put_measurement d' x' m st) = (if d = d' \<and> x = x' then m else measurement_of d x st)"
  by (auto simp: measurement_of_def put_measurement_def get_measurement_def get_influx_database_def update_conv split: option.splits)

lemma put_other_database: "d \<noteq> d' \<Longrightarrow> map_of (put_measurement d' x m st) d = map_of st d"
  by (simp add: put_measurement_def update_conv)

lemma measurement_of_database [simp]: "measurement_of d x (snd (get_influx_database d' st)) = measurement_of d x st"
  by (auto simp: measurement_of_def get_measurement_def get_influx_database_def update_conv split: option.splits)

lemma store_inv_empty: "store_inv d []"
  by (simp add: store_inv_def measurement_of_def get_measurement_def get_influx_database_def ms_inv_def measurement_new_def)

lemma blank_line: "trim line = [] \<Longrightarrow> parse_line_protocol L line = None"
  by (simp add: parse_line_protocol_def)

lemma write_line_cases:
  "write_line L d line (st, n) =
     (case parse_line_protocol L line of
        None \<Rightarrow> (st, n)
      | Some p \<Rightarrow> (let r = ms_write L p (measurement_of d (pt_measurement p) st, n)
                  in (put_measurement d (pt_measurement p) (fst r) st, snd r)))"
  by (simp add: write_line_def blank_line measurement_of_def Let_def split_def split: option.splits)

lemma write_lines_log:
  "store_inv d st \<Longrightarrow> \<forall>name. length (ms_points (measurement_of d name st)) + length lines \<le> 2 ^ 64 \<Longrightarrow>
     fold (write_line L d) lines (st, n) = (st', n') \<Longrightarrow>
     store_inv d st' \<and> (\<forall>name. ms_log (measurement_of d name st') = ms_log (measurement_of d name st) @
       map snd (filter (\<lambda>e. fst e = name) (stamped L n (List.map_filter (parse_line_protocol L) lines)))) \<and>
     (\<forall>d'. d' \<noteq> d \<longrightarrow> map_of st' d' = map_of st d')"
proof (induction lines arbitrary: st n)
  case (Cons line lines)
  show ?case
  proof (cases "parse_line_protocol L line")
    case None
    then have "fold (write_line L d) lines (st, n) = (st', n')" using Cons.prems(3) by (simp add: write_line_cases)
    moreover have "\<forall>name. length (ms_points (measurement_of d name st)) + length lines \<le> 2 ^ 64"
      using Cons.prems(2) by (auto intro: Suc_leD)
    ultimately show ?thesis using Cons.IH [OF Cons.prems(1)] None by (simp add: map_filter_simps)
  next
    case (Some p)
    define m where "m = measurement_of d (pt_measurement p) st"
    define r where "r = ms_write L p (m, n)"
    define st1 where "st1 = put_measurement d (pt_measurement p) (fst r) st"
    have bound: "length (ms_points (measurement_of d name st)) + Suc (length lines) \<le> 2 ^ 64" for name using Cons.prems(2) by simp
    have "ms_inv m" "length (ms_points m) < 2 ^ 64"
      using Cons.prems(1) bound [of "pt_measurement p"] by (simp_all add: store_inv_def m_def)
    from ms_write_log [OF this, of L p n]
    have w: "ms_log (fst r) = ms_log m @ [fst (stamp L n p)]" "snd r = snd (stamp L n p)" "ms_inv (fst r)" by (simp_all add: r_def)
    have len: "length (ms_points (fst r)) = Suc (length (ms_points m))"
      using arg_cong [OF w(1), of length] by (simp add: ms_log_def)
    have inv1: "store_inv d st1" using Cons.prems(1) w(3) by (simp add: store_inv_def st1_def)
    have bound1: "\<forall>name. length (ms_points (measurement_of d name st1)) + length lines \<le> 2 ^ 64"
    proof
      fix name
      show "length (ms_points (measurement_of d name st1)) + length lines \<le> 2 ^ 64"
        using bound [of name] bound [of "pt_measurement p"] len by (simp add: st1_def m_def split: if_splits)
    qed
    have "fold (write_line L d) lines (st1, snd r) = (st', n')"
      using Cons.prems(3) Some by (simp add: write_line_cases Let_def st1_def r_def m_def)
    from Cons.IH [OF inv1 bound1 this] w Some show ?thesis
      by (auto simp: map_filter_simps st1_def m_def put_other_database)
  qed
qed (simp add: map_filter_simps)

lemma write_body_log:
  assumes "store_inv d st"
    and "\<forall>name. length (ms_points (measurement_of d name st)) + length (split_lines [] body) \<le> 2 ^ 64"
    and "handle_write L d body (st, n) = (st', n')"
  shows "store_inv d st' \<and>
    (\<forall>name. ms_log (measurement_of d name st') = ms_log (measurement_of d name st) @
       map snd (filter (\<lambda>e. fst e = name) (stamped L n (List.map_filter (parse_line_protocol L) (split_lines [] body))))) \<and>
    (\<forall>d'. d' \<noteq> d \<longrightarrow> map_of st' d' = map_of st d')"
proof -
  let ?st = "snd (get_influx_database d st)"
  have "store_inv d ?st" using assms(1) by (simp add: store_inv_def)
  moreover have "\<forall>name. length (ms_points (measurement_of d name ?st)) + length (split_lines [] body) \<le> 2 ^ 64" using assms(2) by simp
  moreover have "fold (write_line L d) (split_lines [] body) (?st, n) = (st', n')" using assms(3) by (simp add: handle_write_def)
  ultimately have "store_inv d st' \<and> (\<forall>name. ms_log (measurement_of d name st') = ms_log (measurement_of d name ?st) @
       map snd (filter (\<lambda>e. fst e = name) (stamped L n (List.map_filter (parse_line_protocol L) (split_lines [] body))))) \<and>
     (\<forall>d'. d' \<noteq> d \<longrightarrow> map_of st' d' = map_of ?st d')" by (rule write_lines_log)
  moreover have "d' \<noteq> d \<Longrightarrow> map_of ?st d' = map_of st d'" for d'
    by (simp add: get_influx_database_def update_conv split: option.splits)
  ultimately show ?thesis by simp
qed

lemma split_lines_line: "CHR 0x0A \<notin> set s \<Longrightarrow> split_lines cur (s @ r) = split_lines (cur @ s) r"
  by (induction s arbitrary: cur) auto

lemma split_printed_lines:
  "list_all (\<lambda>s. s \<noteq> [] \<and> CHR 0x0A \<notin> set s \<and> last s \<noteq> CHR 0x0D) ss \<Longrightarrow> split_lines [] (join_with [CHR 0x0A] ss) = ss"
proof (induction ss rule: induct_list012)
  case (2 s)
  then show ?case using split_lines_line [of s "[]" "[]"] by simp
next
  case (3 s t ss)
  then show ?case by (simp add: split_lines_line)
qed simp

lemma written_points_arrive:
  assumes "list_all (point_ok L) ps" "list_all (\<lambda>p. CHR 0x0A \<notin> set (print_point L p)) ps" "length ps \<le> 2 ^ 64"
  shows "ms_log (measurement_of d name (fst (handle_write L d (join_with [CHR 0x0A] (map (print_point L) ps)) ([], n)))) =
    map snd (filter (\<lambda>e. fst e = name) (stamped L n ps))"
proof -
  let ?body = "join_with [CHR 0x0A] (map (print_point L) ps)"
  have "graph_char c \<Longrightarrow> c \<noteq> CHR 0x0D" for c by (auto simp: graph_char_def)
  then have "list_all (\<lambda>s. s \<noteq> [] \<and> CHR 0x0A \<notin> set s \<and> last s \<noteq> CHR 0x0D) (map (print_point L) ps)"
    using assms(1,2) print_point_last trim_print_point by (fastforce simp: list_all_iff)
  then have lines: "split_lines [] ?body = map (print_point L) ps" by (rule split_printed_lines)
  have parsed: "List.map_filter (parse_line_protocol L) (map (print_point L) ps) = ps"
    using assms(1) by (induction ps) (simp_all add: map_filter_simps parse_print_point)
  have empty: "measurement_of d x [] = measurement_new" for x
    by (simp add: measurement_of_def get_measurement_def get_influx_database_def)
  have "\<forall>name. length (ms_points (measurement_of d name [])) + length (split_lines [] ?body) \<le> 2 ^ 64"
    using assms(3) by (simp add: lines empty) (simp add: measurement_new_def)
  from write_body_log [where L = L and n = n, OF store_inv_empty this prod.collapse [symmetric]] show ?thesis
    by (simp add: lines parsed empty) (simp add: ms_log_def measurement_new_def)
qed

lemma ms_query_window:
  assumes "\<And>xs. mset (il_point_order L xs) = mset xs"
  shows "mset (ms_query L start stop m) = filter_mset (in_window start stop) (mset (ms_log m)) \<and>
    sorted (map ts_timestamp (ms_query L start stop m))"
proof -
  let ?f = "\<lambda>xs. map snd (filter (\<lambda>(k, p). in_window start stop p) xs)"
  have "mset (?f xs) = filter_mset (in_window start stop) (image_mset snd (mset xs))" for xs :: "(string \<times> 'a ts_point) list"
    by (induction xs) auto
  then show ?thesis using assms by (simp add: ms_query_def ms_log_def del: mset_map) (simp add: mset_map)
qed

lemma in_window_times:
  "in_window start stop = (\<lambda>p. (\<forall>s. start = Some s \<longrightarrow> s \<le> ts_timestamp p) \<and> (\<forall>e. stop = Some e \<longrightarrow> ts_timestamp p \<le> e))"
  by (auto simp: in_window_def fun_eq_iff split: option.splits)

subsection \<open>Queries do not lose points\<close>

lemma measurement_of_create [simp]: "measurement_of d x (create_influx_database d' st) = measurement_of d x st"
  by (auto simp: measurement_of_def get_measurement_def get_influx_database_def create_influx_database_def update_conv split: option.splits)

lemma measurement_of_put_same [simp]: "measurement_of d x (put_measurement d' x' (measurement_of d' x' st) st) = measurement_of d x st"
  by simp

lemma select_points_keeps: "measurement_of d x (snd (select_points L database name st)) = measurement_of d x st"
  by (simp add: select_points_def Let_def measurement_of_def [symmetric])

lemma influx_query_keeps_points:
  assumes "\<not> starts_with ''DROP DATABASE'' (to_uppercase (il_upper L) (rev (dropWhile (\<lambda>c. c = CHR '';'') (rev (trim text)))))"
  shows "measurement_of d x (snd (handle_influx_query L database text st)) = measurement_of d x st"
proof -
  have put: "measurement_of d x (put_measurement database name (fst (get_measurement name (fst (get_influx_database database st)))) st) = measurement_of d x st" for name
    by (simp add: measurement_of_def [symmetric])
  show ?thesis
    using assms select_points_keeps put
    by (auto simp: handle_influx_query_def Let_def split_def split: option.splits)
qed

text \<open>A request to write is always answered with 204, also when no line of its body is understood.\<close>

lemma write_always_accepted:
  "rq_method rq = ''POST'' \<Longrightarrow> rq_path rq = ''/write'' \<Longrightarrow> fst (handle_influx_request L rq s) = Some (204, [])"
  by (simp add: handle_influx_request_def Let_def)

lemma unread_body_changes_nothing:
  assumes "\<And>line. line \<in> set (split_lines [] body) \<Longrightarrow> parse_line_protocol L line = None"
  shows "handle_write L d body (st, n) = (snd (get_influx_database d st), n)"
proof -
  have "fold (write_line L d) lines (st', n) = (st', n)" if "\<forall>line \<in> set lines. parse_line_protocol L line = None" for lines st'
    using that by (induction lines) (simp_all add: write_line_cases)
  then show ?thesis using assms by (simp add: handle_write_def)
qed

lemma unknown_route: "rq_path rq \<notin> {''/write'', ''/query'', ''/ping''} \<Longrightarrow> handle_influx_request L rq s = (Some (404, ''Not found''), s)"
  by (simp add: handle_influx_request_def Let_def)

subsection \<open>The properties\<close>

text \<open>
  C38. Printed with the escapes of the line protocol, a point parses back to itself: measurement, tags
  and fields with their types, and the time stamp, whatever commas, blanks, equals signs and backslashes
  its names have and whatever commas, blanks and quotes its strings have. The measurement is not
  empty and does not begin with a hash sign or with white space other than a blank; there is a field,
  keys are distinct, no field key has a double quote and no string a backslash (the parser misreads
  these, see below); numbers are within range and their texts are read back by the library.
\<close>

theorem influx_roundtrip: "point_ok L p \<Longrightarrow> parse_line_protocol L (print_point L p) = Some p"
  by (rule parse_print_point)

text \<open>
  C39. Writing a body of line protocol refines appending to logs: into each measurement of the database
  go exactly the points of the lines that parse, in order, each stamped with its own time or the clock;
  nothing written before is lost, also not under equal time stamps, and other databases stay as they are.
\<close>

theorem influx_write_refines:
  assumes "store_inv d st"
    and "\<forall>name. length (ms_points (measurement_of d name st)) + length (split_lines [] body) \<le> 2 ^ 64"
    and "handle_write L d body (st, n) = (st', n')"
  shows "store_inv d st' \<and>
    (\<forall>name. ms_log (measurement_of d name st') = ms_log (measurement_of d name st) @
       map snd (filter (\<lambda>e. fst e = name) (stamped L n (List.map_filter (parse_line_protocol L) (split_lines [] body))))) \<and>
    (\<forall>d'. d' \<noteq> d \<longrightarrow> map_of st' d' = map_of st d')"
  using assms by (rule write_body_log)

text \<open>
  C40. Points written as escaped lines, one per line, are found again: a query of a measurement over a
  window of time gives exactly the points of the body that name the measurement and lie in the window,
  each as often as written, in order of time, in whatever order the hash map is iterated.
\<close>

theorem influx_query_after_write:
  assumes "list_all (point_ok L) ps" "list_all (\<lambda>p. CHR 0x0A \<notin> set (print_point L p)) ps" "length ps \<le> 2 ^ 64"
    and "\<And>xs. mset (il_point_order L xs) = mset xs"
    and "st' = fst (handle_write L d (join_with [CHR 0x0A] (map (print_point L) ps)) ([], n))"
  shows "mset (ms_query L start stop (measurement_of d name st')) =
      filter_mset (\<lambda>p. (\<forall>s. start = Some s \<longrightarrow> s \<le> ts_timestamp p) \<and> (\<forall>e. stop = Some e \<longrightarrow> ts_timestamp p \<le> e)) (mset (map snd (filter (\<lambda>e. fst e = name) (stamped L n ps)))) \<and>
    sorted (map ts_timestamp (ms_query L start stop (measurement_of d name st')))"
  using ms_query_window [OF assms(4), of start stop "measurement_of d name st'"] written_points_arrive [OF assms(1,2,3), of d name n]
  unfolding assms(5) in_window_times by argo

subsection \<open>Concrete lines\<close>

definition sample_influx_lib :: "nat influx_lib" where
  "sample_influx_lib = \<lparr>il_upper = id, il_parse_f64 = parse_nat, il_show_f64 = show_nat, il_now = (\<lambda>n. 1000 + int n),
     il_tag_order = id, il_field_order = id, il_point_order = rev, il_name_order = id\<rparr>"

definition sample_point :: "nat influx_point" where
  "sample_point = \<lparr>pt_measurement = ''my cpu'', pt_tags = [(''host'', ''a,b=c'')],
     pt_fields = [(''load'', FloatValue 7), (''n'', IntegerValue (-3)), (''msg'', StringValue (''x, '' @ [quote])), (''up'', BooleanValue True)],
     pt_timestamp = Some 5\<rparr>"

lemma sample_point_ok: "point_ok sample_influx_lib sample_point"
  by code_simp

text \<open>A query panics when upper-casing moves FROM: the index is found in the upper-case text and used in the other.\<close>

lemma select_may_panic:
  "fst (handle_influx_query (sample_influx_lib\<lparr>il_upper := (\<lambda>_. ''SELECT '' @ map char_of [206, 153, 204, 136, 204, 129 :: nat] @ '' FROM A'')\<rparr>)
     ''db'' (''select '' @ map char_of [206, 144 :: nat] @ '' from a'') []) = None"
  by code_simp

theorem influx_roundtrip_witness:
  "parse_line_protocol sample_influx_lib (print_point sample_influx_lib sample_point) = Some sample_point"
  by (rule influx_roundtrip) (rule sample_point_ok)

text \<open>The printer of the program does not escape: its output for the same point is not read back.\<close>

lemma format_not_read_back:
  "point_ok sample_influx_lib sample_point \<and>
   parse_line_protocol sample_influx_lib (format_line_protocol sample_influx_lib [sample_point]) \<noteq> Some sample_point"
  by code_simp

text \<open>A double quote in a field key is taken for the start of a string: a line with one is dropped.\<close>

lemma quote_in_field_key_drops_line:
  "parse_line_protocol sample_influx_lib (''m a'' @ quote # ''b=1i 5'') = None"
  by code_simp

text \<open>
  A backslash in a string value is escaped by a second one, which the parser steps over when it
  looks for the closing quote, but does not take away: the value comes back with two.
\<close>

lemma backslash_in_string_doubled:
  "map_option pt_fields (parse_line_protocol sample_influx_lib (''m s='' @ quote # ''a'' @ [backslash, backslash, quote] @ '' 5'')) =
     Some [(''s'', StringValue (''a'' @ [backslash, backslash]))]"
  by code_simp

text \<open>Not escaped, a backslash at the end of a string hides the closing quote, and the time stamp is
  read as part of the field: the line is dropped.\<close>

lemma backslash_before_quote_drops_line:
  "parse_line_protocol sample_influx_lib (''m s='' @ quote # ''a'' @ [backslash, quote] @ '' 5'') = None"
  by code_simp

definition sample_body :: string where
  "sample_body = ''cpu v=1i 5'' @ [LF] @ ''cpu v=2i 5'' @ [LF] @ ''cpu'' @ [LF] @ ''mem v=3i'' @ [LF]"

definition sample_ts :: "int \<Rightarrow> int \<Rightarrow> nat ts_point" where
  "sample_ts t v = \<lparr>ts_timestamp = t, ts_fields = [(''v'', IntegerValue v)], ts_tags = []\<rparr>"

lemma sample_parsed:
  "map snd (filter (\<lambda>e. fst e = ''cpu'')
     (stamped sample_influx_lib 0 (List.map_filter (parse_line_protocol sample_influx_lib) (split_lines [] sample_body)))) =
   [sample_ts 5 1, sample_ts 5 2]"
  by code_simp

lemma empty_measurement: "measurement_of d x [] = measurement_new"
  by (simp add: measurement_of_def get_measurement_def get_influx_database_def)

theorem influx_write_refines_witness:
  "ms_log (measurement_of ''db'' ''cpu'' (fst (handle_write sample_influx_lib ''db'' sample_body ([], 0)))) = [sample_ts 5 1, sample_ts 5 2]"
proof -
  have "length (split_lines [] sample_body) \<le> 2 ^ 64" by code_simp
  then have "\<forall>name. length (ms_points (measurement_of ''db'' name ([] :: nat influx_storage))) + length (split_lines [] sample_body) \<le> 2 ^ 64"
    unfolding empty_measurement by (simp add: measurement_new_def)
  from influx_write_refines [where L = sample_influx_lib and n = 0, OF store_inv_empty this prod.collapse [symmetric]] sample_parsed
  show ?thesis unfolding empty_measurement by (simp add: ms_log_def measurement_new_def)
qed

theorem influx_query_after_write_witness:
  "mset (ms_query sample_influx_lib None (Some 9) (measurement_of ''db'' ''my cpu''
     (fst (handle_write sample_influx_lib ''db'' (join_with [LF] (map (print_point sample_influx_lib) [sample_point, sample_point])) ([], 0))))) =
   {#fst (stamp sample_influx_lib 0 sample_point), fst (stamp sample_influx_lib 0 sample_point)#}"
proof -
  have a: "list_all (point_ok sample_influx_lib) [sample_point, sample_point]" using sample_point_ok by simp
  have b: "list_all (\<lambda>p. LF \<notin> set (print_point sample_influx_lib p)) [sample_point, sample_point]" by code_simp
  have c: "length [sample_point, sample_point] \<le> 2 ^ 64" by simp
  have d: "mset (il_point_order sample_influx_lib xs) = mset xs" for xs by (simp add: sample_influx_lib_def)
  have w: "in_window None (Some 9) (fst (stamp sample_influx_lib 0 sample_point)) \<and>
      map snd (filter (\<lambda>e. fst e = ''my cpu'') (stamped sample_influx_lib 0 [sample_point, sample_point])) =
      [fst (stamp sample_influx_lib 0 sample_point), fst (stamp sample_influx_lib 0 sample_point)]"
    by code_simp
  have times: "filter_mset (\<lambda>p :: nat ts_point. (\<forall>s. None = Some s \<longrightarrow> s \<le> ts_timestamp p) \<and> (\<forall>e. Some 9 = Some e \<longrightarrow> ts_timestamp p \<le> e)) =
      filter_mset (in_window None (Some 9))" unfolding in_window_times ..
  have q: "mset (ms_query sample_influx_lib None (Some 9) (measurement_of ''db'' ''my cpu''
       (fst (handle_write sample_influx_lib ''db'' (join_with [LF] (map (print_point sample_influx_lib) [sample_point, sample_point])) ([], 0))))) =
     filter_mset (in_window None (Some 9)) (mset (map snd (filter (\<lambda>e. fst e = ''my cpu'') (stamped sample_influx_lib 0 [sample_point, sample_point]))))"
    using influx_query_after_write [OF a b c d refl, of None "Some 9" "''db''" "''my cpu''" 0] unfolding times by (rule conjunct1)
  show ?thesis unfolding q conjunct2 [OF w] using conjunct1 [OF w] by simp
qed

end
