(* ===== verification/ConnectionTracker.thy ===== *)
theory ConnectionTracker
  imports Rust_Std
begin

section \<open>The connection tracker (harness-server/src/connection_tracker.rs)\<close>

text \<open>
  The table of live connections and the server counters. An operation that reads the clock gets the
  instant as \<open>now\<close>. Counters are \<open>u64\<close>, the number of connections and the peak \<open>u32\<close>, and
  wrap. Here each operation is one atomic step; the theory \<open>TrackerThreads\<close> splits \<open>register\<close> into
  its atomic accesses and interleaves them.
\<close>

record connection_info =
  ci_id :: nat
  ci_user :: string
  ci_host :: string
  ci_db :: "string option"
  ci_command :: string
  ci_state :: string
  ci_connected_at :: nat
  ci_current_sql :: "string option"
  ci_query_start :: "nat option"

record connection_tracker =
  ct_connections :: "(nat \<times> connection_info) list"
  ct_total_connections :: nat
  ct_active_queries :: nat
  ct_total_queries :: nat
  ct_slow_queries :: nat
  ct_peak_connections :: nat
  ct_rejected_queries :: nat
  ct_rejected_connections :: nat
  ct_startup_time :: nat

definition tracker_new :: "nat \<Rightarrow> connection_tracker" where
  "tracker_new now =
     \<lparr>ct_connections = [], ct_total_connections = 0, ct_active_queries = 0, ct_total_queries = 0,
      ct_slow_queries = 0, ct_peak_connections = 0, ct_rejected_queries = 0,
      ct_rejected_connections = 0, ct_startup_time = now\<rparr>"

definition wrap64 :: "nat \<Rightarrow> nat" where
  "wrap64 n = n mod 2 ^ 64"

definition wrap32 :: "nat \<Rightarrow> nat" where
  "wrap32 n = n mod 2 ^ 32"

definition register :: "nat \<Rightarrow> connection_tracker \<Rightarrow> nat \<Rightarrow> string \<Rightarrow> string \<Rightarrow> string \<Rightarrow> connection_tracker" where
  "register now ct conn_id user host db =
     (let info = \<lparr>ci_id = conn_id, ci_user = user, ci_host = host,
                  ci_db = (if db = [] then None else Some db), ci_command = ''Sleep'', ci_state = [],
                  ci_connected_at = now, ci_current_sql = None, ci_query_start = None\<rparr>;
          conns = AList.update conn_id info (ct_connections ct);
          current_count = wrap32 (length conns)
      in ct\<lparr>ct_connections := conns,
            ct_total_connections := wrap64 (ct_total_connections ct + 1),
            ct_peak_connections :=
              (if ct_peak_connections ct < current_count then current_count else ct_peak_connections ct)\<rparr>)"

definition unregister :: "connection_tracker \<Rightarrow> nat \<Rightarrow> connection_tracker" where
  "unregister ct i = ct\<lparr>ct_connections := AList.delete i (ct_connections ct)\<rparr>"

text \<open>\<open>get_mut\<close> on the table: the entry, if there is one, is changed in place.\<close>

definition update_info :: "connection_tracker \<Rightarrow> nat \<Rightarrow> (connection_info \<Rightarrow> connection_info) \<Rightarrow> connection_tracker" where
  "update_info ct i f =
     (case map_of (ct_connections ct) i of
        None \<Rightarrow> ct
      | Some info \<Rightarrow> ct\<lparr>ct_connections := AList.update i (f info) (ct_connections ct)\<rparr>)"

definition update_sql :: "nat \<Rightarrow> connection_tracker \<Rightarrow> nat \<Rightarrow> string option \<Rightarrow> connection_tracker" where
  "update_sql now ct i sql =
     update_info ct i (\<lambda>info. info\<lparr>ci_current_sql := sql,
       ci_command := (if sql \<noteq> None then ''Query'' else ''Sleep''),
       ci_query_start := (if sql \<noteq> None then Some now else None),
       ci_state := (if sql \<noteq> None then ''executing'' else [])\<rparr>)"

definition set_database :: "connection_tracker \<Rightarrow> nat \<Rightarrow> string \<Rightarrow> connection_tracker" where
  "set_database ct i db = update_info ct i (\<lambda>info. info\<lparr>ci_db := Some db\<rparr>)"

definition record_query :: "connection_tracker \<Rightarrow> connection_tracker" where
  "record_query ct = ct\<lparr>ct_total_queries := wrap64 (ct_total_queries ct + 1)\<rparr>"

definition query_start :: "connection_tracker \<Rightarrow> connection_tracker" where
  "query_start ct = ct\<lparr>ct_active_queries := wrap64 (ct_active_queries ct + 1)\<rparr>"

definition query_end :: "connection_tracker \<Rightarrow> connection_tracker" where
  "query_end ct = ct\<lparr>ct_active_queries := wrap64 (ct_active_queries ct + 2 ^ 64 - 1)\<rparr>"

definition record_slow_query :: "connection_tracker \<Rightarrow> connection_tracker" where
  "record_slow_query ct = ct\<lparr>ct_slow_queries := wrap64 (ct_slow_queries ct + 1)\<rparr>"

definition record_rejected_query :: "connection_tracker \<Rightarrow> connection_tracker" where
  "record_rejected_query ct = ct\<lparr>ct_rejected_queries := wrap64 (ct_rejected_queries ct + 1)\<rparr>"

definition record_rejected_connection :: "connection_tracker \<Rightarrow> connection_tracker" where
  "record_rejected_connection ct = ct\<lparr>ct_rejected_connections := wrap64 (ct_rejected_connections ct + 1)\<rparr>"

definition kill :: "connection_tracker \<Rightarrow> nat \<Rightarrow> bool \<times> connection_tracker" where
  "kill ct i =
     (case map_of (ct_connections ct) i of
        Some info \<Rightarrow> (True, update_info ct i (\<lambda>info. info\<lparr>ci_command := ''Killed''\<rparr>))
      | None \<Rightarrow> (False, ct))"

definition tracker_list :: "connection_tracker \<Rightarrow> connection_info list" where
  "tracker_list ct = map snd (ct_connections ct)"

definition uptime_seconds :: "nat \<Rightarrow> connection_tracker \<Rightarrow> nat" where
  "uptime_seconds now ct = (now - ct_startup_time ct) div nanos_per_sec"

definition active_connections :: "connection_tracker \<Rightarrow> nat" where
  "active_connections ct = wrap32 (length (ct_connections ct))"

subsection \<open>The invariant\<close>

definition tracker_inv :: "connection_tracker \<Rightarrow> bool" where
  "tracker_inv ct \<longleftrightarrow> wf_alist (ct_connections ct) \<and> (\<forall>(i, info) \<in> set (ct_connections ct). ci_id info = i) \<and>
     length (ct_connections ct) \<le> ct_peak_connections ct"

datatype tracker_op =
    Register nat nat string string string
  | Unregister nat
  | UpdateSql nat nat "string option"
  | SetDatabase nat string
  | RecordQuery | QueryStart | QueryEnd | RecordSlow | RejectQuery | RejectConnection
  | Kill nat

fun tracker_step :: "connection_tracker \<Rightarrow> tracker_op \<Rightarrow> connection_tracker" where
  "tracker_step ct (Register now i user host db) = register now ct i user host db"
| "tracker_step ct (Unregister i) = unregister ct i"
| "tracker_step ct (UpdateSql now i sql) = update_sql now ct i sql"
| "tracker_step ct (SetDatabase i db) = set_database ct i db"
| "tracker_step ct RecordQuery = record_query ct"
| "tracker_step ct QueryStart = query_start ct"
| "tracker_step ct QueryEnd = query_end ct"
| "tracker_step ct RecordSlow = record_slow_query ct"
| "tracker_step ct RejectQuery = record_rejected_query ct"
| "tracker_step ct RejectConnection = record_rejected_connection ct"
| "tracker_step ct (Kill i) = snd (kill ct i)"

lemma length_alist_update:
  "length (AList.update k v al) = (if k \<in> fst ` set al then length al else Suc (length al))"
  by (induction al) auto

lemma length_alist_delete: "length (AList.delete k al) \<le> length al"
  by (simp add: AList.delete_eq)

lemma tracker_inv_new: "tracker_inv (tracker_new now)"
  by (simp add: tracker_inv_def tracker_new_def)

lemma tracker_inv_register:
  assumes "tracker_inv ct" and "length (ct_connections ct) + 1 < 2 ^ 32"
  shows "tracker_inv (register now ct i user host db)"
proof -
  have "length (AList.update i info (ct_connections ct)) < 2 ^ 32" for info
    using assms(2) by (simp add: length_alist_update)
  then have "wrap32 (length (AList.update i info (ct_connections ct))) = length (AList.update i info (ct_connections ct))" for info
    by (simp add: wrap32_def)
  with assms(1) show ?thesis
    using set_alist_update [of i _ "ct_connections ct"] by (fastforce simp: tracker_inv_def register_def Let_def)
qed

lemma tracker_inv_unregister: "tracker_inv ct \<Longrightarrow> tracker_inv (unregister ct i)"
  using set_alist_delete [of i "ct_connections ct"] length_alist_delete [of i "ct_connections ct"]
  by (auto simp: tracker_inv_def unregister_def)

lemma tracker_inv_update_info:
  assumes "tracker_inv ct" and "\<And>info. ci_id (f info) = ci_id info"
  shows "tracker_inv (update_info ct i f)"
proof (cases "map_of (ct_connections ct) i")
  case (Some info)
  then have mem: "(i, info) \<in> set (ct_connections ct)" by (rule map_of_SomeD)
  then have "ci_id info = i" "i \<in> fst ` set (ct_connections ct)" using assms(1) by (force simp: tracker_inv_def)+
  with assms Some show ?thesis
    using set_alist_update [of i "f info" "ct_connections ct"]
    by (auto simp: tracker_inv_def update_info_def length_alist_update)
qed (simp add: update_info_def assms(1))

lemma tracker_inv_step:
  assumes "tracker_inv ct" and "length (ct_connections ct) + 1 < 2 ^ 32"
  shows "tracker_inv (tracker_step ct op)"
  using assms
  by (cases op) (auto simp: tracker_inv_register tracker_inv_unregister update_sql_def set_database_def kill_def
      tracker_inv_update_info split: option.splits,
      auto simp: tracker_inv_def record_query_def query_start_def query_end_def record_slow_query_def
        record_rejected_query_def record_rejected_connection_def)

lemma length_connections_step:
  "length (ct_connections (tracker_step ct op)) \<le> length (ct_connections ct) + 1"
  by (cases op) (auto simp: register_def Let_def unregister_def update_sql_def set_database_def kill_def update_info_def
      length_alist_update intro: le_SucI length_alist_delete record_query_def split: option.splits dest: map_of_SomeD,
      auto simp: record_query_def query_start_def query_end_def record_slow_query_def record_rejected_query_def
        record_rejected_connection_def)

text \<open>
  After any sequence of fewer than \<open>2^32 - 1\<close> operations the tracker lists every connection
  once, under its own identifier, and the peak is at least the number of live connections.
\<close>

theorem tracker_peak:
  assumes "length ops + 1 < 2 ^ 32"
  shows "tracker_inv (foldl tracker_step (tracker_new now) ops) \<and>
    active_connections (foldl tracker_step (tracker_new now) ops)
      \<le> ct_peak_connections (foldl tracker_step (tracker_new now) ops)"
proof -
  have "tracker_inv (foldl tracker_step ct ops) \<and>
      length (ct_connections (foldl tracker_step ct ops)) \<le> length (ct_connections ct) + length ops"
    if "tracker_inv ct" "length (ct_connections ct) + length ops + 1 < 2 ^ 32" for ct
    using that
  proof (induction ops arbitrary: ct)
    case (Cons op ops)
    from Cons.prems have "tracker_inv (tracker_step ct op)" by (intro tracker_inv_step) auto
    moreover note len = length_connections_step [of ct op]
    ultimately show ?case using Cons.IH [of "tracker_step ct op"] Cons.prems(2) by auto
  qed simp
  from this [of "tracker_new now"] assms tracker_inv_new [of now]
  have inv: "tracker_inv (foldl tracker_step (tracker_new now) ops)"
    and len: "length (ct_connections (foldl tracker_step (tracker_new now) ops)) \<le> length ops"
    by (auto simp: tracker_new_def)
  moreover have "active_connections (foldl tracker_step (tracker_new now) ops) \<le> length (ct_connections (foldl tracker_step (tracker_new now) ops))"
    by (simp add: active_connections_def wrap32_def)
  ultimately show ?thesis by (auto simp: tracker_inv_def)
qed

theorem tracker_peak_witness:
  "active_connections (foldl tracker_step (tracker_new 0) [Register 1 7 ''root'' ''h'' [], Unregister 7])
     \<le> ct_peak_connections (foldl tracker_step (tracker_new 0) [Register 1 7 ''root'' ''h'' [], Unregister 7])"
  using tracker_peak [of "[Register 1 7 ''root'' ''h'' [], Unregister 7]" 0] by simp

end
