(* ===== verification/TrackerThreads.thy ===== *)
theory TrackerThreads
  imports ConnectionTracker
begin

section \<open>The connection tracker under concurrency (harness-server/src/connection_tracker.rs)\<close>

text \<open>
  Many connection tasks call \<open>register\<close> and \<open>unregister\<close> on one tracker. The table is behind a lock,
  but the counter and the peak are atomics touched after the lock is released. A thread here is the
  program point of one such call; \<open>thread_step\<close> does one atomic access of one thread, in any order.
  The compare-exchange is the weak one: it may fail although the value is the expected one.
  The atomics are sequentially consistent here: a relaxed load of the code could also see an older
  peak, which costs a failing exchange and nothing else, since the peak only grows. The gauge of
  the metrics package that both calls set is left out.
\<close>

datatype thread =
    Registering nat nat string string string
  | Counting nat
  | Loading nat
  | Looping nat nat
  | Registered nat
  | Unregistering nat
  | Unregistered

text \<open>The part of \<open>register\<close> under the lock, with the count of connections it reads there.\<close>

definition register_insert :: "nat \<Rightarrow> connection_tracker \<Rightarrow> nat \<Rightarrow> string \<Rightarrow> string \<Rightarrow> string \<Rightarrow> nat \<times> connection_tracker" where
  "register_insert now ct conn_id user host db =
     (let info = \<lparr>ci_id = conn_id, ci_user = user, ci_host = host,
                  ci_db = (if db = [] then None else Some db), ci_command = ''Sleep'', ci_state = [],
                  ci_connected_at = now, ci_current_sql = None, ci_query_start = None\<rparr>;
          conns = AList.update conn_id info (ct_connections ct)
      in (wrap32 (length conns), ct\<lparr>ct_connections := conns\<rparr>))"

inductive thread_step :: "connection_tracker \<Rightarrow> thread \<Rightarrow> connection_tracker \<Rightarrow> thread \<Rightarrow> bool" where
  insert: "register_insert now ct i user host db = (c, ct') \<Longrightarrow>
     thread_step ct (Registering now i user host db) ct' (Counting c)"
| fetch_add: "thread_step ct (Counting c)
     (ct\<lparr>ct_total_connections := wrap64 (ct_total_connections ct + 1)\<rparr>) (Loading c)"
| load: "thread_step ct (Loading c) ct (Looping c (ct_peak_connections ct))"
| leave: "\<not> peak < c \<Longrightarrow> thread_step ct (Looping c peak) ct (Registered c)"
| cas_ok: "peak < c \<Longrightarrow> ct_peak_connections ct = peak \<Longrightarrow>
     thread_step ct (Looping c peak) (ct\<lparr>ct_peak_connections := c\<rparr>) (Registered c)"
| cas_fail: "peak < c \<Longrightarrow> thread_step ct (Looping c peak) ct (Looping c (ct_peak_connections ct))"
| remove: "thread_step ct (Unregistering i) (unregister ct i) Unregistered"

inductive_cases thread_stepE: "thread_step ct t ct' t'"

inductive tracker_threads :: "connection_tracker \<times> thread list \<Rightarrow> connection_tracker \<times> thread list \<Rightarrow> bool" where
  turn: "i < length ts \<Longrightarrow> thread_step ct (ts ! i) ct' t' \<Longrightarrow> tracker_threads (ct, ts) (ct', ts[i := t'])"

fun starting :: "thread \<Rightarrow> bool" where
  "starting (Registering now i user host db) = True"
| "starting (Unregistering i) = True"
| "starting _ = False"

fun finished :: "thread \<Rightarrow> bool" where
  "finished (Registered c) = True"
| "finished Unregistered = True"
| "finished _ = False"

subsection \<open>Alone, a thread does what the atomic operation does\<close>

lemma step_into: "i < length ts \<Longrightarrow> thread_step ct (ts ! i) ct' t' \<Longrightarrow> ts' = ts[i := t'] \<Longrightarrow>
    tracker_threads (ct, ts) (ct', ts')"
  by (simp add: turn)

lemma thread_alone_lift:
  assumes "rtranclp (\<lambda>(c, t) (c', t'). thread_step c t c' t') (ct, t) (ct', t')"
    and "i < length ts" and "ts ! i = t"
  shows "rtranclp tracker_threads (ct, ts) (ct', ts[i := t'])"
  using assms
proof (induction rule: rtranclp_induct2)
  case refl
  then have "ts[i := t] = ts" by auto
  then show ?case by simp
next
  case (step ct1 t1 ct2 t2)
  then have "tracker_threads (ct1, ts[i := t1]) (ct2, ts[i := t2])"
    by (intro step_into [where i = i and t' = t2]) auto
  with step show ?case by (auto intro: rtranclp.rtrancl_into_rtrancl)
qed

abbreviation alone :: "connection_tracker \<times> thread \<Rightarrow> connection_tracker \<times> thread \<Rightarrow> bool" where
  "alone \<equiv> rtranclp (\<lambda>(c, t) (c', t'). thread_step c t c' t')"

lemma alone_step: "thread_step c t c' t' \<Longrightarrow> alone (c', t') r \<Longrightarrow> alone (c, t) r"
  by (rule converse_rtranclp_into_rtranclp [where b = "(c', t')"]) auto

lemma looping_alone:
  "alone (ct, Looping c (ct_peak_connections ct))
     (ct\<lparr>ct_peak_connections := (if ct_peak_connections ct < c then c else ct_peak_connections ct)\<rparr>, Registered c)"
proof (cases "ct_peak_connections ct < c")
  case True
  then show ?thesis by (auto intro: alone_step [OF cas_ok [OF True refl]])
next
  case False
  then show ?thesis by (auto intro: alone_step [OF leave [OF False]])
qed

lemma register_insert_register:
  assumes "register_insert now ct i user host db = (c, ct1)"
    and "ct2 = ct1\<lparr>ct_total_connections := wrap64 (ct_total_connections ct1 + 1)\<rparr>"
  shows "register now ct i user host db =
      ct2\<lparr>ct_peak_connections := (if ct_peak_connections ct2 < c then c else ct_peak_connections ct2)\<rparr>"
  using assms by (auto simp: register_insert_def register_def Let_def)

lemma register_alone:
  "\<exists>c. alone (ct, Registering now i user host db) (register now ct i user host db, Registered c)"
proof -
  obtain c ct1 where ins: "register_insert now ct i user host db = (c, ct1)" by fastforce
  define ct2 where "ct2 = ct1\<lparr>ct_total_connections := wrap64 (ct_total_connections ct1 + 1)\<rparr>"
  from register_insert_register [OF ins ct2_def] show ?thesis
    using alone_step [OF insert [OF ins] alone_step [OF fetch_add [of ct1 c, folded ct2_def] alone_step [OF load looping_alone]]]
    by metis
qed

lemma thread_can_finish:
  "\<exists>ct' t'. alone (ct, t) (ct', t') \<and> finished t'"
proof (cases t)
  case (Looping c p)
  show ?thesis
  proof (cases "p < c")
    case True
    then show ?thesis using alone_step [OF cas_fail looping_alone] Looping by fastforce
  next
    case False
    then show ?thesis using alone_step [OF leave] Looping by fastforce
  qed
next
  case (Registering now i user host db)
  then show ?thesis using register_alone by fastforce
next
  case (Counting c)
  then show ?thesis using alone_step [OF fetch_add alone_step [OF load looping_alone]] by fastforce
next
  case (Loading c)
  then show ?thesis using alone_step [OF load looping_alone] by fastforce
next
  case (Unregistering i)
  then show ?thesis using alone_step [OF remove] by fastforce
qed (auto intro!: exI [where x = ct])

text \<open>Every run of a call with no other thread, up to the point it is at.\<close>

fun alone_at :: "nat \<Rightarrow> connection_tracker \<Rightarrow> nat \<Rightarrow> string \<Rightarrow> string \<Rightarrow> string \<Rightarrow> connection_tracker \<Rightarrow> thread \<Rightarrow> bool" where
  "alone_at now ct i user host db ct' (Counting c) = (register_insert now ct i user host db = (c, ct'))"
| "alone_at now ct i user host db ct' (Registered c) = (ct' = register now ct i user host db)"
| "alone_at now ct i user host db ct' (Unregistering k) = False"
| "alone_at now ct i user host db ct' Unregistered = False"
| "alone_at now ct i user host db ct' (Registering now' i' user' host' db') =
     (ct' = ct \<and> now' = now \<and> i' = i \<and> user' = user \<and> host' = host \<and> db' = db)"
| "alone_at now ct i user host db ct' (Looping c p) =
     (p = ct_peak_connections ct' \<and>
      register now ct i user host db = ct'\<lparr>ct_peak_connections := (if p < c then c else p)\<rparr>)"
| "alone_at now ct i user host db ct' (Loading c) =
     (register now ct i user host db =
        ct'\<lparr>ct_peak_connections := (if ct_peak_connections ct' < c then c else ct_peak_connections ct')\<rparr>)"

lemma alone_at_step:
  assumes "thread_step ct1 t1 ct2 t2" and "alone_at now ct i user host db ct1 t1"
  shows "alone_at now ct i user host db ct2 t2"
  using assms
proof (cases rule: thread_step.cases)
  case (fetch_add c)
  with assms(2) show ?thesis by (simp add: register_insert_register)
qed (use assms(2) in auto)

lemma alone_at_reachable:
  assumes "rtranclp tracker_threads (ct, [Registering now i user host db]) s"
  shows "\<exists>ct' t. s = (ct', [t]) \<and> alone_at now ct i user host db ct' t"
  using assms
proof (induction rule: rtranclp_induct)
  case (step s s')
  then obtain ct1 t1 where s: "s = (ct1, [t1])" "alone_at now ct i user host db ct1 t1" by blast
  from step(2) show ?case unfolding s(1)
    by (cases rule: tracker_threads.cases) (use alone_at_step [OF _ s(2)] in auto)
qed simp

subsection \<open>What holds under every interleaving\<close>

fun waiting :: "thread \<Rightarrow> nat option" where
  "waiting (Counting c) = Some c"
| "waiting (Loading c) = Some c"
| "waiting (Looping c peak) = Some c"
| "waiting _ = None"

fun counted :: "thread \<Rightarrow> bool" where
  "counted (Loading c) = True"
| "counted (Looping c peak) = True"
| "counted (Registered c) = True"
| "counted _ = False"

fun to_insert :: "thread \<Rightarrow> bool" where
  "to_insert (Registering now i user host db) = True"
| "to_insert _ = False"

text \<open>The table is covered: the peak is no less than its size, or a thread that is still to publish its
  count is. This is what makes the late update of the peak correct.\<close>

definition covered :: "thread list \<Rightarrow> nat \<Rightarrow> nat \<Rightarrow> bool" where
  "covered ts n peak \<longleftrightarrow> n \<le> peak \<or> (\<exists>t \<in> set ts. \<exists>c. waiting t = Some c \<and> n \<le> c)"

definition threads_inv :: "connection_tracker \<times> thread list \<Rightarrow> bool" where
  "threads_inv = (\<lambda>(ct, ts).
     length (ct_connections ct) + length (filter to_insert ts) \<le> length ts \<and>
     covered ts (length (ct_connections ct)) (ct_peak_connections ct) \<and>
     (\<forall>c. Registered c \<in> set ts \<longrightarrow> c \<le> ct_peak_connections ct) \<and>
     (\<forall>c peak. Looping c peak \<in> set ts \<longrightarrow> peak \<le> ct_peak_connections ct) \<and>
     (ct_peak_connections ct = 0 \<or> Registered (ct_peak_connections ct) \<in> set ts) \<and>
     ct_total_connections ct = length (filter counted ts))"

lemma length_filter_update:
  "i < length xs \<Longrightarrow>
     length (filter P (xs[i := x])) + of_bool (P (xs ! i)) = length (filter P xs) + of_bool (P x)"
  by (induction xs arbitrary: i) (fastforce split: nat.splits)+

lemma set_update_other: "i < length xs \<Longrightarrow> x \<in> set xs \<Longrightarrow> x \<noteq> xs ! i \<Longrightarrow> x \<in> set (xs[i := y])"
  by (metis in_set_conv_nth length_list_update nth_list_update_neq)

lemma set_update_cases: "y \<in> set (xs[i := x]) \<Longrightarrow> y = x \<or> y \<in> set xs"
  using set_update_subset_insert by fastforce

lemma threads_inv_start:
  assumes "\<forall>t \<in> set ts. starting t"
  shows "threads_inv (tracker_new now, ts)"
proof -
  have "\<not> counted t" "t \<noteq> Registered c" "t \<noteq> Looping c p" if "t \<in> set ts" for t c p
    using assms that by (cases t; fastforce)+
  then show ?thesis by (fastforce simp: threads_inv_def covered_def tracker_new_def filter_empty_conv)
qed

lemma register_insert_count:
  assumes "register_insert now ct i user host db = (c, ct')" and "length (ct_connections ct) + 1 < 2 ^ 32"
  shows "c = length (ct_connections ct')" and "length (ct_connections ct') \<le> length (ct_connections ct) + 1"
    and "ct_peak_connections ct' = ct_peak_connections ct" and "ct_total_connections ct' = ct_total_connections ct"
  using assms by (auto simp: register_insert_def Let_def wrap32_def length_alist_update)

lemma covered_step:
  assumes "covered ts n p" and "i < length ts" and "n' \<le> n" and "p \<le> p'"
    and "\<And>c. waiting (ts ! i) = Some c \<Longrightarrow> waiting t' = Some c \<or> c \<le> p'"
  shows "covered (ts[i := t']) n' p'"
proof (cases "n' \<le> p'")
  case False
  with assms(1,3,4) obtain t c where t: "t \<in> set ts" "waiting t = Some c" "n \<le> c" by (auto simp: covered_def)
  show ?thesis
  proof (cases "t = ts ! i")
    case True
    then have "waiting t' = Some c" using t assms(3,5) False by fastforce
    then show ?thesis using t assms(2,3) set_update_memI [of i ts t'] by (fastforce simp: covered_def)
  next
    case False
    then show ?thesis using set_update_other [OF assms(2) t(1)] t assms(3) by (fastforce simp: covered_def)
  qed
qed (simp add: covered_def)

lemma threads_inv_turn:
  assumes inv: "threads_inv (ct, ts)" and i: "i < length ts" and run: "\<not> finished (ts ! i)"
    and cov: "covered (ts[i := t']) (length (ct_connections ct')) (ct_peak_connections ct')"
    and mono: "ct_peak_connections ct \<le> ct_peak_connections ct'"
    and reg: "\<And>c. t' = Registered c \<Longrightarrow> c \<le> ct_peak_connections ct'"
    and loop: "\<And>c q. t' = Looping c q \<Longrightarrow> q \<le> ct_peak_connections ct'"
    and top: "ct_peak_connections ct' = ct_peak_connections ct \<or> t' = Registered (ct_peak_connections ct')"
    and size: "length (ct_connections ct') + of_bool (to_insert t') \<le> length (ct_connections ct) + of_bool (to_insert (ts ! i))"
    and total: "ct_total_connections ct' + of_bool (counted (ts ! i)) = ct_total_connections ct + of_bool (counted t')"
  shows "threads_inv (ct', ts[i := t'])"
proof -
  have old: "t = t' \<or> t \<in> set ts" if "t \<in> set (ts[i := t'])" for t
    using set_update_cases [OF that] by auto
  have keep: "Registered c \<in> set (ts[i := t'])" if "Registered c \<in> set ts" for c
    using run by (intro set_update_other [OF i that]) (metis finished.simps(1))
  from inv have I: "length (ct_connections ct) + length (filter to_insert ts) \<le> length ts"
    "\<And>c. Registered c \<in> set ts \<Longrightarrow> c \<le> ct_peak_connections ct"
    "\<And>c q. Looping c q \<in> set ts \<Longrightarrow> q \<le> ct_peak_connections ct"
    "ct_peak_connections ct = 0 \<or> Registered (ct_peak_connections ct) \<in> set ts"
    "ct_total_connections ct = length (filter counted ts)"
    by (auto simp: threads_inv_def)
  have "length (ct_connections ct') + length (filter to_insert (ts[i := t'])) \<le> length ts"
    using I(1) size length_filter_update [OF i, of to_insert t'] by linarith
  moreover have "ct_total_connections ct' = length (filter counted (ts[i := t']))"
    using I(5) total length_filter_update [OF i, of counted t'] by linarith
  moreover have "c \<le> ct_peak_connections ct'" if "Registered c \<in> set (ts[i := t'])" for c
    using old [OF that] reg I(2) mono order_trans by blast
  moreover have "q \<le> ct_peak_connections ct'" if "Looping c q \<in> set (ts[i := t'])" for c q
    using old [OF that] loop I(3) mono order_trans by blast
  moreover have "ct_peak_connections ct' = 0 \<or> Registered (ct_peak_connections ct') \<in> set (ts[i := t'])"
    using top I(4) keep set_update_memI [OF i, of t'] by metis
  ultimately show ?thesis using cov by (simp add: threads_inv_def)
qed

lemma threads_inv_step:
  assumes "tracker_threads s s'" and "threads_inv s" and "length (snd s) < 2 ^ 32"
  shows "threads_inv s' \<and> length (snd s') = length (snd s)"
  using assms
proof (induction rule: tracker_threads.induct)
  case (turn i ts ct ct' t')
  define n where "n = length (ct_connections ct)"
  define p where "p = ct_peak_connections ct"
  from turn(3) have size: "n + length (filter to_insert ts) \<le> length ts"
    and cnt: "ct_total_connections ct = length (filter counted ts)" and cover: "covered ts n p"
    and loop: "\<And>c q. Looping c q \<in> set ts \<Longrightarrow> q \<le> p"
    unfolding n_def p_def threads_inv_def by auto
  have total: "ct_total_connections ct < 2 ^ 32"
    using le_less_trans [OF length_filter_le [of counted ts]] turn(4) cnt by simp
  note cov = covered_step [OF cover turn(1)] and inv = threads_inv_turn [OF turn(3) turn(1)]
  have self: "t' \<in> set (ts[i := t'])" "ts ! i \<in> set ts" using turn(1) by (auto simp: set_update_memI)
  from turn(2) have "threads_inv (ct', ts[i := t'])"
  proof (cases rule: thread_step.cases)
    case (insert now k user host db c)
    have "to_insert (ts ! i)" by (simp add: insert(1))
    with self(2) have "0 < length (filter to_insert ts)" by (auto simp: filter_empty_conv)
    with size turn(4) have "n + 1 < 2 ^ 32" unfolding snd_conv by linarith
    note ri = register_insert_count [OF insert(3) this [unfolded n_def]]
    have "waiting t' = Some c" using insert(2) by simp
    with self(1) have "covered (ts[i := t']) c p" by (metis covered_def order_refl)
    with ri show ?thesis by (intro inv) (auto simp: insert(1,2) p_def)
  next
    case (fetch_add c)
    then have "covered (ts[i := t']) n p" by (intro cov) auto
    with fetch_add total show ?thesis by (intro inv) (auto simp: n_def p_def wrap64_def)
  next
    case (load c)
    then have "covered (ts[i := t']) n p" by (intro cov) auto
    with load show ?thesis by (intro inv) (auto simp: n_def p_def)
  next
    case (leave peak c)
    with loop [of c peak] self(2) have "c \<le> p" by auto
    with leave have "covered (ts[i := t']) n p" by (intro cov) auto
    with leave \<open>c \<le> p\<close> show ?thesis by (intro inv) (auto simp: n_def p_def)
  next
    case (cas_ok peak c)
    then have "covered (ts[i := t']) n c" by (intro cov) (auto simp: p_def)
    with cas_ok show ?thesis by (intro inv) (auto simp: n_def p_def)
  next
    case (cas_fail peak c)
    then have "covered (ts[i := t']) n p" by (intro cov) auto
    with cas_fail show ?thesis by (intro inv) (auto simp: n_def p_def)
  next
    case (remove k)
    have "length (AList.delete k (ct_connections ct)) \<le> n" by (simp add: n_def length_alist_delete)
    moreover from this remove have "covered (ts[i := t']) (length (AList.delete k (ct_connections ct))) p"
      by (intro cov) auto
    ultimately show ?thesis using remove by (intro inv) (auto simp: unregister_def n_def p_def)
  qed
  then show ?case by simp
qed

lemma threads_inv_reachable:
  assumes "rtranclp tracker_threads (tracker_new now, ts) s" and "\<forall>t \<in> set ts. starting t" and "length ts < 2 ^ 32"
  shows "threads_inv s \<and> length (snd s) = length ts"
  using assms(1)
proof (induction rule: rtranclp_induct)
  case base
  then show ?case using threads_inv_start [OF assms(2)] by simp
next
  case (step s s')
  then show ?case using threads_inv_step [of s s'] assms(3) by simp
qed

text \<open>
  C26. However the calls of \<open>register\<close> and \<open>unregister\<close> of fewer than \<open>2^32\<close> threads interleave, and
  however often a compare-exchange fails: once all have returned the peak is no less than the number
  of live connections and than the count any call saw, it is the count one of them saw (or 0), and
  no call is missing in the total.
\<close>

theorem peak_interleaved:
  assumes "rtranclp tracker_threads (tracker_new now, ts) (ct, ts')"
    and "\<forall>t \<in> set ts. starting t" and "length ts < 2 ^ 32" and "\<forall>t \<in> set ts'. finished t"
  shows "length (ct_connections ct) \<le> ct_peak_connections ct \<and>
    (\<forall>c. Registered c \<in> set ts' \<longrightarrow> c \<le> ct_peak_connections ct) \<and>
    (ct_peak_connections ct = 0 \<or> Registered (ct_peak_connections ct) \<in> set ts') \<and>
    ct_total_connections ct = length (filter (\<lambda>t. t \<noteq> Unregistered) ts')"
proof -
  have "waiting t = None" "counted t \<longleftrightarrow> t \<noteq> Unregistered" if "t \<in> set ts'" for t
    using assms(4) that by (cases t; fastforce)+
  then have "filter counted ts' = filter (\<lambda>t. t \<noteq> Unregistered) ts'" "\<forall>t \<in> set ts'. waiting t = None"
    by (auto cong: filter_cong)
  moreover have "threads_inv (ct, ts')" using threads_inv_reachable [OF assms(1-3)] by simp
  ultimately show ?thesis by (auto simp: threads_inv_def covered_def)
qed

theorem peak_interleaved_witness:
  "\<exists>ct c. rtranclp tracker_threads (tracker_new 0, [Registering 1 7 ''root'' ''h'' []]) (ct, [Registered c]) \<and>
     c \<le> ct_peak_connections ct"
proof -
  obtain c where "alone (tracker_new 0, Registering 1 7 ''root'' ''h'' []) (register 1 (tracker_new 0) 7 ''root'' ''h'' [], Registered c)"
    using register_alone by blast
  then have "rtranclp tracker_threads (tracker_new 0, [Registering 1 7 ''root'' ''h'' []])
      (register 1 (tracker_new 0) 7 ''root'' ''h'' [], [Registered c])"
    using thread_alone_lift [where i = 0 and ts = "[Registering 1 7 ''root'' ''h'' []]"] by fastforce
  with peak_interleaved [OF this] show ?thesis by fastforce
qed

text \<open>
  C27. No call blocks another for good: from every state of the threads some further accesses let
  all calls return. And a call that runs undisturbed does what the atomic \<open>register\<close> does,
  however often its compare-exchange fails: every run in which it returns ends with the tracker
  that \<open>register\<close> gives, and such a run exists.
\<close>

theorem peak_progress:
  "(\<exists>ct' ts'. rtranclp tracker_threads (ct, ts) (ct', ts') \<and> list_all finished ts') \<and>
   (\<forall>ct' t. rtranclp tracker_threads (ct, [Registering now i user host db]) (ct', [t]) \<longrightarrow> finished t \<longrightarrow>
      ct' = register now ct i user host db) \<and>
   (\<exists>ct' t. rtranclp tracker_threads (ct, [Registering now i user host db]) (ct', [t]) \<and> finished t)"
proof (intro conjI allI impI)
  have "\<exists>ct' ts'. rtranclp tracker_threads (ct, ts) (ct', ts') \<and> length ts' = length ts \<and>
      (\<forall>j < k. finished (ts' ! j))" if "k \<le> length ts" for k
    using that
  proof (induction k)
    case 0
    then show ?case by blast
  next
    case (Suc k)
    then obtain ct1 ts1 where run: "rtranclp tracker_threads (ct, ts) (ct1, ts1)" "length ts1 = length ts"
      and fin: "\<forall>j < k. finished (ts1 ! j)" by auto
    obtain ct2 t where "alone (ct1, ts1 ! k) (ct2, t)" "finished t" using thread_can_finish by blast
    with run Suc.prems have "rtranclp tracker_threads (ct1, ts1) (ct2, ts1[k := t])"
      by (intro thread_alone_lift) auto
    with run fin \<open>finished t\<close> Suc.prems show ?case
      by (intro exI [of _ ct2] exI [of _ "ts1[k := t]"]) (auto simp: nth_list_update less_Suc_eq)
  qed
  from this [of "length ts"] show "\<exists>ct' ts'. rtranclp tracker_threads (ct, ts) (ct', ts') \<and> list_all finished ts'"
    by (metis list_all_length order_refl)
  show "ct' = register now ct i user host db"
    if "rtranclp tracker_threads (ct, [Registering now i user host db]) (ct', [t])" "finished t" for ct' t
    using alone_at_reachable [OF that(1)] that(2) by (cases t) auto
  show "\<exists>ct' t. rtranclp tracker_threads (ct, [Registering now i user host db]) (ct', [t]) \<and> finished t"
    using register_alone [of ct now i user host db] thread_alone_lift [where i = 0 and ts = "[Registering now i user host db]"]
    by fastforce
qed

theorem peak_progress_witness:
  "\<exists>ct t. rtranclp tracker_threads (tracker_new 0, [Registering 1 7 ''root'' ''h'' []]) (ct, [t]) \<and>
     ct_peak_connections ct = 1 \<and> ct_total_connections ct = 1"
proof -
  have "ct_peak_connections (register 1 (tracker_new 0) 7 ''root'' ''h'' []) = 1"
    "ct_total_connections (register 1 (tracker_new 0) 7 ''root'' ''h'' []) = 1" by code_simp+
  with peak_progress [of "tracker_new 0" "[]" 1 7 "''root''" "''h''" "[]"] show ?thesis by metis
qed

end
