(* ===== verification/Spec2Isabelle.thy ===== *)
theory Spec2Isabelle
  imports RedisProps RedisServer Bitmap_Correct SystemVariables_Correct EditLog_Correct
    TsqlFindings Tds_Correct Influx_Correct TrackerThreads
begin

text \<open>
  \<^bold>\<open>RorisDB, a server that speaks several database protocols.\<close> This development models the parts of
  the server that carry logic of their own and do not only call other packages: the Redis server from
  the bytes of the socket to the keyspace; the catalog with its backends, its log and its recovery; the
  T-SQL engine from the packets of a connection to the answers on the wire; the time series of the
  InfluxDB interface; and three parts that the others use, the system
  variables, the validity bitmap of columns and the tracker of connections. Paths are relative to src/.

  \<^bold>\<open>Foundations.\<close> \<open>Prelude\<close> holds the collections of facts and the generic lemmas, \<open>Rust_Std\<close> what the
  sources use of the standard library (UTF-8 validity, white space, decimal text, 64-bit arithmetic,
  the clock), \<open>Utf8\<close> the translation between characters and bytes, \<open>Bytes\<close> the integers on the wire,
  \<open>Smap\<close> sorted string maps, \<open>FileSystem\<close> files as a map from paths to contents, \<open>Errors\<close> the
  error type (crates/common/src/error.rs). Strings are lists of bytes, except in the T-SQL engine, which
  works on characters. Arithmetic wraps or panics as in the release profile, at the width of the type. What is taken
  from packages that are not in the repository (serde_json, redb, regex, chrono, uuid) and the Unicode
  and floating point functions of the standard library are arguments of the definitions, collected in
  records such as \<open>json_lib\<close>, \<open>redb\<close>, \<open>io_lib\<close>, \<open>char_lib\<close>, \<open>exec_lib\<close> and \<open>exec_env\<close>.

  \<^bold>\<open>Redis\<close> (crates/redis-protocol). \<open>Resp\<close> is the codec of resp.rs; \<open>Resp_Correct\<close> proves that it is a
  framing in the sense of the locale of \<open>Framing\<close>: values are read back, proper prefixes are reported
  incomplete and consume nothing, the measured size is the parsed size. \<open>RedisStorage\<close> is storage.rs, the
  databases with expiring entries; it meets the contract of the locale of \<open>Kv_Store\<close>. \<open>RedisHandler\<close>
  has every command of handler.rs and the dispatch; \<open>RedisInvariant\<close> shows that every command keeps the
  keyspace well formed; \<open>RedisProps\<close> what the commands answer and change. \<open>RedisConnection\<close> is the loop
  of connection.rs; a read from the socket is an element of a list of chunks. \<open>RedisServer\<close> is the server
  as a step relation over whole commands: the model runs commands one at a time, while in the program each
  operation on the storage takes its own lock, so that commands of different connections can interleave
  between their operations (\<open>incr_not_atomic\<close> shows an increment lost that way). The properties below put
  codec, handler and connection together: pipelined commands are answered in order and, as long as no
  frame is malformed and no command panics, independently of how the stream is cut into reads.

  \<^bold>\<open>Catalog\<close> (crates/be-kv, crates/fe-catalog, crates/fe-common). \<open>MetaStore\<close> and \<open>CatalogStore\<close> are the
  embedded store over the transactions of redb; \<open>CatalogTypes\<close> is the metadata; \<open>MetaBackend\<close> and
  \<open>KvBackend\<close> are the interface of a backend and its three implementations; \<open>CatalogManager\<close> is the
  manager with its writer and the replay of the log; \<open>EditLog\<close> is the log. \<open>CatalogSpec\<close> states
  an abstract schema and the contract of a backend as locales, \<open>Catalog_Correct\<close> interprets them for the
  backends and so shows that every sequence of commands answers and changes what the schema says,
  \<open>Catalog_Restart\<close> treats saving and loading, \<open>EditLog_Correct\<close> replay and numbering.

  \<^bold>\<open>T-SQL\<close> (crates/tsql-parser, crates/tsql-executor). \<open>TsqlBatch\<close> splits a text at GO. \<open>TsqlLexer\<close> is
  lexer.rs, with \<open>TsqlLexer_Correct\<close>; \<open>TsqlAst\<close> the syntax tree; \<open>TsqlMonad\<close>, \<open>TsqlParser\<close> and
  \<open>TsqlStatements\<close> are parser.rs. Its recursion runs over tokens and its loops may in principle run for
  ever, so the functions take a bound on depth and iterations that they derive from the number of
  tokens left; \<open>TsqlParser_Total\<close> proves that every loop and every cycle of calls consumes a token and the
  bound is never reached, and \<open>TsqlParser_Correct\<close> that it cannot be seen. \<open>TsqlExpr_Roundtrip\<close> and
  \<open>TsqlExpr_Cases\<close> print expressions with the parentheses that precedence needs (a column with a table
  name counts as less tight than a product, as the parser misreads a star behind it) and parse them back.
  \<open>TsqlFindings\<close> has statements that the parser misreads. \<open>TsqlTypes\<close> is types.rs, \<open>TsqlLike\<close> the LIKE
  matcher against its declarative meaning. \<open>TsqlRuntime\<close> has variables, cursors and transactions, with
  the locales \<open>isolated_state\<close> and \<open>connection_state\<close> for a store that connections share, interpreted on the
  transaction manager; \<open>TsqlEval\<close> the context, expressions and conditions; \<open>TsqlExec\<close> statements,
  system procedures and the handler of a query. Statements take a bound on the iterations of WHILE, the
  only construct that may run for ever; a larger bound gives the same result and a text without WHILE
  returns with any bound. \<open>TsqlExec_Correct\<close> proves this, with an induction over executions (the
  locale \<open>context_relation\<close>) that also shows what a query leaves alone: the tables of the catalog,
  and the transactions and the database of every other connection. \<open>Tds\<close> is the wire in front of it
  (crates/tds-protocol, crates/sybase-protocol): packets, tokens, UTF-16 text and the connection loop, which
  consumes a packet per round. \<open>Tds_Correct\<close> interprets the locale of \<open>Framing\<close> for its packets and
  shows that a session on the wire is the sequence of its queries and that the bytes of an answer determine it.

  \<^bold>\<open>InfluxDB\<close> (crates/influxdb-protocol). \<open>Influx\<close> has the line protocol of line_protocol.rs, the store
  of storage.rs, the commands of handler.rs and the routing of requests of server.rs; what the package
  url decodes is part of the request, and the order in which hash maps are iterated, the clock and the
  texts of f64 are arguments (\<open>influx_lib\<close>). \<open>Influx_Correct\<close> prints points with the escapes of the protocol
  and parses them back, shows that writing a body appends to the logs of the measurements and loses
  nothing up to 2^64 writes, and that a query gives the points of its window in order of time.

  \<^bold>\<open>Shared parts.\<close> \<open>SystemVariables\<close> is crates/fe-config/src/variables.rs, with \<open>SystemVariables_Correct\<close>;
  \<open>Bitmap\<close> is crates/types/src/bitmap.rs on 64-bit words, with \<open>Bitmap_Correct\<close> against the list of its
  bits; \<open>ConnectionTracker\<close> is harness-server/src/connection_tracker.rs, and \<open>TrackerThreads\<close> its atomic
  accesses as a step relation over all interleavings of concurrent calls, the atomics being sequentially
  consistent.

  \<^bold>\<open>Not modelled.\<close> The SQL parser of the main front end, the translators and the query execution are
  conversions of the data structures of sqlparser, DataFusion, arrow and parquet, which are not in the
  repository. The other protocols (PostgreSQL, the wire side of MySQL, ClickHouse, MaxCompute,
  MongoDB and the smaller ones) are mostly socket and HTTP I/O around small in-memory stores. Start-up,
  configuration files, metrics, audit log, backup and the web console are I/O. In the modelled parts, task
  scheduling, write errors of sockets, the depth of the call stack (the parsers recurse as deep as their
  input nests) and log output are left out, hash maps are iterated in the order of their keys unless the
  order is an argument, the selectivity estimates of stats.rs
  too, and queries of different connections are served one at a time, except in \<open>TrackerThreads\<close>.
\<close>

section \<open>Properties across components\<close>

lemma parse_usize_i64:
  assumes "parse_usize s = Some n" and "n < 16"
  shows "parse_i64 s = Some (int n)"
proof (cases s)
  case Nil
  with assms show ?thesis by (simp add: parse_usize_def parse_nat_def)
next
  case (Cons c cs)
  have small: "check_i64 (int n) = Some (int n)"
    using assms(2) by (simp add: check_i64_def in_i64_def i64_min_def i64_max_def)
  have "c \<noteq> CHR ''-''"
  proof
    assume "c = CHR ''-''"
    with assms(1) Cons show False by (simp add: parse_usize_def parse_nat_def digit_val_def)
  qed
  with assms small Cons show ?thesis
    by (auto simp: parse_usize_def parse_i64_def split: if_splits bind_splits)
qed

text \<open>
  C1. A client may pipeline: when the buffer holds the encodings of any list of commands within
  the limits of the protocol, followed by a part of a further one, the connection answers them
  one by one, in order, each on the storage the previous one left and in the database the
  previous SELECTs chose, exactly as running the handler on the list of commands.
\<close>

theorem connection_pipeline:
  assumes "\<forall>c \<in> set cs. wf_resp MAX_DEPTH c" and "wf_resp MAX_DEPTH d" and "strict_prefix tail (encode_to_bytes d)"
    and "s = serve E pw clks st (conn\<lparr>read_buf := concat (map encode_to_bytes cs) @ tail\<rparr>)"
  shows "(ended s, written s, s_storage s, db_index (s_conn s)) = exec_commands E pw clks st (db_index conn) cs"
  using serve_pipeline [OF assms(1) parse_partial [OF assms(2) order_refl assms(3)], of E pw clks st conn]
    assms(4) by (simp add: Let_def)

theorem connection_pipeline_witness:
  "ended (serve sample_ext None (\<lambda>_ _. 0) sample_storage
     (connection_new\<lparr>read_buf := concat (map encode_to_bytes [Array (request [''GET'', ''n''])]) @ []\<rparr>)) = Drained"
proof -
  have "wf_resp MAX_DEPTH (Array (request [''GET'', ''n'']))" "wf_resp MAX_DEPTH (Integer 1)" by code_simp+
  moreover have "fst (exec_commands sample_ext None (\<lambda>_ _. 0) sample_storage 0 [Array (request [''GET'', ''n''])]) = Drained"
    by code_simp
  ultimately show ?thesis
    using connection_pipeline [of "[Array (request [''GET'', ''n''])]" "Integer 1" "[]" _ sample_ext None
        "\<lambda>_ _. 0" sample_storage connection_new, OF _ _ _ refl]
    by (simp add: connection_new_def) (metis fst_conv)
qed

text \<open>
  C2. How the network cuts the stream does not matter as long as the bytes hold no malformed frame and
  no command panics: reading them in any non-empty pieces writes the same replies and ends in the same
  storage and connection state as reading them at once. (After a malformed frame the rest of the
  buffer is kept, and what is answered then depends on the cut.)
\<close>

theorem connection_segmentation:
  assumes "a \<noteq> []" and "[] \<notin> set cs"
    and "ended (serve E pw clks st (add_input (a @ concat cs) conn)) = Drained"
  shows "run E pw clks st conn (map ReadOk (a # cs) @ evs) = run E pw clks st conn (ReadOk (a @ concat cs) # evs)"
  using run_segments [OF assms] by simp

theorem connection_segmentation_witness:
  "run sample_ext None (\<lambda>_ _. 0) sample_storage connection_new (map ReadOk [''PI'', ''NG'' @ [CR], [LF]] @ []) =
   run sample_ext None (\<lambda>_ _. 0) sample_storage connection_new [ReadOk (''PI'' @ concat [''NG'' @ [CR], [LF]])]"
  by (rule connection_segmentation) code_simp+

text \<open>
  In every state the server can reach when commands run one at a time, whatever the clients send and
  however their commands are ordered: the data is typed (strings are UTF-8, the keys of every database and hash and the
  members of every set are distinct), there are as many databases as configured, and every
  connection has a database below 16 selected.
\<close>

lemma server_invariant:
  assumes "(server_step E pw)\<^sup>*\<^sup>* (server_start config) s"
  shows "wf_storage (srv_storage s) \<and> length (srv_storage s) = num_databases config
    \<and> (\<forall>c conn. srv_conns s c = Some conn \<longrightarrow> db_index conn < 16)"
  using server_reachable_inv [OF assms] by (simp add: server_inv_def)

lemma server_invariant_sample:
  "wf_storage (srv_storage ((server_start redis_server_config_default)\<lparr>srv_conns := [7 \<mapsto> connection_new]\<rparr>))"
proof -
  have "server_step sample_ext None (server_start redis_server_config_default)
      ((server_start redis_server_config_default)\<lparr>srv_conns := [7 \<mapsto> connection_new]\<rparr>)"
    using server_step.accept [of "server_start redis_server_config_default" 7 sample_ext None]
    by (simp add: server_start_def)
  then show ?thesis by (intro server_invariant [THEN conjunct1, of sample_ext None]) (rule r_into_rtranclp)
qed

text \<open>
  C3. A command works on the selected database only: unless it is FLUSHALL, every other database
  is left exactly as it was, on every path including errors and panics.
\<close>

theorem command_isolation:
  assumes "handle_command E clk pw st i cmd = (r, st')"
    and "cmd \<noteq> [] \<Longrightarrow> command_name E (hd cmd) \<noteq> Some ''FLUSHALL''"
    and "j \<noteq> i" and "j < length st"
  shows "length st' = length st \<and> st' ! j = st ! j"
proof -
  have "only_db i st st'" by (rule handle_command_only_db [OF assms(1)]) (use assms(2) in auto)
  with assms(3,4) show ?thesis by (simp add: only_db_def)
qed

theorem command_isolation_witness:
  "snd (handle_command sample_ext (\<lambda>_. 0) None sample_storage 1 (request [''FLUSHDB''])) ! 0 = sample_storage ! 0"
proof -
  have "command_name sample_ext (hd (request [''FLUSHDB''])) \<noteq> Some ''FLUSHALL''" by code_simp
  then show ?thesis
    using command_isolation [of sample_ext "\<lambda>_. 0" None sample_storage 1 "request [''FLUSHDB'']", OF surjective_pairing]
    by (simp add: sample_storage_def)
qed

text \<open>
  The connection and the handler agree on SELECT for every index the connection accepts: when
  the argument is a decimal number below 16 the connection switches to it and the reply is OK.
\<close>

theorem select_switches:
  assumes "valid_utf8 s" and "parse_usize s = Some n" and "n < 16"
  shows "select_index E (Array (request [''SELECT'', s])) idx = n \<and>
    handle_command E clk pw st i (request [''SELECT'', s]) = (Some resp_ok, st)"
proof -
  have "to_uppercase u ''SELECT'' = ''SELECT''" for u by (simp add: to_uppercase_def is_ascii_def ascii_upper_def)
  moreover have "from_utf8 ''SELECT'' = Some ''SELECT''" by code_simp
  ultimately have "select_index E (Array (request [''SELECT'', s])) idx = n"
    using assms by (simp add: select_index_def request_def select_name_def select_target_def)
  moreover have "get_arg_int (BulkString s) = Some (int n)"
    using assms parse_usize_i64 by (simp add: get_arg_int_def)
  ultimately show ?thesis using assms(3) by (simp add: dispatch cmd_select_def)
qed

theorem select_switches_witness:
  "select_index sample_ext (Array (request [''SELECT'', ''7''])) 0 = 7"
  by (rule select_switches [THEN conjunct1]) code_simp+

text \<open>
  The two parse the argument differently: for \<open>-0\<close> the handler answers OK and the connection
  stays in its database.
\<close>

theorem select_minus_zero:
  "handle_command E clk pw st i (request [''SELECT'', ''-0'']) = (Some resp_ok, st) \<and>
   select_index E (Array (request [''SELECT'', ''-0''])) idx = idx"
proof -
  have "get_arg_int (BulkString ''-0'') = Some 0" "select_target (BulkString ''-0'') = None" by code_simp+
  then have "handle_command E clk pw st i (request [''SELECT'', ''-0'']) = (Some resp_ok, st)"
    "select_index E (Array [BulkString ''SELECT'', BulkString ''-0'']) idx = idx"
    by (simp_all add: dispatch cmd_select_def select_index_def split: option.split)
  then show ?thesis by (simp add: request_def)
qed

end
